(* ===== verification/Prelude.thy ===== *)
theory Prelude
  imports Main "HOL-Library.AList"
begin

text \<open>
  Shared vocabulary of the development: the results of Go functions, the 64-bit
  arithmetic of Go's \<open>int\<close>, \<open>int64\<close> and \<open>time.Duration\<close>, Go maps, and the generic
  lemmas the component theories use.

  \<^item> A Go function that returns \<open>(T, error)\<close> returns a value of \<open>'e + 'a\<close>: \<open>Inl\<close> is the
    error, \<open>Inr\<close> the result. One that returns only \<open>error\<close> returns \<open>'e + unit\<close>.
  \<^item> A Go map is an association list with distinct keys. The order of the list stands for
    the order in which \<open>range\<close> visits the map, which Go leaves open, so no property may
    depend on it.
  \<^item> A point in time and a \<open>time.Duration\<close> are integers, counted in nanoseconds.
\<close>

named_theorems frame
  \<comment> \<open>which parts of the state an operation leaves alone\<close>

named_theorems res_simps
  \<comment> \<open>the cases of results of type \<open>'e + 'a\<close>\<close>

type_synonym go_time = int
type_synonym duration = int
type_synonym ('k, 'v) gomap = "('k \<times> 'v) list"

abbreviation second :: duration where
  "second \<equiv> 1000000000"

abbreviation minute :: duration where
  "minute \<equiv> 60000000000"

abbreviation hour :: duration where
  "hour \<equiv> 3600000000000"

section \<open>Results\<close>

definition is_ok :: "'e + 'a \<Rightarrow> bool" where
  "is_ok r = (case r of Inl _ \<Rightarrow> False | Inr _ \<Rightarrow> True)"

lemma is_ok_simps [simp, res_simps]: "is_ok (Inr x)" "\<not> is_ok (Inl e)"
  by (simp_all add: is_ok_def)

lemma is_ok_iff: "is_ok r \<longleftrightarrow> (\<exists>x. r = Inr x)"
  by (cases r) simp_all

lemma not_is_ok_iff: "\<not> is_ok r \<longleftrightarrow> (\<exists>e. r = Inl e)"
  by (cases r) simp_all

section \<open>Signed 64-bit arithmetic\<close>

text \<open>The value that is left in an \<open>int64\<close> after an operation with exact result \<open>x\<close>.\<close>

definition wrap64 :: "int \<Rightarrow> int" where
  "wrap64 x = (x + 2 ^ 63) mod 2 ^ 64 - 2 ^ 63"

definition fits64 :: "int \<Rightarrow> bool" where
  "fits64 x \<longleftrightarrow> - (2 ^ 63) \<le> x \<and> x < 2 ^ 63"

lemma wrap64_id [simp]: "fits64 x \<Longrightarrow> wrap64 x = x"
  by (simp add: wrap64_def fits64_def)

lemma fits64_wrap64 [simp]: "fits64 (wrap64 x)"
proof -
  have "0 \<le> (x + 2 ^ 63) mod 2 ^ 64" and "(x + 2 ^ 63) mod 2 ^ 64 < 2 ^ 64"
    by simp_all
  then show ?thesis by (simp add: wrap64_def fits64_def)
qed

text \<open>\<open>Time.Sub\<close> saturates.\<close>

definition time_sub :: "go_time \<Rightarrow> go_time \<Rightarrow> duration" where
  "time_sub a b = max (- (2 ^ 63)) (min (2 ^ 63 - 1) (a - b))"

text \<open>Go's integer division rounds towards zero.\<close>

definition quot :: "int \<Rightarrow> int \<Rightarrow> int" where
  "quot a b = sgn a * sgn b * (\<bar>a\<bar> div \<bar>b\<bar>)"

lemma quot_nonneg: "0 \<le> a \<Longrightarrow> 0 < b \<Longrightarrow> quot a b = a div b"
  by (cases "a = 0") (simp_all add: quot_def)

section \<open>Go maps\<close>

abbreviation keys :: "('k, 'v) gomap \<Rightarrow> 'k list" where
  "keys m \<equiv> map fst m"

abbreviation vals :: "('k, 'v) gomap \<Rightarrow> 'v list" where
  "vals m \<equiv> map snd m"

abbreviation wf_map :: "('k, 'v) gomap \<Rightarrow> bool" where
  "wf_map m \<equiv> distinct (keys m)"

abbreviation lookup :: "('k, 'v) gomap \<Rightarrow> 'k \<Rightarrow> 'v option" where
  "lookup m k \<equiv> map_of m k"

abbreviation put :: "'k \<Rightarrow> 'v \<Rightarrow> ('k, 'v) gomap \<Rightarrow> ('k, 'v) gomap" where
  "put k v m \<equiv> AList.update k v m"

abbreviation del :: "'k \<Rightarrow> ('k, 'v) gomap \<Rightarrow> ('k, 'v) gomap" where
  "del k m \<equiv> AList.delete k m"

lemma lookup_put [simp]: "lookup (put k v m) k' = (if k' = k then Some v else lookup m k')"
  by (simp add: update_conv')

lemma lookup_del [simp]: "lookup (del k m) k' = (if k' = k then None else lookup m k')"
  by (simp add: delete_conv')

lemma wf_map_put [intro, simp]: "wf_map m \<Longrightarrow> wf_map (put k v m)"
  by (rule distinct_update)

lemma wf_map_del [intro, simp]: "wf_map m \<Longrightarrow> wf_map (del k m)"
  by (rule distinct_delete)

lemma set_put: "x \<in> set (put k v m) \<Longrightarrow> x = (k, v) \<or> x \<in> set m"
  by (induction m) (auto split: if_splits)

lemma keys_put: "set (keys (put k v m)) = insert k (set (keys m))"
  by (induction m) auto

lemma keys_del: "set (keys (del k m)) = set (keys m) - {k}"
  by (induction m) auto

lemma lookup_in_keys: "lookup m k = Some v \<Longrightarrow> k \<in> set (keys m)"
  by (force dest: map_of_SomeD)

lemma lookup_eq_None: "lookup m k = None \<longleftrightarrow> k \<notin> set (keys m)"
  by (simp add: map_of_eq_None_iff)

lemma lookup_iff_mem: "wf_map m \<Longrightarrow> lookup m k = Some v \<longleftrightarrow> (k, v) \<in> set m"
  by auto

text \<open>The values a \<open>range\<close> loop visits are exactly the stored ones.\<close>

lemma vals_iff_lookup: "wf_map m \<Longrightarrow> v \<in> set (vals m) \<longleftrightarrow> (\<exists>k. lookup m k = Some v)"
  by (force simp: lookup_iff_mem)

section \<open>Lists\<close>

lemma count_filter_le: "length (filter P xs) \<le> length xs"
  by simp

lemma filter_disjoint_length:
  "(\<And>x. x \<in> set xs \<Longrightarrow> \<not> (P x \<and> Q x)) \<Longrightarrow>
    length (filter (\<lambda>x. P x \<or> Q x) xs) = length (filter P xs) + length (filter Q xs)"
  by (induction xs) auto

end
