(* ===== verification/Priority_Queue.thy ===== *)
theory Priority_Queue
  imports Prelude "HOL-Library.Multiset"
begin

text \<open>
  \<open>pkg/types/priority_queue.go\<close>: the priority queue of jobs, a binary heap in a slice driven by
  Go's \<open>container/heap\<close>. A queued job is a reference (a number). The mutex makes every method
  atomic, so a method is a function on the slice; \<open>Dequeue\<close> on an empty queue waits, which is
  the value \<open>None\<close>.

  The locale \<open>max_queue\<close> is the contract of a priority queue: the multiset of pairs of job and
  priority it holds, and that what comes out has the highest priority. The interpretation at
  the end shows that the heap keeps it, with the heap order and the \<open>Index\<close> fields as the
  invariant.
\<close>

section \<open>The contract\<close>

locale max_queue =
  fixes empty :: 'q
    and enq :: "'a \<Rightarrow> int \<Rightarrow> 'q \<Rightarrow> 'q"
    and deq :: "'q \<Rightarrow> ('a \<times> 'q) option"
    and contents :: "'q \<Rightarrow> ('a \<times> int) multiset"
    and invar :: "'q \<Rightarrow> bool"
  assumes contents_empty: "contents empty = {#}"
    and invar_empty: "invar empty"
    and contents_enq: "invar q \<Longrightarrow> contents (enq x p q) = add_mset (x, p) (contents q)"
    and invar_enq: "invar q \<Longrightarrow> invar (enq x p q)"
    and deq_None: "invar q \<Longrightarrow> deq q = None \<longleftrightarrow> contents q = {#}"
    and deq_Some: "invar q \<Longrightarrow> deq q = Some (x, q') \<Longrightarrow>
      \<exists>p. contents q = add_mset (x, p) (contents q') \<and> (\<forall>(y, r) \<in># contents q. r \<le> p)"
    and invar_deq: "invar q \<Longrightarrow> deq q = Some (x, q') \<Longrightarrow> invar q'"
begin

text \<open>Taking everything out, at most \<open>n\<close> times.\<close>

fun drain :: "nat \<Rightarrow> 'q \<Rightarrow> 'a list" where
  "drain 0 q = []"
| "drain (Suc n) q = (case deq q of None \<Rightarrow> [] | Some (x, q') \<Rightarrow> x # drain n q')"

lemma size_deq: "invar q \<Longrightarrow> deq q = Some (x, q') \<Longrightarrow> size (contents q) = Suc (size (contents q'))"
  using deq_Some by fastforce

text \<open>A queue is emptied in the order of the priorities.\<close>

lemma drain_sorted:
  "invar q \<Longrightarrow> size (contents q) \<le> n \<Longrightarrow>
     \<exists>ps. length ps = length (drain n q) \<and> mset (zip (drain n q) ps) = contents q
        \<and> sorted_wrt (\<ge>) ps"
proof (induction n arbitrary: q)
  case 0
  then show ?case by simp
next
  case (Suc n)
  show ?case
  proof (cases "deq q")
    case None
    with Suc.prems(1) have "contents q = {#}" by (simp add: deq_None)
    with None show ?thesis by (intro exI [where x = "[]"]) simp
  next
    case (Some r)
    obtain x q' where d: "deq q = Some (x, q')" using Some by (cases r) auto
    from deq_Some [OF Suc.prems(1) d] obtain p where
      c: "contents q = add_mset (x, p) (contents q')" and top: "\<forall>(y, s) \<in># contents q. s \<le> p" by blast
    have "size (contents q') \<le> n" using Suc.prems(2) c by simp
    with Suc.IH [OF invar_deq [OF Suc.prems(1) d]] obtain ps where
      ps: "length ps = length (drain n q')" "mset (zip (drain n q') ps) = contents q'"
          "sorted_wrt (\<ge>) ps" by blast
    have "s \<le> p" if s: "s \<in> set ps" for s
    proof -
      from s ps(1) obtain y where "(y, s) \<in> set (zip (drain n q') ps)" by (metis in_set_impl_in_set_zip2)
      with ps(2) have "(y, s) \<in># contents q'" by (metis set_mset_mset)
      with top c show ?thesis by auto
    qed
    with ps c d show ?thesis by (intro exI [where x = "p # ps"]) simp
  qed
qed

end

section \<open>The slice\<close>

type_synonym jref = nat

text \<open>\<open>JobPriority\<close>: 0 is low, 1 normal and 2 high.\<close>

definition PriorityLow :: int where "PriorityLow = 0"
definition PriorityNormal :: int where "PriorityNormal = 1"
definition PriorityHigh :: int where "PriorityHigh = 2"

record priority_job =
  pj_job :: jref
  pj_priority :: int
  pj_index :: int

type_synonym priority_queue = "priority_job list"

definition NewPriorityQueue :: priority_queue where
  "NewPriorityQueue = []"

definition pq_Len :: "priority_queue \<Rightarrow> nat" where
  "pq_Len q = length q"

definition pq_Less :: "priority_queue \<Rightarrow> nat \<Rightarrow> nat \<Rightarrow> bool" where
  "pq_Less q i j \<longleftrightarrow> pj_priority (q ! i) > pj_priority (q ! j)"

definition pq_Swap :: "nat \<Rightarrow> nat \<Rightarrow> priority_queue \<Rightarrow> priority_queue" where
  "pq_Swap i j q =
     (let a = q ! i; b = q ! j; q1 = q[i := b, j := a];
          q2 = q1[i := (q1 ! i)\<lparr>pj_index := int i\<rparr>]
      in q2[j := (q2 ! j)\<lparr>pj_index := int j\<rparr>])"

definition pq_Push :: "priority_job \<Rightarrow> priority_queue \<Rightarrow> priority_queue" where
  "pq_Push item q = q @ [item\<lparr>pj_index := int (length q)\<rparr>]"

definition pq_Pop :: "priority_queue \<Rightarrow> priority_job \<times> priority_queue" where
  "pq_Pop q = (let n = length q; item = q ! (n - 1) in (item\<lparr>pj_index := -1\<rparr>, take (n - 1) q))"

section \<open>Go's heap operations\<close>

function heap_up :: "nat \<Rightarrow> priority_queue \<Rightarrow> priority_queue" where
  "heap_up j q =
     (let i = (j - 1) div 2
      in if i = j \<or> \<not> pq_Less q j i then q else heap_up i (pq_Swap i j q))"
  by pat_completeness auto
termination
  by (relation "measure (\<lambda>(j, q). j)") auto

function heap_down :: "nat \<Rightarrow> nat \<Rightarrow> priority_queue \<Rightarrow> priority_queue" where
  "heap_down i n q =
     (let j1 = 2 * i + 1
      in if j1 \<ge> n then q
         else let j = (if j1 + 1 < n \<and> pq_Less q (j1 + 1) j1 then j1 + 1 else j1)
              in if \<not> pq_Less q j i then q else heap_down j n (pq_Swap i j q))"
  by pat_completeness auto
termination
  by (relation "measure (\<lambda>(i, n, q). n - i)") (auto simp: Let_def split: if_splits)

declare heap_up.simps [simp del] heap_down.simps [simp del]

definition heap_Push :: "priority_job \<Rightarrow> priority_queue \<Rightarrow> priority_queue" where
  "heap_Push item q = (let q1 = pq_Push item q in heap_up (pq_Len q1 - 1) q1)"

definition heap_Pop :: "priority_queue \<Rightarrow> priority_job \<times> priority_queue" where
  "heap_Pop q = (let n = pq_Len q - 1 in pq_Pop (heap_down 0 n (pq_Swap 0 n q)))"

section \<open>The methods\<close>

definition Enqueue :: "jref \<Rightarrow> int \<Rightarrow> priority_queue \<Rightarrow> priority_queue" where
  "Enqueue job priority q = heap_Push \<lparr>pj_job = job, pj_priority = priority, pj_index = 0\<rparr> q"

definition TryDequeue :: "priority_queue \<Rightarrow> (jref \<times> priority_queue) option" where
  "TryDequeue q =
     (if pq_Len q = 0 then None else let (item, q') = heap_Pop q in Some (pj_job item, q'))"

text \<open>\<open>Dequeue\<close> takes the same item; where \<open>TryDequeue\<close> reports that there is none it waits.\<close>

definition Dequeue :: "priority_queue \<Rightarrow> (jref \<times> priority_queue) option" where
  "Dequeue q =
     (if pq_Len q = 0 then None else let (item, q') = heap_Pop q in Some (pj_job item, q'))"

definition pq_Size :: "priority_queue \<Rightarrow> nat" where
  "pq_Size q = length q"

section \<open>The heap order\<close>

definition prio :: "priority_queue \<Rightarrow> nat \<Rightarrow> int" where
  "prio q k = pj_priority (q ! k)"

definition par :: "nat \<Rightarrow> nat" where
  "par k = (k - 1) div 2"

definition heap_upto :: "(nat \<Rightarrow> int) \<Rightarrow> nat \<Rightarrow> bool" where
  "heap_upto f n \<longleftrightarrow> (\<forall>k. 0 < k \<longrightarrow> k < n \<longrightarrow> f k \<le> f (par k))"

text \<open>The heap order holds except between \<open>j\<close> and its parent, and around \<open>j\<close> regardless of it.\<close>

definition except_up :: "(nat \<Rightarrow> int) \<Rightarrow> nat \<Rightarrow> nat \<Rightarrow> bool" where
  "except_up f n j \<longleftrightarrow>
     (\<forall>k. 0 < k \<longrightarrow> k < n \<longrightarrow> k \<noteq> j \<longrightarrow> f k \<le> f (par k)) \<and>
     (\<forall>k. 0 < k \<longrightarrow> k < n \<longrightarrow> par k = j \<longrightarrow> 0 < j \<longrightarrow> f k \<le> f (par j))"

definition except_down :: "(nat \<Rightarrow> int) \<Rightarrow> nat \<Rightarrow> nat \<Rightarrow> bool" where
  "except_down f n i \<longleftrightarrow>
     (\<forall>k. 0 < k \<longrightarrow> k < n \<longrightarrow> par k \<noteq> i \<longrightarrow> f k \<le> f (par k)) \<and>
     (\<forall>k. 0 < k \<longrightarrow> k < n \<longrightarrow> par k = i \<longrightarrow> 0 < i \<longrightarrow> f k \<le> f (par i))"

definition exch :: "nat \<Rightarrow> nat \<Rightarrow> (nat \<Rightarrow> int) \<Rightarrow> nat \<Rightarrow> int" where
  "exch i j f = (\<lambda>k. if k = i then f j else if k = j then f i else f k)"

lemma par_less: "0 < k \<Longrightarrow> par k < k"
  by (auto simp: par_def)

lemma par_eq_iff: "0 < k \<Longrightarrow> par k = i \<longleftrightarrow> k = 2 * i + 1 \<or> k = 2 * i + 2"
  unfolding par_def by arith

lemma heap_root_max: "heap_upto f n \<Longrightarrow> k < n \<Longrightarrow> f k \<le> f 0"
proof (induction k rule: less_induct)
  case (less k)
  show ?case
  proof (cases "k = 0")
    case False
    then have p: "par k < k" by (simp add: par_less)
    with less have "f (par k) \<le> f 0" by simp
    moreover have "f k \<le> f (par k)" using less.prems False by (simp add: heap_upto_def)
    ultimately show ?thesis by simp
  qed simp
qed

lemma except_up_step:
  assumes "except_up f n j" "0 < j" "j < n" "f (par j) < f j"
  shows "except_up (exch (par j) j f) n (par j)"
proof -
  let ?i = "par j" and ?g = "exch (par j) j f"
  have i: "?i < j" using assms(2) by (rule par_less)
  have h: "f k \<le> f (par k)" if "0 < k" "k < n" "k \<noteq> j" for k
    using assms(1) that by (simp add: except_up_def)
  have c: "f k \<le> f ?i" if "0 < k" "k < n" "par k = j" for k
    using assms(1,2) that by (auto simp: except_up_def)
  have g: "?g k \<le> ?g (par k)" if k: "0 < k" "k < n" "k \<noteq> ?i" for k
  proof -
    have pk: "par k < k" using k(1) by (rule par_less)
    consider "k = j" | "k \<noteq> j" "par k = ?i" | "k \<noteq> j" "par k = j" | "k \<noteq> j" "par k \<noteq> ?i" "par k \<noteq> j"
      by blast
    then show ?thesis
      using k i pk assms(4) h [of k] c [of k] by cases (auto simp: exch_def)
  qed
  have p: "?g k \<le> ?g (par ?i)" if k: "0 < k" "k < n" "par k = ?i" "0 < ?i" for k
  proof -
    have "par ?i < ?i" using k(4) by (rule par_less)
    moreover have "f ?i \<le> f (par ?i)" using h [of ?i] k(4) i assms(3) by simp
    ultimately show ?thesis using h [of k] k i by (auto simp: exch_def)
  qed
  show ?thesis unfolding except_up_def using g p by blast
qed

lemma except_down_step:
  assumes "except_down f n i" "0 < j" "j < n" "par j = i" "f i < f j"
    and sib: "\<And>k. 0 < k \<Longrightarrow> k < n \<Longrightarrow> par k = i \<Longrightarrow> f k \<le> f j"
  shows "except_down (exch i j f) n j"
proof -
  let ?g = "exch i j f"
  have i: "i < j" using assms(2,4) par_less by blast
  have h: "f k \<le> f (par k)" if "0 < k" "k < n" "par k \<noteq> i" for k
    using assms(1) that by (simp add: except_down_def)
  have c: "f k \<le> f (par i)" if "0 < k" "k < n" "par k = i" "0 < i" for k
    using assms(1) that by (auto simp: except_down_def)
  have g: "?g k \<le> ?g (par k)" if k: "0 < k" "k < n" "par k \<noteq> j" for k
  proof -
    have pk: "par k < k" using k(1) by (rule par_less)
    consider "k = i" | "k = j" | "k \<noteq> i" "k \<noteq> j" "par k = i" | "k \<noteq> i" "k \<noteq> j" "par k \<noteq> i"
      by blast
    then show ?thesis
    proof cases
      case 1
      with k i assms(2-4) pk c [of j] show ?thesis by (auto simp: exch_def)
    next
      case 2
      with assms(4,5) i show ?thesis by (simp add: exch_def)
    next
      case 3
      with sib [of k] k show ?thesis by (simp add: exch_def)
    next
      case 4
      with h [of k] k show ?thesis by (simp add: exch_def)
    qed
  qed
  have p: "?g k \<le> ?g (par j)" if k: "0 < k" "k < n" "par k = j" "0 < j" for k
  proof -
    have "par k < k" using k(1) by (rule par_less)
    then have "k \<noteq> i" "k \<noteq> j" using k i by auto
    then show ?thesis using h [of k] k i assms(4) by (simp add: exch_def)
  qed
  show ?thesis unfolding except_down_def using g p by blast
qed

section \<open>The heap operations keep order, contents and indices\<close>

definition core :: "priority_job \<Rightarrow> jref \<times> int" where
  "core x = (pj_job x, pj_priority x)"

definition idx_ok :: "priority_queue \<Rightarrow> bool" where
  "idx_ok q \<longleftrightarrow> (\<forall>k < length q. pj_index (q ! k) = int k)"

lemma core_simps [simp]: "core (x\<lparr>pj_index := k\<rparr>) = core x"
  by (simp add: core_def)

lemma length_pq_Swap [simp]: "length (pq_Swap i j q) = length q"
  by (simp add: pq_Swap_def Let_def)

lemma nth_pq_Swap:
  assumes "i < length q" "j < length q" "k < length q"
  shows "pq_Swap i j q ! k =
    (if k = j then (q ! i)\<lparr>pj_index := int j\<rparr> else if k = i then (q ! j)\<lparr>pj_index := int i\<rparr> else q ! k)"
  using assms by (auto simp: pq_Swap_def Let_def nth_list_update)

lemma prio_pq_Swap:
  "i < length q \<Longrightarrow> j < length q \<Longrightarrow> k < length q \<Longrightarrow> prio (pq_Swap i j q) k = exch i j (prio q) k"
  by (auto simp: prio_def nth_pq_Swap exch_def)

lemma mset_pq_Swap:
  assumes "i < length q" "j < length q"
  shows "image_mset core (mset (pq_Swap i j q)) = image_mset core (mset q)"
proof -
  have "map core (pq_Swap i j q) = (map core q)[i := map core q ! j, j := map core q ! i]"
    using assms by (auto simp: list_eq_iff_nth_eq nth_pq_Swap nth_list_update)
  then have "mset (map core (pq_Swap i j q)) = mset (map core q)"
    using mset_swap [of j "map core q" i] assms by (simp del: mset_map add: list_update_swap)
  then show ?thesis by simp
qed

lemma idx_ok_pq_Swap: "i < length q \<Longrightarrow> j < length q \<Longrightarrow> idx_ok q \<Longrightarrow> idx_ok (pq_Swap i j q)"
  by (auto simp: idx_ok_def nth_pq_Swap)

lemma except_up_cong: "(\<And>k. k < n \<Longrightarrow> f k = g k) \<Longrightarrow> j < n \<Longrightarrow> except_up f n j = except_up g n j"
  unfolding except_up_def by (smt (verit) less_trans par_less)

lemma heap_upto_cong: "(\<And>k. k < n \<Longrightarrow> f k = g k) \<Longrightarrow> heap_upto f n = heap_upto g n"
  unfolding heap_upto_def by (smt (verit) less_trans par_less)

lemma except_down_cong: "(\<And>k. k < n \<Longrightarrow> f k = g k) \<Longrightarrow> i < n \<Longrightarrow> except_down f n i = except_down g n i"
  unfolding except_down_def by (smt (verit) less_trans par_less)

definition pq_heap :: "priority_queue \<Rightarrow> bool" where
  "pq_heap q \<longleftrightarrow> heap_upto (prio q) (length q)"

lemma heap_up_correct:
  "j < length q \<Longrightarrow> except_up (prio q) (length q) j \<Longrightarrow> idx_ok q \<Longrightarrow>
     pq_heap (heap_up j q) \<and> idx_ok (heap_up j q) \<and> length (heap_up j q) = length q
     \<and> mset (map core (heap_up j q)) = mset (map core q)"
proof (induction j q rule: heap_up.induct)
  case (1 j q)
  show ?case
  proof (cases "par j = j \<or> \<not> pq_Less q j (par j)")
    case True
    then have r: "heap_up j q = q" by (simp add: heap_up.simps [of j q] Let_def par_def)
    have "j = 0 \<or> prio q j \<le> prio q (par j)"
      using True par_less [of j] by (auto simp: pq_Less_def prio_def)
    with "1.prems"(2) have "pq_heap q" by (auto simp: pq_heap_def heap_upto_def except_up_def)
    with r "1.prems"(3) show ?thesis by simp
  next
    case False
    let ?i = "par j" and ?q = "pq_Swap (par j) j q"
    have r: "heap_up j q = heap_up ?i ?q" using False by (simp add: heap_up.simps [of j q] Let_def par_def)
    have j: "0 < j" using False by (auto simp: par_def)
    then have i: "?i < j" by (rule par_less)
    have lt: "prio q ?i < prio q j" using False by (simp add: pq_Less_def prio_def)
    have "except_up (exch ?i j (prio q)) (length q) ?i"
      using "1.prems"(2) j "1.prems"(1) lt by (rule except_up_step)
    then have e: "except_up (prio ?q) (length ?q) ?i"
      using except_up_cong [of "length q" "prio ?q" "exch ?i j (prio q)" ?i] "1.prems"(1) i
      by (simp add: prio_pq_Swap)
    have "idx_ok ?q" using "1.prems" i by (intro idx_ok_pq_Swap) simp_all
    with e False i "1.prems"(1) have
      "pq_heap (heap_up ?i ?q) \<and> idx_ok (heap_up ?i ?q) \<and> length (heap_up ?i ?q) = length ?q
        \<and> mset (map core (heap_up ?i ?q)) = mset (map core ?q)"
      by (intro "1.IH") (simp_all add: par_def)
    then show ?thesis using r i "1.prems"(1) by (simp add: mset_pq_Swap)
  qed
qed

lemma heap_down_correct:
  "i < n \<Longrightarrow> n \<le> length q \<Longrightarrow> except_down (prio q) n i \<Longrightarrow> idx_ok q \<Longrightarrow>
     heap_upto (prio (heap_down i n q)) n \<and> idx_ok (heap_down i n q)
     \<and> length (heap_down i n q) = length q \<and> mset (map core (heap_down i n q)) = mset (map core q)
     \<and> drop n (heap_down i n q) = drop n q"
proof (induction i n q rule: heap_down.induct)
  case (1 i n q)
  let ?l = "2 * i + 1"
  let ?j = "if ?l + 1 < n \<and> pq_Less q (?l + 1) ?l then ?l + 1 else ?l"
  show ?case
  proof (cases "?l < n \<and> pq_Less q ?j i")
    case False
    then have r: "heap_down i n q = q" by (auto simp: heap_down.simps [of i n q] Let_def)
    have "prio q k \<le> prio q (par k)" if k: "0 < k" "k < n" for k
    proof (cases "par k = i")
      case True
      then have "k = ?l \<or> k = ?l + 1" using par_eq_iff [OF k(1)] by auto
      with False k(2) have "prio q k \<le> prio q i" by (auto simp: pq_Less_def prio_def split: if_splits)
      with True show ?thesis by simp
    next
      case False
      with "1.prems"(3) k show ?thesis by (simp add: except_down_def)
    qed
    then have "heap_upto (prio q) n" by (simp add: heap_upto_def)
    with r "1.prems" show ?thesis by simp
  next
    case True
    let ?q = "pq_Swap i ?j q"
    have r: "heap_down i n q = heap_down ?j n ?q"
    proof -
      have "\<not> n \<le> ?l" using True by simp
      with True show ?thesis
        by (subst heap_down.simps) (simp only: Let_def if_False simp_thms)
    qed
    have j: "0 < ?j" "?j < n" "par ?j = i" "i < ?j" using True by (auto simp: par_def)
    have lt: "prio q i < prio q ?j" using True by (simp add: pq_Less_def prio_def)
    have sib: "prio q k \<le> prio q ?j" if k: "0 < k" "k < n" "par k = i" for k
    proof -
      have "k = ?l \<or> k = ?l + 1" using par_eq_iff [OF k(1)] k(3) by auto
      with k(2) show ?thesis by (auto simp: pq_Less_def prio_def)
    qed
    have "except_down (exch i ?j (prio q)) n ?j"
      using "1.prems"(3) j(1-3) lt sib by (rule except_down_step)
    then have e: "except_down (prio ?q) n ?j"
      using except_down_cong [of n "prio ?q" "exch i ?j (prio q)" ?j] "1.prems"(1,2) j
      by (simp add: prio_pq_Swap del: if_split)
    have x: "idx_ok ?q" using "1.prems" j by (intro idx_ok_pq_Swap) (simp_all del: if_split)
    have d: "drop n ?q = drop n q" using "1.prems"(1,2) j(2) by (simp add: pq_Swap_def Let_def del: if_split)
    have nl: "\<not> ?l \<ge> n" and less: "pq_Less q ?j i" using True by simp_all
    have "heap_upto (prio (heap_down ?j n ?q)) n \<and> idx_ok (heap_down ?j n ?q)
        \<and> length (heap_down ?j n ?q) = length ?q \<and> mset (map core (heap_down ?j n ?q)) = mset (map core ?q)
        \<and> drop n (heap_down ?j n ?q) = drop n ?q"
      using nl less "1.prems"(2) e x j(2) by (intro "1.IH") (simp_all only: length_pq_Swap simp_thms)
    then show ?thesis using r d "1.prems"(1,2) j(2) by (simp add: mset_pq_Swap del: if_split)
  qed
qed

lemma pq_heap_snoc:
  assumes "pq_heap q"
  shows "except_up (prio (q @ [x])) (Suc (length q)) (length q)"
proof -
  have b: "par k < length q" if "0 < k" "k < Suc (length q)" for k
    using par_less [OF that(1)] that(2) by simp
  have "prio (q @ [x]) k \<le> prio (q @ [x]) (par k)" if k: "0 < k" "k < length q" for k
    using assms k b [of k] by (simp add: pq_heap_def heap_upto_def prio_def nth_append)
  moreover have "par k \<noteq> length q" if "0 < k" "k < Suc (length q)" for k using b [OF that] by simp
  ultimately show ?thesis by (simp add: except_up_def less_Suc_eq)
qed

lemma heap_Push_correct:
  assumes "pq_heap q" "idx_ok q"
  shows "pq_heap (heap_Push x q) \<and> idx_ok (heap_Push x q)
    \<and> mset (map core (heap_Push x q)) = add_mset (core x) (mset (map core q))"
proof -
  let ?q = "pq_Push x q"
  have l: "length ?q = Suc (length q)" by (simp add: pq_Push_def)
  have "except_up (prio ?q) (length ?q) (length q)"
    using pq_heap_snoc [OF assms(1)] by (simp add: pq_Push_def)
  moreover have "idx_ok ?q" using assms(2) by (auto simp: idx_ok_def pq_Push_def nth_append less_Suc_eq)
  ultimately have "pq_heap (heap_up (length q) ?q) \<and> idx_ok (heap_up (length q) ?q)
      \<and> mset (map core (heap_up (length q) ?q)) = mset (map core ?q)"
    using heap_up_correct [of "length q" ?q] l by simp
  then show ?thesis by (simp add: heap_Push_def pq_Len_def pq_Push_def Let_def)
qed

lemma heap_upto_swapped:
  assumes "pq_heap q" "q \<noteq> []"
  shows "except_down (prio (pq_Swap 0 (length q - 1) q)) (length q - 1) 0"
proof -
  let ?n = "length q - 1"
  have "prio (pq_Swap 0 ?n q) k = prio q k" if "0 < k" "k < ?n" for k
    using that assms(2) by (subst prio_pq_Swap) (auto simp: exch_def)
  moreover have "par k < ?n" if "0 < k" "k < ?n" for k using par_less [OF that(1)] that(2) by simp
  ultimately show ?thesis
    using assms(1) by (auto simp: except_down_def pq_heap_def heap_upto_def)
qed

lemma heap_Pop_correct:
  assumes "pq_heap q" "idx_ok q" "q \<noteq> []" "heap_Pop q = (item, q')"
  shows "pq_heap q' \<and> idx_ok q' \<and> mset (map core q) = add_mset (core item) (mset (map core q'))
    \<and> core item = core (q ! 0) \<and> pj_index item = -1"
proof -
  let ?n = "length q - 1" and ?s = "pq_Swap 0 (length q - 1) q"
  let ?d = "heap_down 0 ?n ?s"
  have len: "0 < length q" using assms(3) by simp
  have ix: "idx_ok ?s" using assms(2) len by (intro idx_ok_pq_Swap) auto
  have *: "heap_upto (prio ?d) ?n \<and> idx_ok ?d \<and> length ?d = length q
      \<and> mset (map core ?d) = mset (map core q) \<and> drop ?n ?d = drop ?n ?s"
  proof (cases "0 < ?n")
    case True
    then show ?thesis
      using heap_down_correct [of 0 ?n ?s] heap_upto_swapped [OF assms(1,3)] ix len
      by (simp add: mset_pq_Swap)
  next
    case False
    then have "?d = ?s" by (simp add: heap_down.simps)
    with False ix len show ?thesis by (simp add: heap_upto_def mset_pq_Swap)
  qed
  have r: "item = (?d ! ?n)\<lparr>pj_index := -1\<rparr>" "q' = take ?n ?d"
    using assms(4) * by (auto simp: heap_Pop_def pq_Pop_def pq_Len_def Let_def)
  have split: "?d = q' @ [?d ! ?n]"
    using * len r(2) by (metis Suc_diff_1 diff_less take_Suc_conv_app_nth take_all_iff order_refl less_numeral_extra(1))
  have "?d ! ?n = ?s ! ?n"
    using * len by (metis diff_less hd_drop_conv_nth length_pq_Swap less_numeral_extra(1))
  then have top: "core (?d ! ?n) = core (q ! 0)" using len by (auto simp: nth_pq_Swap)
  have ms: "mset (map core q) = add_mset (core item) (mset (map core q'))"
  proof -
    have "mset (map core q) = mset (map core (q' @ [?d ! ?n]))" using * split by metis
    then show ?thesis by (simp add: r(1))
  qed
  have pr: "prio q' k = prio ?d k" if "k < ?n" for k using that * by (simp add: r(2) prio_def)
  have "length q' = ?n" using r(2) * by simp
  with pr * have "pq_heap q'" using heap_upto_cong [of ?n "prio q'" "prio ?d"] by (simp add: pq_heap_def)
  moreover have "idx_ok q'" using * by (simp add: idx_ok_def r(2))
  ultimately show ?thesis using ms top r(1) by simp
qed

section \<open>The queue keeps its contract\<close>

definition pq_contents :: "priority_queue \<Rightarrow> (jref \<times> int) multiset" where
  "pq_contents q = mset (map core q)"

definition pq_wf :: "priority_queue \<Rightarrow> bool" where
  "pq_wf q \<longleftrightarrow> pq_heap q \<and> idx_ok q"

lemma Dequeue_top:
  assumes "pq_wf q" "TryDequeue q = Some (x, q')"
  shows "pq_wf q' \<and> (\<exists>p. pq_contents q = add_mset (x, p) (pq_contents q')
    \<and> (\<forall>(y, r) \<in># pq_contents q. r \<le> p))"
proof -
  obtain item where i: "heap_Pop q = (item, q')" "x = pj_job item" and ne: "q \<noteq> []"
    using assms(2) by (auto simp: TryDequeue_def pq_Len_def split: if_splits prod.splits)
  from heap_Pop_correct [OF _ _ ne i(1)] assms(1) have
    *: "pq_heap q'" "idx_ok q'" "mset (map core q) = add_mset (core item) (mset (map core q'))"
       "core item = core (q ! 0)" by (auto simp: pq_wf_def)
  have "prio q k \<le> prio q 0" if "k < length q" for k
    using heap_root_max [of "prio q" "length q" k] assms(1) that by (simp add: pq_wf_def pq_heap_def)
  then have "r \<le> pj_priority item" if "(y, r) \<in># pq_contents q" for y r
    using that *(4) by (auto simp: pq_contents_def core_def prio_def in_set_conv_nth)
  with * show ?thesis
    by (intro conjI exI [where x = "pj_priority item"])
      (auto simp: pq_wf_def pq_contents_def i(2) core_def)
qed

interpretation jobs: max_queue NewPriorityQueue Enqueue TryDequeue pq_contents pq_wf
proof unfold_locales
  show "pq_contents NewPriorityQueue = {#}" by (simp add: pq_contents_def NewPriorityQueue_def)
  show "pq_wf NewPriorityQueue"
    by (simp add: pq_wf_def pq_heap_def heap_upto_def idx_ok_def NewPriorityQueue_def)
next
  fix q x p assume "pq_wf q"
  then have "pq_wf (Enqueue x p q) \<and> pq_contents (Enqueue x p q) = add_mset (x, p) (pq_contents q)"
    using heap_Push_correct [of q] by (simp add: Enqueue_def pq_wf_def pq_contents_def core_def)
  then show "pq_contents (Enqueue x p q) = add_mset (x, p) (pq_contents q)" "pq_wf (Enqueue x p q)"
    by simp_all
next
  fix q assume "pq_wf q"
  show "TryDequeue q = None \<longleftrightarrow> pq_contents q = {#}"
    by (auto simp: TryDequeue_def pq_Len_def pq_contents_def split: prod.splits)
next
  fix q x q' assume "pq_wf q" "TryDequeue q = Some (x, q')"
  from Dequeue_top [OF this] show
    "\<exists>p. pq_contents q = add_mset (x, p) (pq_contents q') \<and> (\<forall>(y, r) \<in># pq_contents q. r \<le> p)"
    "pq_wf q'" by simp_all
qed

text \<open>A worker that fills the queue and then empties it.\<close>

definition enqueue_all :: "(jref \<times> int) list \<Rightarrow> priority_queue" where
  "enqueue_all xs = fold (\<lambda>(x, p) q. Enqueue x p q) xs NewPriorityQueue"

lemma enqueue_all_wf: "pq_wf (enqueue_all xs) \<and> pq_contents (enqueue_all xs) = mset xs"
proof -
  have "pq_wf q \<Longrightarrow> pq_wf (fold (\<lambda>(x, p) q. Enqueue x p q) xs q)
      \<and> pq_contents (fold (\<lambda>(x, p) q. Enqueue x p q) xs q) = mset xs + pq_contents q" for q
    by (induction xs arbitrary: q) (auto simp: jobs.invar_enq jobs.contents_enq)
  from this [of NewPriorityQueue] show ?thesis
    using jobs.invar_empty jobs.contents_empty by (simp add: enqueue_all_def)
qed

section \<open>Properties\<close>

text \<open>C29. Whatever jobs are enqueued, in whatever order, taking them out of the queue returns
each of them exactly once, with the priorities in descending order.\<close>

theorem queue_drains_by_priority:
  "\<exists>ps. length ps = length (jobs.drain (length xs) (enqueue_all xs))
     \<and> mset (zip (jobs.drain (length xs) (enqueue_all xs)) ps) = mset xs \<and> sorted_wrt (\<ge>) ps"
  using jobs.drain_sorted [of "enqueue_all xs" "length xs"] enqueue_all_wf [of xs] by simp

text \<open>C12. Between any two calls the slice is a heap and every item's index field is its position:
an enqueue and a dequeue keep both, and the item that a dequeue hands out is marked as removed.\<close>

theorem heap_and_index_invariant:
  assumes "pq_heap q" "idx_ok q"
  shows "pq_heap (Enqueue x p q) \<and> idx_ok (Enqueue x p q)
    \<and> (case Dequeue q of None \<Rightarrow> q = [] | Some (y, q') \<Rightarrow> pq_heap q' \<and> idx_ok q' \<and> pq_Size q = Suc (pq_Size q'))
    \<and> (q \<noteq> [] \<longrightarrow> pj_index (fst (heap_Pop q)) = -1)"
proof (intro conjI impI)
  show "pq_heap (Enqueue x p q)" "idx_ok (Enqueue x p q)"
    using heap_Push_correct [OF assms] by (simp_all add: Enqueue_def)
  show "case Dequeue q of None \<Rightarrow> q = [] | Some (y, q') \<Rightarrow> pq_heap q' \<and> idx_ok q' \<and> pq_Size q = Suc (pq_Size q')"
  proof (cases "q = []")
    case False
    obtain item q' where r: "heap_Pop q = (item, q')" by fastforce
    from heap_Pop_correct [OF assms False r] have
      "pq_heap q'" "idx_ok q'" "mset (map core q) = add_mset (core item) (mset (map core q'))" by blast+
    moreover from this(3) have "length q = Suc (length q')"
      by (metis length_map size_add_mset size_mset)
    ultimately show ?thesis using False r by (simp add: Dequeue_def pq_Len_def pq_Size_def)
  qed (simp add: Dequeue_def pq_Len_def)
  show "pj_index (fst (heap_Pop q)) = -1" if "q \<noteq> []"
    using heap_Pop_correct [OF assms that, of "fst (heap_Pop q)" "snd (heap_Pop q)"] by simp
qed

text \<open>Three jobs: the first of the two with priority 1 comes out last.\<close>

definition three_jobs :: priority_queue where
  "three_jobs = enqueue_all [(7, PriorityNormal), (8, PriorityHigh), (9, PriorityNormal)]"

lemma three_jobs_value: "map core three_jobs = [(8, 2), (7, 1), (9, 1)]"
  by code_simp

theorem heap_and_index_invariant_witness:
  "pq_heap (Enqueue 10 0 three_jobs) \<and> idx_ok (Enqueue 10 0 three_jobs)"
  using heap_and_index_invariant [of three_jobs 10 0] enqueue_all_wf
  by (simp add: three_jobs_def pq_wf_def)

text \<open>The queue is not first-in first-out within a priority: of three jobs of one priority the
one that was enqueued last comes out second.\<close>

theorem queue_is_not_fifo:
  "jobs.drain 3 (enqueue_all [(1, PriorityNormal), (2, PriorityNormal), (3, PriorityNormal)]) = [1, 3, 2]"
proof -
  let ?it = "\<lambda>x k. \<lparr>pj_job = x, pj_priority = 1, pj_index = k\<rparr>"
  have "enqueue_all [(1, PriorityNormal), (2, PriorityNormal), (3, PriorityNormal)] = [?it 1 0, ?it 2 1, ?it 3 2]"
    "TryDequeue [?it 1 0, ?it 2 1, ?it 3 2] = Some (1, [?it 3 0, ?it 2 1])"
    "TryDequeue [?it 3 0, ?it 2 1] = Some (3, [?it 2 0])"
    "TryDequeue [?it 2 0] = Some (2, [])"
    by code_simp+
  then show ?thesis by (simp add: numeral_3_eq_3)
qed

end
