(* ===== verification/Float64.thy ===== *)
theory Float64
  imports Complex_Main Prelude
begin

text \<open>
  Go's \<open>float64\<close>: IEEE 754 binary64 with rounding to nearest, ties to even. A finite value
  is the rational number it stands for; the two infinities and NaN are values of their own.
  The sign of zero is not represented, as no code of the repository can observe it.
  \<open>fl\<close> is the rounding of an exact result to the nearest representable number (53 bits of
  precision, gradual underflow below \<open>2 ^ -1022\<close>). The operations round once, as the
  hardware does.

  The lemmas the rest of the development uses are that \<open>fl\<close> is monotone and keeps 0, that it
  is exact on the integers up to \<open>2 ^ 53\<close>, and that its relative error on normal numbers
  is at most \<open>2 ^ -53\<close>.
\<close>

section \<open>Binary logarithms\<close>

fun nlog2 :: "nat \<Rightarrow> nat" where
  "nlog2 n = (if n < 2 then 0 else Suc (nlog2 (n div 2)))"

declare nlog2.simps [simp del]

lemma nlog2_bounds: "0 < n \<Longrightarrow> 2 ^ nlog2 n \<le> n \<and> n < 2 ^ Suc (nlog2 n)"
proof (induction n rule: nlog2.induct)
  case (1 n)
  show ?case
  proof (cases "n < 2")
    case True
    with "1.prems" show ?thesis by (simp add: nlog2.simps [of n])
  next
    case False
    with "1.IH" have "2 ^ nlog2 (n div 2) \<le> n div 2" "n div 2 < 2 ^ Suc (nlog2 (n div 2))"
      by simp_all
    with False show ?thesis by (auto simp: nlog2.simps [of n])
  qed
qed

text \<open>The exponent of a positive rational: \<open>2 powi e \<le> x < 2 powi (e + 1)\<close>.\<close>

definition rlog2 :: "rat \<Rightarrow> int" where
  "rlog2 x = (if 1 \<le> x then int (nlog2 (nat \<lfloor>x\<rfloor>))
              else (let m = nat (\<lceil>1 / x\<rceil> - 1) in if m = 0 then 0 else - int (Suc (nlog2 m))))"

lemma rlog2_bounds_ge1:
  assumes "1 \<le> x"
  shows "2 powi rlog2 x \<le> x \<and> x < 2 powi (rlog2 x + 1)"
proof -
  let ?n = "nat \<lfloor>x\<rfloor>"
  have n: "0 < ?n" using assms by simp
  from nlog2_bounds [OF n] have lo: "2 ^ nlog2 ?n \<le> ?n" and hi: "Suc ?n \<le> 2 ^ Suc (nlog2 ?n)"
    by simp_all
  have "(2::rat) ^ nlog2 ?n \<le> of_nat ?n" using lo by (metis of_nat_le_iff of_nat_numeral of_nat_power)
  also have "of_nat ?n \<le> x" using assms by (simp add: of_nat_nat)
  finally have a: "2 ^ nlog2 ?n \<le> x" .
  have "x < of_nat (Suc ?n)" using assms by (simp add: of_nat_nat) linarith
  also have "of_nat (Suc ?n) \<le> (2::rat) ^ Suc (nlog2 ?n)"
    using hi by (metis of_nat_le_iff of_nat_numeral of_nat_power)
  finally have b: "x < 2 ^ Suc (nlog2 ?n)" .
  have e: "rlog2 x = int (nlog2 ?n)" using assms by (simp add: rlog2_def)
  have "(2::rat) powi (int (nlog2 ?n) + 1) = 2 ^ Suc (nlog2 ?n)"
    by (simp flip: power_int_of_nat) (simp add: power_int_add)
  with a b e show ?thesis by (simp add: power_int_of_nat)
qed

lemma rlog2_bounds_lt1:
  assumes "0 < x" "x < 1"
  shows "2 powi rlog2 x \<le> x \<and> x < 2 powi (rlog2 x + 1)"
proof -
  let ?m = "nat (\<lceil>1 / x\<rceil> - 1)" and ?k = "nlog2 (nat (\<lceil>1 / x\<rceil> - 1))"
  have inv: "1 < 1 / x" using assms by (simp add: field_simps)
  then have c: "1 < \<lceil>1 / x\<rceil>" by linarith
  then have m: "0 < ?m" by simp
  from nlog2_bounds [OF m] have lo: "2 ^ ?k \<le> ?m" and hi: "?m < 2 ^ Suc ?k" by simp_all
  have "(2::rat) ^ ?k \<le> of_nat ?m" using lo by (metis of_nat_le_iff of_nat_numeral of_nat_power)
  also have "of_nat ?m < 1 / x" using c by (simp add: of_nat_nat) linarith
  finally have a: "2 ^ ?k < 1 / x" .
  have "1 / x \<le> of_int \<lceil>1 / x\<rceil>" by (rule le_of_int_ceiling)
  also have "of_int \<lceil>1 / x\<rceil> = (of_nat (Suc ?m) :: rat)"
  proof -
    have "Suc ?m = nat \<lceil>1 / x\<rceil>" using c by linarith
    with c show ?thesis by (simp only: of_nat_nat)
  qed
  also have "of_nat (Suc ?m) \<le> (2::rat) ^ Suc ?k"
    using hi by (metis Suc_leI of_nat_le_iff of_nat_numeral of_nat_power)
  finally have b: "1 / x \<le> 2 ^ Suc ?k" .
  have e: "rlog2 x = - int (Suc ?k)" using assms m by (simp add: rlog2_def Let_def)
  have p: "2 powi - int n = 1 / (2::rat) ^ n" for n
    by (simp add: power_int_minus power_int_of_nat field_simps)
  have p1: "2 powi (- int (Suc ?k) + 1) = 1 / (2::rat) ^ ?k"
    using p [of ?k] by simp
  have "1 / 2 ^ Suc ?k \<le> x" using b assms by (simp add: field_simps)
  moreover have "x < 1 / 2 ^ ?k" using a assms by (simp add: field_simps)
  ultimately show ?thesis unfolding e p1 p by simp
qed

lemma rlog2_bounds: "0 < x \<Longrightarrow> 2 powi rlog2 x \<le> x \<and> x < 2 powi (rlog2 x + 1)"
  using rlog2_bounds_ge1 rlog2_bounds_lt1 by (cases "1 \<le> x") auto

lemma powi2_less_iff: "(2::rat) powi a < 2 powi b \<longleftrightarrow> a < b"
  by (meson linorder_not_less power_int_increasing power_int_strict_increasing one_le_numeral
      one_less_numeral_iff semiring_norm(76))

lemma rlog2_mono:
  assumes "0 < x" "x \<le> y"
  shows "rlog2 x \<le> rlog2 y"
proof -
  have "2 powi rlog2 x \<le> x" "y < 2 powi (rlog2 y + 1)" using assms rlog2_bounds by auto
  with assms have "(2::rat) powi rlog2 x < 2 powi (rlog2 y + 1)" by linarith
  then have "rlog2 x < rlog2 y + 1" by (simp only: powi2_less_iff)
  then show ?thesis by simp
qed

section \<open>Rounding\<close>

text \<open>The nearest integer, the even one of the two when both are equally near.\<close>

definition rne :: "rat \<Rightarrow> int" where
  "rne q = (let f = \<lfloor>q\<rfloor>; r = q - of_int f
            in if r < 1 / 2 \<or> (r = 1 / 2 \<and> even f) then f else f + 1)"

lemma rne_of_int [simp]: "rne (of_int n) = n"
  by (simp add: rne_def Let_def)

lemma rne_floor: "\<lfloor>q\<rfloor> \<le> rne q" "rne q \<le> \<lfloor>q\<rfloor> + 1"
  by (simp_all add: rne_def Let_def)

lemma rne_mono: "p \<le> q \<Longrightarrow> rne p \<le> rne q"
proof -
  assume pq: "p \<le> q"
  show ?thesis
  proof (cases "\<lfloor>p\<rfloor> = \<lfloor>q\<rfloor>")
    case True
    with pq show ?thesis by (auto simp: rne_def Let_def)
  next
    case False
    with pq have "\<lfloor>p\<rfloor> + 1 \<le> \<lfloor>q\<rfloor>" using floor_mono [OF pq] by linarith
    then show ?thesis using rne_floor [of p] rne_floor [of q] by linarith
  qed
qed

lemma rne_error: "\<bar>of_int (rne q) - q\<bar> \<le> 1 / 2"
proof -
  have lo: "of_int \<lfloor>q\<rfloor> \<le> q" and hi: "q < of_int \<lfloor>q\<rfloor> + 1" by linarith+
  show ?thesis
  proof (cases "rne q = \<lfloor>q\<rfloor>")
    case True
    then have "q - of_int \<lfloor>q\<rfloor> \<le> 1 / 2" by (auto simp: rne_def Let_def split: if_splits)
    with True lo show ?thesis by simp
  next
    case False
    then have "rne q = \<lfloor>q\<rfloor> + 1" "1 / 2 \<le> q - of_int \<lfloor>q\<rfloor>"
      by (auto simp: rne_def Let_def split: if_splits)
    with hi show ?thesis by simp
  qed
qed

text \<open>The weight of the last bit of the significand of a positive number.\<close>

definition fexp :: "rat \<Rightarrow> int" where
  "fexp x = max (rlog2 x - 52) (-1074)"

definition fl_pos :: "rat \<Rightarrow> rat" where
  "fl_pos x = of_int (rne (x / 2 powi fexp x)) * 2 powi fexp x"

definition fl :: "rat \<Rightarrow> rat" where
  "fl x = (if x = 0 then 0 else if 0 < x then fl_pos x else - fl_pos (- x))"

lemma fl_0 [simp]: "fl 0 = 0"
  by (simp add: fl_def)

lemma fl_minus: "fl (- x) = - fl x"
  by (simp add: fl_def)

lemma fl_pos_nonneg: "0 < x \<Longrightarrow> 0 \<le> fl_pos x"
proof -
  assume "0 < x"
  then have "0 \<le> x / 2 powi fexp x" by simp
  then have "rne 0 \<le> rne (x / 2 powi fexp x)" by (rule rne_mono)
  then show ?thesis using rne_of_int [of 0] by (simp add: fl_pos_def)
qed

lemma fl_pos_mono_strict_exp:
  assumes "0 < x" "x \<le> y" "fexp x < fexp y"
  shows "fl_pos x \<le> fl_pos y"
proof -
  let ?a = "fexp x" and ?b = "fexp y"
  have b: "?b = rlog2 y - 52" using assms(3) by (auto simp: fexp_def max_def split: if_splits)
  have y: "2 powi (?b + 52) \<le> y" using rlog2_bounds [of y] assms b by simp
  have x: "x < 2 powi (?a + 53)"
  proof -
    have "rlog2 x + 1 \<le> ?a + 53" by (simp add: fexp_def)
    then have "(2::rat) powi (rlog2 x + 1) \<le> 2 powi (?a + 53)" by (simp add: power_int_increasing)
    then show ?thesis using rlog2_bounds [OF assms(1)] by linarith
  qed
  have "x / 2 powi ?a \<le> of_int (2 ^ 53)"
    using x by (simp add: power_int_add divide_le_eq mult.commute)
  then have rx: "rne (x / 2 powi ?a) \<le> 2 ^ 53" by (metis rne_mono rne_of_int)
  have "of_int (2 ^ 52) \<le> y / 2 powi ?b"
    using y by (simp add: power_int_add le_divide_eq mult.commute)
  then have ry: "2 ^ 52 \<le> rne (y / 2 powi ?b)" by (metis rne_mono rne_of_int)
  have "fl_pos x \<le> of_int (2 ^ 53) * 2 powi ?a"
    unfolding fl_pos_def using rx by (intro mult_right_mono) (simp_all only: of_int_le_iff, simp)
  also have "\<dots> = 2 powi (?a + 53)" by (simp add: power_int_add)
  also have "\<dots> \<le> 2 powi (?b + 52)" using assms(3) by (simp add: power_int_increasing)
  also have "\<dots> = of_int (2 ^ 52) * 2 powi ?b" by (simp add: power_int_add)
  also have "\<dots> \<le> fl_pos y"
    unfolding fl_pos_def using ry by (intro mult_right_mono) (simp_all only: of_int_le_iff, simp)
  finally show ?thesis .
qed

lemma fl_pos_mono:
  assumes "0 < x" "x \<le> y"
  shows "fl_pos x \<le> fl_pos y"
proof (cases "fexp x = fexp y")
  case True
  have "x / 2 powi fexp y \<le> y / 2 powi fexp y" using assms by (simp add: divide_right_mono)
  with True show ?thesis by (auto simp: fl_pos_def intro!: mult_right_mono rne_mono)
next
  case False
  with rlog2_mono [OF assms] have "fexp x < fexp y" by (auto simp: fexp_def)
  with assms show ?thesis by (rule fl_pos_mono_strict_exp)
qed

lemma fl_mono: "x \<le> y \<Longrightarrow> fl x \<le> fl y"
proof -
  assume xy: "x \<le> y"
  consider "0 < x" | "x \<le> 0" "0 \<le> y" | "y < 0" by linarith
  then show ?thesis
  proof cases
    case 1
    with xy show ?thesis by (simp add: fl_def fl_pos_mono)
  next
    case 2
    have "fl x \<le> 0" using 2 fl_pos_nonneg [of "- x"] by (auto simp: fl_def)
    moreover have "0 \<le> fl y" using 2 fl_pos_nonneg [of y] by (auto simp: fl_def)
    ultimately show ?thesis by linarith
  next
    case 3
    with xy show ?thesis using fl_pos_mono [of "- y" "- x"] by (simp add: fl_def)
  qed
qed

lemma fl_nonneg: "0 \<le> x \<Longrightarrow> 0 \<le> fl x"
  using fl_mono [of 0 x] by simp

text \<open>Numbers with a significand of at most 53 bits are represented exactly.\<close>

lemma fl_pos_exact: "x = of_int k * 2 powi fexp x \<Longrightarrow> fl_pos x = x"
proof -
  assume x: "x = of_int k * 2 powi fexp x"
  then have "x / 2 powi fexp x = of_int k" by (metis nonzero_mult_div_cancel_right power_int_eq_0_iff zero_neq_numeral)
  then have "fl_pos x = of_int k * 2 powi fexp x" by (simp add: fl_pos_def)
  with x show ?thesis by simp
qed

lemma fl_dyadic_pos:
  assumes "0 < m" "m \<le> 2 ^ 53" "-1074 \<le> e"
  shows "fl_pos (of_int m * 2 powi e) = of_int m * 2 powi e"
proof -
  let ?x = "of_int m * 2 powi e :: rat"
  have x: "0 < ?x" using assms by simp
  have "(of_int m :: rat) \<le> 2 ^ 53" using assms(2) by (metis of_int_le_iff of_int_numeral of_int_power)
  then have "?x \<le> 2 ^ 53 * 2 powi e" by simp
  also have "\<dots> = 2 powi (e + 53)" by (simp add: power_int_add)
  finally have ub: "?x \<le> 2 powi (e + 53)" .
  have "(2::rat) powi rlog2 ?x < 2 powi (e + 54)"
    using ub rlog2_bounds [OF x] powi2_less_iff [of "e + 53" "e + 54"] by linarith
  then have r: "rlog2 ?x \<le> e + 53" by (simp only: powi2_less_iff)
  show ?thesis
  proof (cases "fexp ?x \<le> e")
    case True
    then have "(2::rat) powi e = of_int (2 ^ nat (e - fexp ?x)) * 2 powi fexp ?x"
      using power_int_add [of "2::rat" "e - fexp ?x" "fexp ?x"] by (simp add: power_int_nonneg_exp)
    then have "?x = of_int (m * 2 ^ nat (e - fexp ?x)) * 2 powi fexp ?x" by simp
    then show ?thesis by (rule fl_pos_exact)
  next
    case False
    with r assms(3) have f: "fexp ?x = e + 1" and re: "rlog2 ?x = e + 53"
      by (auto simp: fexp_def max_def split: if_splits)
    have "2 powi (e + 53) = ?x" using ub rlog2_bounds [OF x] re by simp
    then have "?x = of_int (2 ^ 52) * 2 powi fexp ?x" unfolding f by (simp add: power_int_add)
    then show ?thesis by (rule fl_pos_exact)
  qed
qed

lemma fl_dyadic:
  assumes "\<bar>m\<bar> \<le> 2 ^ 53" "-1074 \<le> e"
  shows "fl (of_int m * 2 powi e) = of_int m * 2 powi e"
proof -
  consider "m = 0" | "0 < m" | "m < 0" by linarith
  then show ?thesis
  proof cases
    case 1
    then show ?thesis by simp
  next
    case 2
    then show ?thesis using fl_dyadic_pos [of m e] assms by (simp add: fl_def zero_less_mult_iff)
  next
    case 3
    then have "fl_pos (of_int (- m) * 2 powi e) = of_int (- m) * 2 powi e"
      using assms by (intro fl_dyadic_pos) auto
    moreover have "\<not> (2::rat) powi e < 0" by (simp add: not_less)
    ultimately show ?thesis using 3 by (simp add: fl_def zero_less_mult_iff)
  qed
qed

lemma fl_of_int: "\<bar>n\<bar> \<le> 2 ^ 53 \<Longrightarrow> fl (of_int n) = of_int n"
  using fl_dyadic [of n 0] by simp

text \<open>A rounded value never crosses an exactly represented integer.\<close>

lemma fl_ge_int: "of_int n \<le> x \<Longrightarrow> \<bar>n\<bar> \<le> 2 ^ 53 \<Longrightarrow> of_int n \<le> fl x"
  using fl_mono [of "of_int n" x] fl_of_int [of n] by simp

lemma fl_le_int: "x \<le> of_int n \<Longrightarrow> \<bar>n\<bar> \<le> 2 ^ 53 \<Longrightarrow> fl x \<le> of_int n"
  using fl_mono [of x "of_int n"] fl_of_int [of n] by simp

text \<open>The relative error of one rounding.\<close>

lemma fl_rel_error_pos:
  assumes "2 powi (-1022) \<le> x"
  shows "fl x \<le> x * (1 + 1 / 2 ^ 53)"
proof -
  have x: "0 < x" using assms by (rule less_le_trans [rotated]) simp
  have "(2::rat) powi (-1022) < 2 powi (rlog2 x + 1)" using assms rlog2_bounds [OF x] by linarith
  then have "-1022 \<le> rlog2 x" by (simp only: powi2_less_iff)
  then have f: "fexp x = rlog2 x - 52" by (simp add: fexp_def)
  have q: "of_int (rne (x / 2 powi fexp x)) \<le> x / 2 powi fexp x + 1 / 2"
    using rne_error [of "x / 2 powi fexp x"] by linarith
  have "fl x = of_int (rne (x / 2 powi fexp x)) * 2 powi fexp x" using x by (simp add: fl_def fl_pos_def)
  also have "\<dots> \<le> (x / 2 powi fexp x + 1 / 2) * 2 powi fexp x"
    using q by (intro mult_right_mono) simp_all
  also have "\<dots> = x + 2 powi (rlog2 x) / 2 ^ 53"
    unfolding f by (simp add: distrib_right power_int_diff)
  also have "\<dots> \<le> x + x / 2 ^ 53" using rlog2_bounds [OF x] by (simp add: divide_right_mono)
  finally show ?thesis by (simp add: distrib_left)
qed

section \<open>Values and operations\<close>

datatype float64 = Fin rat | PInf | NInf | NaN

text \<open>The value an exact real result is rounded to; too large a result is an infinity.\<close>

definition round64 :: "rat \<Rightarrow> float64" where
  "round64 x = (let y = fl x
                in if 2 ^ 1024 \<le> y then PInf else if y \<le> - (2 ^ 1024) then NInf else Fin y)"

definition f_of_int :: "int \<Rightarrow> float64" where
  "f_of_int n = round64 (of_int n)"

fun fneg :: "float64 \<Rightarrow> float64" where
  "fneg (Fin a) = Fin (- a)"
| "fneg PInf = NInf"
| "fneg NInf = PInf"
| "fneg NaN = NaN"

fun fadd :: "float64 \<Rightarrow> float64 \<Rightarrow> float64" where
  "fadd (Fin a) (Fin b) = round64 (a + b)"
| "fadd NaN _ = NaN"
| "fadd _ NaN = NaN"
| "fadd PInf NInf = NaN"
| "fadd NInf PInf = NaN"
| "fadd PInf _ = PInf"
| "fadd _ PInf = PInf"
| "fadd NInf _ = NInf"
| "fadd _ NInf = NInf"

definition fsub :: "float64 \<Rightarrow> float64 \<Rightarrow> float64" where
  "fsub a b = fadd a (fneg b)"

fun finf :: "rat \<Rightarrow> float64" where
  "finf s = (if s = 0 then NaN else if 0 < s then PInf else NInf)"

fun fmul :: "float64 \<Rightarrow> float64 \<Rightarrow> float64" where
  "fmul (Fin a) (Fin b) = round64 (a * b)"
| "fmul NaN _ = NaN"
| "fmul _ NaN = NaN"
| "fmul PInf (Fin b) = finf b"
| "fmul (Fin a) PInf = finf a"
| "fmul NInf (Fin b) = finf (- b)"
| "fmul (Fin a) NInf = finf (- a)"
| "fmul PInf PInf = PInf"
| "fmul NInf NInf = PInf"
| "fmul PInf NInf = NInf"
| "fmul NInf PInf = NInf"

text \<open>A division by zero is an infinity of the dividend's sign, and NaN for \<open>0 / 0\<close>.\<close>

fun fdiv :: "float64 \<Rightarrow> float64 \<Rightarrow> float64" where
  "fdiv (Fin a) (Fin b) = (if b = 0 then finf a else round64 (a / b))"
| "fdiv NaN _ = NaN"
| "fdiv _ NaN = NaN"
| "fdiv PInf (Fin b) = (if 0 \<le> b then PInf else NInf)"
| "fdiv NInf (Fin b) = (if 0 \<le> b then NInf else PInf)"
| "fdiv (Fin _) PInf = Fin 0"
| "fdiv (Fin _) NInf = Fin 0"
| "fdiv _ _ = NaN"

text \<open>Every comparison with NaN is false.\<close>

fun flt :: "float64 \<Rightarrow> float64 \<Rightarrow> bool" where
  "flt (Fin a) (Fin b) = (a < b)"
| "flt NaN _ = False"
| "flt _ NaN = False"
| "flt NInf b = (b \<noteq> NInf)"
| "flt _ NInf = False"
| "flt PInf _ = False"
| "flt _ PInf = True"

fun fle :: "float64 \<Rightarrow> float64 \<Rightarrow> bool" where
  "fle (Fin a) (Fin b) = (a \<le> b)"
| "fle NaN _ = False"
| "fle _ NaN = False"
| "fle NInf _ = True"
| "fle b NInf = (b = NInf)"
| "fle _ PInf = True"
| "fle PInf b = (b = PInf)"

text \<open>
  \<open>int(f)\<close> and \<open>time.Duration(f)\<close> drop the fraction. Go leaves the result open where it does
  not fit; the model takes the value of the amd64 instruction.
\<close>

definition rtrunc :: "rat \<Rightarrow> int" where
  "rtrunc x = (if 0 \<le> x then \<lfloor>x\<rfloor> else \<lceil>x\<rceil>)"

fun f_to_int :: "float64 \<Rightarrow> int" where
  "f_to_int (Fin x) = (if fits64 (rtrunc x) then rtrunc x else - (2 ^ 63))"
| "f_to_int _ = - (2 ^ 63)"

text \<open>\<open>Duration.Seconds\<close> converts the whole seconds and the rest apart.\<close>

definition seconds :: "duration \<Rightarrow> float64" where
  "seconds d = fadd (f_of_int (quot d second))
                    (fdiv (f_of_int (d - quot d second * second)) (Fin 1000000000))"

lemma round64_Fin: "\<bar>x\<bar> \<le> 2 ^ 53 \<Longrightarrow> round64 x = Fin (fl x)"
proof -
  assume x: "\<bar>x\<bar> \<le> 2 ^ 53"
  have "fl x \<le> of_int (2 ^ 53)" using x by (intro fl_le_int) auto
  moreover have "of_int (- (2 ^ 53)) \<le> fl x" using x by (intro fl_ge_int) auto
  moreover have "(2::rat) ^ 53 < 2 ^ 1024" by (intro power_strict_increasing) simp_all
  ultimately show ?thesis by (simp add: round64_def Let_def)
qed

lemma f_of_int_exact: "\<bar>n\<bar> \<le> 2 ^ 53 \<Longrightarrow> f_of_int n = Fin (of_int n)"
proof -
  assume n: "\<bar>n\<bar> \<le> 2 ^ 53"
  then have "\<bar>of_int n :: rat\<bar> \<le> of_int (2 ^ 53)" by (simp only: of_int_abs [symmetric] of_int_le_iff)
  then have "round64 (of_int n) = Fin (fl (of_int n))" by (intro round64_Fin) simp
  with n show ?thesis by (simp add: f_of_int_def fl_of_int)
qed

text \<open>The conversion of a non-negative duration of up to 100 years lies between its seconds.\<close>

lemma seconds_value:
  assumes "0 \<le> d" "d \<le> 2 ^ 62"
  shows "seconds d = Fin (fl (of_int (d div second) + fl (of_int (d mod second) / 1000000000)))"
    and "0 \<le> fl (of_int (d mod second) / 1000000000)" "fl (of_int (d mod second) / 1000000000) \<le> 1"
proof -
  let ?q = "d div second" and ?r = "d mod second"
  have q: "0 \<le> ?q" "?q \<le> 2 ^ 33" using assms by simp_all
  have r: "0 \<le> ?r" "?r < second" by simp_all
  have f: "seconds d = fadd (f_of_int ?q) (fdiv (f_of_int ?r) (Fin 1000000000))"
    using assms by (simp add: seconds_def quot_nonneg minus_div_mult_eq_mod)
  have fq: "f_of_int ?q = Fin (of_int ?q)" using q by (intro f_of_int_exact) simp
  have fr: "f_of_int ?r = Fin (of_int ?r)" using r by (intro f_of_int_exact) simp
  let ?x = "of_int ?r / 1000000000 :: rat"
  have rr: "(0::rat) \<le> of_int ?r" "(of_int ?r :: rat) \<le> of_int second"
    using r(1) less_imp_le [OF r(2)] by (simp_all only: of_int_le_iff of_int_0_le_iff)
  have x: "0 \<le> ?x" "?x \<le> 1" using rr by simp_all
  show y: "0 \<le> fl ?x" "fl ?x \<le> 1" using x fl_nonneg fl_le_int [of ?x 1] by simp_all
  have g: "fdiv (f_of_int ?r) (Fin 1000000000) = Fin (fl ?x)" using x fr by (simp add: round64_Fin)
  have qb: "(0::rat) \<le> of_int ?q" "(of_int ?q :: rat) \<le> of_int (2 ^ 33)"
    using q by (simp_all only: of_int_le_iff of_int_0_le_iff)
  show "seconds d = Fin (fl (of_int ?q + fl ?x))"
    using y qb by (simp add: f fq g round64_Fin)
qed

lemma seconds_bounds:
  assumes "0 \<le> d" "d \<le> 2 ^ 62"
  obtains s where "seconds d = Fin s" "of_int (d div second) \<le> s" "s \<le> of_int (d div second) + 1"
proof -
  let ?q = "d div second" and ?x = "of_int (d mod second) / 1000000000 :: rat"
  have q: "0 \<le> ?q" "?q \<le> 2 ^ 33" using assms by simp_all
  note v = seconds_value [OF assms]
  have "of_int ?q \<le> fl (of_int ?q + fl ?x)" using v q by (intro fl_ge_int) simp_all
  moreover have "fl (of_int ?q + fl ?x) \<le> of_int (?q + 1)" using v q by (intro fl_le_int) simp_all
  ultimately show ?thesis using v(1) that by simp
qed

end
