(* ===== verification/Rate_Limiter.thy ===== *)
theory Rate_Limiter
  imports Prelude Float64
begin

text \<open>
  \<open>internal/api/middleware/rate_limiter.go\<close>: the token bucket per client address, the clean-up
  of stale buckets, the middleware and the variant with one limiter per endpoint.

  A request reads the clock twice, when its bucket is created and when it is refilled; both
  readings are arguments. A call of \<open>allow\<close> is one step in the properties: the locks are those of the map and of
  the bucket, and the interleaving they leave open that matters is a clean-up between the two, which
  \<open>allow_interrupted\<close> has. Refilling computes with binary64
  numbers, as the code does; the bounds below account for the rounding.
\<close>

section \<open>The limiter\<close>

record visitor =
  vs_tokens :: int
  vs_lastSeen :: go_time

record rate_limiter =
  rl_visitors :: "(string, visitor) gomap"
  rl_rate :: int
  rl_burst :: int
  rl_cleanup :: duration

definition NewRateLimiter :: "int \<Rightarrow> int \<Rightarrow> rate_limiter" where
  "NewRateLimiter rate burst =
     \<lparr>rl_visitors = [], rl_rate = rate, rl_burst = burst, rl_cleanup = 5 * minute\<rparr>"

definition tokens_to_add :: "duration \<Rightarrow> int \<Rightarrow> int" where
  "tokens_to_add elapsed rate = f_to_int (fdiv (fmul (seconds elapsed) (f_of_int rate)) (Fin 60))"

definition refill :: "rate_limiter \<Rightarrow> go_time \<Rightarrow> visitor \<Rightarrow> visitor" where
  "refill rl now v =
     (let tokensToAdd = tokens_to_add (time_sub now (vs_lastSeen v)) (rl_rate rl)
      in if tokensToAdd > 0
         then let t = wrap64 (vs_tokens v + tokensToAdd);
                  t' = (if t > rl_burst rl then rl_burst rl else t)
              in v\<lparr>vs_tokens := t', vs_lastSeen := now\<rparr>
         else v)"

text \<open>
  \<open>allow\<close> takes two locks one after the other: under that of the map it finds or makes the bucket, under that
  of the bucket it refills it and takes a token. The bucket is a pointer, so what the second part does to
  it is seen in the map.
\<close>

definition find_visitor :: "go_time \<Rightarrow> string \<Rightarrow> rate_limiter \<Rightarrow> visitor \<times> rate_limiter" where
  "find_visitor created ip rl =
     (case lookup (rl_visitors rl) ip of
        Some v \<Rightarrow> (v, rl)
      | None \<Rightarrow> (let v = \<lparr>vs_tokens = rl_burst rl, vs_lastSeen = created\<rparr> in (v, rl\<lparr>rl_visitors := put ip v (rl_visitors rl)\<rparr>)))"

definition charge :: "rate_limiter \<Rightarrow> go_time \<Rightarrow> visitor \<Rightarrow> bool \<times> visitor" where
  "charge rl now v =
     (let v1 = refill rl now v in if vs_tokens v1 > 0 then (True, v1\<lparr>vs_tokens := vs_tokens v1 - 1\<rparr>) else (False, v1))"

definition allow :: "go_time \<Rightarrow> go_time \<Rightarrow> string \<Rightarrow> rate_limiter \<Rightarrow> bool \<times> rate_limiter" where
  "allow created now ip rl =
     (let (v, rl1) = find_visitor created ip rl; (allowed, v1) = charge rl1 now v
      in (allowed, rl1\<lparr>rl_visitors := put ip v1 (rl_visitors rl1)\<rparr>))"

text \<open>One tick of \<open>cleanupVisitors\<close>; the clock is read anew for every bucket.\<close>

definition cleanupVisitors :: "(string \<Rightarrow> go_time) \<Rightarrow> rate_limiter \<Rightarrow> rate_limiter" where
  "cleanupVisitors now rl =
     rl\<lparr>rl_visitors := filter (\<lambda>(ip, v). \<not> time_sub (now ip) (vs_lastSeen v) > rl_cleanup rl) (rl_visitors rl)\<rparr>"

section \<open>The middleware\<close>

record http_request =
  rq_forwardedFor :: string
  rq_realIP :: string
  rq_remoteAddr :: string
  rq_path :: string

definition getClientIP :: "http_request \<Rightarrow> string" where
  "getClientIP r =
     (if rq_forwardedFor r \<noteq> '''' then rq_forwardedFor r
      else if rq_realIP r \<noteq> '''' then rq_realIP r
      else rq_remoteAddr r)"

text \<open>What a middleware does with a request: hand it on, or answer it itself.\<close>

datatype verdict = Next | Reject string int

definition Middleware :: "go_time \<Rightarrow> go_time \<Rightarrow> http_request \<Rightarrow> rate_limiter \<Rightarrow> verdict \<times> rate_limiter" where
  "Middleware created now r rl =
     (let ip = getClientIP r; (ok, rl') = allow created now ip rl
      in if \<not> ok then (Reject ''Rate limit exceeded. Please try again later.'' 429, rl')
         else (Next, rl'))"

type_synonym endpoint_limiter = "(string, rate_limiter) gomap"

definition NewEndpointRateLimiter :: endpoint_limiter where
  "NewEndpointRateLimiter = []"

definition AddEndpoint :: "string \<Rightarrow> int \<Rightarrow> int \<Rightarrow> endpoint_limiter \<Rightarrow> endpoint_limiter" where
  "AddEndpoint path rate burst erl = put path (NewRateLimiter rate burst) erl"

definition EndpointMiddleware :: "go_time \<Rightarrow> go_time \<Rightarrow> http_request \<Rightarrow> endpoint_limiter \<Rightarrow> verdict \<times> endpoint_limiter" where
  "EndpointMiddleware created now r erl =
     (case lookup erl (rq_path r) of
        Some limiter \<Rightarrow>
          (let ip = getClientIP r; (ok, limiter') = allow created now ip limiter;
               erl' = put (rq_path r) limiter' erl
           in if \<not> ok then (Reject ''Rate limit exceeded for this endpoint. Please try again later.'' 429, erl')
              else (Next, erl'))
      | None \<Rightarrow> (Next, erl))"

section \<open>How much a refill adds\<close>

text \<open>The rate in tokens per nanosecond, with an allowance for four roundings.\<close>

definition token_rate :: "int \<Rightarrow> rat" where
  "token_rate rate = of_int rate / 60000000000 * (1 + 1 / 2 ^ 50)"

lemma fl_upper_small: "1 / 2 ^ 40 \<le> x \<Longrightarrow> fl x \<le> x * (1 + 1 / 2 ^ 53)"
proof (rule fl_rel_error_pos)
  assume "1 / 2 ^ 40 \<le> x"
  moreover have "(2::rat) powi (-1022) \<le> 2 powi (-40)" by (rule power_int_increasing) simp_all
  moreover have "(2::rat) powi (-40) = 1 / 2 ^ 40" by (simp add: power_int_minus)
  ultimately show "2 powi (-1022) \<le> x" by linarith
qed

lemma fl_upper: "1 / 2 ^ 30 \<le> x \<Longrightarrow> fl x \<le> x * (1 + 1 / 2 ^ 53)"
  by (rule fl_upper_small) simp

lemma fl_lower: "1 / 2 ^ 30 \<le> x \<Longrightarrow> 1 / 2 ^ 30 \<le> fl x"
proof -
  assume x: "1 / 2 ^ 30 \<le> x"
  have "(2::rat) powi (-30) = 1 / 2 ^ 30" by (simp add: power_int_minus)
  with fl_dyadic [of 1 "-30"] have "fl (1 / 2 ^ 30) = 1 / 2 ^ 30" by simp
  with fl_mono [OF x] show ?thesis by simp
qed

lemma seconds_upper:
  assumes "0 < d" "d \<le> 2 ^ 62"
  obtains s where "seconds d = Fin s" "1 / 2 ^ 30 \<le> s" "s \<le> 2 ^ 34"
    "s \<le> of_int d / 1000000000 * (1 + 1 / 2 ^ 53) ^ 2"
proof -
  let ?q = "d div second" and ?r = "d mod second" and ?e = "1 + 1 / 2 ^ 53 :: rat"
  let ?x = "of_int ?r / 1000000000 :: rat"
  have q: "0 \<le> ?q" "?q \<le> 2 ^ 33" using assms by simp_all
  then have qr: "0 \<le> (of_int ?q :: rat)" "(of_int ?q :: rat) \<le> of_int (2 ^ 33)"
    by (simp_all only: of_int_0_le_iff of_int_le_iff)
  have "d = ?q * second + ?r" by simp
  then have "(of_int d :: rat) = of_int ?q * 1000000000 + of_int ?r"
    by (metis of_int_add of_int_mult of_int_numeral)
  then have d: "of_int d / 1000000000 = of_int ?q + ?x" by (simp add: field_simps)
  have v: "seconds d = Fin (fl (of_int ?q + fl ?x))" "0 \<le> fl ?x" "fl ?x \<le> 1"
    using seconds_value [of d] assms by simp_all
  have x: "?r = 0 \<or> 1 / 2 ^ 30 \<le> ?x"
  proof (cases "?r = 0")
    case False
    then have "1 \<le> ?r" using pos_mod_sign [of second d] by simp
    then have "(1::rat) \<le> of_int ?r" by (simp only: of_int_1_le_iff)
    then show ?thesis by simp
  qed simp
  have up: "fl ?x \<le> ?x * ?e" using x fl_upper [of ?x] by auto
  have lo: "1 / 2 ^ 30 \<le> of_int ?q + fl ?x"
  proof (cases "?q = 0")
    case True
    with assms(1) have "?r \<noteq> 0" using \<open>d = ?q * second + ?r\<close> by auto
    with x True show ?thesis using fl_lower [of ?x] by simp
  next
    case False
    with q(1) have "1 \<le> ?q" by simp
    then have "(1::rat) \<le> of_int ?q" by (simp only: of_int_1_le_iff)
    with v(2) show ?thesis by simp
  qed
  have "of_int ?q + fl ?x \<le> (of_int ?q + ?x) * ?e" using up qr(1) by (simp add: algebra_simps)
  then have "(of_int ?q + fl ?x) * ?e \<le> (of_int ?q + ?x) * ?e * ?e"
    by (rule mult_right_mono) simp
  with fl_upper [OF lo] have "fl (of_int ?q + fl ?x) \<le> of_int d / 1000000000 * ?e ^ 2"
    by (simp add: d power2_eq_square)
  moreover have "fl (of_int ?q + fl ?x) \<le> of_int (2 ^ 34)"
    using v(2,3) qr by (intro fl_le_int) simp_all
  ultimately show ?thesis using that [OF v(1) fl_lower [OF lo]] by simp
qed

lemma tokens_to_add_le:
  assumes "0 < d" "d \<le> 2 ^ 62" "1 \<le> rate" "rate \<le> 100000"
  shows "of_int (tokens_to_add d rate) \<le> token_rate rate * of_int d" "tokens_to_add d rate \<le> 2 ^ 52"
proof -
  let ?e = "1 + 1 / 2 ^ 53 :: rat"
  obtain s where s: "seconds d = Fin s" "1 / 2 ^ 30 \<le> s" "s \<le> 2 ^ 34"
    "s \<le> of_int d / 1000000000 * ?e ^ 2" using assms seconds_upper by blast
  have r: "1 \<le> (of_int rate :: rat)" "(of_int rate :: rat) \<le> 100000" using assms(3,4) by simp_all
  let ?m = "s * of_int rate"
  have m: "1 / 2 ^ 30 \<le> ?m" "?m \<le> 2 ^ 34 * 100000"
    using mult_mono [of "1 / 2 ^ 30" s 1 "of_int rate"] mult_mono [of s "2 ^ 34" "of_int rate" 100000] s r
    by simp_all
  have fm: "fl ?m \<le> of_int (2 ^ 34 * 100000)" using m(2) by (intro fl_le_int) simp_all
  have fl0: "1 / 2 ^ 30 \<le> fl ?m" using m(1) by (rule fl_lower)
  have dv: "0 \<le> fl ?m / 60" "fl ?m / 60 \<le> 2 ^ 52" using fm fl0 by simp_all
  have t: "tokens_to_add d rate = f_to_int (Fin (fl (fl ?m / 60)))"
    using s(1) m dv fm fl0 assms(3,4) by (simp add: tokens_to_add_def f_of_int_exact round64_Fin)
  have y: "0 \<le> fl (fl ?m / 60)" "fl (fl ?m / 60) \<le> of_int (2 ^ 52)"
    using dv by (intro fl_nonneg fl_le_int; simp)+
  have fits: "fits64 (rtrunc (fl (fl ?m / 60)))" and tr: "rtrunc (fl (fl ?m / 60)) = \<lfloor>fl (fl ?m / 60)\<rfloor>"
    using y by (auto simp: rtrunc_def fits64_def le_floor_iff floor_less_iff)
  from fits tr t have val: "tokens_to_add d rate = \<lfloor>fl (fl ?m / 60)\<rfloor>" by simp
  then show "tokens_to_add d rate \<le> 2 ^ 52" using y(2) by (simp add: floor_le_iff)
  have low: "1 / 2 ^ 40 \<le> fl ?m / 60" using fl0 by simp
  have "fl (fl ?m / 60) \<le> fl ?m / 60 * ?e"
    using low by (rule fl_upper_small)
  also have "\<dots> \<le> ?m * ?e / 60 * ?e" using fl_upper [OF m(1)] by simp
  also have "\<dots> \<le> (of_int d / 1000000000 * ?e ^ 2) * of_int rate * ?e / 60 * ?e"
    using s(4) r by (intro mult_right_mono divide_right_mono) simp_all
  also have "\<dots> = of_int rate / 60000000000 * of_int d * ?e ^ 4"
    by (simp add: power2_eq_square power4_eq_xxxx)
  also have "\<dots> \<le> of_int rate / 60000000000 * of_int d * (1 + 1 / 2 ^ 50)"
  proof (rule mult_left_mono)
    show "?e ^ 4 \<le> 1 + 1 / 2 ^ 50" by (simp add: power_divide)
  qed (use assms(1) r in simp)
  finally have "fl (fl ?m / 60) \<le> token_rate rate * of_int d" by (simp add: token_rate_def mult_ac)
  then show "of_int (tokens_to_add d rate) \<le> token_rate rate * of_int d"
    unfolding val using of_int_floor_le order_trans by blast
qed

lemma tokens_to_add_ge1:
  assumes "minute \<le> d" "d \<le> 2 ^ 62" "1 \<le> rate" "rate \<le> 100000"
  shows "1 \<le> tokens_to_add d rate"
proof -
  have q: "60 \<le> d div second" "d div second \<le> 2 ^ 33" using assms(1,2) by simp_all
  then have qr: "60 \<le> (of_int (d div second) :: rat)" "(of_int (d div second) :: rat) \<le> of_int (2 ^ 33)"
    by (metis of_int_le_iff of_int_numeral, simp only: of_int_le_iff)
  obtain s where s: "seconds d = Fin s" "of_int (d div second) \<le> s" "s \<le> of_int (d div second) + 1"
    using seconds_bounds [of d] assms by auto
  have sb: "60 \<le> s" "s \<le> 2 ^ 34" using s(2,3) qr by simp_all
  let ?m = "s * of_int rate"
  have r: "1 \<le> (of_int rate :: rat)" "(of_int rate :: rat) \<le> 100000" using assms(3,4) by simp_all
  have m: "60 \<le> ?m" "?m \<le> 2 ^ 34 * 100000"
    using mult_mono [of 60 s 1 "of_int rate"] mult_mono [of s "2 ^ 34" "of_int rate" 100000] sb r
    by simp_all
  have fm: "of_int 60 \<le> fl ?m" "fl ?m \<le> of_int (2 ^ 34 * 100000)"
    using m by (intro fl_ge_int fl_le_int; simp)+
  have dv: "1 \<le> fl ?m / 60" "fl ?m / 60 \<le> 2 ^ 52" using fm by simp_all
  have t: "tokens_to_add d rate = f_to_int (Fin (fl (fl ?m / 60)))"
    using s(1) m dv fm assms(3,4) by (simp add: tokens_to_add_def f_of_int_exact round64_Fin)
  have y: "of_int 1 \<le> fl (fl ?m / 60)" "fl (fl ?m / 60) \<le> of_int (2 ^ 52)"
    using dv by (intro fl_ge_int fl_le_int; simp)+
  then have "fits64 (rtrunc (fl (fl ?m / 60)))" "1 \<le> rtrunc (fl (fl ?m / 60))"
    by (auto simp: rtrunc_def fits64_def le_floor_iff floor_less_iff)
  with t show ?thesis by simp
qed

section \<open>The buckets\<close>

text \<open>The settings under which the arithmetic cannot overflow.\<close>

definition sane_limiter :: "rate_limiter \<Rightarrow> bool" where
  "sane_limiter rl \<longleftrightarrow> 1 \<le> rl_rate rl \<and> rl_rate rl \<le> 100000 \<and> 0 \<le> rl_burst rl \<and> rl_burst rl \<le> 2 ^ 62"

definition bucket_ok :: "int \<Rightarrow> go_time \<Rightarrow> visitor \<Rightarrow> bool" where
  "bucket_ok burst now v \<longleftrightarrow> 0 \<le> vs_tokens v \<and> vs_tokens v \<le> burst \<and> 0 \<le> vs_lastSeen v \<and> vs_lastSeen v \<le> now"

definition buckets_ok :: "go_time \<Rightarrow> rate_limiter \<Rightarrow> bool" where
  "buckets_ok now rl \<longleftrightarrow> wf_map (rl_visitors rl) \<and> list_all (\<lambda>(ip, v). bucket_ok (rl_burst rl) now v) (rl_visitors rl)"

lemma buckets_ok_lookup:
  "buckets_ok now rl \<Longrightarrow> lookup (rl_visitors rl) ip = Some v \<Longrightarrow> bucket_ok (rl_burst rl) now v"
  by (force simp: buckets_ok_def list_all_iff dest: map_of_SomeD)

lemma bucket_ok_later: "bucket_ok b t v \<Longrightarrow> t \<le> t' \<Longrightarrow> bucket_ok b t' v"
  by (simp add: bucket_ok_def)

lemma buckets_ok_put:
  "buckets_ok t rl \<Longrightarrow> t \<le> t' \<Longrightarrow> bucket_ok (rl_burst rl) t' v \<Longrightarrow>
     buckets_ok t' (rl\<lparr>rl_visitors := put ip v (rl_visitors rl)\<rparr>)"
  by (fastforce simp: buckets_ok_def list_all_iff dest!: set_put intro: bucket_ok_later)

lemma tokens_to_add_0: "1 \<le> r \<Longrightarrow> r \<le> 100000 \<Longrightarrow> tokens_to_add 0 r = 0"
  by (simp add: tokens_to_add_def seconds_def quot_def f_of_int_exact round64_Fin f_of_int_def
    rtrunc_def fits64_def)

lemma refill_same: "sane_limiter rl \<Longrightarrow> refill rl (vs_lastSeen v) v = v"
  by (simp add: refill_def time_sub_def tokens_to_add_0 sane_limiter_def)

lemma refill_cases:
  assumes "sane_limiter rl" "bucket_ok (rl_burst rl) t v" "t \<le> now" "now \<le> 2 ^ 62"
  shows "refill rl now v = v \<or>
    (\<exists>k > 0. refill rl now v = v\<lparr>vs_tokens := min (rl_burst rl) (vs_tokens v + k), vs_lastSeen := now\<rparr>
        \<and> of_int k \<le> token_rate (rl_rate rl) * of_int (now - vs_lastSeen v))"
proof -
  let ?d = "now - vs_lastSeen v"
  have d: "time_sub now (vs_lastSeen v) = ?d" "0 \<le> ?d" "?d \<le> 2 ^ 62"
    using assms by (auto simp: bucket_ok_def time_sub_def)
  show ?thesis
  proof (cases "?d = 0 \<or> tokens_to_add ?d (rl_rate rl) \<le> 0")
    case True
    with assms(1) have "tokens_to_add ?d (rl_rate rl) \<le> 0"
      by (auto simp: sane_limiter_def tokens_to_add_0)
    with d(1) show ?thesis by (simp add: refill_def)
  next
    case False
    let ?k = "tokens_to_add ?d (rl_rate rl)"
    have k: "of_int ?k \<le> token_rate (rl_rate rl) * of_int ?d" "?k \<le> 2 ^ 52"
      using tokens_to_add_le [of ?d "rl_rate rl"] False d assms(1) by (auto simp: sane_limiter_def)
    have "fits64 (vs_tokens v + ?k)"
      using False k(2) assms(1,2) by (auto simp: fits64_def sane_limiter_def bucket_ok_def)
    with False d(1) k(1) show ?thesis
      by (intro disjI2 exI [where x = ?k]) (auto simp: refill_def Let_def min_def)
  qed
qed

lemma bucket_ok_refill:
  "sane_limiter rl \<Longrightarrow> bucket_ok (rl_burst rl) t v \<Longrightarrow> t \<le> now \<Longrightarrow> now \<le> 2 ^ 62 \<Longrightarrow>
     bucket_ok (rl_burst rl) now (refill rl now v)"
  using refill_cases [of rl t v now] by (auto simp: bucket_ok_def sane_limiter_def)

text \<open>The bucket a request finds or creates.\<close>

definition bucket_of :: "rate_limiter \<Rightarrow> go_time \<Rightarrow> string \<Rightarrow> visitor" where
  "bucket_of rl created ip = (case lookup (rl_visitors rl) ip of
     Some v \<Rightarrow> v | None \<Rightarrow> \<lparr>vs_tokens = rl_burst rl, vs_lastSeen = created\<rparr>)"

definition take_token :: "visitor \<Rightarrow> visitor" where
  "take_token v = (if vs_tokens v > 0 then v\<lparr>vs_tokens := vs_tokens v - 1\<rparr> else v)"

lemma allow_eq:
  "allow created now ip rl =
     (let v = refill rl now (bucket_of rl created ip)
      in (vs_tokens v > 0, rl\<lparr>rl_visitors := put ip (take_token v) (rl_visitors rl)\<rparr>))"
proof -
  have r: "refill (rl\<lparr>rl_visitors := m\<rparr>) now v = refill rl now v" for m v by (simp add: refill_def Let_def)
  have u: "put ip x (put ip y m) = put ip x m" for x y and m :: "(string, visitor) gomap" by (simp add: update_last)
  show ?thesis
    by (cases "lookup (rl_visitors rl) ip")
      (simp_all add: allow_def find_visitor_def charge_def bucket_of_def take_token_def r u Let_def)
qed

lemma bucket_of_ok:
  "sane_limiter rl \<Longrightarrow> buckets_ok t rl \<Longrightarrow> 0 \<le> t \<Longrightarrow> t \<le> created \<Longrightarrow> bucket_ok (rl_burst rl) created (bucket_of rl created ip)"
  using buckets_ok_lookup [of t rl ip]
  by (auto simp: bucket_of_def sane_limiter_def intro: bucket_ok_later split: option.splits)
    (simp add: bucket_ok_def)

lemma buckets_ok_allow:
  assumes "sane_limiter rl" "buckets_ok t rl" "0 \<le> t" "t \<le> created" "created \<le> now" "now \<le> 2 ^ 62"
  shows "buckets_ok now (snd (allow created now ip rl))"
proof -
  have "bucket_ok (rl_burst rl) now (refill rl now (bucket_of rl created ip))"
    by (rule bucket_ok_refill [OF assms(1) bucket_of_ok [OF assms(1-4)] assms(5,6)])
  then have "bucket_ok (rl_burst rl) now (take_token (refill rl now (bucket_of rl created ip)))"
    by (simp add: take_token_def bucket_ok_def)
  with assms(2,4,5) show ?thesis by (simp add: allow_eq Let_def buckets_ok_put)
qed

lemma buckets_ok_cleanup: "buckets_ok t rl \<Longrightarrow> t \<le> t' \<Longrightarrow> buckets_ok t' (cleanupVisitors now rl)"
  by (fastforce simp: buckets_ok_def cleanupVisitors_def list_all_iff distinct_map_filter intro: bucket_ok_later)

section \<open>A history of the limiter\<close>

datatype rl_event = Request go_time go_time string | Cleanup go_time

fun rl_step :: "rl_event \<Rightarrow> rate_limiter \<Rightarrow> bool \<times> rate_limiter" where
  "rl_step (Request created now ip) rl = allow created now ip rl"
| "rl_step (Cleanup now) rl = (False, cleanupVisitors (\<lambda>_. now) rl)"

fun event_end :: "rl_event \<Rightarrow> go_time" where
  "event_end (Request created now ip) = now"
| "event_end (Cleanup now) = now"

fun from_ip :: "string \<Rightarrow> rl_event \<Rightarrow> bool" where
  "from_ip ip (Request _ _ ip') = (ip' = ip)"
| "from_ip ip (Cleanup _) = False"

fun granted :: "string \<Rightarrow> rl_event list \<Rightarrow> rate_limiter \<Rightarrow> int" where
  "granted ip [] rl = 0"
| "granted ip (e # es) rl =
     (let (ok, rl') = rl_step e rl in (if ok \<and> from_ip ip e then 1 else 0) + granted ip es rl')"

text \<open>The clock readings of a history do not go back.\<close>

fun timed :: "go_time \<Rightarrow> rl_event list \<Rightarrow> bool" where
  "timed t [] = True"
| "timed t (Request created now ip # es) = (t \<le> created \<and> created \<le> now \<and> timed now es)"
| "timed t (Cleanup now # es) = (t \<le> now \<and> timed now es)"

definition end_time :: "go_time \<Rightarrow> rl_event list \<Rightarrow> go_time" where
  "end_time t es = (if es = [] then t else event_end (last es))"

lemma end_time_Cons: "end_time t (e # es) = end_time (event_end e) es"
  by (simp add: end_time_def)

lemma timed_end: "timed t es \<Longrightarrow> t \<le> end_time t es"
proof (induction es arbitrary: t)
  case (Cons e es)
  then show ?case by (cases e) (force simp: end_time_Cons)+
qed (simp add: end_time_def)

text \<open>What an address has been granted, with what it still may spend, is paid for by the initial
burst and the time.\<close>

definition paid :: "string \<Rightarrow> go_time \<Rightarrow> int \<Rightarrow> go_time \<Rightarrow> rate_limiter \<Rightarrow> bool" where
  "paid ip t0 a now rl = (case lookup (rl_visitors rl) ip of
     None \<Rightarrow> of_int a \<le> token_rate (rl_rate rl) * of_int (now - t0)
   | Some v \<Rightarrow> of_int (a + vs_tokens v) \<le> of_int (rl_burst rl) + token_rate (rl_rate rl) * of_int (vs_lastSeen v - t0))"

lemma token_rate_mono: "1 \<le> r \<Longrightarrow> x \<le> y \<Longrightarrow> token_rate r * of_int x \<le> token_rate r * of_int y"
  by (intro mult_left_mono) (simp_all add: token_rate_def)

lemma paid_bucket_of:
  assumes "paid ip t0 a t rl" "sane_limiter rl" "t \<le> created"
  shows "of_int (a + vs_tokens (bucket_of rl created ip))
    \<le> of_int (rl_burst rl) + token_rate (rl_rate rl) * of_int (vs_lastSeen (bucket_of rl created ip) - t0)"
proof (cases "lookup (rl_visitors rl) ip")
  case None
  then have "of_int a \<le> token_rate (rl_rate rl) * of_int (t - t0)" using assms(1) by (simp add: paid_def)
  also have "\<dots> \<le> token_rate (rl_rate rl) * of_int (created - t0)"
    using assms(2,3) by (intro token_rate_mono) (simp_all add: sane_limiter_def)
  finally show ?thesis using None by (simp add: bucket_of_def)
next
  case (Some v)
  then show ?thesis using assms(1) by (simp add: paid_def bucket_of_def)
qed

lemma paid_allow:
  assumes "paid ip t0 a t rl" "sane_limiter rl" "buckets_ok t rl" "0 \<le> t" "t \<le> created"
    "created \<le> now" "now \<le> 2 ^ 62" "allow created now ip rl = (ok, rl')"
  shows "paid ip t0 (a + (if ok then 1 else 0)) now rl'"
proof -
  let ?b = "bucket_of rl created ip" and ?v = "refill rl now (bucket_of rl created ip)"
  have b: "bucket_ok (rl_burst rl) created ?b" using assms by (intro bucket_of_ok) simp_all
  note p = paid_bucket_of [OF assms(1,2,5)]
  have "of_int (a + vs_tokens ?v) \<le> of_int (rl_burst rl) + token_rate (rl_rate rl) * of_int (vs_lastSeen ?v - t0)"
    using refill_cases [OF assms(2) b assms(6,7)]
  proof (elim disjE exE conjE)
    assume "?v = ?b" with p show ?thesis by simp
  next
    fix k assume k: "0 < k"
      "?v = ?b\<lparr>vs_tokens := min (rl_burst rl) (vs_tokens ?b + k), vs_lastSeen := now\<rparr>"
      "of_int k \<le> token_rate (rl_rate rl) * of_int (now - vs_lastSeen ?b)"
    have "a + vs_tokens ?v \<le> a + vs_tokens ?b + k" using k(2) by simp
    then have "(of_int (a + vs_tokens ?v) :: rat) \<le> of_int (a + vs_tokens ?b) + of_int k"
      by (simp only: of_int_add [symmetric] of_int_le_iff)
    also have "\<dots> \<le> of_int (rl_burst rl) + token_rate (rl_rate rl) * of_int (vs_lastSeen ?b - t0)
        + token_rate (rl_rate rl) * of_int (now - vs_lastSeen ?b)"
      using p k(3) by simp
    also have "\<dots> = of_int (rl_burst rl) + token_rate (rl_rate rl) * of_int (vs_lastSeen ?v - t0)"
      using k(2) by (simp add: algebra_simps)
    finally show ?thesis .
  qed
  then show ?thesis
    using assms(8) by (auto simp: allow_eq Let_def paid_def take_token_def)
qed

lemma paid_other:
  assumes "paid ip t0 a t rl" "sane_limiter rl" "t \<le> now" "ip' \<noteq> ip" "allow created now ip' rl = (ok, rl')"
  shows "paid ip t0 a now rl'"
proof -
  have "token_rate (rl_rate rl) * of_int (t - t0) \<le> token_rate (rl_rate rl) * of_int (now - t0)"
    using assms(2,3) by (intro token_rate_mono) (simp_all add: sane_limiter_def)
  then show ?thesis
    using assms by (auto simp: allow_eq Let_def paid_def split: option.splits)
qed

lemma allow_settings: "rl_rate (snd (allow c n ip rl)) = rl_rate rl \<and> rl_burst (snd (allow c n ip rl)) = rl_burst rl
    \<and> rl_cleanup (snd (allow c n ip rl)) = rl_cleanup rl"
  by (simp add: allow_eq Let_def)

lemma paid_cleanup:
  assumes "paid ip t0 a t rl" "sane_limiter rl" "buckets_ok t rl" "t \<le> now" "now \<le> 2 ^ 62"
    "rl_cleanup rl = 5 * minute" "rl_burst rl \<le> 5 * rl_rate rl"
  shows "paid ip t0 a now (cleanupVisitors (\<lambda>_. now) rl)"
proof (cases "lookup (rl_visitors rl) ip")
  case None
  have "token_rate (rl_rate rl) * of_int (t - t0) \<le> token_rate (rl_rate rl) * of_int (now - t0)"
    using assms(2,4) by (intro token_rate_mono) (simp_all add: sane_limiter_def)
  moreover have "lookup (rl_visitors (cleanupVisitors (\<lambda>_. now) rl)) ip = None"
    using None by (auto simp: cleanupVisitors_def map_of_eq_None_iff)
  ultimately show ?thesis using None assms(1) by (simp add: paid_def cleanupVisitors_def)
next
  case (Some v)
  have wf: "wf_map (rl_visitors rl)" using assms(3) by (simp add: buckets_ok_def)
  have bv: "bucket_ok (rl_burst rl) t v" using assms(3) Some by (rule buckets_ok_lookup)
  have ts: "time_sub now (vs_lastSeen v) = now - vs_lastSeen v"
    using bv assms(4,5) by (auto simp: bucket_ok_def time_sub_def)
  let ?P = "\<lambda>(ip, v). \<not> time_sub now (vs_lastSeen v) > rl_cleanup rl"
  have lk: "lookup (filter ?P (rl_visitors rl)) ip = (if ?P (ip, v) then Some v else None)"
    using Some wf
    by (auto simp: map_of_eq_None_iff lookup_iff_mem distinct_map_filter dest: eq_key_imp_eq_value)
  show ?thesis
  proof (cases "?P (ip, v)")
    case True
    with lk Some assms(1) show ?thesis by (simp add: paid_def cleanupVisitors_def)
  next
    case False
    then have old: "5 * minute \<le> now - vs_lastSeen v" using ts assms(6) by simp
    have "of_int (rl_burst rl) \<le> (5 * of_int (rl_rate rl) :: rat)" using assms(7) by (metis of_int_le_iff of_int_mult of_int_numeral)
    also have "\<dots> \<le> token_rate (rl_rate rl) * of_int (5 * minute)"
      using assms(2) by (simp add: token_rate_def sane_limiter_def)
    also have "\<dots> \<le> token_rate (rl_rate rl) * of_int (now - vs_lastSeen v)"
      using assms(2) old by (intro token_rate_mono) (simp_all add: sane_limiter_def)
    finally have "of_int (rl_burst rl) \<le> token_rate (rl_rate rl) * of_int (now - vs_lastSeen v)" .
    moreover have "of_int a \<le> (of_int (a + vs_tokens v) :: rat)" using bv by (simp add: bucket_ok_def)
    ultimately have "of_int a \<le> token_rate (rl_rate rl) * of_int (now - t0)"
      using Some assms(1) by (simp add: paid_def algebra_simps)
    with lk False show ?thesis by (simp add: paid_def cleanupVisitors_def)
  qed
qed

lemma paid_step:
  assumes "paid ip t0 a t rl" "sane_limiter rl" "buckets_ok t rl" "0 \<le> t" "timed t (e # es)" "event_end e \<le> 2 ^ 62"
    "rl_cleanup rl = 5 * minute" "rl_burst rl \<le> 5 * rl_rate rl" "rl_step e rl = (ok, rl')"
  shows "paid ip t0 (a + (if ok \<and> from_ip ip e then 1 else 0)) (event_end e) rl' \<and> buckets_ok (event_end e) rl'
    \<and> rl_rate rl' = rl_rate rl \<and> rl_burst rl' = rl_burst rl \<and> rl_cleanup rl' = rl_cleanup rl"
proof (cases e)
  case (Request created now ip')
  then have al: "allow created now ip' rl = (ok, rl')" and tm: "t \<le> created" "created \<le> now" "now \<le> 2 ^ 62"
    using assms(5,6,9) by simp_all
  note set = allow_settings [of created now ip' rl, unfolded al snd_conv]
  have bk: "buckets_ok now rl'"
    using buckets_ok_allow [OF assms(2,3,4) tm, of ip'] al by simp
  have "paid ip t0 (a + (if ok \<and> from_ip ip e then 1 else 0)) now rl'"
  proof (cases "ip' = ip")
    case True
    with al have al': "allow created now ip rl = (ok, rl')" by simp
    from paid_allow [OF assms(1-4) tm al'] Request True show ?thesis by (simp del: of_int_add)
  next
    case False
    with paid_other [OF assms(1,2) _ False al] tm Request show ?thesis by simp
  qed
  with bk set Request show ?thesis by simp
next
  case (Cleanup now)
  then have "rl' = cleanupVisitors (\<lambda>_. now) rl" "\<not> ok" "now \<le> 2 ^ 62" "t \<le> now"
    using assms(5,6,9) by simp_all
  with Cleanup paid_cleanup [OF assms(1-3)] assms(7,8) buckets_ok_cleanup [OF assms(3)]
  show ?thesis by (simp add: cleanupVisitors_def)
qed

lemma granted_le:
  assumes "paid ip t0 a t rl" "sane_limiter rl" "buckets_ok t rl" "0 \<le> t" "timed t es"
    "end_time t es \<le> 2 ^ 62" "rl_cleanup rl = 5 * minute" "rl_burst rl \<le> 5 * rl_rate rl"
  shows "of_int (a + granted ip es rl)
    \<le> of_int (rl_burst rl) + token_rate (rl_rate rl) * of_int (end_time t es - t0)"
  using assms
proof (induction es arbitrary: a t rl)
  case Nil
  show ?case
  proof (cases "lookup (rl_visitors rl) ip")
    case None
    then show ?thesis using Nil by (simp add: paid_def end_time_def sane_limiter_def)
  next
    case (Some v)
    then have b: "bucket_ok (rl_burst rl) t v" using Nil.prems(3) buckets_ok_lookup by blast
    then have "token_rate (rl_rate rl) * of_int (vs_lastSeen v - t0) \<le> token_rate (rl_rate rl) * of_int (t - t0)"
      using Nil.prems(2) by (intro token_rate_mono) (simp_all add: sane_limiter_def bucket_ok_def)
    moreover have "(of_int a :: rat) \<le> of_int (a + vs_tokens v)" using b by (simp add: bucket_ok_def)
    ultimately show ?thesis using Some Nil.prems(1) by (simp add: paid_def end_time_def)
  qed
next
  case (Cons e es)
  obtain ok rl' where st: "rl_step e rl = (ok, rl')" by fastforce
  let ?c = "if ok \<and> from_ip ip e then 1 else 0" and ?t = "event_end e"
  have te: "timed ?t es" "t \<le> ?t" using Cons.prems(5) by (cases e; simp)+
  have end62: "?t \<le> 2 ^ 62" using Cons.prems(6) timed_end [OF te(1)] by (simp add: end_time_Cons)
  have "paid ip t0 (a + ?c) ?t rl' \<and> buckets_ok ?t rl' \<and> rl_rate rl' = rl_rate rl
      \<and> rl_burst rl' = rl_burst rl \<and> rl_cleanup rl' = rl_cleanup rl"
    using Cons.prems end62 st by (intro paid_step [of ip t0 a t rl e es]) simp_all
  moreover from this have "sane_limiter rl'" using Cons.prems(2) by (simp add: sane_limiter_def)
  ultimately have "of_int (a + ?c + granted ip es rl')
    \<le> of_int (rl_burst rl) + token_rate (rl_rate rl) * of_int (end_time ?t es - t0)"
    using Cons.IH [of "a + ?c" ?t rl'] te Cons.prems(4,6,7,8) by (simp add: end_time_Cons)
  then show ?case using st by (simp add: end_time_Cons add.assoc)
qed

section \<open>Properties\<close>

text \<open>C10. A fresh limiter grants an address at most the burst plus the rate times the time that
has passed, up to the rounding of the refills, whatever the history of requests and clean-ups: a
clean-up that forgets a bucket gives the client nothing. This needs a burst of at most five
times the rate, because the clean-up forgets buckets after five minutes.\<close>

theorem rate_limit_bound:
  assumes "1 \<le> rate" "rate \<le> 100000" "0 \<le> burst" "burst \<le> 5 * rate"
    and "0 \<le> t" "timed t es" "end_time t es \<le> 2 ^ 62"
  shows "of_int (granted ip es (NewRateLimiter rate burst))
    \<le> of_int burst + of_int rate * of_int (end_time t es - t) / 60000000000 * (1 + 1 / 2 ^ 50 :: rat)"
  using granted_le [of ip t 0 t "NewRateLimiter rate burst" es] assms
  by (simp add: paid_def sane_limiter_def buckets_ok_def NewRateLimiter_def token_rate_def)

definition sample_history :: "rl_event list" where
  "sample_history = [Request 5 5 ''a'', Request 5 5 ''a'', Request 5 5 ''a'', Request 7 7 ''b'', Cleanup 12]"

lemma allow_same_time:
  "sane_limiter rl \<Longrightarrow> vs_lastSeen (bucket_of rl now ip) = now \<Longrightarrow>
     allow now now ip rl = (vs_tokens (bucket_of rl now ip) > 0,
       rl\<lparr>rl_visitors := put ip (take_token (bucket_of rl now ip)) (rl_visitors rl)\<rparr>)"
  by (metis (no_types) allow_eq refill_same)

lemmas allow_eval = allow_same_time bucket_of_def take_token_def sane_limiter_def NewRateLimiter_def

theorem rate_limit_bound_witness:
  "(of_int (granted ''a'' sample_history (NewRateLimiter 100 2)) :: rat)
     \<le> 2 + 100 * 7 / 60000000000 * (1 + 1 / 2 ^ 50)
   \<and> granted ''a'' sample_history (NewRateLimiter 100 2) = 2"
proof
  show "granted ''a'' sample_history (NewRateLimiter 100 2) = 2"
    by (simp add: sample_history_def allow_eval)
  show "(of_int (granted ''a'' sample_history (NewRateLimiter 100 2)) :: rat)
     \<le> 2 + 100 * 7 / 60000000000 * (1 + 1 / 2 ^ 50)"
    using rate_limit_bound [of 100 2 5 sample_history "''a''"]
    by (simp add: sample_history_def end_time_def)
qed

text \<open>No bucket ever holds fewer than zero or more than \<open>burst\<close> tokens: requests, granted or
not, and clean-ups keep that.\<close>

theorem tokens_stay_in_range:
  assumes "sane_limiter rl" "buckets_ok t rl" "0 \<le> t" "timed t [e]" "event_end e \<le> 2 ^ 62"
    and "lookup (rl_visitors (snd (rl_step e rl))) ip = Some v"
  shows "0 \<le> vs_tokens v \<and> vs_tokens v \<le> rl_burst rl \<and> buckets_ok (event_end e) (snd (rl_step e rl))"
proof -
  have ok: "buckets_ok (event_end e) (snd (rl_step e rl))"
    using assms buckets_ok_allow buckets_ok_cleanup by (cases e) auto
  moreover have "rl_burst (snd (rl_step e rl)) = rl_burst rl"
    by (cases e) (simp_all add: allow_settings cleanupVisitors_def)
  ultimately show ?thesis using buckets_ok_lookup [OF ok assms(6)] by (simp add: bucket_ok_def)
qed

theorem tokens_stay_in_range_witness:
  "vs_tokens \<lparr>vs_tokens = 1, vs_lastSeen = 5\<rparr> \<le> 2
   \<and> buckets_ok 5 (snd (rl_step (Request 5 5 ''a'') (NewRateLimiter 100 2)))"
proof -
  have "lookup (rl_visitors (snd (rl_step (Request 5 5 ''a'') (NewRateLimiter 100 2)))) ''a''
      = Some \<lparr>vs_tokens = 1, vs_lastSeen = 5\<rparr>" by (simp add: allow_eval)
  from tokens_stay_in_range [OF _ _ _ _ _ this, of 5] show ?thesis
    by (simp add: sane_limiter_def buckets_ok_def NewRateLimiter_def)
qed

text \<open>C33. A client that waits a minute is served: with a rate and a burst of at least one no
bucket stays empty.\<close>

theorem no_starvation:
  assumes "sane_limiter rl" "buckets_ok t rl" "1 \<le> rl_burst rl"
    and "lookup (rl_visitors rl) ip = Some v" "vs_lastSeen v + minute \<le> now" "t \<le> now" "now \<le> 2 ^ 62"
  shows "fst (allow created now ip rl)"
proof -
  have b: "bucket_ok (rl_burst rl) t v" using assms(2,4) by (rule buckets_ok_lookup)
  have ts: "time_sub now (vs_lastSeen v) = now - vs_lastSeen v"
    using b assms(5,7) by (auto simp: bucket_ok_def time_sub_def)
  have d: "minute \<le> now - vs_lastSeen v" "now - vs_lastSeen v \<le> 2 ^ 62"
    using b assms(5,7) by (simp_all add: bucket_ok_def)
  let ?k = "tokens_to_add (now - vs_lastSeen v) (rl_rate rl)"
  have k: "1 \<le> ?k" "?k \<le> 2 ^ 52"
    using tokens_to_add_ge1 [OF d] tokens_to_add_le(2) [of "now - vs_lastSeen v" "rl_rate rl"] d assms(1)
    by (simp_all add: sane_limiter_def)
  have "fits64 (vs_tokens v + ?k)" using k b assms(1) by (simp add: fits64_def sane_limiter_def bucket_ok_def)
  with k b assms(3,4) ts show ?thesis
    by (simp add: allow_eq bucket_of_def refill_def Let_def bucket_ok_def)
qed

definition empty_bucket :: rate_limiter where
  "empty_bucket = (NewRateLimiter 1 2)\<lparr>rl_visitors := [(''a'', \<lparr>vs_tokens = 0, vs_lastSeen = 7\<rparr>)]\<rparr>"

theorem no_starvation_witness: "fst (allow 0 (7 + minute) ''a'' empty_bucket)"
  using no_starvation [of empty_bucket 7 "''a''" "\<lparr>vs_tokens = 0, vs_lastSeen = 7\<rparr>" "7 + minute" 0]
  by (simp add: empty_bucket_def NewRateLimiter_def sane_limiter_def buckets_ok_def bucket_ok_def)

lemma allow_fresh:
  assumes "sane_limiter rl" "1 \<le> rl_burst rl" "lookup (rl_visitors rl) ip = None"
    "0 \<le> created" "created \<le> now" "now \<le> 2 ^ 62"
  shows "fst (allow created now ip rl)"
proof -
  let ?b = "\<lparr>vs_tokens = rl_burst rl, vs_lastSeen = created\<rparr>"
  have "bucket_ok (rl_burst rl) created ?b" using assms by (simp add: bucket_ok_def sane_limiter_def)
  from refill_cases [OF assms(1) this assms(5,6)] have "0 < vs_tokens (refill rl now ?b)"
    using assms(2) by auto
  with assms(3) show ?thesis by (simp add: allow_eq bucket_of_def Let_def)
qed

text \<open>
  A clean-up between the two locks of a request. Where it removes the bucket that the request has found, the request
  is answered as without it, from the bucket that nobody else has any more, and is counted nowhere: the next one
  finds a new bucket, full. Otherwise it is as if the clean-up came first.
\<close>

definition allow_interrupted :: "go_time \<Rightarrow> go_time \<Rightarrow> (string \<Rightarrow> go_time) \<Rightarrow> string \<Rightarrow> rate_limiter \<Rightarrow> bool \<times> rate_limiter" where
  "allow_interrupted created now seen ip rl =
     (let (v, rl1) = find_visitor created ip rl; rl2 = cleanupVisitors seen rl1; (allowed, v1) = charge rl2 now v
      in (allowed, if lookup (rl_visitors rl2) ip = None then rl2 else rl2\<lparr>rl_visitors := put ip v1 (rl_visitors rl2)\<rparr>))"

theorem cleanup_between_locks:
  assumes "wf_map (rl_visitors rl)"
  shows "let rl2 = cleanupVisitors seen (snd (find_visitor created ip rl)) in
    allow_interrupted created now seen ip rl =
      (if lookup (rl_visitors rl2) ip = None then (fst (allow created now ip rl), rl2) else allow created now ip rl2)"
proof -
  obtain v rl1 where f: "find_visitor created ip rl = (v, rl1)" by fastforce
  then have v: "lookup (rl_visitors rl1) ip = Some v" "wf_map (rl_visitors rl1)"
    using assms by (auto simp: find_visitor_def Let_def split: option.splits)
  let ?rl2 = "cleanupVisitors seen rl1"
  have r: "charge ?rl2 now v = charge rl1 now v" by (simp add: charge_def refill_def cleanupVisitors_def Let_def)
  have a: "fst (allow created now ip rl) = fst (charge rl1 now v)" by (simp add: allow_def f case_prod_beta)
  have k: "lookup (rl_visitors ?rl2) ip \<noteq> None \<Longrightarrow> find_visitor created ip ?rl2 = (v, ?rl2)"
  proof -
    assume "lookup (rl_visitors ?rl2) ip \<noteq> None"
    then obtain u where u: "lookup (rl_visitors ?rl2) ip = Some u" by blast
    then have "(ip, u) \<in> set (rl_visitors rl1)"
      by (auto simp: cleanupVisitors_def dest: map_of_SomeD)
    with v have "u = v" by (simp add: map_of_is_SomeI)
    with u show ?thesis by (simp add: find_visitor_def)
  qed
  show ?thesis using a k by (auto simp: allow_interrupted_def allow_def f r Let_def case_prod_beta)
qed

fun verdicts :: "(go_time \<times> go_time \<times> http_request) list \<Rightarrow> rate_limiter \<Rightarrow> verdict list" where
  "verdicts [] rl = []"
| "verdicts ((created, now, r) # rs) rl = (let (v, rl') = Middleware created now r rl in v # verdicts rs rl')"

text \<open>The address a client is counted under is the unchecked \<open>X-Forwarded-For\<close> header, so a
client that sends a new value with every request is never limited.\<close>

theorem spoofed_address_is_never_limited:
  assumes "sane_limiter rl" "1 \<le> rl_burst rl"
    and "distinct (map (\<lambda>(_, _, r). rq_forwardedFor r) rs)"
    and "list_all (\<lambda>(created, now, r). 0 \<le> created \<and> created \<le> now \<and> now \<le> 2 ^ 62 \<and> rq_forwardedFor r \<noteq> ''''
          \<and> lookup (rl_visitors rl) (rq_forwardedFor r) = None) rs"
  shows "verdicts rs rl = replicate (length rs) Next"
  using assms
proof (induction rs arbitrary: rl)
  case (Cons x rs)
  obtain created now r where x: "x = (created, now, r)" by (cases x)
  let ?rl = "snd (allow created now (rq_forwardedFor r) rl)"
  have "fst (allow created now (rq_forwardedFor r) rl)"
    using Cons.prems x by (intro allow_fresh) simp_all
  then have m: "Middleware created now r rl = (Next, ?rl)"
    using Cons.prems(4) x by (simp add: Middleware_def getClientIP_def Let_def case_prod_beta)
  have "sane_limiter ?rl" "1 \<le> rl_burst ?rl"
    using Cons.prems(1,2) by (simp_all add: sane_limiter_def allow_settings)
  moreover have "list_all (\<lambda>(created, now, r). 0 \<le> created \<and> created \<le> now \<and> now \<le> 2 ^ 62
      \<and> rq_forwardedFor r \<noteq> '''' \<and> lookup (rl_visitors ?rl) (rq_forwardedFor r) = None) rs"
    unfolding list_all_iff
  proof
    fix y assume y: "y \<in> set rs"
    obtain c n q where q: "y = (c, n, q)" by (cases y)
    with y Cons.prems(3) x have "rq_forwardedFor q \<noteq> rq_forwardedFor r" by force
    moreover have "0 \<le> c \<and> c \<le> n \<and> n \<le> 2 ^ 62 \<and> rq_forwardedFor q \<noteq> ''''
        \<and> lookup (rl_visitors rl) (rq_forwardedFor q) = None"
      using Cons.prems(4) y q unfolding list_all_iff by fastforce
    ultimately show "case y of (created, now, r) \<Rightarrow> 0 \<le> created \<and> created \<le> now \<and> now \<le> 2 ^ 62
      \<and> rq_forwardedFor r \<noteq> '''' \<and> lookup (rl_visitors ?rl) (rq_forwardedFor r) = None"
      using q by (simp add: allow_eq Let_def)
  qed
  ultimately have "verdicts rs ?rl = replicate (length rs) Next"
    using Cons.prems(3) by (intro Cons.IH) simp_all
  with m x show ?case by simp
qed simp

definition spoofed :: "nat \<Rightarrow> go_time \<times> go_time \<times> http_request" where
  "spoofed n = (0, 0, \<lparr>rq_forwardedFor = replicate (Suc n) CHR ''x'', rq_realIP = '''',
     rq_remoteAddr = ''10.0.0.1'', rq_path = ''/transcode''\<rparr>)"

theorem spoofed_address_witness:
  "verdicts [spoofed 0, spoofed 1, spoofed 2] (NewRateLimiter 100 1) = [Next, Next, Next]"
  using spoofed_address_is_never_limited [of "NewRateLimiter 100 1" "[spoofed 0, spoofed 1, spoofed 2]"]
  by (simp add: sane_limiter_def NewRateLimiter_def spoofed_def numeral_3_eq_3)

end
