(* ===== verification/Go_Text.thy ===== *)
theory Go_Text
  imports Prelude "HOL-Library.Sublist" "HOL-Library.Char_ord" "HOL-Library.List_Lexorder"
begin

text \<open>
  The parts of Go's \<open>fmt\<close>, \<open>strconv\<close>, \<open>strings\<close> and \<open>path/filepath\<close> packages the program
  uses. A Go string is a list of bytes, here a \<open>char list\<close>.

  Main facts: decimal printing is injective and is undone by the parsers, and
  \<open>filepath.Join\<close> of a directory with a plain name appends exactly that component.
\<close>

section \<open>Decimal numbers\<close>

definition digit_char :: "nat \<Rightarrow> char" where
  "digit_char d = char_of (48 + d)"

definition is_digit :: "char \<Rightarrow> bool" where
  "is_digit c \<longleftrightarrow> 48 \<le> (of_char c :: nat) \<and> (of_char c :: nat) \<le> 57"

definition char_digit :: "char \<Rightarrow> nat" where
  "char_digit c = of_char c - 48"

lemma digit_char_digit [simp]: "d < 10 \<Longrightarrow> char_digit (digit_char d) = d"
  by (simp add: digit_char_def char_digit_def)

lemma is_digit_digit_char [simp]: "d < 10 \<Longrightarrow> is_digit (digit_char d)"
  by (simp add: digit_char_def is_digit_def)

text \<open>\<open>%d\<close> of a non-negative and of any integer.\<close>

fun show_nat :: "nat \<Rightarrow> string" where
  "show_nat n = (if n < 10 then [digit_char n] else show_nat (n div 10) @ [digit_char (n mod 10)])"

declare show_nat.simps [simp del]

definition show_int :: "int \<Rightarrow> string" where
  "show_int n = (if n < 0 then ''-'' @ show_nat (nat (- n)) else show_nat (nat n))"

definition digits_val :: "string \<Rightarrow> nat" where
  "digits_val s = foldl (\<lambda>a c. 10 * a + char_digit c) 0 s"

lemma digits_val_show_nat [simp]: "digits_val (show_nat n) = n"
proof (induction n rule: show_nat.induct)
  case (1 n)
  then show ?case by (cases "n < 10") (simp_all add: show_nat.simps [of n] digits_val_def)
qed

lemma show_nat_digits: "list_all is_digit (show_nat n)"
proof (induction n rule: show_nat.induct)
  case (1 n)
  then show ?case by (cases "n < 10") (simp_all add: show_nat.simps [of n])
qed

lemma show_nat_nonempty [simp]: "show_nat n \<noteq> []"
  by (simp add: show_nat.simps [of n])

lemma show_nat_inject [simp]: "show_nat m = show_nat n \<longleftrightarrow> m = n"
  by (metis digits_val_show_nat)

lemma not_digit_chars [simp]:
  "\<not> is_digit CHR ''-''" "\<not> is_digit CHR ''+''" "\<not> is_digit CHR ''x''" "\<not> is_digit CHR ''k''"
  "\<not> is_digit CHR ''/''" "\<not> is_digit CHR ''.''"
  by (simp_all add: is_digit_def)

lemma show_nat_hd: "is_digit (hd (show_nat n))"
  using show_nat_digits [of n] by (cases "show_nat n") simp_all

lemma show_int_inject [simp]: "show_int m = show_int n \<longleftrightarrow> m = n"
proof -
  have "CHR ''-'' # s \<noteq> show_nat k" for s k
    using show_nat_hd [of k] by (metis list.sel(1) not_digit_chars(1))
  then show ?thesis by (auto simp: show_int_def dest: sym)
qed

lemma list_all_not_in: "list_all P s \<Longrightarrow> \<not> P c \<Longrightarrow> c \<notin> set s"
  by (auto simp: list_all_iff)

lemma show_int_no_sep: "CHR ''/'' \<notin> set (show_int n)" "CHR ''.'' \<notin> set (show_int n)"
  using list_all_not_in [OF show_nat_digits not_digit_chars(5)]
    list_all_not_in [OF show_nat_digits not_digit_chars(6)]
  by (auto simp: show_int_def)

text \<open>The sign and the digits at the front of a text, and the rest.\<close>

definition scan_number :: "string \<Rightarrow> (int \<times> string) option" where
  "scan_number s =
     (let neg = (s \<noteq> [] \<and> hd s = CHR ''-'');
          t = (if s \<noteq> [] \<and> (hd s = CHR ''-'' \<or> hd s = CHR ''+'') then tl s else s);
          ds = takeWhile is_digit t;
          v = (if neg then - int (digits_val ds) else int (digits_val ds))
      in if ds = [] \<or> \<not> fits64 v then None else Some (v, dropWhile is_digit t))"

text \<open>\<open>strconv.Atoi\<close>: the whole text is a signed decimal in range.\<close>

definition atoi :: "string \<Rightarrow> int option" where
  "atoi s = (case scan_number s of Some (v, []) \<Rightarrow> Some v | _ \<Rightarrow> None)"

text \<open>
  The verb \<open>%d\<close> of \<open>fmt.Sscanf\<close>: white space is skipped (a newline is an error there), then a
  signed decimal in range.
\<close>

definition is_blank :: "char \<Rightarrow> bool" where
  "is_blank c \<longleftrightarrow> c = CHR '' '' \<or> (of_char c :: nat) \<in> {9, 11, 12, 13}"

definition scan_d :: "string \<Rightarrow> (int \<times> string) option" where
  "scan_d s = scan_number (dropWhile is_blank s)"

lemma takeWhile_digits:
  "rest = [] \<or> \<not> is_digit (hd rest) \<Longrightarrow> takeWhile is_digit (show_nat n @ rest) = show_nat n"
  using show_nat_digits [of n]
  by (cases rest) (auto simp: list_all_iff takeWhile_append2 takeWhile_tail)

lemma dropWhile_digits:
  "rest = [] \<or> \<not> is_digit (hd rest) \<Longrightarrow> dropWhile is_digit (show_nat n @ rest) = rest"
  using show_nat_digits [of n]
  by (cases rest) (auto simp: list_all_iff dropWhile_append2)

lemma hd_show_nat_append [simp]: "hd (show_nat n @ rest) = hd (show_nat n)"
  by simp

lemma scan_number_show_int:
  assumes "fits64 n" and "rest = [] \<or> \<not> is_digit (hd rest)"
  shows "scan_number (show_int n @ rest) = Some (n, rest)"
proof (cases "n < 0")
  case True
  with assms show ?thesis
    by (simp add: scan_number_def show_int_def Let_def takeWhile_digits dropWhile_digits)
next
  case False
  have "hd (show_nat (nat n)) \<noteq> CHR ''-''" "hd (show_nat (nat n)) \<noteq> CHR ''+''"
    using show_nat_hd [of "nat n"] by auto
  with False assms show ?thesis
    by (simp add: scan_number_def show_int_def Let_def takeWhile_digits dropWhile_digits)
qed

lemma atoi_show_int: "fits64 n \<Longrightarrow> atoi (show_int n) = Some n"
  using scan_number_show_int [of n "[]"] by (simp add: atoi_def)

lemma show_int_not_blank: "\<not> is_blank (hd (show_int n))"
proof -
  have "\<not> is_blank c" if "is_digit c" for c
    using that by (auto simp: is_blank_def is_digit_def)
  then show ?thesis using show_nat_hd by (simp add: show_int_def) (simp add: is_blank_def)
qed

lemma show_int_nonempty [simp]: "show_int n \<noteq> []"
  by (simp add: show_int_def)

lemma scan_d_show_int:
  assumes "fits64 n" and "rest = [] \<or> \<not> is_digit (hd rest)"
  shows "scan_d (show_int n @ rest) = Some (n, rest)"
proof -
  have "dropWhile is_blank (show_int n @ rest) = show_int n @ rest"
    using show_int_not_blank [of n] by (cases "show_int n") simp_all
  with assms show ?thesis by (simp add: scan_d_def scan_number_show_int)
qed

section \<open>Strings\<close>

definition to_lower_char :: "char \<Rightarrow> char" where
  "to_lower_char c =
     (let n = (of_char c :: nat) in if 65 \<le> n \<and> n \<le> 90 then char_of (n + 32) else c)"

definition to_lower :: "string \<Rightarrow> string" where
  "to_lower s = map to_lower_char s"

text \<open>\<open>strings.Contains\<close>, which is not the \<open>contains\<close> of \<open>transcode_usecase.go\<close>.\<close>

definition str_contains :: "string \<Rightarrow> string \<Rightarrow> bool" where
  "str_contains s sub \<longleftrightarrow> sublist sub s"

definition newline :: string where
  "newline = [CHR 0x0A]"

definition quote :: string where
  "quote = [CHR 0x22]"

section \<open>Paths\<close>

fun split_on :: "char \<Rightarrow> string \<Rightarrow> string list" where
  "split_on c [] = [[]]"
| "split_on c (x # xs) =
     (if x = c then [] # split_on c xs
      else (case split_on c xs of [] \<Rightarrow> [[x]] | w # ws \<Rightarrow> (x # w) # ws))"

fun join_with :: "string \<Rightarrow> string list \<Rightarrow> string" where
  "join_with sep [] = []"
| "join_with sep [w] = w"
| "join_with sep (w # v # ws) = w @ sep @ join_with sep (v # ws)"

text \<open>
  \<open>filepath.Clean\<close> on Unix: empty and \<open>.\<close> elements vanish, \<open>..\<close> removes the element before
  it; the elements kept so far are a stack.
\<close>

definition rooted :: "string \<Rightarrow> bool" where
  "rooted p \<longleftrightarrow> p \<noteq> [] \<and> hd p = CHR ''/''"

fun clean_step :: "bool \<Rightarrow> string \<Rightarrow> string list \<Rightarrow> string list" where
  "clean_step r w out =
     (if w = [] \<or> w = ''.'' then out
      else if w = ''..'' then
        (case out of [] \<Rightarrow> (if r then [] else [''..''])
                   | t # ts \<Rightarrow> if t = ''..'' then ''..'' # out else ts)
      else w # out)"

declare clean_step.simps [simp del]

definition comps :: "string \<Rightarrow> string list" where
  "comps p = rev (fold (clean_step (rooted p)) (split_on CHR ''/'' p) [])"

definition render :: "bool \<Rightarrow> string list \<Rightarrow> string" where
  "render r ws = (if r then ''/'' @ join_with ''/'' ws
                  else if ws = [] then ''.'' else join_with ''/'' ws)"

definition clean :: "string \<Rightarrow> string" where
  "clean p = render (rooted p) (comps p)"

definition join_path :: "string list \<Rightarrow> string" where
  "join_path es = (case dropWhile (\<lambda>e. e = []) es of [] \<Rightarrow> []
                   | fs \<Rightarrow> clean (join_with ''/'' fs))"

text \<open>\<open>filepath.Ext\<close>, \<open>filepath.Base\<close> and \<open>filepath.Dir\<close>.\<close>

definition last_elem :: "string \<Rightarrow> string" where
  "last_elem p = last (split_on CHR ''/'' p)"

definition path_ext :: "string \<Rightarrow> string" where
  "path_ext p = (let w = last_elem p in
     if CHR ''.'' \<in> set w then CHR ''.'' # last (split_on CHR ''.'' w) else [])"

definition strip_slashes :: "string \<Rightarrow> string" where
  "strip_slashes p = rev (dropWhile (\<lambda>c. c = CHR ''/'') (rev p))"

definition path_base :: "string \<Rightarrow> string" where
  "path_base p = (if p = [] then ''.''
                  else let b = last_elem (strip_slashes p) in if b = [] then ''/'' else b)"

definition path_dir :: "string \<Rightarrow> string" where
  "path_dir p = clean (rev (dropWhile (\<lambda>c. c \<noteq> CHR ''/'') (rev p)))"

text \<open>A plain file name: one path element that names an entry of its directory.\<close>

definition plain :: "string \<Rightarrow> bool" where
  "plain w \<longleftrightarrow> w \<noteq> [] \<and> w \<noteq> ''.'' \<and> w \<noteq> ''..'' \<and> CHR ''/'' \<notin> set w"

lemma split_on_nonempty [simp]: "split_on c s \<noteq> []"
  by (cases s) (auto split: list.splits)

lemma split_on_no_sep: "c \<notin> set s \<Longrightarrow> split_on c s = [s]"
  by (induction s) auto

lemma split_on_append_sep: "split_on c (s @ c # t) = split_on c s @ split_on c t"
proof (induction s)
  case Nil
  then show ?case by simp
next
  case (Cons x xs)
  then show ?case by (cases "split_on c xs") (auto split: list.splits)
qed

lemma split_on_elems: "w \<in> set (split_on c s) \<Longrightarrow> c \<notin> set w"
proof (induction s arbitrary: w)
  case Nil
  then show ?case by simp
next
  case (Cons x xs)
  then show ?case by (cases "split_on c xs") (auto split: if_splits)
qed

lemma split_on_join_with:
  "ws \<noteq> [] \<Longrightarrow> (\<And>w. w \<in> set ws \<Longrightarrow> CHR ''/'' \<notin> set w) \<Longrightarrow>
     split_on CHR ''/'' (join_with ''/'' ws) = ws"
proof (induction "''/''" ws rule: join_with.induct)
  case (3 w v ws)
  then show ?case by (simp add: split_on_append_sep split_on_no_sep)
qed (simp_all add: split_on_no_sep)

lemma rooted_append: "p \<noteq> [] \<Longrightarrow> rooted (p @ q) = rooted p"
  by (simp add: rooted_def)

lemma comps_append_plain:
  assumes "d \<noteq> []" "plain w"
  shows "comps (d @ ''/'' @ w) = comps d @ [w]"
  using assms
  by (simp add: comps_def rooted_append split_on_append_sep split_on_no_sep plain_def
      clean_step.simps)

lemma join_path_plain:
  assumes "d \<noteq> []" "plain w"
  shows "join_path [d, w] = render (rooted d) (comps d @ [w])"
  using assms comps_append_plain [OF assms] rooted_append [of d "''/'' @ w"]
  by (simp add: join_path_def clean_def)

lemma join_path_plain3:
  assumes "d \<noteq> []" "plain w" "plain v"
  shows "join_path [d, w, v] = render (rooted d) (comps d @ [w, v])"
proof -
  have "comps ((d @ ''/'' @ w) @ ''/'' @ v) = comps (d @ ''/'' @ w) @ [v]"
    using assms by (intro comps_append_plain) simp_all
  with assms comps_append_plain [OF assms(1,2)] rooted_append [of d "''/'' @ w @ ''/'' @ v"]
  show ?thesis by (simp add: join_path_def clean_def)
qed


text \<open>
  What the operating system does with a path: it is read as its elements. Cleaning a path
  does not change the elements, so a cleaned path names the same file.
\<close>

type_synonym path = "bool \<times> string list"

definition parse_path :: "string \<Rightarrow> path" where
  "parse_path p = (rooted p, comps p)"

definition elem_ok :: "string \<Rightarrow> bool" where
  "elem_ok w \<longleftrightarrow> w \<noteq> [] \<and> w \<noteq> ''.'' \<and> CHR ''/'' \<notin> set w"

definition norm :: "bool \<Rightarrow> string list \<Rightarrow> bool" where
  "norm r ws \<longleftrightarrow> list_all elem_ok ws \<and> ''..'' \<notin> set (dropWhile (\<lambda>w. w = ''..'') ws)
                \<and> (r \<longrightarrow> ''..'' \<notin> set ws)"

lemma plain_elem_ok: "plain w \<Longrightarrow> elem_ok w" "plain w \<Longrightarrow> w \<noteq> ''..''"
  by (simp_all add: plain_def elem_ok_def)

lemma norm_Nil [simp]: "norm r []"
  by (simp add: norm_def)

lemma norm_snoc: "norm r ws \<Longrightarrow> elem_ok w \<Longrightarrow> w \<noteq> ''..'' \<Longrightarrow> norm r (ws @ [w])"
  by (cases "\<forall>v \<in> set ws. v = ''..''") (auto simp: norm_def dropWhile_append3 dropWhile_append1)

lemma dropWhile_all_dotdot:
  "\<forall>v \<in> set ws. v = ''..'' \<Longrightarrow> dropWhile (\<lambda>w. w = ''..'') ws = []"
  by simp

lemma norm_butlast: "norm r (ws @ [w]) \<Longrightarrow> norm r ws"
  by (cases "\<forall>v \<in> set ws. v = ''..''")
     (auto simp: norm_def dropWhile_all_dotdot dropWhile_append1 simp del: dropWhile_eq_Nil_conv)

lemma norm_dotdot: "norm r (ws @ [''..'']) \<Longrightarrow> \<not> r \<and> (\<forall>v \<in> set ws. v = ''..'')"
  by (cases "\<forall>v \<in> set ws. v = ''..''") (auto simp: norm_def dropWhile_append1)

lemma norm_all_dotdot: "\<forall>v \<in> set ws. v = ''..'' \<Longrightarrow> norm False ws"
proof -
  assume "\<forall>v \<in> set ws. v = ''..''"
  then have "dropWhile (\<lambda>w. w = ''..'') ws = []" "list_all elem_ok ws"
    by (auto simp: list_all_iff elem_ok_def)
  then show ?thesis unfolding norm_def by (simp only: list.set) simp
qed

lemma norm_clean_step:
  assumes "norm r (rev out)" "CHR ''/'' \<notin> set w"
  shows "norm r (rev (clean_step r w out))"
proof (cases "w = ''..''")
  case False
  with assms show ?thesis by (auto intro!: norm_snoc simp: elem_ok_def clean_step.simps)
next
  case dd: True
  show ?thesis
  proof (cases out)
    case Nil
    have "norm False [''..'']" by (rule norm_all_dotdot) simp
    with Nil dd show ?thesis by (simp add: clean_step.simps)
  next
    case (Cons t ts)
    with assms have n: "norm r (rev ts @ [t])" by simp
    show ?thesis
    proof (cases "t = ''..''")
      case True
      with n have "\<not> r \<and> (\<forall>v \<in> set (rev ts). v = ''..'')" by (intro norm_dotdot) simp
      then have "norm r (rev ts @ [''..'', ''..''])"
        using norm_all_dotdot [of "rev ts @ [''..'', ''..'']"] by auto
      with True Cons dd show ?thesis by (simp add: clean_step.simps)
    next
      case False
      with n Cons dd show ?thesis using norm_butlast by (auto simp: clean_step.simps)
    qed
  qed
qed

lemma norm_fold_clean:
  "norm r (rev out) \<Longrightarrow> (\<And>w. w \<in> set ws \<Longrightarrow> CHR ''/'' \<notin> set w) \<Longrightarrow>
     norm r (rev (fold (clean_step r) ws out))"
proof (induction ws arbitrary: out)
  case Nil
  then show ?case by simp
next
  case (Cons w ws)
  have "norm r (rev (clean_step r w out))" using Cons.prems by (intro norm_clean_step) simp_all
  with Cons show ?case by simp
qed

lemma norm_comps: "norm (rooted p) (comps p)"
  unfolding comps_def by (rule norm_fold_clean) (auto dest: split_on_elems)

text \<open>Cleaning keeps the elements of an already clean path.\<close>

lemma fold_clean_norm: "norm r ws \<Longrightarrow> fold (clean_step r) ws [] = rev ws"
proof (induction ws rule: rev_induct)
  case Nil
  then show ?case by simp
next
  case (snoc w ws)
  from snoc.prems have n: "norm r ws" by (rule norm_butlast)
  with snoc.IH have f: "fold (clean_step r) ws [] = rev ws" .
  have w: "w \<noteq> []" "w \<noteq> ''.''" using snoc.prems by (simp_all add: norm_def elem_ok_def)
  show ?case
  proof (cases "w = ''..''")
    case True
    with snoc.prems have nr: "\<not> r" "\<forall>v \<in> set ws. v = ''..''" using norm_dotdot by blast+
    have "fold (clean_step r) (ws @ [w]) [] = clean_step r ''..'' (rev ws)" using f True by simp
    also have "\<dots> = ''..'' # rev ws"
      using nr by (cases "rev ws") (auto simp: clean_step.simps dest!: arg_cong [where f = rev])
    finally show ?thesis using True by simp
  next
    case False
    with f w show ?thesis by (simp add: clean_step.simps [of r w "rev ws"])
  qed
qed

lemma join_with_not_rooted: "norm r ws \<Longrightarrow> ws \<noteq> [] \<Longrightarrow> \<not> rooted (join_with ''/'' ws)"
  by (cases "(''/'', ws)" rule: join_with.cases) (auto simp: rooted_def norm_def elem_ok_def neq_Nil_conv)

lemma parse_render: "norm r ws \<Longrightarrow> parse_path (render r ws) = (r, ws)"
proof -
  assume n: "norm r ws"
  then have sep: "CHR ''/'' \<notin> set w" if "w \<in> set ws" for w
    using that by (auto simp: norm_def list_all_iff elem_ok_def)
  note f = fold_clean_norm [OF n]
  show ?thesis
  proof (cases "ws = []")
    case True
    then show ?thesis by (simp add: parse_path_def render_def comps_def rooted_def clean_step.simps)
  next
    case False
    with sep have sp: "split_on CHR ''/'' (join_with ''/'' ws) = ws" by (intro split_on_join_with) auto
    show ?thesis
    proof (cases r)
      case True
      with sp f show ?thesis
        by (simp add: parse_path_def render_def comps_def rooted_def clean_step.simps)
    next
      case nr: False
      have "\<not> rooted (join_with ''/'' ws)" using n False by (rule join_with_not_rooted)
      with sp f nr False show ?thesis by (simp add: parse_path_def render_def comps_def)
    qed
  qed
qed

lemma parse_clean: "parse_path (clean p) = parse_path p"
  using parse_render [OF norm_comps] by (simp add: clean_def parse_path_def)

lemma parse_join_plain:
  assumes "d \<noteq> []" "plain w"
  shows "parse_path (join_path [d, w]) = (rooted d, comps d @ [w])"
  using assms plain_elem_ok by (simp add: join_path_plain parse_render norm_snoc norm_comps)

lemma parse_join_plain3:
  assumes "d \<noteq> []" "plain w" "plain v"
  shows "parse_path (join_path [d, w, v]) = (rooted d, comps d @ [w, v])"
proof -
  have "norm (rooted d) ((comps d @ [w]) @ [v])"
    using assms plain_elem_ok by (intro norm_snoc) (simp_all add: norm_comps)
  with assms show ?thesis by (simp add: join_path_plain3 parse_render)
qed

end
