(* ===== verification/Json.thy ===== *)
theory Json
  imports Complex_Main Go_Text
begin

text \<open>
  Go's \<open>encoding/json\<close> as far as the services use it to store their records in files. A
  document is its tree: the text between \<open>json.MarshalIndent\<close> and \<open>json.Unmarshal\<close> is not
  modelled, only what the two agree on. \<open>JTime t\<close> is the string token that holds the
  RFC 3339 form of the time \<open>t\<close>. A number is its value, so an integral one that a text writes as
  \<open>1.0\<close> decodes into an integer here, while Go refuses it; the encoder writes integers without a point. A string is its
  characters: invalid UTF-8, which the encoder replaces, is not modelled.

  Decoding follows \<open>json.Unmarshal\<close> into a struct: the members are taken in their order, a
  member names a field without regard to case, unknown members are skipped, \<open>null\<close> leaves
  a field as it is, and a member of the wrong type makes the call fail.
\<close>

datatype json =
    JNull
  | JBool bool
  | JNum rat
  | JStr string
  | JTime go_time
  | JArr "json list"
  | JObj "(string \<times> json) list"

section \<open>Values\<close>

fun dec_string :: "json \<Rightarrow> string \<Rightarrow> string option" where
  "dec_string JNull old = Some old"
| "dec_string (JStr s) old = Some s"
| "dec_string _ old = None"

fun dec_bool :: "json \<Rightarrow> bool \<Rightarrow> bool option" where
  "dec_bool JNull old = Some old"
| "dec_bool (JBool b) old = Some b"
| "dec_bool _ old = None"

fun dec_int :: "json \<Rightarrow> int \<Rightarrow> int option" where
  "dec_int JNull old = Some old"
| "dec_int (JNum q) old =
     (if of_int \<lfloor>q\<rfloor> = q \<and> fits64 \<lfloor>q\<rfloor> then Some \<lfloor>q\<rfloor> else None)"
| "dec_int _ old = None"

fun dec_time :: "json \<Rightarrow> go_time \<Rightarrow> go_time option" where
  "dec_time JNull old = Some old"
| "dec_time (JTime t) old = Some t"
| "dec_time _ old = None"

text \<open>The elements of an array, each decoded into a fresh value; \<open>null\<close> is the nil slice.\<close>

fun dec_all :: "(json \<Rightarrow> 'a option) \<Rightarrow> json list \<Rightarrow> 'a list option" where
  "dec_all f [] = Some []"
| "dec_all f (j # js) =
     (case f j of None \<Rightarrow> None | Some x \<Rightarrow> map_option (Cons x) (dec_all f js))"

fun dec_list :: "(json \<Rightarrow> 'a option) \<Rightarrow> json \<Rightarrow> 'a list option" where
  "dec_list f JNull = Some []"
| "dec_list f (JArr js) = dec_all f js"
| "dec_list f _ = None"

definition dec_strings :: "json \<Rightarrow> string list option" where
  "dec_strings = dec_list (\<lambda>j. dec_string j [])"

section \<open>Structs\<close>

fun dec_members :: "(string \<Rightarrow> json \<Rightarrow> 's \<Rightarrow> 's option) \<Rightarrow> (string \<times> json) list \<Rightarrow> 's \<Rightarrow> 's option" where
  "dec_members f [] s = Some s"
| "dec_members f ((k, j) # ms) s =
     (case f (to_lower k) j s of None \<Rightarrow> None | Some s' \<Rightarrow> dec_members f ms s')"

text \<open>\<open>f\<close> sets the field that belongs to a member name in lower case.\<close>

fun dec_struct :: "(string \<Rightarrow> json \<Rightarrow> 's \<Rightarrow> 's option) \<Rightarrow> json \<Rightarrow> 's \<Rightarrow> 's option" where
  "dec_struct f JNull s = Some s"
| "dec_struct f (JObj ms) s = dec_members f ms s"
| "dec_struct f _ s = None"

text \<open>A member with the option \<open>omitempty\<close> is written when its value is not the zero value.\<close>

definition member_if :: "bool \<Rightarrow> string \<Rightarrow> json \<Rightarrow> (string \<times> json) list" where
  "member_if b k j = (if b then [(k, j)] else [])"

definition JInt :: "int \<Rightarrow> json" where
  "JInt n = JNum (of_int n)"

definition JStrs :: "string list \<Rightarrow> json" where
  "JStrs xs = JArr (map JStr xs)"

lemma dec_int_JInt [simp]: "fits64 n \<Longrightarrow> dec_int (JInt n) old = Some n"
  by (simp add: JInt_def)

lemma dec_all_map [simp]: "(\<And>x. x \<in> set xs \<Longrightarrow> f (g x) = Some x) \<Longrightarrow> dec_all f (map g xs) = Some xs"
  by (induction xs) simp_all

lemma dec_strings_JStrs [simp]: "dec_strings (JStrs xs) = Some xs"
  by (simp add: dec_strings_def JStrs_def)

lemma dec_members_append:
  "dec_members f (ms @ ns) s =
     (case dec_members f ms s of None \<Rightarrow> None | Some s' \<Rightarrow> dec_members f ns s')"
  by (induction ms arbitrary: s) (auto split: option.splits)

end
