(* ===== verification/Os.thy ===== *)
theory Os
  imports Json "HOL-Library.Word"
begin

text \<open>
  The operating system as the program sees it: a file system, a clock, and calls that may
  fail. The state passes explicitly through every operation.

  \<^item> \<open>fs\<close> is the tree of files and directories, keyed by parsed paths (\<^emph>\<open>Go_Text\<close>). Symbolic
    links, permissions and the working directory are not modelled.
  \<^item> Every call of the operating system and every reading of the clock takes one tick. The
    outcome of a call at tick \<open>n\<close> is \<open>io n\<close> and the time is \<open>clock n\<close>; both are arbitrary,
    so a statement about all states is one about all clocks and all failures. A call that
    is torn fails halfway: a written file is left with unreadable content, a removed
    directory is left empty.
  \<^item> \<open>statfs\<close> are the readings of the size of the disk, \<open>doclen\<close> the length of a JSON text.

  The last part models \<open>pkg/utils/file.go\<close> and \<open>pkg/utils/write.go\<close>, which wrap these calls.
\<close>

section \<open>Errors\<close>

text \<open>
  A Go error is its text, except for the one type the program asks for with a type
  assertion, \<open>ffmpeg.PartialSuccessError\<close>. Wrapping an error with \<open>%w\<close> keeps the text only,
  as no code unwraps one.
\<close>

datatype err = Err string | PartialSuccess "string list" nat nat

definition fmt_strings :: "string list \<Rightarrow> string" where
  "fmt_strings xs = ''['' @ join_with '' '' xs @ '']''"

fun error_text :: "err \<Rightarrow> string" where
  "error_text (Err s) = s"
| "error_text (PartialSuccess failed ok tot) =
     ''partial success: '' @ show_nat ok @ ''/'' @ show_nat tot @
     '' qualities encoded successfully, failed: '' @ fmt_strings failed"

definition wrap :: "string \<Rightarrow> err \<Rightarrow> err" where
  "wrap msg e = Err (msg @ '': '' @ error_text e)"

section \<open>The state\<close>

datatype io_outcome = IO_ok | IO_fail string | IO_torn string

datatype content = Doc json | Opaque string int

datatype node = Dir go_time | File content go_time

record statfs_buf =
  st_blocks :: "64 word"
  st_bfree :: "64 word"
  st_bsize :: "64 word"

record os =
  fs :: "(path, node) gomap"
  clock :: "nat \<Rightarrow> go_time"
  io :: "nat \<Rightarrow> io_outcome"
  statfs :: "nat \<Rightarrow> string + statfs_buf"
  doclen :: "json \<Rightarrow> int"
  tick :: nat

definition time_now :: "'a os_scheme \<Rightarrow> go_time \<times> 'a os_scheme" where
  "time_now w = (clock w (tick w), w\<lparr>tick := Suc (tick w)\<rparr>)"

definition advance :: "'a os_scheme \<Rightarrow> 'a os_scheme" where
  "advance w = w\<lparr>tick := Suc (tick w)\<rparr>"

definition set_fs :: "(path, node) gomap \<Rightarrow> 'a os_scheme \<Rightarrow> 'a os_scheme" where
  "set_fs m w = w\<lparr>fs := m, tick := Suc (tick w)\<rparr>"

text \<open>No call fails for a reason outside the file system.\<close>

definition io_good :: "'a os_scheme \<Rightarrow> bool" where
  "io_good w \<longleftrightarrow> (\<forall>n. io w n = IO_ok)"

definition parent :: "path \<Rightarrow> path" where
  "parent p = (fst p, butlast (snd p))"

definition under :: "path \<Rightarrow> path \<Rightarrow> bool" where
  "under p q \<longleftrightarrow> fst q = fst p \<and> prefix (snd p) (snd q)"

definition is_dir_at :: "(path, node) gomap \<Rightarrow> path \<Rightarrow> bool" where
  "is_dir_at m p = (case lookup m p of Some (Dir _) \<Rightarrow> True | _ \<Rightarrow> False)"

definition is_file_at :: "(path, node) gomap \<Rightarrow> path \<Rightarrow> bool" where
  "is_file_at m p = (case lookup m p of Some (File _ _) \<Rightarrow> True | _ \<Rightarrow> False)"

text \<open>The names of the entries of a directory, in the order \<open>os.ReadDir\<close> gives them.\<close>

definition children :: "(path, node) gomap \<Rightarrow> path \<Rightarrow> string list" where
  "children m p = sort (map (\<lambda>q. last (snd q))
     (filter (\<lambda>q. snd q \<noteq> [] \<and> parent q = p) (keys m)))"

definition touch :: "path \<Rightarrow> go_time \<Rightarrow> (path, node) gomap \<Rightarrow> (path, node) gomap" where
  "touch p t m = (if is_dir_at m p then put p (Dir t) m else m)"

definition remove_tree :: "path \<Rightarrow> (path, node) gomap \<Rightarrow> (path, node) gomap" where
  "remove_tree p m = filter (\<lambda>(q, _). \<not> under p q) m"

definition junk :: content where
  "junk = Opaque [] 0"

section \<open>System calls\<close>

definition errno :: "string \<Rightarrow> string \<Rightarrow> string \<Rightarrow> err" where
  "errno call p msg = Err (call @ '' '' @ p @ '': '' @ msg)"

definition os_stat :: "string \<Rightarrow> 'a os_scheme \<Rightarrow> (err + node) \<times> 'a os_scheme" where
  "os_stat p w =
     (case io w (tick w) of
        IO_ok \<Rightarrow> (case lookup (fs w) (parse_path p) of
                    None \<Rightarrow> Inl (errno ''stat'' p ''no such file or directory'')
                  | Some n \<Rightarrow> Inr n)
      | IO_fail msg \<Rightarrow> Inl (errno ''stat'' p msg)
      | IO_torn msg \<Rightarrow> Inl (errno ''stat'' p msg), advance w)"

definition os_read_file :: "string \<Rightarrow> 'a os_scheme \<Rightarrow> (err + content) \<times> 'a os_scheme" where
  "os_read_file p w =
     (case io w (tick w) of
        IO_ok \<Rightarrow> (case lookup (fs w) (parse_path p) of
                    None \<Rightarrow> Inl (errno ''open'' p ''no such file or directory'')
                  | Some (Dir _) \<Rightarrow> Inl (errno ''read'' p ''is a directory'')
                  | Some (File c _) \<Rightarrow> Inr c)
      | IO_fail msg \<Rightarrow> Inl (errno ''open'' p msg)
      | IO_torn msg \<Rightarrow> Inl (errno ''read'' p msg), advance w)"

definition os_read_dir :: "string \<Rightarrow> 'a os_scheme \<Rightarrow> (err + string list) \<times> 'a os_scheme" where
  "os_read_dir p w =
     (case io w (tick w) of
        IO_ok \<Rightarrow> if is_dir_at (fs w) (parse_path p) then Inr (children (fs w) (parse_path p))
                 else Inl (errno ''open'' p ''no such file or directory'')
      | IO_fail msg \<Rightarrow> Inl (errno ''open'' p msg)
      | IO_torn msg \<Rightarrow> Inl (errno ''readdirent'' p msg), advance w)"

text \<open>\<open>os.WriteFile\<close> creates the file or replaces its content.\<close>

definition os_write_file :: "string \<Rightarrow> content \<Rightarrow> 'a os_scheme \<Rightarrow> (err + unit) \<times> 'a os_scheme" where
  "os_write_file p c w =
     (let q = parse_path p; t = clock w (tick w); m = fs w;
          fits = (is_file_at m q \<or> (lookup m q = None \<and> is_dir_at m (parent q)))
      in case io w (tick w) of
           IO_fail msg \<Rightarrow> (Inl (errno ''open'' p msg), advance w)
         | IO_torn msg \<Rightarrow>
             if fits then (Inl (errno ''write'' p msg), set_fs (put q (File junk t) (touch (parent q) t m)) w)
             else (Inl (errno ''open'' p msg), advance w)
         | IO_ok \<Rightarrow>
             if fits then (Inr (), set_fs (put q (File c t) (touch (parent q) t m)) w)
             else if is_dir_at m q then (Inl (errno ''open'' p ''is a directory''), advance w)
             else (Inl (errno ''open'' p ''no such file or directory''), advance w))"

text \<open>\<open>os.Rename\<close> of a file: the new name takes the file over in one step, or nothing changes.\<close>

definition os_rename :: "string \<Rightarrow> string \<Rightarrow> 'a os_scheme \<Rightarrow> (err + unit) \<times> 'a os_scheme" where
  "os_rename a b w =
     (let p = parse_path a; q = parse_path b; t = clock w (tick w); m = fs w
      in case io w (tick w) of
           IO_fail msg \<Rightarrow> (Inl (errno ''rename'' a msg), advance w)
         | IO_torn msg \<Rightarrow> (Inl (errno ''rename'' a msg), advance w)
         | IO_ok \<Rightarrow>
             (case lookup m p of
                Some (File c u) \<Rightarrow>
                  if is_dir_at m q then (Inl (errno ''rename'' a ''file exists''), advance w)
                  else if is_dir_at m (parent q)
                  then (Inr (), set_fs (put q (File c u) (touch (parent q) t (touch (parent p) t (del p m)))) w)
                  else (Inl (errno ''rename'' a ''no such file or directory''), advance w)
              | _ \<Rightarrow> (Inl (errno ''rename'' a ''no such file or directory''), advance w)))"

text \<open>\<open>os.Remove\<close>: a file, or a directory without entries.\<close>

definition os_remove :: "string \<Rightarrow> 'a os_scheme \<Rightarrow> (err + unit) \<times> 'a os_scheme" where
  "os_remove p w =
     (let q = parse_path p; t = clock w (tick w); m = fs w
      in case io w (tick w) of
           IO_fail msg \<Rightarrow> (Inl (errno ''remove'' p msg), advance w)
         | IO_torn msg \<Rightarrow> (Inl (errno ''remove'' p msg), advance w)
         | IO_ok \<Rightarrow>
             if lookup m q = None then (Inl (errno ''remove'' p ''no such file or directory''), advance w)
             else if is_dir_at m q \<and> children m q \<noteq> []
             then (Inl (errno ''remove'' p ''directory not empty''), advance w)
             else (Inr (), set_fs (touch (parent q) t (del q m)) w))"

text \<open>\<open>os.RemoveAll\<close>: a path that does not exist is no error.\<close>

definition os_remove_all :: "string \<Rightarrow> 'a os_scheme \<Rightarrow> (err + unit) \<times> 'a os_scheme" where
  "os_remove_all p w =
     (let q = parse_path p; t = clock w (tick w); m = fs w
      in case io w (tick w) of
           IO_fail msg \<Rightarrow> (Inl (errno ''unlinkat'' p msg), advance w)
         | IO_torn msg \<Rightarrow>
             (Inl (errno ''unlinkat'' p msg),
              if is_dir_at m q then set_fs (put q (Dir t) (remove_tree q m)) w else advance w)
         | IO_ok \<Rightarrow> (Inr (), set_fs (touch (parent q) t (remove_tree q m)) w))"

text \<open>\<open>os.MkdirAll\<close> creates the directory and every missing one above it.\<close>

fun mkdirs :: "bool \<Rightarrow> string list \<Rightarrow> string list \<Rightarrow> go_time \<Rightarrow> (path, node) gomap \<Rightarrow> (path, node) gomap" where
  "mkdirs r pre [] t m = m"
| "mkdirs r pre (x # xs) t m =
     mkdirs r (pre @ [x]) xs t
       (if lookup m (r, pre @ [x]) = None
        then put (r, pre @ [x]) (Dir t) (touch (r, pre) t m) else m)"

definition os_mkdir_all :: "string \<Rightarrow> 'a os_scheme \<Rightarrow> (err + unit) \<times> 'a os_scheme" where
  "os_mkdir_all p w =
     (let q = parse_path p; t = clock w (tick w); m = fs w
      in case io w (tick w) of
           IO_fail msg \<Rightarrow> (Inl (errno ''mkdir'' p msg), advance w)
         | IO_torn msg \<Rightarrow> (Inl (errno ''mkdir'' p msg), advance w)
         | IO_ok \<Rightarrow>
             if list_ex (\<lambda>ws. is_file_at m (fst q, ws)) (prefixes (snd q))
             then (Inl (errno ''mkdir'' p ''not a directory''), advance w)
             else (Inr (), set_fs (mkdirs (fst q) [] (snd q) t m) w))"

text \<open>
  \<open>filepath.Glob\<close> for a pattern whose last element is a fixed text before and after one star:
  the entries of the directory that match. It reports no error of the file system.
\<close>

definition os_glob :: "string \<Rightarrow> string \<Rightarrow> string \<Rightarrow> 'a os_scheme \<Rightarrow> string list \<times> 'a os_scheme" where
  "os_glob dir pre suf w =
     (case io w (tick w) of
        IO_ok \<Rightarrow> if is_dir_at (fs w) (parse_path dir)
                 then map (\<lambda>x. join_path [dir, x])
                        (filter (\<lambda>x. length pre + length suf \<le> length x \<and> prefix pre x \<and> suffix suf x)
                           (children (fs w) (parse_path dir)))
                 else []
      | _ \<Rightarrow> [], advance w)"

definition content_size :: "'a os_scheme \<Rightarrow> content \<Rightarrow> int" where
  "content_size w c = (case c of Doc j \<Rightarrow> doclen w j | Opaque _ n \<Rightarrow> n)"

definition node_size :: "'a os_scheme \<Rightarrow> node \<Rightarrow> int" where
  "node_size w n = (case n of Dir _ \<Rightarrow> 0 | File c _ \<Rightarrow> content_size w c)"

section \<open>What a call leaves alone\<close>

text \<open>The calls change the file system and the tick, and nothing else.\<close>

definition os_frame :: "'a os_scheme \<Rightarrow> 'a os_scheme \<Rightarrow> bool" where
  "os_frame w w' \<longleftrightarrow> (\<exists>m t. w' = w\<lparr>fs := m, tick := t\<rparr>)"

lemma os_frame_refl [simp, intro]: "os_frame w w"
  unfolding os_frame_def by (rule exI [where x = "fs w"], rule exI [where x = "tick w"]) simp

lemma os_frame_trans [trans]: "os_frame u v \<Longrightarrow> os_frame v w \<Longrightarrow> os_frame u w"
  by (fastforce simp: os_frame_def)

lemma os_frame_advance [simp, frame]: "os_frame w (advance w)"
  unfolding os_frame_def advance_def
  by (rule exI [where x = "fs w"], rule exI [where x = "Suc (tick w)"]) simp

lemma os_frame_set_fs [simp, frame]: "os_frame w (set_fs m w)"
  unfolding os_frame_def set_fs_def by blast

lemma os_frame_time_now [simp, frame]: "os_frame w (snd (time_now w))"
  using os_frame_advance [of w] by (simp add: time_now_def advance_def)

lemma os_frame_calls [simp, frame]:
  "os_frame w (snd (os_stat p w))"
  "os_frame w (snd (os_read_file p w))"
  "os_frame w (snd (os_read_dir p w))"
  "os_frame w (snd (os_write_file p c w))"
  "os_frame w (snd (os_rename p q w))"
  "os_frame w (snd (os_remove p w))"
  "os_frame w (snd (os_remove_all p w))"
  "os_frame w (snd (os_mkdir_all p w))"
  "os_frame w (snd (os_glob p a b w))"
  by (simp_all add: os_stat_def os_read_file_def os_read_dir_def os_write_file_def os_rename_def
      os_remove_def os_remove_all_def os_mkdir_all_def os_glob_def Let_def
      split: io_outcome.splits node.splits option.splits)

lemma os_frame_env:
  "os_frame w w' \<Longrightarrow> clock w' = clock w \<and> io w' = io w \<and> statfs w' = statfs w \<and> doclen w' = doclen w"
  by (auto simp: os_frame_def)

lemma os_frame_io_good: "os_frame w w' \<Longrightarrow> io_good w' \<longleftrightarrow> io_good w"
  by (auto simp: os_frame_def io_good_def)

lemma io_good_ok [simp]: "io_good w \<Longrightarrow> io w n = IO_ok"
  by (simp add: io_good_def)

text \<open>Reading leaves the files alone as well.\<close>

lemma fs_reads [simp, frame]:
  "fs (snd (time_now w)) = fs w"
  "fs (advance w) = fs w"
  "fs (set_fs m w) = m"
  "fs (snd (os_stat p w)) = fs w"
  "fs (snd (os_read_file p w)) = fs w"
  "fs (snd (os_read_dir p w)) = fs w"
  "fs (snd (os_glob p a b w)) = fs w"
  by (simp_all add: time_now_def advance_def set_fs_def os_stat_def os_read_file_def os_read_dir_def
      os_glob_def)

lemma is_dir_at_put [simp]:
  "is_dir_at (put p n m) q = (if q = p then (case n of Dir _ \<Rightarrow> True | _ \<Rightarrow> False) else is_dir_at m q)"
  by (simp add: is_dir_at_def)

lemma is_file_at_put [simp]:
  "is_file_at (put p n m) q = (if q = p then (case n of File _ _ \<Rightarrow> True | _ \<Rightarrow> False) else is_file_at m q)"
  by (simp add: is_file_at_def)

lemma not_file_and_dir: "is_file_at m p \<Longrightarrow> \<not> is_dir_at m p"
  by (auto simp: is_file_at_def is_dir_at_def split: option.splits node.splits)

lemma is_dir_at_touch [simp]: "is_dir_at (touch p t m) q = is_dir_at m q"
  by (simp add: touch_def)

lemma lookup_touch_File: "lookup (touch p t m) q = Some (File c u) \<longleftrightarrow> lookup m q = Some (File c u)"
  by (auto simp: touch_def is_dir_at_def split: option.splits node.splits)

lemma lookup_touch:
  "lookup (touch p t m) q = (if q = p \<and> is_dir_at m p then Some (Dir t) else lookup m q)"
  by (simp add: touch_def)

lemma wf_map_touch [simp, intro]: "wf_map m \<Longrightarrow> wf_map (touch p t m)"
  by (simp add: touch_def)

lemma lookup_remove_tree:
  "lookup (remove_tree p m) q = (if under p q then None else lookup m q)"
  unfolding remove_tree_def by (induction m) auto

lemma under_refl [simp]: "under p p"
  by (simp add: under_def)

lemma parent_neq: "snd p \<noteq> [] \<Longrightarrow> parent p \<noteq> p"
  by (cases p) (metis parent_def append_butlast_last_id not_Cons_self2 self_append_conv snd_conv)

section \<open>Helpers of \<open>pkg/utils\<close>\<close>

definition FileExists :: "string \<Rightarrow> 'a os_scheme \<Rightarrow> bool \<times> 'a os_scheme" where
  "FileExists p w = (let (r, w1) = os_stat p w in (is_ok r, w1))"

definition EnsureDir :: "string \<Rightarrow> 'a os_scheme \<Rightarrow> (err + unit) \<times> 'a os_scheme" where
  "EnsureDir p w =
     (let (r, w1) = os_mkdir_all p w
      in (case r of Inl e \<Rightarrow> Inl (wrap ''failed to create directory'' e) | Inr _ \<Rightarrow> Inr (), w1))"

definition RemoveDir :: "string \<Rightarrow> 'a os_scheme \<Rightarrow> (err + unit) \<times> 'a os_scheme" where
  "RemoveDir p w =
     (let (ex, w1) = FileExists p w in if \<not> ex then (Inr (), w1) else os_remove_all p w1)"

definition WriteFile :: "string \<Rightarrow> content \<Rightarrow> 'a os_scheme \<Rightarrow> (err + unit) \<times> 'a os_scheme" where
  "WriteFile p c w =
     (let (r, w1) = os_write_file p c w
      in (case r of Inl e \<Rightarrow> Inl (wrap ''failed to write file'' e) | Inr _ \<Rightarrow> Inr (), w1))"

definition GetFileSize :: "string \<Rightarrow> 'a os_scheme \<Rightarrow> (err + int) \<times> 'a os_scheme" where
  "GetFileSize p w =
     (let (r, w1) = os_stat p w
      in (case r of Inl e \<Rightarrow> Inl (wrap ''failed to get file info'' e) | Inr n \<Rightarrow> Inr (node_size w n), w1))"

text \<open>
  \<open>GetDirSize\<close> adds up the files below a path. Where the walk stops early Go returns the sum so
  far and the error; the model's sum is then 0. The callers that use the sum in spite of an error are the lists of job
  directories, which only log what a clean-up has freed.
\<close>

definition GetDirSize :: "string \<Rightarrow> 'a os_scheme \<Rightarrow> (int \<times> err option) \<times> 'a os_scheme" where
  "GetDirSize p w =
     (case io w (tick w) of
        IO_ok \<Rightarrow> (if lookup (fs w) (parse_path p) = None
                  then (0, Some (errno ''lstat'' p ''no such file or directory''))
                  else (sum_list (map (\<lambda>(q, n). node_size w n)
                          (filter (\<lambda>(q, n). under (parse_path p) q) (fs w))), None))
      | IO_fail msg \<Rightarrow> (0, Some (errno ''lstat'' p msg))
      | IO_torn msg \<Rightarrow> (0, Some (errno ''open'' p msg)), advance w)"

text \<open>\<open>sha\<close> stands for SHA-256 in hexadecimal, of the bytes of a file.\<close>

definition ComputeFileHash ::
    "(content \<Rightarrow> string) \<Rightarrow> string \<Rightarrow> 'a os_scheme \<Rightarrow> (err + string) \<times> 'a os_scheme" where
  "ComputeFileHash sha p w =
     (case os_stat p w of
        (Inl e, w1) \<Rightarrow> (Inl (wrap ''failed to open file'' e), w1)
      | (Inr _, w1) \<Rightarrow>
          (case os_read_file p w1 of
             (Inl e, w2) \<Rightarrow> (Inl (wrap ''failed to compute hash'' e), w2)
           | (Inr c, w2) \<Rightarrow> (Inr (sha c), w2)))"

lemma os_frame_utils [simp, frame]:
  "os_frame w (snd (FileExists p w))"
  "os_frame w (snd (EnsureDir p w))"
  "os_frame w (snd (RemoveDir p w))"
  "os_frame w (snd (WriteFile p c w))"
  "os_frame w (snd (GetFileSize p w))"
  "os_frame w (snd (GetDirSize p w))"
  "os_frame w (snd (ComputeFileHash sha p w))"
proof -
  show ex: "os_frame w (snd (FileExists p w))" for p and w :: "'a os_scheme"
    using os_frame_calls(1) [of w p] by (simp add: FileExists_def case_prod_beta)
  show "os_frame w (snd (EnsureDir p w))"
    using os_frame_calls(8) [of w p] by (simp add: EnsureDir_def case_prod_beta)
  show "os_frame w (snd (RemoveDir p w))"
    by (simp add: RemoveDir_def case_prod_beta ex os_frame_trans [OF ex os_frame_calls(7)])
  show "os_frame w (snd (WriteFile p c w))"
    using os_frame_calls(4) [of w p c] by (simp add: WriteFile_def case_prod_beta)
  show "os_frame w (snd (GetFileSize p w))"
    using os_frame_calls(1) [of w p] by (simp add: GetFileSize_def case_prod_beta)
  show "os_frame w (snd (GetDirSize p w))" by (simp add: GetDirSize_def)
  show "os_frame w (snd (ComputeFileHash sha p w))"
    by (simp add: ComputeFileHash_def case_prod_beta
        os_frame_trans [OF os_frame_calls(1) os_frame_calls(2)] split: sum.splits)
qed

lemma fs_utils_reads [simp, frame]:
  "fs (snd (FileExists p w)) = fs w"
  "fs (snd (GetFileSize p w)) = fs w"
  "fs (snd (GetDirSize p w)) = fs w"
  "fs (snd (ComputeFileHash sha p w)) = fs w"
proof -
  show "fs (snd (FileExists p w)) = fs w"
    using fs_reads(4) [of p w] by (simp add: FileExists_def case_prod_beta)
  show "fs (snd (GetFileSize p w)) = fs w"
    using fs_reads(4) [of p w] by (simp add: GetFileSize_def case_prod_beta)
  show "fs (snd (GetDirSize p w)) = fs w" by (simp add: GetDirSize_def)
  show "fs (snd (ComputeFileHash sha p w)) = fs w"
    using fs_reads(4) [of p w] fs_reads(5) [of p "snd (os_stat p w)"]
    by (simp add: ComputeFileHash_def case_prod_beta split: sum.splits)
qed

text \<open>Without failures, a removed tree is gone and everything outside it is as before.\<close>

lemma RemoveDir_good:
  assumes "io_good w"
  shows RemoveDir_ok: "fst (RemoveDir p w) = Inr ()"
    and RemoveDir_gone: "lookup (fs w) (parse_path p) \<noteq> None \<Longrightarrow> under (parse_path p) q \<Longrightarrow>
      lookup (fs (snd (RemoveDir p w))) q = None"
    and RemoveDir_other: "\<not> under (parse_path p) q \<Longrightarrow> q \<noteq> parent (parse_path p) \<Longrightarrow>
      lookup (fs (snd (RemoveDir p w))) q = lookup (fs w) q"
  using assms
  by (auto simp: RemoveDir_def FileExists_def os_stat_def os_remove_all_def Let_def advance_def
      set_fs_def lookup_touch lookup_remove_tree is_dir_at_def split: option.splits)

end
