(* ===== verification/Job_Types.thy ===== *)
theory Job_Types
  imports Float64 Os
begin

text \<open>
  The records of \<open>pkg/types/job.go\<close> and \<open>pkg/types/encoding.go\<close>, the quality ladder, the
  errors of \<open>internal/core/domain\<close> and the retry policy of \<open>pkg/types/retry.go\<close>. A pointer field
  is an \<open>option\<close>; a Go \<open>int\<close> is an \<open>int\<close> of the model.
\<close>

section \<open>Error codes\<close>

text \<open>The codes of \<open>core/domain/errors.go\<close> that the code uses.\<close>

abbreviation CodeJobNotFound :: string where "CodeJobNotFound \<equiv> ''ERR_JOB_NOT_FOUND''"
abbreviation CodeInvalidRequest :: string where "CodeInvalidRequest \<equiv> ''ERR_INVALID_REQUEST''"
abbreviation CodeMissingField :: string where "CodeMissingField \<equiv> ''ERR_MISSING_FIELD''"
abbreviation CodeFileNotFound :: string where "CodeFileNotFound \<equiv> ''ERR_FILE_NOT_FOUND''"
abbreviation CodeFileTooLarge :: string where "CodeFileTooLarge \<equiv> ''ERR_FILE_TOO_LARGE''"
abbreviation CodeUnsupportedFormat :: string where "CodeUnsupportedFormat \<equiv> ''ERR_UNSUPPORTED_FORMAT''"
abbreviation CodeCorruptedFile :: string where "CodeCorruptedFile \<equiv> ''ERR_CORRUPTED_FILE''"
abbreviation CodeNoVideoStream :: string where "CodeNoVideoStream \<equiv> ''ERR_NO_VIDEO_STREAM''"
abbreviation CodeInvalidVideo :: string where "CodeInvalidVideo \<equiv> ''ERR_INVALID_VIDEO''"
abbreviation CodeFFmpegFailed :: string where "CodeFFmpegFailed \<equiv> ''ERR_FFMPEG_FAILED''"
abbreviation CodeResolutionDetectFailed :: string where "CodeResolutionDetectFailed \<equiv> ''ERR_RESOLUTION_DETECT_FAILED''"
abbreviation CodeDiskFull :: string where "CodeDiskFull \<equiv> ''ERR_DISK_FULL''"
abbreviation CodeIOError :: string where "CodeIOError \<equiv> ''ERR_IO_ERROR''"
abbreviation CodePermissionDenied :: string where "CodePermissionDenied \<equiv> ''ERR_PERMISSION_DENIED''"
abbreviation CodeDeleteFailed :: string where "CodeDeleteFailed \<equiv> ''ERR_DELETE_FAILED''"
abbreviation CodeJobSizeExceeded :: string where "CodeJobSizeExceeded \<equiv> ''ERR_JOB_SIZE_EXCEEDED''"
abbreviation CodeInternalError :: string where "CodeInternalError \<equiv> ''ERR_INTERNAL_ERROR''"

section \<open>Encoding\<close>

record quality_variant =
  qv_name :: string
  qv_width :: int
  qv_height :: int
  qv_bitrate :: string
  qv_maxrate :: string
  qv_bufsize :: string

record video_info =
  vi_width :: int
  vi_height :: int
  vi_duration :: float64
  vi_has_audio :: bool

record quality_output_info =
  qo_quality :: string
  qo_playlist :: string
  qo_chunks_dir :: string
  qo_chunk_count :: nat

record encode_result =
  er_master :: string
  er_outputs :: "quality_output_info list"

definition variant :: "string \<Rightarrow> int \<Rightarrow> int \<Rightarrow> string \<Rightarrow> string \<Rightarrow> string \<Rightarrow> quality_variant" where
  "variant n w h b m s = \<lparr>qv_name = n, qv_width = w, qv_height = h, qv_bitrate = b,
                          qv_maxrate = m, qv_bufsize = s\<rparr>"

definition QualityLadder :: "quality_variant list" where
  "QualityLadder =
    [variant ''240p'' 426 240 ''400k'' ''428k'' ''600k'',
     variant ''360p'' 640 360 ''800k'' ''856k'' ''1200k'',
     variant ''480p'' 854 480 ''1200k'' ''1284k'' ''1800k'',
     variant ''720p'' 1280 720 ''2500k'' ''2675k'' ''3750k'',
     variant ''1080p'' 1920 1080 ''5000k'' ''5350k'' ''7500k'',
     variant ''1440p'' 2560 1440 ''8000k'' ''8560k'' ''12000k'',
     variant ''4K'' 3840 2160 ''15000k'' ''16050k'' ''22500k'']"

section \<open>Jobs\<close>

datatype job_status =
    QUEUED | RUNNING | COMPLETED | PARTIAL_SUCCESS | FAILED | INTERRUPTED | SCHEDULED

fun status_text :: "job_status \<Rightarrow> string" where
  "status_text QUEUED = ''QUEUED''"
| "status_text RUNNING = ''RUNNING''"
| "status_text COMPLETED = ''COMPLETED''"
| "status_text PARTIAL_SUCCESS = ''PARTIAL_SUCCESS''"
| "status_text FAILED = ''FAILED''"
| "status_text INTERRUPTED = ''INTERRUPTED''"
| "status_text SCHEDULED = ''SCHEDULED''"

record quality_metadata =
  qm_quality :: string
  qm_resolution :: string
  qm_bitrate :: string

record video_metadata =
  vm_file_name :: string
  vm_source_path :: string
  vm_resolution :: string
  vm_duration :: float64
  vm_generated :: "quality_metadata list"

record audio_info =
  ai_normalized :: bool
  ai_standard :: string

record quality_output =
  qt_quality :: string
  qt_playlist :: string
  qt_chunks_dir :: string
  qt_chunk_count :: nat

record output_info =
  oi_output_dir :: string
  oi_master :: string
  oi_qualities :: "quality_output list"
  oi_thumbnails :: "string list"
  oi_sprite :: string
  oi_clip :: string
  oi_gif :: string
  oi_audio :: "audio_info option"

record progress =
  pr_percentage :: int
  pr_step :: string

record job_meta =
  created_at :: go_time
  completed_at :: "go_time option"
  processing_time :: float64

record job_error =
  je_code :: string
  je_stage :: string
  je_message :: string
  je_logs_path :: string
  je_failed :: "string list"

record job =
  j_id :: string
  j_status :: job_status
  j_input_path :: string
  j_input_hash :: string
  j_chunk_duration :: int
  j_input :: "video_metadata option"
  j_output :: "output_info option"
  j_progress :: "progress option"
  j_meta :: job_meta
  j_retries :: int
  j_max_retries :: int
  j_error :: "job_error option"
  j_message :: string

text \<open>A video-only track and an audio track of the separate encoding.\<close>

record video_track =
  vt_quality :: string
  vt_resolution :: string
  vt_bandwidth :: int
  vt_playlist :: string

record audio_track =
  at_language :: string
  at_bitrate :: string
  at_playlist :: string
  at_default :: bool

text \<open>What the prober reports for the analysis endpoint, and the settings of the optional services.\<close>

record detailed_video_info =
  dv_width :: int
  dv_height :: int
  dv_duration :: float64
  dv_video_codec :: string
  dv_audio_codec :: string
  dv_bitrate :: string
  dv_video_bitrate :: string
  dv_frame_rate :: string
  dv_has_audio :: bool
  dv_audio_channels :: int
  dv_audio_sample_rate :: string
  dv_file_size :: string

record webhook_config =
  wh_url :: string
  wh_headers :: "(string, string) gomap"
  wh_secret :: string
  wh_retries :: int

record storage_config =
  sg_type :: string
  sg_bucket :: string
  sg_region :: string
  sg_path :: string

record cdn_config =
  cd_enabled :: bool
  cd_provider :: string
  cd_base_url :: string

section \<open>Domain errors\<close>

definition ErrJobNotFound :: err where "ErrJobNotFound = Err ''job not found''"
definition ErrJobAlreadyExists :: err where "ErrJobAlreadyExists = Err ''job already exists''"

section \<open>Retry policy\<close>

record retry_strategy =
  should_retry :: bool
  max_attempts :: nat
  backoff :: "duration list"

definition ffmpeg_codes :: "string list" where
  "ffmpeg_codes = [''ERR_FFMPEG_FAILED'', ''ERR_ENCODING_240P_FAILED'', ''ERR_ENCODING_360P_FAILED'',
     ''ERR_ENCODING_480P_FAILED'', ''ERR_ENCODING_720P_FAILED'', ''ERR_ENCODING_1080P_FAILED'',
     ''ERR_ENCODING_1440P_FAILED'', ''ERR_ENCODING_4K_FAILED'']"

definition invalid_input_codes :: "string list" where
  "invalid_input_codes = [''ERR_INVALID_VIDEO'', ''ERR_UNSUPPORTED_FORMAT'', ''ERR_CORRUPTED_FILE'',
     ''ERR_NO_VIDEO_STREAM'', ''ERR_RESOLUTION_TOO_HIGH'', ''ERR_DURATION_TOO_SHORT'',
     ''ERR_RESOLUTION_DETECT_FAILED'']"

definition disk_full_codes :: "string list" where
  "disk_full_codes = [''ERR_DISK_FULL'', ''ERR_JOB_SIZE_EXCEEDED'']"

definition GetRetryStrategy :: "string \<Rightarrow> retry_strategy" where
  "GetRetryStrategy code =
     (if code \<in> set ffmpeg_codes then
        \<lparr>should_retry = True, max_attempts = 3, backoff = [2 * second, 5 * second, 10 * second]\<rparr>
      else if code = ''ERR_IO_ERROR'' then
        \<lparr>should_retry = True, max_attempts = 3, backoff = [3 * second, 6 * second, 15 * second]\<rparr>
      else if code \<in> set invalid_input_codes then
        \<lparr>should_retry = False, max_attempts = 0, backoff = []\<rparr>
      else if code \<in> set disk_full_codes then
        \<lparr>should_retry = False, max_attempts = 0, backoff = []\<rparr>
      else
        \<lparr>should_retry = True, max_attempts = 2, backoff = [2 * second, 5 * second]\<rparr>)"

lemma retry_backoff_length: "length (backoff (GetRetryStrategy code)) = max_attempts (GetRetryStrategy code)"
  by (simp add: GetRetryStrategy_def)

lemma retry_max_attempts: "max_attempts (GetRetryStrategy code) \<le> 3"
  by (simp add: GetRetryStrategy_def)

lemma retry_iff_backoff: "should_retry (GetRetryStrategy code) \<longleftrightarrow> backoff (GetRetryStrategy code) \<noteq> []"
  by (simp add: GetRetryStrategy_def)

lemma retry_backoff_sorted: "sorted (backoff (GetRetryStrategy code))"
  by (simp add: GetRetryStrategy_def)

lemma retry_backoff_bounds: "d \<in> set (backoff (GetRetryStrategy code)) \<Longrightarrow> 2 * second \<le> d \<and> d \<le> 15 * second"
  by (auto simp: GetRetryStrategy_def split: if_splits)

end
