(* ===== verification/Config.thy ===== *)
theory Config
  imports Go_Text
begin

text \<open>
  \<open>pkg/constants/constants.go\<close> and \<open>pkg/config/config.go\<close>: the limits of the service and how
  the environment overrides them. The environment is an argument; a variable that is not set
  reads as the empty text.
\<close>

section \<open>Constants\<close>

definition MaxFileSizeMB_default :: int where "MaxFileSizeMB_default = 2048"
definition MaxJobSizeMB_default :: int where "MaxJobSizeMB_default = 3000"
definition MaxWidth_default :: int where "MaxWidth_default = 3840"
definition MaxHeight_default :: int where "MaxHeight_default = 2160"
definition DefaultChunkDuration_default :: int where "DefaultChunkDuration_default = 4"
definition DiskThresholdPercent_default :: int where "DiskThresholdPercent_default = 80"
definition HardLimitPercent_default :: int where "HardLimitPercent_default = 90"
definition MaxWorkers_default :: int where "MaxWorkers_default = 2"
definition MaxRetries_default :: int where "MaxRetries_default = 3"
definition HeartbeatInterval_default :: int where "HeartbeatInterval_default = 10"
definition OrphanTimeout_default :: int where "OrphanTimeout_default = 60"
definition GracefulShutdownTimeout_default :: int where "GracefulShutdownTimeout_default = 30"
definition CleanupInterval_default :: int where "CleanupInterval_default = 600"

definition FFmpegAudioCodec :: string where "FFmpegAudioCodec = ''aac''"
definition FFmpegAudioSampleRate :: string where "FFmpegAudioSampleRate = ''48000''"
definition FFmpegAudioBitrate :: string where "FFmpegAudioBitrate = ''128k''"
definition FFmpegVideoCodec :: string where "FFmpegVideoCodec = ''libx264''"
definition FFmpegHLSPlaylistType :: string where "FFmpegHLSPlaylistType = ''vod''"

definition OutputsDir_default :: string where "OutputsDir_default = ''outputs''"
definition ChunksDir_default :: string where "ChunksDir_default = ''chunks''"
definition CacheDir_default :: string where "CacheDir_default = ''cache''"
definition TmpDir_default :: string where "TmpDir_default = ''tmp''"
definition VideosDir_default :: string where "VideosDir_default = ''videos''"
definition LogsDir_default :: string where "LogsDir_default = ''logs''"
definition HLSDir :: string where "HLSDir = ''hls''"

definition PlaylistName :: string where "PlaylistName = ''main.m3u8''"
definition MasterPlaylist :: string where "MasterPlaylist = ''master.m3u8''"
definition ChunkPattern :: string where "ChunkPattern = ''chunk_%03d.ts''"

lemmas constant_defs = MaxFileSizeMB_default_def MaxJobSizeMB_default_def MaxWidth_default_def
  MaxHeight_default_def DefaultChunkDuration_default_def DiskThresholdPercent_default_def
  HardLimitPercent_default_def MaxWorkers_default_def MaxRetries_default_def
  HeartbeatInterval_default_def OrphanTimeout_default_def GracefulShutdownTimeout_default_def
  CleanupInterval_default_def OutputsDir_default_def ChunksDir_default_def CacheDir_default_def
  TmpDir_default_def VideosDir_default_def LogsDir_default_def

section \<open>The configuration\<close>

record server_config =
  sc_port :: string
  sc_shutdown_timeout :: int

record worker_config =
  wc_max_workers :: int
  wc_max_retries :: int
  wc_heartbeat_interval :: int
  wc_orphan_timeout :: int

record storage_dirs =
  outputs_dir :: string
  chunks_dir :: string
  cache_dir :: string
  tmp_dir :: string
  videos_dir :: string
  logs_dir :: string

record encoding_config =
  ec_max_file_size :: int
  ec_max_job_size :: int
  ec_max_width :: int
  ec_max_height :: int
  ec_chunk_duration :: int

record disk_config =
  dc_threshold :: int
  dc_hard_limit :: int
  dc_cleanup_interval :: int
  dc_max_job_size :: int

record config =
  cf_server :: server_config
  cf_worker :: worker_config
  cf_storage :: storage_dirs
  cf_encoding :: encoding_config
  cf_disk :: disk_config

abbreviation outputs :: "config \<Rightarrow> string" where
  "outputs cfg \<equiv> outputs_dir (cf_storage cfg)"

type_synonym environment = "string \<Rightarrow> string"

definition getEnv :: "environment \<Rightarrow> string \<Rightarrow> string \<Rightarrow> string" where
  "getEnv env key def = (if env key \<noteq> [] then env key else def)"

definition getEnvInt :: "environment \<Rightarrow> string \<Rightarrow> int \<Rightarrow> int" where
  "getEnvInt env key def =
     (if env key \<noteq> [] then (case atoi (env key) of Some n \<Rightarrow> n | None \<Rightarrow> def) else def)"

definition Load :: "environment \<Rightarrow> config" where
  "Load env =
    \<lparr>cf_server = \<lparr>sc_port = getEnv env ''PORT'' ''8080'',
       sc_shutdown_timeout = getEnvInt env ''SHUTDOWN_TIMEOUT'' GracefulShutdownTimeout_default\<rparr>,
     cf_worker = \<lparr>wc_max_workers = getEnvInt env ''MAX_WORKERS'' MaxWorkers_default,
       wc_max_retries = getEnvInt env ''MAX_RETRIES'' MaxRetries_default,
       wc_heartbeat_interval = getEnvInt env ''HEARTBEAT_INTERVAL'' HeartbeatInterval_default,
       wc_orphan_timeout = getEnvInt env ''ORPHAN_TIMEOUT'' OrphanTimeout_default\<rparr>,
     cf_storage = \<lparr>outputs_dir = getEnv env ''OUTPUTS_DIR'' OutputsDir_default,
       chunks_dir = getEnv env ''CHUNKS_DIR'' ChunksDir_default,
       cache_dir = getEnv env ''CACHE_DIR'' CacheDir_default,
       tmp_dir = getEnv env ''TMP_DIR'' TmpDir_default,
       videos_dir = getEnv env ''VIDEOS_DIR'' VideosDir_default,
       logs_dir = getEnv env ''LOGS_DIR'' LogsDir_default\<rparr>,
     cf_encoding = \<lparr>ec_max_file_size = getEnvInt env ''MAX_FILE_SIZE_MB'' MaxFileSizeMB_default,
       ec_max_job_size = getEnvInt env ''MAX_JOB_SIZE_MB'' MaxJobSizeMB_default,
       ec_max_width = getEnvInt env ''MAX_WIDTH'' MaxWidth_default,
       ec_max_height = getEnvInt env ''MAX_HEIGHT'' MaxHeight_default,
       ec_chunk_duration = getEnvInt env ''DEFAULT_CHUNK_DURATION'' DefaultChunkDuration_default\<rparr>,
     cf_disk = \<lparr>dc_threshold = getEnvInt env ''DISK_THRESHOLD_PERCENT'' DiskThresholdPercent_default,
       dc_hard_limit = getEnvInt env ''DISK_HARD_LIMIT_PERCENT'' HardLimitPercent_default,
       dc_cleanup_interval = getEnvInt env ''CLEANUP_INTERVAL'' CleanupInterval_default,
       dc_max_job_size = getEnvInt env ''MAX_JOB_SIZE_MB'' MaxJobSizeMB_default\<rparr>\<rparr>"

lemma getEnv_nonempty: "def \<noteq> [] \<Longrightarrow> getEnv env key def \<noteq> []"
  by (simp add: getEnv_def)

text \<open>The directories of a loaded configuration always have a name.\<close>

lemma outputs_Load: "outputs (Load env) \<noteq> []" "cache_dir (cf_storage (Load env)) \<noteq> []"
  by (simp_all add: Load_def getEnv_nonempty constant_defs)

lemma getEnvInt_show:
  "fits64 n \<Longrightarrow> env key = show_int n \<Longrightarrow> show_int n \<noteq> [] \<Longrightarrow> getEnvInt env key def = n"
  by (simp add: getEnvInt_def atoi_show_int)

end
