(* ===== verification/Media.thy ===== *)
theory Media
  imports Job_Types Config
begin

text \<open>
  The programs the service runs, and what it makes of their output:
  \<open>internal/infrastructure/ffmpeg/probe.go\<close> and the watchdog of \<open>pkg/utils/watchdog.go\<close>.

  A program is an argument, the runner: it takes the name, the arguments and the state of the
  system, and returns how the program ended, what it printed and the state it left. Nothing is
  assumed of it; where a property needs that a program changes nothing but files, it says so
  (\<open>tame\<close>).
\<close>

section \<open>Programs\<close>

record cmd_result =
  cr_started :: bool
  cr_error :: "err option"
  cr_stdout :: string
  cr_stderr :: string

type_synonym 'w runner = "string \<Rightarrow> string list \<Rightarrow> 'w \<Rightarrow> cmd_result \<times> 'w"

definition tame :: "'a os_scheme runner \<Rightarrow> bool" where
  "tame run \<longleftrightarrow> (\<forall>c as w. os_frame w (snd (run c as w)))"

text \<open>\<open>cmd.Output\<close> and \<open>cmd.Run\<close>.\<close>

definition cmd_output :: "'w runner \<Rightarrow> string \<Rightarrow> string list \<Rightarrow> 'w \<Rightarrow> (err + string) \<times> 'w" where
  "cmd_output run c as w =
     (let (r, w1) = run c as w
      in (case cr_error r of Some e \<Rightarrow> Inl e | None \<Rightarrow> Inr (cr_stdout r), w1))"

definition cmd_run :: "'w runner \<Rightarrow> string \<Rightarrow> string list \<Rightarrow> 'w \<Rightarrow> (err + unit) \<times> 'w" where
  "cmd_run run c as w =
     (let (r, w1) = run c as w in (case cr_error r of Some e \<Rightarrow> Inl e | None \<Rightarrow> Inr (), w1))"

lemma tame_frame [intro]:
  "tame run \<Longrightarrow> os_frame w (snd (cmd_output run c as w))"
  "tame run \<Longrightarrow> os_frame w (snd (cmd_run run c as w))"
  by (simp_all add: tame_def cmd_output_def cmd_run_def case_prod_beta)

section \<open>Reading numbers\<close>

text \<open>
  The verb \<open>%f\<close> of \<open>fmt.Sscanf\<close> for a decimal with an optional fraction and exponent, \<open>nan\<close>
  and infinities. The value is the nearest binary64 number.
\<close>

definition scan_exp :: "string \<Rightarrow> (int \<times> string) option" where
  "scan_exp s = (if s \<noteq> [] \<and> (hd s = CHR ''e'' \<or> hd s = CHR ''E'') then scan_number (tl s) else Some (0, s))"

definition pow10 :: "int \<Rightarrow> rat" where
  "pow10 e = (if 0 \<le> e then 10 ^ nat e else 1 / 10 ^ nat (- e))"

definition scan_f :: "string \<Rightarrow> (float64 \<times> string) option" where
  "scan_f s0 =
     (let s = dropWhile is_blank s0;
          neg = (s \<noteq> [] \<and> hd s = CHR ''-'');
          t = (if s \<noteq> [] \<and> (hd s = CHR ''-'' \<or> hd s = CHR ''+'') then tl s else s)
      in if to_lower (take 3 t) = ''nan'' then Some (NaN, drop 3 t)
         else if to_lower (take 3 t) = ''inf'' then Some (if neg then NInf else PInf, drop 3 t)
         else let ip = takeWhile is_digit t; r1 = dropWhile is_digit t;
                  hasdot = (r1 \<noteq> [] \<and> hd r1 = CHR ''.'');
                  fp = (if hasdot then takeWhile is_digit (tl r1) else []);
                  r2 = (if hasdot then dropWhile is_digit (tl r1) else r1)
              in if ip = [] \<and> fp = [] then None
                 else (case scan_exp r2 of
                         None \<Rightarrow> None
                       | Some (e, r3) \<Rightarrow>
                           let m = rat_of_nat (digits_val (ip @ fp)) * pow10 (e - int (length fp));
                               v = round64 (if neg then - m else m)
                           in if v = PInf \<or> v = NInf then None else Some (v, r3)))"

text \<open>A newline in the format: blanks, then the end of the line.\<close>

definition scan_newline :: "string \<Rightarrow> string option" where
  "scan_newline s = (case dropWhile is_blank s of [] \<Rightarrow> None | c # r \<Rightarrow> if [c] = newline then Some r else None)"

text \<open>The format \<open>%d\<close>, newline, \<open>%d\<close>, newline, \<open>%f\<close>.\<close>

definition scan_info :: "string \<Rightarrow> (int \<times> int \<times> float64) option" where
  "scan_info s =
     (case scan_d s of None \<Rightarrow> None | Some (a, r1) \<Rightarrow>
      case scan_newline r1 of None \<Rightarrow> None | Some r2 \<Rightarrow>
      case scan_d r2 of None \<Rightarrow> None | Some (b, r3) \<Rightarrow>
      case scan_newline r3 of None \<Rightarrow> None | Some r4 \<Rightarrow>
      case scan_f r4 of None \<Rightarrow> None | Some (f, _) \<Rightarrow> Some (a, b, f))"

section \<open>Sizes in megabytes\<close>

definition GetFileSizeMB :: "string \<Rightarrow> 'a os_scheme \<Rightarrow> (float64 \<times> err option) \<times> 'a os_scheme" where
  "GetFileSizeMB p w =
     (let (r, w1) = GetFileSize p w
      in (case r of Inl e \<Rightarrow> (Fin 0, Some e) | Inr n \<Rightarrow> (fdiv (f_of_int n) (Fin 1048576), None), w1))"

section \<open>\<open>probe.go\<close>\<close>

definition HasAudioStream :: "'w runner \<Rightarrow> string \<Rightarrow> 'w \<Rightarrow> bool \<times> 'w" where
  "HasAudioStream run inputPath w =
     (let (r, w1) = cmd_output run ''ffprobe''
            [''-v'', ''quiet'', ''-select_streams'', ''a:0'', ''-show_entries'', ''stream=codec_type'',
             ''-of'', ''default=noprint_wrappers=1:nokey=1'', inputPath] w
      in (case r of Inl _ \<Rightarrow> False | Inr out \<Rightarrow> out \<noteq> [] \<and> prefix ''audio'' out, w1))"

definition GetVideoInfo :: "'w runner \<Rightarrow> string \<Rightarrow> 'w \<Rightarrow> (err + video_info) \<times> 'w" where
  "GetVideoInfo run inputPath w =
     (let (r, w1) = cmd_output run ''ffprobe''
            [''-v'', ''quiet'', ''-select_streams'', ''v:0'', ''-show_entries'',
             ''stream=width,height:format=duration'', ''-of'', ''default=noprint_wrappers=1:nokey=1'', inputPath] w
      in case r of
           Inl e \<Rightarrow> (Inl (wrap ''failed to get video info'' e), w1)
         | Inr out \<Rightarrow>
             (case scan_info out of
                None \<Rightarrow> (Inl (Err ''failed to parse video info''), w1)
              | Some (width, height, duration) \<Rightarrow>
                  (let (audio, w2) = HasAudioStream run inputPath w1
                   in (Inr \<lparr>vi_width = width, vi_height = height, vi_duration = duration, vi_has_audio = audio\<rparr>, w2))))"

definition ValidateVideoStream :: "'w runner \<Rightarrow> string \<Rightarrow> 'w \<Rightarrow> (err + unit) \<times> 'w" where
  "ValidateVideoStream run filePath w =
     (let (r, w1) = cmd_output run ''ffprobe''
            [''-v'', ''error'', ''-show_streams'', ''-show_format'', ''-of'', ''json'', filePath] w
      in (case r of
            Inl e \<Rightarrow> Inl (wrap ''failed to analyze video file'' e)
          | Inr out \<Rightarrow>
              if \<not> str_contains out (quote @ ''codec_type'' @ quote @ '': '' @ quote @ ''video'' @ quote)
              then Inl (Err ''file does not contain a valid video stream'') else Inr (), w1))"

definition TestDecode :: "'w runner \<Rightarrow> string \<Rightarrow> 'w \<Rightarrow> (err + unit) \<times> 'w" where
  "TestDecode run filePath w =
     (let (r, w1) = cmd_run run ''ffmpeg'' [''-v'', ''error'', ''-i'', filePath, ''-t'', ''1'', ''-f'', ''null'', ''-''] w
      in (case r of Inl e \<Rightarrow> Inl (wrap ''decode test failed'' e) | Inr _ \<Rightarrow> Inr (), w1))"

definition trim_space :: "string \<Rightarrow> string" where
  "trim_space s = (let blank = (\<lambda>c. is_blank c \<or> [c] = newline)
                   in rev (dropWhile blank (rev (dropWhile blank s))))"

definition GetFileFormat :: "'w runner \<Rightarrow> string \<Rightarrow> 'w \<Rightarrow> (err + string) \<times> 'w" where
  "GetFileFormat run filePath w =
     (let (r, w1) = cmd_output run ''ffprobe''
            [''-v'', ''quiet'', ''-show_entries'', ''format=format_name'', ''-of'',
             ''default=noprint_wrappers=1:nokey=1'', filePath] w
      in (case r of Inl e \<Rightarrow> Inl (wrap ''failed to get file format'' e) | Inr out \<Rightarrow> Inr (trim_space out), w1))"

lemma tame_probe [intro]:
  assumes "tame run"
  shows "os_frame w (snd (HasAudioStream run p w))" "os_frame w (snd (GetVideoInfo run p w))"
proof -
  show a: "os_frame w (snd (HasAudioStream run p w))" for w
    using tame_frame(1) [OF assms] by (simp add: HasAudioStream_def case_prod_beta)
  show "os_frame w (snd (GetVideoInfo run p w))"
    using tame_frame(1) [OF assms] os_frame_trans [OF tame_frame(1) [OF assms] a]
    by (simp add: GetVideoInfo_def case_prod_beta split: sum.split option.split)
qed

section \<open>The watchdog\<close>

text \<open>\<open>Duration.String\<close> for a duration of at least a second.\<close>

definition strip_zeros :: "string \<Rightarrow> string" where
  "strip_zeros s = rev (dropWhile (\<lambda>c. c = CHR ''0'') (rev s))"

definition pad9 :: "nat \<Rightarrow> string" where
  "pad9 n = (let s = show_nat n in replicate (9 - length s) CHR ''0'' @ s)"

definition fmt_duration :: "duration \<Rightarrow> string" where
  "fmt_duration d =
     (let s = d div second; ns = d mod second; h = s div 3600; m = (s div 60) mod 60; sec = s mod 60;
          frac = (if ns = 0 then [] else ''.'' @ strip_zeros (pad9 (nat ns)))
      in (if h > 0 then show_int h @ ''h'' else []) @ (if h > 0 \<or> m > 0 then show_int m @ ''m'' else [])
         @ show_int sec @ frac @ ''s'')"

text \<open>The multiplication and the addition wrap around.\<close>

definition NewWatchdog :: "float64 \<Rightarrow> duration" where
  "NewWatchdog videoDuration =
     (let timeout = wrap64 (wrap64 (f_to_int (fmul videoDuration (Fin 2)) * second) + 60 * second)
      in if timeout < 2 * minute then 2 * minute else timeout)"

definition NewWatchdogWithTimeout :: "duration \<Rightarrow> duration" where
  "NewWatchdogWithTimeout timeout = timeout"

definition GetTimeout :: "duration \<Rightarrow> duration" where
  "GetTimeout timeout = timeout"

text \<open>
  \<open>Watch\<close> runs the function and waits for it for the timeout at most. The function is not
  stopped by a timeout: its effects happen either way. They are all done here when \<open>Watch\<close> returns, where in Go
  those of a function that has timed out go on beside what the caller does next.
\<close>

definition Watch ::
    "duration \<Rightarrow> ('a os_scheme \<Rightarrow> (err + unit) \<times> 'a os_scheme) \<Rightarrow> 'a os_scheme \<Rightarrow> (err + unit) \<times> 'a os_scheme" where
  "Watch timeout fn w =
     (let (start, w1) = time_now w; (r, w2) = fn w1; (fin, w3) = time_now w2
      in (if fin - start > timeout then Inl (Err (''operation timed out after '' @ fmt_duration timeout)) else r, w3))"

lemma NewWatchdog_min: "2 * minute \<le> NewWatchdog d"
  by (simp add: NewWatchdog_def Let_def)

text \<open>The timeout of an encoding is at least two minutes, and for any video of up to thirty years it is
at least twice the length of the video plus 59 seconds.\<close>

theorem watchdog_covers_video:
  assumes "0 \<le> q" "q \<le> 1000000000"
  shows "2 * minute \<le> NewWatchdog (Fin q)
    \<and> (2 * q + 59) * of_int second \<le> of_int (NewWatchdog (Fin q))"
proof
  show "2 * minute \<le> NewWatchdog (Fin q)" by (rule NewWatchdog_min)
  let ?f = "\<lfloor>2 * q\<rfloor>" and ?t = "rtrunc (fl (q * 2))"
  have f: "0 \<le> ?f" "?f \<le> 2000000000" using assms by (simp_all add: floor_le_iff)
  have lo: "of_int ?f \<le> fl (q * 2)" using f by (intro fl_ge_int) (simp_all add: mult.commute)
  have hi: "fl (q * 2) \<le> of_int 2000000000" using assms by (intro fl_le_int) simp_all
  have y: "0 \<le> fl (q * 2)" using assms by (intro fl_nonneg) simp
  have t: "?f \<le> ?t" "?t \<le> 2000000000" using lo hi y by (simp_all add: rtrunc_def le_floor_iff floor_le_iff)
  have t0: "0 \<le> ?t" using f t by linarith
  have v: "f_to_int (fmul (Fin q) (Fin 2)) = ?t"
    using assms t0 t(2) by (simp add: round64_Fin fits64_def)
  have "wrap64 (wrap64 (?t * second) + 60 * second) = ?t * second + 60 * second"
    using t0 t(2) by (simp add: fits64_def)
  then have ge: "?t * second + 60 * second \<le> NewWatchdog (Fin q)"
    unfolding NewWatchdog_def v Let_def by simp
  have "2 * q \<le> of_int ?f + 1" by linarith
  then have "(2 * q + 59) * of_int second \<le> (of_int ?f + 60) * of_int second" by simp
  also have "\<dots> \<le> of_int (?t * second + 60 * second)" using t(1) by simp
  also have "\<dots> \<le> of_int (NewWatchdog (Fin q))" using ge by (simp only: of_int_le_iff)
  finally show "(2 * q + 59) * of_int second \<le> of_int (NewWatchdog (Fin q))" .
qed

theorem watchdog_covers_video_witness:
  "(2 * 10 + 59) * 1000000000 \<le> (of_int (NewWatchdog (Fin 10)) :: rat)"
  using watchdog_covers_video [of 10] by simp

end
