(* ===== verification/Validator.thy ===== *)
theory Validator
  imports Media
begin

text \<open>
  \<open>internal/infrastructure/filesystem/validator.go\<close>: the checks an input file passes before a job is
  created for it, in their order. The prober is the runner of \<^emph>\<open>Media\<close>.
\<close>

section \<open>Errors\<close>

datatype detail = DStr string | DInt int | DFloat float64 | DStrs "string list"

record validation_error =
  ve_code :: string
  ve_message :: string
  ve_details :: "(string, detail) gomap"

definition verr :: "string \<Rightarrow> string \<Rightarrow> (string, detail) gomap \<Rightarrow> validation_error" where
  "verr c m d = \<lparr>ve_code = c, ve_message = m, ve_details = d\<rparr>"

text \<open>The detail that holds the text of the underlying error.\<close>

definition cause :: "err \<Rightarrow> (string, detail) gomap" where
  "cause e = [(''error'', DStr (error_text e))]"

section \<open>The checks\<close>

definition allowedExtensions :: "string list" where
  "allowedExtensions = [''.mp4'', ''.mkv'', ''.mov'', ''.webm'', ''.avi'']"

definition allowedFormats :: "string list" where
  "allowedFormats = [''mov,mp4,m4a,3gp,3g2,mj2'', ''matroska,webm'', ''avi'']"

text \<open>The constant 0.1 as a \<open>float64\<close>.\<close>

definition MinDuration :: float64 where
  "MinDuration = round64 (1 / 10)"

definition ValidateMimeType :: "'w runner \<Rightarrow> string \<Rightarrow> 'w \<Rightarrow> (validation_error + unit) \<times> 'w" where
  "ValidateMimeType run filePath w =
     (case GetFileFormat run filePath w of
        (Inl e, w1) \<Rightarrow> (Inl (verr CodeInvalidVideo ''Failed to detect file format'' (cause e)), w1)
      | (Inr format, w1) \<Rightarrow>
          (if format \<notin> set allowedFormats
           then Inl (verr CodeUnsupportedFormat ''File format not supported''
                       [(''detectedFormat'', DStr format), (''allowed'', DStrs [''mp4'', ''mov'', ''mkv'', ''webm'', ''avi''])])
           else Inr (), w1))"

definition check_video_stream :: "'w runner \<Rightarrow> string \<Rightarrow> 'w \<Rightarrow> (validation_error + unit) \<times> 'w" where
  "check_video_stream run filePath w =
     (let (r, w1) = ValidateVideoStream run filePath w
      in (case r of Inl e \<Rightarrow> Inl (verr CodeNoVideoStream ''File does not contain a valid video stream'' (cause e))
          | Inr _ \<Rightarrow> Inr (), w1))"

definition ValidateResolution :: "'w runner \<Rightarrow> string \<Rightarrow> 'w \<Rightarrow> (validation_error + unit) \<times> 'w" where
  "ValidateResolution run filePath w =
     (case GetVideoInfo run filePath w of
        (Inl e, w1) \<Rightarrow> (Inl (verr CodeInvalidVideo ''Failed to get video resolution'' (cause e)), w1)
      | (Inr info, w1) \<Rightarrow>
          (if vi_width info > MaxWidth_default \<or> vi_height info > MaxHeight_default
           then Inl (verr ''ERR_RESOLUTION_TOO_HIGH'' ''Video resolution exceeds maximum allowed (3840x2160)''
                       [(''width'', DInt (vi_width info)), (''height'', DInt (vi_height info)),
                        (''maxWidth'', DInt MaxWidth_default), (''maxHeight'', DInt MaxHeight_default)])
           else Inr (), w1))"

definition ValidateDuration :: "'w runner \<Rightarrow> string \<Rightarrow> 'w \<Rightarrow> (validation_error + unit) \<times> 'w" where
  "ValidateDuration run filePath w =
     (case GetVideoInfo run filePath w of
        (Inl e, w1) \<Rightarrow> (Inl (verr CodeInvalidVideo ''Failed to get video duration'' (cause e)), w1)
      | (Inr info, w1) \<Rightarrow>
          (if flt (vi_duration info) MinDuration
           then Inl (verr ''ERR_DURATION_TOO_SHORT'' ''Video duration must be at least 0.1 seconds''
                       [(''duration'', DFloat (vi_duration info)), (''minDuration'', DFloat MinDuration)])
           else Inr (), w1))"

text \<open>The checks in a row: the first that fails ends the validation.\<close>

fun all_checks :: "('w \<Rightarrow> (validation_error + unit) \<times> 'w) list \<Rightarrow> 'w \<Rightarrow> (validation_error + unit) \<times> 'w" where
  "all_checks [] w = (Inr (), w)"
| "all_checks (c # cs) w =
     (case c w of (Inl e, w1) \<Rightarrow> (Inl e, w1) | (Inr _, w1) \<Rightarrow> all_checks cs w1)"

definition check_decode :: "'w runner \<Rightarrow> string \<Rightarrow> 'w \<Rightarrow> (validation_error + unit) \<times> 'w" where
  "check_decode run filePath w =
     (let (r, w1) = TestDecode run filePath w
      in (case r of Inl e \<Rightarrow> Inl (verr CodeCorruptedFile ''Video file appears to be corrupted'' (cause e))
          | Inr _ \<Rightarrow> Inr (), w1))"

definition media_checks :: "'w runner \<Rightarrow> string \<Rightarrow> ('w \<Rightarrow> (validation_error + unit) \<times> 'w) list" where
  "media_checks run filePath =
     [ValidateMimeType run filePath, check_video_stream run filePath, ValidateResolution run filePath,
      ValidateDuration run filePath, check_decode run filePath]"

definition ValidateFile :: "'a os_scheme runner \<Rightarrow> string \<Rightarrow> 'a os_scheme \<Rightarrow> (validation_error + unit) \<times> 'a os_scheme" where
  "ValidateFile run filePath w =
     (let (ex, w1) = FileExists filePath w
      in if \<not> ex then (Inl (verr CodeFileNotFound ''File not found'' [(''path'', DStr filePath)]), w1)
         else case GetFileSizeMB filePath w1 of
                ((_, Some e), w2) \<Rightarrow> (Inl (verr CodeInvalidVideo ''Failed to get file size'' (cause e)), w2)
              | ((fileSizeMB, None), w2) \<Rightarrow>
                  if flt (f_of_int MaxFileSizeMB_default) fileSizeMB
                  then (Inl (verr CodeFileTooLarge ''File size exceeds maximum allowed size of 2048MB''
                              [(''fileSizeMB'', DFloat fileSizeMB), (''maxSizeMB'', DInt MaxFileSizeMB_default)]), w2)
                  else let ext = to_lower (path_ext filePath)
                       in if ext \<notin> set allowedExtensions
                          then (Inl (verr CodeUnsupportedFormat ''File format not supported''
                                      [(''extension'', DStr ext), (''allowed'', DStrs allowedExtensions)]), w2)
                          else all_checks (media_checks run filePath) w2)"

section \<open>What a validated file is\<close>

text \<open>C32. The checks of a file in their order, each with the code it refuses a file with: a refusal carries the code of the
first check that the file fails, with the readings of the prober in the order in which they are taken; a
file is accepted if and only if it fails none. So it is then there, with at most 2048 MB.\<close>

theorem validate_file_spec:
  "let (ex, w1) = FileExists p w;
       ((mb, unsized), w2) = GetFileSizeMB p w1;
       (format, w3) = GetFileFormat run p w2;
       (stream, w4) = ValidateVideoStream run p w3;
       (size, w5) = GetVideoInfo run p w4;
       (time, w6) = GetVideoInfo run p w5;
       decoded = fst (TestDecode run p w6);
       checks =
         [(\<not> ex, CodeFileNotFound),
          (unsized \<noteq> None, CodeInvalidVideo),
          (flt (f_of_int 2048) mb, CodeFileTooLarge),
          (to_lower (path_ext p) \<notin> {''.mp4'', ''.mkv'', ''.mov'', ''.webm'', ''.avi''}, CodeUnsupportedFormat),
          (\<not> is_ok format, CodeInvalidVideo),
          (case format of Inl _ \<Rightarrow> False | Inr f \<Rightarrow> f \<notin> {''mov,mp4,m4a,3gp,3g2,mj2'', ''matroska,webm'', ''avi''}, CodeUnsupportedFormat),
          (\<not> is_ok stream, CodeNoVideoStream),
          (\<not> is_ok size, CodeInvalidVideo),
          (case size of Inl _ \<Rightarrow> False | Inr i \<Rightarrow> 3840 < vi_width i \<or> 2160 < vi_height i, ''ERR_RESOLUTION_TOO_HIGH''),
          (\<not> is_ok time, CodeInvalidVideo),
          (case time of Inl _ \<Rightarrow> False | Inr i \<Rightarrow> flt (vi_duration i) MinDuration, ''ERR_DURATION_TOO_SHORT''),
          (\<not> is_ok decoded, CodeCorruptedFile)]
   in case fst (ValidateFile run p w) of
        Inl e \<Rightarrow> find fst checks = Some (True, ve_code e)
      | Inr _ \<Rightarrow> find fst checks = None
          \<and> (\<exists>n. lookup (fs w) (parse_path p) = Some n \<and> \<not> flt (f_of_int 2048) (fdiv (f_of_int (node_size w n)) (Fin 1048576)))"
proof -
  obtain ex w1 where ex: "FileExists p w = (ex, w1)" by fastforce
  obtain mb e w2 where mb: "GetFileSizeMB p w1 = ((mb, e), w2)" by (metis prod.collapse)
  obtain format w3 where format: "GetFileFormat run p w2 = (format, w3)" by fastforce
  obtain stream w4 where stream: "ValidateVideoStream run p w3 = (stream, w4)" by fastforce
  obtain size w5 where size: "GetVideoInfo run p w4 = (size, w5)" by fastforce
  obtain time w6 where time: "GetVideoInfo run p w5 = (time, w6)" by fastforce
  obtain decoded w7 where decoded: "TestDecode run p w6 = (decoded, w7)" by fastforce
  note runs = ex mb format stream size time decoded
  have w1: "fs w1 = fs w" "doclen w1 = doclen w"
    using fs_utils_reads(1) [of p w] os_frame_env [OF os_frame_utils(1) [of w p]] ex by simp_all
  have node_size_same: "node_size w1 n = node_size w n" for n
    using w1(2) by (simp add: node_size_def content_size_def split: node.split content.split)
  have n: "\<exists>n. lookup (fs w) (parse_path p) = Some n \<and> mb = fdiv (f_of_int (node_size w n)) (Fin 1048576)" if "e = None"
    using mb that w1
    by (auto simp: GetFileSizeMB_def GetFileSize_def os_stat_def case_prod_beta node_size_same
        split: sum.splits io_outcome.splits option.splits)
  note checks = ValidateMimeType_def check_video_stream_def ValidateResolution_def ValidateDuration_def check_decode_def
    allowedFormats_def allowedExtensions_def MaxFileSizeMB_default_def MaxWidth_default_def MaxHeight_default_def verr_def is_ok_def
  consider (size) "\<not> ex \<or> e \<noteq> None \<or> flt (f_of_int 2048) mb \<or> to_lower (path_ext p) \<notin> set allowedExtensions"
    | (media) "ex" "e = None" "\<not> flt (f_of_int 2048) mb" "to_lower (path_ext p) \<in> set allowedExtensions" by blast
  then show ?thesis
  proof cases
    case size
    then show ?thesis
      by (cases ex; cases e; cases "flt (f_of_int 2048) mb") (simp_all add: ValidateFile_def runs checks)
  next
    case media
    then have v: "ValidateFile run p w = all_checks (media_checks run p) w2"
      by (simp add: ValidateFile_def runs MaxFileSizeMB_default_def)
    have x: "to_lower (path_ext p) \<in> {''.mp4'', ''.mkv'', ''.mov'', ''.webm'', ''.avi''}" using media(4) by (simp add: allowedExtensions_def)
    from n [OF media(2)] media(3) have "\<exists>n. lookup (fs w) (parse_path p) = Some n \<and> \<not> flt (f_of_int 2048) (fdiv (f_of_int (node_size w n)) (Fin 1048576))" by blast
    then show ?thesis using media(1-3) x unfolding v
      by (cases format; cases stream; cases size; cases time; cases decoded) (simp_all add: runs media_checks_def checks)
  qed
qed

end
