(* ===== verification/Encoder.thy ===== *)
theory Encoder
  imports Media "HOL-Library.Multiset"
begin

text \<open>
  The encoders of \<open>internal/infrastructure/ffmpeg\<close> (\<open>encoder.go\<close>, \<open>quality_encoder.go\<close>,
  \<open>master_playlist.go\<close>, \<open>audio_processor.go\<close>, \<open>video_only_encoder.go\<close>) and
  \<open>internal/application/usecases/separate_av_encoder.go\<close>: which qualities are made of a video,
  the command lines, what is made of their outcome, and the playlists. The programs are the
  runner of \<^emph>\<open>Media\<close>. A written text is the file content \<open>text_file\<close>.
\<close>

definition text_file :: "string \<Rightarrow> content" where
  "text_file s = Opaque s (int (length s))"

section \<open>Selecting qualities\<close>

definition SelectVariants :: "int \<Rightarrow> int \<Rightarrow> quality_variant list" where
  "SelectVariants inputWidth inputHeight =
     (let variants = filter (\<lambda>v. qv_height v \<le> inputHeight) QualityLadder
      in if variants = [] \<and> QualityLadder \<noteq> [] then [hd QualityLadder] else variants)"

record quality_spec =
  qs_name :: string
  qs_width :: int
  qs_height :: int
  qs_bitrate :: string
  qs_kbps :: int

definition spec :: "string \<Rightarrow> int \<Rightarrow> int \<Rightarrow> string \<Rightarrow> int \<Rightarrow> quality_spec" where
  "spec n w h b k = \<lparr>qs_name = n, qs_width = w, qs_height = h, qs_bitrate = b, qs_kbps = k\<rparr>"

definition all_specs :: "quality_spec list" where
  "all_specs =
    [spec ''240p'' 426 240 ''400k'' 400, spec ''360p'' 640 360 ''800k'' 800,
     spec ''480p'' 854 480 ''1200k'' 1200, spec ''720p'' 1280 720 ''2500k'' 2500,
     spec ''1080p'' 1920 1080 ''5000k'' 5000, spec ''1440p'' 2560 1440 ''8000k'' 8000,
     spec ''4k'' 3840 2160 ''12000k'' 12000]"

definition selectQualities :: "int \<Rightarrow> int \<Rightarrow> quality_spec list" where
  "selectQualities width height = filter (\<lambda>q. qs_width q \<le> width \<and> qs_height q \<le> height) all_specs"

section \<open>Bitrates and command lines\<close>

text \<open>A text that does not start with a number leaves the variable at zero.\<close>

definition parseBitrate :: "string \<Rightarrow> int" where
  "parseBitrate bitrate = wrap64 ((case scan_d bitrate of None \<Rightarrow> 0 | Some (v, _) \<Rightarrow> v) * 1000)"

definition parseInt :: "string \<Rightarrow> int" where
  "parseInt bitrate =
     (let val = (case scan_d bitrate of None \<Rightarrow> 0 | Some (v, _) \<Rightarrow> v) in if val = 0 then 2500 else val)"

definition scale_filter :: "int \<Rightarrow> int \<Rightarrow> string" where
  "scale_filter w h = ''scale='' @ show_int w @ '':'' @ show_int h"

definition audio_args :: "bool \<Rightarrow> string list" where
  "audio_args hasAudio =
     (if hasAudio then [''-c:a'', FFmpegAudioCodec, ''-ar'', FFmpegAudioSampleRate, ''-b:a'', FFmpegAudioBitrate]
      else [])"

definition buildSingleQualityArgs :: "string \<Rightarrow> string \<Rightarrow> quality_variant \<Rightarrow> int \<Rightarrow> bool \<Rightarrow> string list" where
  "buildSingleQualityArgs inputPath outputDir v chunkDuration hasAudio =
     [''-i'', inputPath, ''-vf'', scale_filter (qv_width v) (qv_height v), ''-c:v'', FFmpegVideoCodec,
      ''-b:v'', qv_bitrate v, ''-maxrate'', qv_maxrate v, ''-bufsize'', qv_bufsize v]
     @ audio_args hasAudio
     @ [''-f'', ''hls'', ''-hls_time'', show_int chunkDuration, ''-hls_playlist_type'', FFmpegHLSPlaylistType,
        ''-hls_segment_filename'', join_path [outputDir, ChunkPattern], ''-y'', join_path [outputDir, ''main.m3u8'']]"

fun var_streams :: "nat \<Rightarrow> bool \<Rightarrow> quality_variant list \<Rightarrow> string" where
  "var_streams i hasAudio [] = []"
| "var_streams i hasAudio (v # vs) =
     (if i > 0 then '' '' else [])
     @ (if hasAudio then ''v:'' @ show_nat i @ '',a:'' @ show_nat i @ '',name:'' @ qv_name v
        else ''v:'' @ show_nat i @ '',name:'' @ qv_name v)
     @ var_streams (Suc i) hasAudio vs"

definition buildVarStreamMap :: "quality_variant list \<Rightarrow> bool \<Rightarrow> string" where
  "buildVarStreamMap variants hasAudio = var_streams 0 hasAudio variants"

fun variant_args :: "nat \<Rightarrow> quality_variant list \<Rightarrow> string list" where
  "variant_args i [] = []"
| "variant_args i (v # vs) =
     [''-filter:v:'' @ show_nat i, scale_filter (qv_width v) (qv_height v),
      ''-c:v:'' @ show_nat i, FFmpegVideoCodec, ''-b:v:'' @ show_nat i, qv_bitrate v,
      ''-maxrate:v:'' @ show_nat i, qv_maxrate v, ''-bufsize:v:'' @ show_nat i, qv_bufsize v]
     @ variant_args (Suc i) vs"

definition buildFFmpegArgs :: "string \<Rightarrow> string \<Rightarrow> int \<Rightarrow> quality_variant list \<Rightarrow> bool \<Rightarrow> string list" where
  "buildFFmpegArgs inputPath hlsDir chunkDuration variants hasAudio =
     [''-i'', inputPath] @ variant_args 0 variants @ audio_args hasAudio
     @ concat (map (\<lambda>_. [''-map'', ''0:v''] @ (if hasAudio then [''-map'', ''0:a''] else [])) variants)
     @ [''-f'', ''hls'', ''-hls_time'', show_int chunkDuration, ''-hls_playlist_type'', FFmpegHLSPlaylistType,
        ''-master_pl_name'', MasterPlaylist]
     @ [''-var_stream_map'', buildVarStreamMap variants hasAudio]
     @ [''-hls_segment_filename'', join_path [hlsDir, ''%v'', ChunkPattern], ''-y'',
        join_path [hlsDir, ''%v'', ''main.m3u8'']]"

section \<open>The master playlist of the combined encoding\<close>

text \<open>
  \<open>os.Create\<close> followed by writes whose errors nobody looks at: only a failure to create the
  file is reported.
\<close>

definition os_create_unchecked :: "string \<Rightarrow> content \<Rightarrow> 'a os_scheme \<Rightarrow> (err + unit) \<times> 'a os_scheme" where
  "os_create_unchecked p c w =
     (case io w (tick w) of
        IO_torn _ \<Rightarrow>
          (case os_write_file p junk (w\<lparr>io := (\<lambda>_. IO_ok)\<rparr>) of (r, w1) \<Rightarrow> (r, w1\<lparr>io := io w\<rparr>))
      | _ \<Rightarrow> os_write_file p c w)"

definition stream_entry :: "bool \<Rightarrow> quality_variant \<Rightarrow> string" where
  "stream_entry hasAudio v =
     (let bandwidth = (if hasAudio then wrap64 (parseBitrate (qv_bitrate v) + 128000) else parseBitrate (qv_bitrate v));
          codecStr = (if hasAudio then ''avc1.640028,mp4a.40.2'' else ''avc1.640028'')
      in ''#EXT-X-STREAM-INF:BANDWIDTH='' @ show_int bandwidth @ '',RESOLUTION='' @ show_int (qv_width v) @ ''x''
           @ show_int (qv_height v) @ '',CODECS='' @ quote @ codecStr @ quote @ newline
         @ qv_name v @ ''/main.m3u8'' @ newline @ newline)"

definition master_text :: "quality_variant list \<Rightarrow> bool \<Rightarrow> string" where
  "master_text variants hasAudio =
     ''#EXTM3U'' @ newline @ ''#EXT-X-VERSION:3'' @ newline @ concat (map (stream_entry hasAudio) variants)"

definition GenerateMasterPlaylist ::
    "string \<Rightarrow> quality_variant list \<Rightarrow> bool \<Rightarrow> 'a os_scheme \<Rightarrow> (err + unit) \<times> 'a os_scheme" where
  "GenerateMasterPlaylist masterPath variants hasAudio w =
     (let (r, w1) = os_create_unchecked masterPath (text_file (master_text variants hasAudio)) w
      in (case r of Inl e \<Rightarrow> Inl (wrap ''failed to create master playlist'' e) | Inr _ \<Rightarrow> Inr (), w1))"

section \<open>One quality\<close>

record quality_result =
  qr_quality :: string
  qr_success :: bool
  qr_error :: "err option"
  qr_code :: string
  qr_playlist :: string
  qr_chunks_dir :: string
  qr_chunk_count :: nat

definition getQualityErrorCode :: "string \<Rightarrow> string" where
  "getQualityErrorCode q =
     (if q = ''240p'' then ''ERR_ENCODING_240P_FAILED'' else if q = ''360p'' then ''ERR_ENCODING_360P_FAILED''
      else if q = ''480p'' then ''ERR_ENCODING_480P_FAILED'' else if q = ''720p'' then ''ERR_ENCODING_720P_FAILED''
      else if q = ''1080p'' then ''ERR_ENCODING_1080P_FAILED'' else if q = ''1440p'' then ''ERR_ENCODING_1440P_FAILED''
      else if q = ''4K'' then ''ERR_ENCODING_4K_FAILED'' else ''ERR_ENCODING_FAILED'')"

definition saveFFmpegLogs :: "string \<Rightarrow> string \<Rightarrow> 'a os_scheme \<Rightarrow> 'a os_scheme" where
  "saveFFmpegLogs stderr logPath w =
     (let (_, w1) = EnsureDir (path_dir logPath) w; (_, w2) = WriteFile logPath (text_file stderr) w1 in w2)"

definition executeFFmpegEncoding ::
    "'a os_scheme runner \<Rightarrow> string \<Rightarrow> string \<Rightarrow> string \<Rightarrow> quality_variant \<Rightarrow> int \<Rightarrow> bool \<Rightarrow> string
       \<Rightarrow> 'a os_scheme \<Rightarrow> (err + unit) \<times> 'a os_scheme" where
  "executeFFmpegEncoding run jobID inputPath variantDir v chunkDuration hasAudio outputsDir w =
     (let (r, w1) = run ''ffmpeg'' (buildSingleQualityArgs inputPath variantDir v chunkDuration hasAudio) w
      in if \<not> cr_started r
         then (Inl (wrap ''failed to start ffmpeg'' (case cr_error r of Some e \<Rightarrow> e | None \<Rightarrow> Err [])), w1)
         else let logPath = join_path [outputsDir, jobID, ''logs''];
                  (_, w2) = EnsureDir logPath w1;
                  w3 = saveFFmpegLogs (cr_stderr r) (join_path [logPath, qv_name v @ ''.log'']) w2
              in (case cr_error r of Some e \<Rightarrow> Inl (wrap ''ffmpeg encoding failed'' e) | None \<Rightarrow> Inr (), w3))"

definition failed_quality :: "quality_variant \<Rightarrow> err \<Rightarrow> quality_result" where
  "failed_quality v e =
     \<lparr>qr_quality = qv_name v, qr_success = False, qr_error = Some e, qr_code = getQualityErrorCode (qv_name v),
      qr_playlist = [], qr_chunks_dir = [], qr_chunk_count = 0\<rparr>"

definition variant_dir :: "string \<Rightarrow> string \<Rightarrow> quality_variant \<Rightarrow> string" where
  "variant_dir outputsDir jobID v = join_path [join_path [outputsDir, jobID, HLSDir], qv_name v]"

definition EncodeQuality ::
    "'a os_scheme runner \<Rightarrow> string \<Rightarrow> string \<Rightarrow> quality_variant \<Rightarrow> int \<Rightarrow> string \<Rightarrow> bool
       \<Rightarrow> 'a os_scheme \<Rightarrow> quality_result \<times> 'a os_scheme" where
  "EncodeQuality run jobID inputPath v chunkDuration outputsDir hasAudio w =
     (let variantDir = variant_dir outputsDir jobID v
      in case EnsureDir variantDir w of
           (Inl e, w1) \<Rightarrow> (failed_quality v (wrap ''failed to create variant dir'' e), w1)
         | (Inr _, w1) \<Rightarrow>
             (case GetVideoInfo run inputPath w1 of
                (Inl e, w2) \<Rightarrow> (failed_quality v (wrap ''failed to get video info'' e), w2)
              | (Inr info, w2) \<Rightarrow>
                  (case Watch (NewWatchdog (vi_duration info))
                          (executeFFmpegEncoding run jobID inputPath variantDir v chunkDuration hasAudio outputsDir) w2 of
                     (Inl e, w3) \<Rightarrow> (failed_quality v e, w3)
                   | (Inr _, w3) \<Rightarrow>
                       (let (chunks, w4) = os_glob variantDir ''chunk_'' ''.ts'' w3
                        in if chunks = [] then (failed_quality v (Err ''no chunks generated''), w4)
                           else (\<lparr>qr_quality = qv_name v, qr_success = True, qr_error = None, qr_code = [],
                                  qr_playlist = join_path [variantDir, ''main.m3u8''], qr_chunks_dir = variantDir,
                                  qr_chunk_count = length chunks\<rparr>, w4)))))"

definition output_of :: "quality_result \<Rightarrow> quality_output_info" where
  "output_of r = \<lparr>qo_quality = qr_quality r, qo_playlist = qr_playlist r, qo_chunks_dir = qr_chunks_dir r,
                  qo_chunk_count = qr_chunk_count r\<rparr>"

section \<open>All qualities\<close>

text \<open>The loop: the outputs and variants that succeeded, the names that failed, the last error.\<close>

fun encode_loop ::
    "(quality_variant \<Rightarrow> 'w \<Rightarrow> quality_result \<times> 'w) \<Rightarrow> quality_variant list
       \<Rightarrow> quality_output_info list \<times> quality_variant list \<times> string list \<times> err option \<Rightarrow> 'w
       \<Rightarrow> (quality_output_info list \<times> quality_variant list \<times> string list \<times> err option) \<times> 'w" where
  "encode_loop enc [] acc w = (acc, w)"
| "encode_loop enc (v # vs) (outs, oks, failed, lastErr) w =
     (let (r, w1) = enc v w
      in if qr_success r then encode_loop enc vs (outs @ [output_of r], oks @ [v], failed, lastErr) w1
         else encode_loop enc vs (outs, oks, failed @ [qv_name v], qr_error r) w1)"

type_synonym encode_outcome = "encode_result option \<times> quality_variant list \<times> err option"

definition EncodeHLSWithPartialSuccess ::
    "'a os_scheme runner \<Rightarrow> string \<Rightarrow> string \<Rightarrow> string \<Rightarrow> int \<Rightarrow> quality_variant list \<Rightarrow> bool
       \<Rightarrow> 'a os_scheme \<Rightarrow> encode_outcome \<times> 'a os_scheme" where
  "EncodeHLSWithPartialSuccess run outputsDir jobID inputPath chunkDuration variants hasAudio w =
     (let ((outs, oks, failed, lastErr), w1) =
            encode_loop (\<lambda>v. EncodeQuality run jobID inputPath v chunkDuration outputsDir hasAudio) variants ([], [], [], None) w
      in if oks = []
         then ((None, [], Some (case lastErr of Some e \<Rightarrow> wrap ''all quality encodings failed'' e
                                | None \<Rightarrow> Err ''all quality encodings failed: %!w(<nil>)'')), w1)
         else let hlsDir = join_path [outputsDir, jobID, HLSDir];
                  masterPlaylist = join_path [hlsDir, MasterPlaylist];
                  (r, w2) = GenerateMasterPlaylist masterPlaylist oks hasAudio w1
              in case r of
                   Inl e \<Rightarrow> ((None, [], Some (wrap ''failed to generate master playlist'' e)), w2)
                 | Inr _ \<Rightarrow>
                     (let result = \<lparr>er_master = masterPlaylist, er_outputs = outs\<rparr>
                      in if failed \<noteq> []
                         then ((Some result, oks, Some (PartialSuccess failed (length oks) (length variants))), w2)
                         else ((Some result, oks, None), w2)))"

definition EncodeHLS ::
    "'a os_scheme runner \<Rightarrow> string \<Rightarrow> string \<Rightarrow> string \<Rightarrow> int \<Rightarrow> 'a os_scheme \<Rightarrow> encode_outcome \<times> 'a os_scheme" where
  "EncodeHLS run outputsDir jobID inputPath chunkDuration w =
     (case GetVideoInfo run inputPath w of
        (Inl e, w1) \<Rightarrow> ((None, [], Some (wrap ''failed to detect resolution'' e)), w1)
      | (Inr info, w1) \<Rightarrow>
          (let variants = SelectVariants (vi_width info) (vi_height info);
               hlsDir = join_path [join_path [outputsDir, jobID], HLSDir];
               (r, w2) = EnsureDir hlsDir w1
           in case r of
                Inl e \<Rightarrow> ((None, [], Some (wrap ''failed to create HLS dir'' e)), w2)
              | Inr _ \<Rightarrow> EncodeHLSWithPartialSuccess run outputsDir jobID inputPath chunkDuration variants
                           (vi_has_audio info) w2))"

fun collect_outputs :: "string \<Rightarrow> quality_variant list \<Rightarrow> 'a os_scheme \<Rightarrow> quality_output_info list \<times> 'a os_scheme" where
  "collect_outputs hlsDir [] w = ([], w)"
| "collect_outputs hlsDir (v # vs) w =
     (let variantDir = join_path [hlsDir, qv_name v];
          (chunks, w1) = os_glob variantDir ''chunk_'' ''.ts'' w;
          (rest, w2) = collect_outputs hlsDir vs w1
      in (\<lparr>qo_quality = qv_name v, qo_playlist = join_path [variantDir, ''main.m3u8''],
           qo_chunks_dir = variantDir, qo_chunk_count = length chunks\<rparr> # rest, w2))"

definition collectEncodingResults :: "string \<Rightarrow> quality_variant list \<Rightarrow> 'a os_scheme \<Rightarrow> encode_result \<times> 'a os_scheme" where
  "collectEncodingResults hlsDir variants w =
     (let (outs, w1) = collect_outputs hlsDir variants w
      in (\<lparr>er_master = join_path [hlsDir, MasterPlaylist], er_outputs = outs\<rparr>, w1))"

section \<open>Selection\<close>

lemma ladder_sorted: "sorted (map qv_height QualityLadder)" "distinct (map qv_name QualityLadder)"
  by (simp_all add: QualityLadder_def variant_def)

lemma ladder_split: "QualityLadder = hd QualityLadder # tl QualityLadder" "qv_height (hd QualityLadder) = 240"
  by (simp_all add: QualityLadder_def variant_def)

lemma ladder_min: "v \<in> set QualityLadder \<Longrightarrow> 240 \<le> qv_height v"
  by (auto simp: QualityLadder_def variant_def)

text \<open>C36. The qualities chosen for a video are those of the ladder that are not higher than it, from
low to high, each once; a video below the lowest quality gets that one, so there is always one.\<close>

theorem select_variants_spec:
  "SelectVariants w h \<noteq> [] \<and> sorted (map qv_height (SelectVariants w h)) \<and> distinct (map qv_name (SelectVariants w h))
   \<and> (if 240 \<le> h then set (SelectVariants w h) = {v \<in> set QualityLadder. qv_height v \<le> h}
      else SelectVariants w h = [hd QualityLadder])"
proof (cases "240 \<le> h")
  case True
  let ?f = "filter (\<lambda>v. qv_height v \<le> h) QualityLadder"
  have "hd QualityLadder \<in> set ?f" using ladder_split True by (simp add: QualityLadder_def variant_def)
  then have ne: "?f \<noteq> []" by (metis empty_iff empty_set)
  then have "SelectVariants w h = ?f" by (simp add: SelectVariants_def Let_def)
  moreover have "sorted (map qv_height ?f)" using ladder_sorted(1) by (metis sorted_filter)
  moreover have "distinct (map qv_name ?f)" using ladder_sorted(2) by (metis distinct_map_filter)
  ultimately show ?thesis using ne True by auto
next
  case False
  then have "filter (\<lambda>v. qv_height v \<le> h) QualityLadder = []" using ladder_min by (fastforce simp: filter_empty_conv)
  then have "SelectVariants w h = [hd QualityLadder]"
    using ladder_split(1) by (simp add: SelectVariants_def Let_def) (metis list.discI)
  with False show ?thesis by simp
qed

text \<open>Reading a bitrate gives back the number of kilobits in bits per second.\<close>

theorem parse_bitrate_roundtrip:
  assumes "fits64 (n * 1000)"
  shows "parseBitrate (show_int n @ ''k'') = n * 1000"
proof -
  have "fits64 n" using assms by (auto simp: fits64_def)
  then have "scan_d (show_int n @ ''k'') = Some (n, ''k'')" by (rule scan_d_show_int) simp
  with assms show ?thesis by (simp add: parseBitrate_def)
qed

theorem parse_bitrate_roundtrip_witness: "parseBitrate (show_int 15000 @ ''k'') = 15000000"
  using parse_bitrate_roundtrip [of 15000] by (simp add: fits64_def)

section \<open>The playlist\<close>

text \<open>What a player reads: the lines that are neither empty nor comments or tags.\<close>

definition playlist_uris :: "string \<Rightarrow> string list" where
  "playlist_uris text = filter (\<lambda>l. l \<noteq> [] \<and> hd l \<noteq> CHR ''#'') (split_on CHR 0x0A text)"

definition one_line :: "string \<Rightarrow> bool" where
  "one_line s \<longleftrightarrow> CHR 0x0A \<notin> set s"

lemma playlist_uris_Cons:
  "one_line l \<Longrightarrow> playlist_uris (l @ newline @ t) = (if l \<noteq> [] \<and> hd l \<noteq> CHR ''#'' then [l] else []) @ playlist_uris t"
  using split_on_append_sep [of "CHR 0x0A" l t] split_on_no_sep [of "CHR 0x0A" l]
  by (simp add: playlist_uris_def newline_def one_line_def)

lemma one_line_append [simp]: "one_line (s @ t) \<longleftrightarrow> one_line s \<and> one_line t"
  by (simp add: one_line_def)

lemma not_digit_newline: "\<not> is_digit CHR 0x0A"
  by (simp add: is_digit_def)

lemma one_line_show_nat [simp]: "one_line (show_nat n)"
  using show_nat_digits list_all_not_in not_digit_newline by (fastforce simp: one_line_def)

lemma one_line_show_int [simp]: "one_line (show_int n)"
  using one_line_show_nat by (simp add: show_int_def one_line_def)

lemma one_line_simps [simp]: "one_line []" "one_line (c # s) \<longleftrightarrow> c \<noteq> CHR 0x0A \<and> one_line s"
  by (auto simp: one_line_def)

lemma playlist_uris_skip:
  assumes "one_line l" "l = [] \<or> hd l = CHR ''#''"
  shows "playlist_uris (l @ newline @ t) = playlist_uris t"
  using assms by (simp add: playlist_uris_Cons)

lemma stream_entry_split:
  "\<exists>l. one_line l \<and> hd l = CHR ''#'' \<and> stream_entry a v = l @ newline @ (qv_name v @ ''/main.m3u8'') @ newline @ [] @ newline"
  by (rule exI [where x = "''#EXT-X-STREAM-INF:BANDWIDTH='' @ show_int (if a then wrap64 (parseBitrate (qv_bitrate v) + 128000) else parseBitrate (qv_bitrate v)) @ '',RESOLUTION='' @ show_int (qv_width v) @ ''x''
           @ show_int (qv_height v) @ '',CODECS='' @ quote @ (if a then ''avc1.640028,mp4a.40.2'' else ''avc1.640028'') @ quote"])
     (auto simp: stream_entry_def Let_def quote_def)

lemma playlist_uris_entry:
  assumes "one_line (qv_name v)" "qv_name v = [] \<or> hd (qv_name v) \<noteq> CHR ''#''"
  shows "playlist_uris (stream_entry a v @ t) = (qv_name v @ ''/main.m3u8'') # playlist_uris t"
proof -
  obtain l where l: "one_line l" "hd l = CHR ''#''"
    "stream_entry a v = l @ newline @ (qv_name v @ ''/main.m3u8'') @ newline @ [] @ newline"
    using stream_entry_split [of a v] by blast
  let ?u = "qv_name v @ ''/main.m3u8''"
  have u: "one_line ?u" "?u \<noteq> []" "hd ?u \<noteq> CHR ''#''" using assms by (auto simp: hd_append)
  have "stream_entry a v @ t = l @ newline @ (?u @ newline @ ([] @ newline @ t))" using l(3) by simp
  then have "playlist_uris (stream_entry a v @ t) = playlist_uris (?u @ newline @ ([] @ newline @ t))"
    using playlist_uris_skip [OF l(1)] l(2) by simp
  also have "\<dots> = ?u # playlist_uris ([] @ newline @ t)" using u by (simp add: playlist_uris_Cons del: append_assoc)
  also have "playlist_uris ([] @ newline @ t) = playlist_uris t" by (rule playlist_uris_skip) simp_all
  finally show ?thesis .
qed

lemma playlist_uris_master:
  "\<forall>v \<in> set vs. one_line (qv_name v) \<and> (qv_name v = [] \<or> hd (qv_name v) \<noteq> CHR ''#'') \<Longrightarrow>
     playlist_uris (master_text vs a) = map (\<lambda>v. qv_name v @ ''/main.m3u8'') vs"
proof -
  assume A: "\<forall>v \<in> set vs. one_line (qv_name v) \<and> (qv_name v = [] \<or> hd (qv_name v) \<noteq> CHR ''#'')"
  then have "playlist_uris (concat (map (stream_entry a) vs)) = map (\<lambda>v. qv_name v @ ''/main.m3u8'') vs"
  proof (induction vs)
    case Nil
    then show ?case by (simp add: playlist_uris_def)
  qed (simp add: playlist_uris_entry)
  moreover have "playlist_uris (''#EXTM3U'' @ newline @ t) = playlist_uris t"
    "playlist_uris (''#EXT-X-VERSION:3'' @ newline @ t) = playlist_uris t" for t
    by (rule playlist_uris_skip; simp)+
  ultimately show ?thesis by (simp add: master_text_def del: append_Cons)
qed

text \<open>A player that reads the master playlist of any choice of the ladder's qualities finds the
playlist of each of them, in order, and nothing else.\<close>

theorem master_playlist_lists_variants:
  "playlist_uris (master_text (filter P QualityLadder) a)
   = map (\<lambda>v. qv_name v @ ''/main.m3u8'') (filter P QualityLadder)"
proof (rule playlist_uris_master)
  show "\<forall>v \<in> set (filter P QualityLadder). one_line (qv_name v) \<and> (qv_name v = [] \<or> hd (qv_name v) \<noteq> CHR ''#'')"
    by (auto simp: QualityLadder_def variant_def)
qed

section \<open>Outcomes of an encoding\<close>

lemma encode_quality_result:
  "case fst (EncodeQuality run jobID path v d dir a w) of
     r \<Rightarrow> qr_quality r = qv_name v \<and> (qr_success r \<longleftrightarrow> qr_error r = None) \<and> (qr_success r \<longleftrightarrow> 0 < qr_chunk_count r)"
  by (auto simp: EncodeQuality_def failed_quality_def Let_def case_prod_beta split: sum.split)

text \<open>Every quality is encoded once, in order, with the files that those before it left.\<close>

fun quality_runs :: "(quality_variant \<Rightarrow> 'w \<Rightarrow> quality_result \<times> 'w) \<Rightarrow> quality_variant list \<Rightarrow> 'w \<Rightarrow> quality_result list \<times> 'w" where
  "quality_runs enc [] w = ([], w)"
| "quality_runs enc (v # vs) w = (let (r, w1) = enc v w; (rs, w2) = quality_runs enc vs w1 in (r # rs, w2))"

lemma quality_runs_all:
  "(\<And>v w. P v (fst (enc v w))) \<Longrightarrow> list_all2 P vs (fst (quality_runs enc vs w))"
  by (induction vs arbitrary: w) (auto simp: case_prod_beta Let_def)

text \<open>The loop sorts the results into those that succeeded and those that failed; the last failure's error stays.\<close>

lemma encode_loop_spec:
  "encode_loop enc vs (outs, oks, failed, e) w =
     (let (rs, w1) = quality_runs enc vs w;
          good = filter (\<lambda>(v, r). qr_success r) (zip vs rs); bad = filter (\<lambda>(v, r). \<not> qr_success r) (zip vs rs)
      in ((outs @ map (\<lambda>(v, r). output_of r) good, oks @ map fst good, failed @ map (\<lambda>(v, r). qv_name v) bad,
           if bad = [] then e else qr_error (snd (last bad))), w1))"
  by (induction vs arbitrary: outs oks failed e w) (auto simp: Let_def case_prod_beta)

text \<open>C23. What an encoding of all qualities reports. Each quality is encoded once, in order, and succeeds exactly if it
has chunks. If none succeeded there is no result, and the error is that of the last one; if the master playlist, which is
made of those that succeeded only, could not be written, there is no result either; in all other cases
there is: the outputs and the variants of exactly the qualities that succeeded, in order, and an error exactly
if some quality failed, which names those that failed and counts right.\<close>

theorem partial_success_spec:
  "let (rs, w1) = quality_runs (\<lambda>v. EncodeQuality run jobID path v d dir a) variants w;
       good = filter (\<lambda>(v, r). qr_success r) (zip variants rs);
       bad = filter (\<lambda>(v, r). \<not> qr_success r) (zip variants rs);
       master = join_path [join_path [dir, jobID, HLSDir], MasterPlaylist];
       outcome = fst (EncodeHLSWithPartialSuccess run dir jobID path d variants a w)
   in list_all2 (\<lambda>v r. qr_quality r = qv_name v \<and> (qr_success r \<longleftrightarrow> 0 < qr_chunk_count r) \<and> (qr_success r \<longleftrightarrow> qr_error r = None)) variants rs
    \<and> (if good = []
       then outcome = (None, [], Some (case map (\<lambda>(v, r). qr_error r) bad of
              [] \<Rightarrow> Err ''all quality encodings failed: %!w(<nil>)''
            | e # es \<Rightarrow> wrap ''all quality encodings failed'' (the (last (e # es)))))
       else case fst (GenerateMasterPlaylist master (map fst good) a w1) of
              Inl e \<Rightarrow> outcome = (None, [], Some (wrap ''failed to generate master playlist'' e))
            | Inr _ \<Rightarrow> outcome = (Some \<lparr>er_master = master, er_outputs = map (\<lambda>(v, r). output_of r) good\<rparr>, map fst good,
                if bad = [] then None
                else Some (PartialSuccess (map (\<lambda>(v, r). qv_name v) bad) (length good) (length variants))))"
proof -
  let ?enc = "\<lambda>v. EncodeQuality run jobID path v d dir a"
  let ?P = "\<lambda>v r. qr_quality r = qv_name v \<and> (qr_success r \<longleftrightarrow> 0 < qr_chunk_count r) \<and> (qr_success r \<longleftrightarrow> qr_error r = None)"
  obtain rs w1 where r: "quality_runs ?enc variants w = (rs, w1)" by fastforce
  have "?P v (fst (?enc v w))" for v w using encode_quality_result [of run jobID path v d dir a w] by (simp add: Let_def) blast
  from quality_runs_all [of ?P ?enc, OF this, of variants w] have all: "list_all2 ?P variants rs" by (simp add: r)
  define good where "good = filter (\<lambda>(v, r). qr_success r) (zip variants rs)"
  define bad where "bad = filter (\<lambda>(v, r). \<not> qr_success r) (zip variants rs)"
  define es where "es = map (\<lambda>(v, r). qr_error r) bad"
  let ?master = "join_path [join_path [dir, jobID, HLSDir], MasterPlaylist]"
  have l: "encode_loop ?enc variants ([], [], [], None) w
      = ((map (\<lambda>(v, r). output_of r) good, map fst good, map (\<lambda>(v, r). qv_name v) bad, if es = [] then None else last es), w1)"
    unfolding encode_loop_spec r by (simp add: good_def [symmetric] bad_def [symmetric] es_def last_map case_prod_beta)
  have err: "es \<noteq> [] \<Longrightarrow> last es \<noteq> None"
  proof -
    assume "es \<noteq> []"
    then have "last bad \<in> set bad" "last es = qr_error (snd (last bad))" by (simp_all add: es_def last_map case_prod_beta)
    with all show "last es \<noteq> None" by (auto simp: bad_def list_all2_iff)
  qed
  have "if good = []
       then fst (EncodeHLSWithPartialSuccess run dir jobID path d variants a w)
         = (None, [], Some (case es of [] \<Rightarrow> Err ''all quality encodings failed: %!w(<nil>)''
            | x # xs \<Rightarrow> wrap ''all quality encodings failed'' (the (last (x # xs)))))
       else case fst (GenerateMasterPlaylist ?master (map fst good) a w1) of
              Inl e \<Rightarrow> fst (EncodeHLSWithPartialSuccess run dir jobID path d variants a w)
                = (None, [], Some (wrap ''failed to generate master playlist'' e))
            | Inr _ \<Rightarrow> fst (EncodeHLSWithPartialSuccess run dir jobID path d variants a w)
                = (Some \<lparr>er_master = ?master, er_outputs = map (\<lambda>(v, r). output_of r) good\<rparr>, map fst good,
                   if bad = [] then None else Some (PartialSuccess (map (\<lambda>(v, r). qv_name v) bad) (length good) (length variants)))"
  proof (cases "good = []")
    case True
    show ?thesis
    proof (cases es)
      case (Cons x xs)
      with err obtain y where "last (x # xs) = Some y" by blast
      then show ?thesis by (simp add: EncodeHLSWithPartialSuccess_def l Let_def True Cons del: last.simps)
    qed (simp add: EncodeHLSWithPartialSuccess_def l Let_def True)
  next
    case False
    then show ?thesis by (cases "bad = []") (simp_all add: EncodeHLSWithPartialSuccess_def l Let_def case_prod_beta split: sum.split)
  qed
  with all show ?thesis by (simp only: r Let_def prod.case good_def bad_def es_def)
qed

text \<open>A master playlist whose writing fails halfway is reported as written, and stays unreadable.\<close>

theorem torn_playlist_unnoticed:
  assumes "io w (tick w) = IO_torn msg"
    and "is_dir_at (fs w) (parent (parse_path p))" "lookup (fs w) (parse_path p) = None"
  shows "fst (GenerateMasterPlaylist p vs a w) = Inr ()
    \<and> fst (os_read_file p ((snd (GenerateMasterPlaylist p vs a w))\<lparr>io := (\<lambda>_. IO_ok)\<rparr>)) = Inr junk"
  using assms
  by (simp add: GenerateMasterPlaylist_def os_create_unchecked_def os_write_file_def os_read_file_def Let_def set_fs_def)

definition dir_world :: os where
  "dir_world = \<lparr>fs = [((True, [''o'']), Dir 0)], clock = (\<lambda>_. 0), io = (\<lambda>_. IO_torn ''no space left on device''),
                statfs = (\<lambda>_. Inl ''''), doclen = (\<lambda>_. 0), tick = 0\<rparr>"

theorem torn_playlist_unnoticed_witness:
  "fst (GenerateMasterPlaylist ''/o/master.m3u8'' QualityLadder True dir_world) = Inr ()
   \<and> fst (os_read_file ''/o/master.m3u8''
        ((snd (GenerateMasterPlaylist ''/o/master.m3u8'' QualityLadder True dir_world))\<lparr>io := (\<lambda>_. IO_ok)\<rparr>)) = Inr junk"
proof (rule torn_playlist_unnoticed)
  show "io dir_world (tick dir_world) = IO_torn ''no space left on device''" by (simp add: dir_world_def)
  show "is_dir_at (fs dir_world) (parent (parse_path ''/o/master.m3u8''))" by code_simp
  show "lookup (fs dir_world) (parse_path ''/o/master.m3u8'') = None" by code_simp
qed

end
