(* ===== verification/Separate_AV.thy ===== *)
theory Separate_AV
  imports Encoder
begin

text \<open>
  The encoding with separate audio and video tracks:
  \<open>internal/application/usecases/separate_av_encoder.go\<close> with \<open>audio_processor.go\<close>,
  \<open>video_only_encoder.go\<close> and \<open>master_playlist.go\<close> of \<open>internal/infrastructure/ffmpeg\<close>.
\<close>

section \<open>The master playlist\<close>

record video_variant =
  vv_resolution :: string
  vv_bandwidth :: int
  vv_width :: int
  vv_height :: int
  vv_playlist :: string

record audio_variant =
  av_language :: string
  av_name :: string
  av_bitrate :: int
  av_default :: bool
  av_playlist :: string

definition yes_no :: "bool \<Rightarrow> string" where
  "yes_no b = (if b then ''YES'' else ''NO'')"

definition quoted :: "string \<Rightarrow> string" where
  "quoted s = quote @ s @ quote"

definition audio_line :: "audio_variant \<Rightarrow> string" where
  "audio_line a =
     ''#EXT-X-MEDIA:TYPE=AUDIO,GROUP-ID='' @ quoted ''audio'' @ '',NAME='' @ quoted (av_name a)
     @ '',LANGUAGE='' @ quoted (av_language a) @ '',AUTOSELECT='' @ yes_no (av_default a)
     @ '',DEFAULT='' @ yes_no (av_default a) @ '',URI='' @ quoted (av_playlist a) @ newline"

definition video_lines :: "bool \<Rightarrow> video_variant \<Rightarrow> string" where
  "video_lines hasAudio v =
     ''#EXT-X-STREAM-INF:BANDWIDTH='' @ show_int (vv_bandwidth v) @ '',RESOLUTION='' @ show_int (vv_width v)
     @ ''x'' @ show_int (vv_height v) @ (if hasAudio then '',AUDIO='' @ quoted ''audio'' else []) @ newline
     @ vv_playlist v @ newline"

definition separate_text :: "video_variant list \<Rightarrow> audio_variant list \<Rightarrow> string" where
  "separate_text vs as =
     ''#EXTM3U'' @ newline @ ''#EXT-X-VERSION:6'' @ newline @ newline
     @ (if as \<noteq> [] then ''# Audio Renditions'' @ newline @ concat (map audio_line as) @ newline else [])
     @ ''# Video Renditions'' @ newline @ concat (map (video_lines (as \<noteq> [])) vs)"

definition GeneratePlaylistFile ::
    "string \<Rightarrow> video_variant list \<Rightarrow> audio_variant list \<Rightarrow> 'a os_scheme \<Rightarrow> (err + unit) \<times> 'a os_scheme" where
  "GeneratePlaylistFile outputPath vs as w =
     (let (r, w1) = os_write_file outputPath (text_file (separate_text vs as)) w
      in (case r of Inl e \<Rightarrow> Inl (wrap ''failed to write master playlist'' e) | Inr _ \<Rightarrow> Inr (), w1))"

definition qualityMap :: "(string, int \<times> int \<times> int) gomap" where
  "qualityMap =
    [(''240p'', (426, 240, 400000)), (''360p'', (640, 360, 800000)), (''480p'', (854, 480, 1200000)),
     (''720p'', (1280, 720, 2500000)), (''1080p'', (1920, 1080, 5000000)), (''1440p'', (2560, 1440, 8000000)),
     (''4k'', (3840, 2160, 12000000))]"

fun video_variants :: "string list \<Rightarrow> video_variant list" where
  "video_variants [] = []"
| "video_variants (q # qs) =
     (case lookup qualityMap q of
        None \<Rightarrow> video_variants qs
      | Some (width, height, bandwidth) \<Rightarrow>
          \<lparr>vv_resolution = q, vv_bandwidth = bandwidth, vv_width = width, vv_height = height,
           vv_playlist = ''video/'' @ q @ ''/main.m3u8''\<rparr> # video_variants qs)"

text \<open>\<open>strings.Title\<close> for ASCII: the first letter of every word in upper case.\<close>

definition is_word_char :: "char \<Rightarrow> bool" where
  "is_word_char c = (let n = (of_char c :: nat)
     in 48 \<le> n \<and> n \<le> 57 \<or> 65 \<le> n \<and> n \<le> 90 \<or> 97 \<le> n \<and> n \<le> 122 \<or> n = 95)"

definition to_upper_char :: "char \<Rightarrow> char" where
  "to_upper_char c = (let n = (of_char c :: nat) in if 97 \<le> n \<and> n \<le> 122 then char_of (n - 32) else c)"

fun title_from :: "bool \<Rightarrow> string \<Rightarrow> string" where
  "title_from start [] = []"
| "title_from start (c # cs) = (if start then to_upper_char c else c) # title_from (\<not> is_word_char c) cs"

definition title :: "string \<Rightarrow> string" where
  "title s = title_from True s"

fun audio_variants :: "nat \<Rightarrow> string list \<Rightarrow> audio_variant list" where
  "audio_variants i [] = []"
| "audio_variants i (lang # ls) =
     \<lparr>av_language = lang, av_name = title lang, av_bitrate = 192000, av_default = (i = 0),
      av_playlist = ''audio/'' @ lang @ ''/192k/main.m3u8''\<rparr> # audio_variants (Suc i) ls"

definition GenerateSeparateAudioVideoMaster ::
    "string \<Rightarrow> string list \<Rightarrow> string list \<Rightarrow> 'a os_scheme \<Rightarrow> (err + unit) \<times> 'a os_scheme" where
  "GenerateSeparateAudioVideoMaster baseDir videoQualities audioLanguages =
     GeneratePlaylistFile (join_path [baseDir, ''master.m3u8'']) (video_variants videoQualities)
       (audio_variants 0 audioLanguages)"

section \<open>Audio\<close>

definition ensureDir :: "'w runner \<Rightarrow> string \<Rightarrow> 'w \<Rightarrow> (err + unit) \<times> 'w" where
  "ensureDir run p = cmd_run run ''mkdir'' [''-p'', p]"

definition ExtractAudio :: "'w runner \<Rightarrow> string \<Rightarrow> string \<Rightarrow> 'w \<Rightarrow> (err + unit) \<times> 'w" where
  "ExtractAudio run inputPath outputPath w =
     (case ensureDir run (path_dir outputPath) w of
        (Inl e, w1) \<Rightarrow> (Inl (wrap ''failed to create output directory'' e), w1)
      | (Inr _, w1) \<Rightarrow>
          (case cmd_run run ''ffmpeg'' [''-i'', inputPath, ''-vn'', ''-acodec'', ''copy'', ''-y'', outputPath] w1 of
             (Inl e, w2) \<Rightarrow> (Inl (wrap ''failed to extract audio'' e), w2)
           | (Inr _, w2) \<Rightarrow> (Inr (), w2)))"

definition ProcessAudio :: "'w runner \<Rightarrow> string \<Rightarrow> string \<Rightarrow> string \<Rightarrow> 'w \<Rightarrow> (err + unit) \<times> 'w" where
  "ProcessAudio run inputPath outputPath bitrate w =
     (case cmd_run run ''ffmpeg''
             [''-i'', inputPath, ''-af'', ''loudnorm=I=-16:TP=-1.5:LRA=11,silenceremove=1:0:-50dB'',
              ''-c:a'', ''aac'', ''-b:a'', bitrate, ''-ac'', ''2'', ''-y'', outputPath] w of
        (Inl e, w1) \<Rightarrow> (Inl (wrap ''failed to process audio'' e), w1)
      | (Inr _, w1) \<Rightarrow> (Inr (), w1))"

definition GenerateAudioHLS :: "'w runner \<Rightarrow> string \<Rightarrow> string \<Rightarrow> string \<Rightarrow> int \<Rightarrow> 'w \<Rightarrow> (err + unit) \<times> 'w" where
  "GenerateAudioHLS run inputPath outputDir bitrate segmentDuration w =
     (case cmd_run run ''ffmpeg''
             [''-i'', inputPath, ''-c:a'', ''aac'', ''-b:a'', bitrate, ''-ac'', ''2'', ''-threads'', ''0'',
              ''-f'', ''hls'', ''-hls_time'', show_int segmentDuration, ''-hls_segment_type'', ''fmp4'',
              ''-hls_segment_filename'', join_path [outputDir, ''segment_%03d.aac''],
              ''-hls_playlist_type'', ''vod'', ''-y'', join_path [outputDir, ''main.m3u8'']] w of
        (Inl e, w1) \<Rightarrow> (Inl (wrap ''failed to generate audio HLS'' e), w1)
      | (Inr _, w1) \<Rightarrow> (Inr (), w1))"

record audio_quality =
  aq_bitrate :: string
  aq_playlist :: string

fun audio_loop :: "'w runner \<Rightarrow> string \<Rightarrow> string \<Rightarrow> int \<Rightarrow> string list \<Rightarrow> 'w \<Rightarrow> (err + audio_quality list) \<times> 'w" where
  "audio_loop run inputPath baseOutputDir segmentDuration [] w = (Inr [], w)"
| "audio_loop run inputPath baseOutputDir segmentDuration (q # qs) w =
     (let outputDir = join_path [baseOutputDir, q]
      in case ensureDir run outputDir w of
           (Inl e, w1) \<Rightarrow> (Inl e, w1)
         | (Inr _, w1) \<Rightarrow>
             (case GenerateAudioHLS run inputPath outputDir q segmentDuration w1 of
                (Inl e, w2) \<Rightarrow> (Inl (wrap (''failed to generate '' @ q @ '' audio'') e), w2)
              | (Inr _, w2) \<Rightarrow>
                  (case audio_loop run inputPath baseOutputDir segmentDuration qs w2 of
                     (Inl e, w3) \<Rightarrow> (Inl e, w3)
                   | (Inr aqs, w3) \<Rightarrow>
                       (Inr (\<lparr>aq_bitrate = q, aq_playlist = join_path [outputDir, ''main.m3u8'']\<rparr> # aqs), w3))))"

definition GenerateMultiQualityAudio ::
    "'w runner \<Rightarrow> string \<Rightarrow> string \<Rightarrow> int \<Rightarrow> 'w \<Rightarrow> (err + audio_quality list) \<times> 'w" where
  "GenerateMultiQualityAudio run inputPath baseOutputDir segmentDuration =
     audio_loop run inputPath baseOutputDir segmentDuration [''192k'', ''128k'', ''96k'']"

section \<open>Video\<close>

definition EncodeVideoOnly ::
    "'w runner \<Rightarrow> string \<Rightarrow> string \<Rightarrow> int \<Rightarrow> int \<Rightarrow> string \<Rightarrow> int \<Rightarrow> 'w \<Rightarrow> (err + unit) \<times> 'w" where
  "EncodeVideoOnly run inputPath outputDir width height bitrate segmentDuration w =
     (case cmd_run run ''ffmpeg''
             [''-i'', inputPath, ''-an'', ''-c:v'', ''libx264'', ''-preset'', ''superfast'', ''-crf'', ''23'',
              ''-threads'', ''0'', ''-maxrate'', bitrate, ''-bufsize'', show_int (wrap64 (parseInt bitrate * 2)) @ ''k'',
              ''-vf'', scale_filter width height, ''-g'', ''48'', ''-keyint_min'', ''48'', ''-sc_threshold'', ''0'',
              ''-f'', ''hls'', ''-hls_time'', show_int segmentDuration, ''-hls_segment_type'', ''fmp4'',
              ''-hls_segment_filename'', join_path [outputDir, ''segment_%03d.m4s''],
              ''-hls_playlist_type'', ''vod'', ''-y'', join_path [outputDir, ''main.m3u8'']] w of
        (Inl e, w1) \<Rightarrow> (Inl (wrap ''failed to encode video-only'' e), w1)
      | (Inr _, w1) \<Rightarrow> (Inr (), w1))"

definition resolution :: "int \<Rightarrow> int \<Rightarrow> string" where
  "resolution w h = show_int w @ ''x'' @ show_int h"

fun video_loop :: "'w runner \<Rightarrow> string \<Rightarrow> string \<Rightarrow> int \<Rightarrow> quality_spec list \<Rightarrow> 'w \<Rightarrow> (err + video_track list) \<times> 'w" where
  "video_loop run inputPath videoDir chunkDuration [] w = (Inr [], w)"
| "video_loop run inputPath videoDir chunkDuration (q # qs) w =
     (let qualityDir = join_path [videoDir, qs_name q]
      in case ensureDir run qualityDir w of
           (Inl e, w1) \<Rightarrow> (Inl e, w1)
         | (Inr _, w1) \<Rightarrow>
             (let (r, w2) = EncodeVideoOnly run inputPath qualityDir (qs_width q) (qs_height q) (qs_bitrate q) chunkDuration w1;
                  (rest, w3) = video_loop run inputPath videoDir chunkDuration qs w2
              in (case rest of
                    Inl e \<Rightarrow> Inl e
                  | Inr vts \<Rightarrow>
                      Inr (if is_ok r
                           then \<lparr>vt_quality = qs_name q, vt_resolution = resolution (qs_width q) (qs_height q),
                                 vt_bandwidth = wrap64 (qs_kbps q * 1000),
                                 vt_playlist = join_path [''video'', qs_name q, ''main.m3u8'']\<rparr> # vts
                           else vts), w3)))"

record separate_result =
  sr_video :: "video_track list"
  sr_audio :: "audio_track list"
  sr_master :: string

definition EncodeSeparateAV ::
    "'a os_scheme runner \<Rightarrow> string \<Rightarrow> string \<Rightarrow> video_info \<Rightarrow> int \<Rightarrow> 'a os_scheme
       \<Rightarrow> (err + separate_result) \<times> 'a os_scheme" where
  "EncodeSeparateAV run inputPath outputDir info chunkDuration w =
     (let videoDir = join_path [outputDir, ''video'']; audioDir = join_path [outputDir, ''audio'', ''default''];
          rawAudioPath = join_path [outputDir, ''raw_audio.aac''];
          processedAudioPath = join_path [outputDir, ''processed_audio.aac'']
      in case ExtractAudio run inputPath rawAudioPath w of
           (Inl e, w1) \<Rightarrow> (Inl (wrap ''failed to extract audio'' e), w1)
         | (Inr _, w1) \<Rightarrow>
      (case ProcessAudio run rawAudioPath processedAudioPath ''192k'' w1 of
           (Inl e, w2) \<Rightarrow> (Inl (wrap ''failed to process audio'' e), w2)
         | (Inr _, w2) \<Rightarrow>
      (case GenerateMultiQualityAudio run processedAudioPath audioDir chunkDuration w2 of
           (Inl e, w3) \<Rightarrow> (Inl (wrap ''failed to generate audio HLS'' e), w3)
         | (Inr aqs, w3) \<Rightarrow>
      (let audioTracks = map (\<lambda>a. \<lparr>at_language = ''default'', at_bitrate = aq_bitrate a,
                                     at_playlist = aq_playlist a, at_default = (aq_bitrate a = ''192k'')\<rparr>) aqs
       in case video_loop run inputPath videoDir chunkDuration (selectQualities (vi_width info) (vi_height info)) w3 of
           (Inl e, w4) \<Rightarrow> (Inl e, w4)
         | (Inr videoTracks, w4) \<Rightarrow>
      (case GenerateSeparateAudioVideoMaster outputDir (map vt_quality videoTracks) [''default''] w4 of
           (Inl e, w5) \<Rightarrow> (Inl (wrap ''failed to generate master playlist'' e), w5)
         | (Inr _, w5) \<Rightarrow>
             (Inr \<lparr>sr_video = videoTracks, sr_audio = audioTracks,
                   sr_master = join_path [outputDir, ''master.m3u8'']\<rparr>, w5))))))"

section \<open>The tracks and the playlist\<close>

text \<open>The quality of a specification, as a track.\<close>

definition track_of :: "quality_spec \<Rightarrow> video_track" where
  "track_of q = \<lparr>vt_quality = qs_name q, vt_resolution = resolution (qs_width q) (qs_height q),
                 vt_bandwidth = wrap64 (qs_kbps q * 1000),
                 vt_playlist = join_path [''video'', qs_name q, ''main.m3u8'']\<rparr>"

lemma video_loop_tracks:
  "fst (video_loop run p dir d qs w) = Inr vts \<Longrightarrow> \<exists>k. subseq k qs \<and> vts = map track_of k"
proof (induction qs arbitrary: w vts)
  case (Cons q qs)
  let ?w1 = "snd (ensureDir run (join_path [dir, qs_name q]) w)"
  let ?e = "EncodeVideoOnly run p (join_path [dir, qs_name q]) (qs_width q) (qs_height q) (qs_bitrate q) d ?w1"
  from Cons.prems obtain ts where t: "fst (video_loop run p dir d qs (snd ?e)) = Inr ts"
    "vts = (if is_ok (fst ?e) then track_of q # ts else ts)"
    by (auto simp: case_prod_beta Let_def track_of_def split: sum.splits prod.splits)
  from Cons.IH [OF t(1)] obtain k where "subseq k qs" "ts = map track_of k" by blast
  with t(2) show ?case
    by (cases "is_ok (fst ?e)") (auto intro: exI [of _ "q # k"] exI [of _ k] list_emb.intros(2))
qed simp

lemma track_playlist:
  assumes "q \<in> set all_specs"
  shows "lookup qualityMap (qs_name q) = Some (qs_width q, qs_height q, vt_bandwidth (track_of q))"
    and "vt_playlist (track_of q) = ''video/'' @ qs_name q @ ''/main.m3u8''"
proof -
  show "lookup qualityMap (qs_name q) = Some (qs_width q, qs_height q, vt_bandwidth (track_of q))"
    using assms by (auto simp: all_specs_def spec_def track_of_def qualityMap_def wrap64_def)
  have "list_all (\<lambda>n. join_path [''video'', n, ''main.m3u8''] = ''video/'' @ n @ ''/main.m3u8'') (map fst qualityMap)"
    by code_simp
  moreover have "qs_name q \<in> set (map fst qualityMap)"
    using assms by (auto simp: all_specs_def spec_def qualityMap_def)
  ultimately show "vt_playlist (track_of q) = ''video/'' @ qs_name q @ ''/main.m3u8''"
    unfolding list_all_iff track_of_def by (metis video_track.select_convs(4))
qed

lemma track_quality [simp]: "vt_quality (track_of q) = qs_name q"
  by (simp add: track_of_def)

lemma video_variants_tracks:
  "set qs \<subseteq> set all_specs \<Longrightarrow>
     map (\<lambda>v. (vv_resolution v, vv_bandwidth v, vv_playlist v)) (video_variants (map (\<lambda>q. vt_quality (track_of q)) qs))
     = map (\<lambda>q. (vt_quality (track_of q), vt_bandwidth (track_of q), vt_playlist (track_of q))) qs"
  by (induction qs) (simp_all add: track_playlist)

lemma audio_loop_bitrates:
  "fst (audio_loop run p dir d qs w) = Inr aqs \<Longrightarrow>
     aqs = map (\<lambda>q. \<lparr>aq_bitrate = q, aq_playlist = join_path [join_path [dir, q], ''main.m3u8'']\<rparr>) qs"
  by (induction qs arbitrary: w aqs) (auto simp: case_prod_beta Let_def split: sum.splits prod.splits)

lemma subseq_set: "subseq xs ys \<Longrightarrow> set xs \<subseteq> set ys"
  by (induction rule: list_emb.induct) auto

lemma selected_specs: "set (selectQualities w h) \<subseteq> set all_specs"
  by (auto simp: selectQualities_def)

lemma encode_separate_cases:
  assumes "fst (EncodeSeparateAV run p dir info d w) = Inr r"
  obtains k where "subseq k (selectQualities (vi_width info) (vi_height info))" "sr_video r = map track_of k"
    "map at_bitrate (sr_audio r) = [''192k'', ''128k'', ''96k'']" "map at_default (sr_audio r) = [True, False, False]"
proof -
  let ?raw = "join_path [dir, ''raw_audio.aac'']" let ?processed = "join_path [dir, ''processed_audio.aac'']"
  let ?qs = "selectQualities (vi_width info) (vi_height info)"
  obtain r1 w1 where e1: "ExtractAudio run p ?raw w = (r1, w1)" by fastforce
  with assms obtain u1 where r1: "r1 = Inr u1" by (cases r1) (simp_all add: EncodeSeparateAV_def)
  obtain r2 w2 where e2: "ProcessAudio run ?raw ?processed ''192k'' w1 = (r2, w2)" by fastforce
  with assms e1 r1 obtain u2 where r2: "r2 = Inr u2" by (cases r2) (simp_all add: EncodeSeparateAV_def)
  obtain r3 w3 where e3: "GenerateMultiQualityAudio run ?processed (join_path [dir, ''audio'', ''default'']) d w2 = (r3, w3)"
    by fastforce
  with assms e1 r1 e2 r2 obtain aqs where r3: "r3 = Inr aqs" by (cases r3) (simp_all add: EncodeSeparateAV_def)
  obtain r4 w4 where e4: "video_loop run p (join_path [dir, ''video'']) d ?qs w3 = (r4, w4)" by fastforce
  with assms e1 r1 e2 r2 e3 r3 obtain vts where r4: "r4 = Inr vts" by (cases r4) (simp_all add: EncodeSeparateAV_def)
  obtain r5 w5 where e5: "GenerateSeparateAudioVideoMaster dir (map vt_quality vts) [''default''] w4 = (r5, w5)" by fastforce
  have r: "r = \<lparr>sr_video = vts, sr_audio = map (\<lambda>a. \<lparr>at_language = ''default'', at_bitrate = aq_bitrate a,
                 at_playlist = aq_playlist a, at_default = (aq_bitrate a = ''192k'')\<rparr>) aqs,
                 sr_master = join_path [dir, ''master.m3u8'']\<rparr>"
    using assms e1 r1 e2 r2 e3 r3 e4 r4 e5 by (cases r5) (simp_all add: EncodeSeparateAV_def Let_def)
  have a: "fst (GenerateMultiQualityAudio run ?processed (join_path [dir, ''audio'', ''default'']) d w2) = Inr aqs"
    and v: "fst (video_loop run p (join_path [dir, ''video'']) d ?qs w3) = Inr vts" using e3 r3 e4 r4 by simp_all
  from video_loop_tracks [OF v] obtain k where "subseq k (selectQualities (vi_width info) (vi_height info))"
    "vts = map track_of k" by blast
  moreover from audio_loop_bitrates [OF a [unfolded GenerateMultiQualityAudio_def]]
  have "map aq_bitrate aqs = [''192k'', ''128k'', ''96k'']" by simp
  then have "map at_bitrate (sr_audio r) = [''192k'', ''128k'', ''96k'']"
    "map at_default (sr_audio r) = [True, False, False]"
    using r by (auto simp: o_def map_eq_Cons_conv)
  ultimately show ?thesis using that r by simp
qed

text \<open>A separate encoding that succeeds has video tracks of some of the selected qualities, in
order, and the three audio bitrates with the first as the only default; the master playlist it writes
has an entry for every video track, with that track's bandwidth and playlist.\<close>

theorem separate_av_tracks:
  assumes "fst (EncodeSeparateAV run p dir info d w) = Inr r"
  shows "subseq (map vt_quality (sr_video r)) (map qs_name (selectQualities (vi_width info) (vi_height info)))
    \<and> map at_bitrate (sr_audio r) = [''192k'', ''128k'', ''96k''] \<and> map at_default (sr_audio r) = [True, False, False]
    \<and> map (\<lambda>v. (vv_resolution v, vv_bandwidth v, vv_playlist v)) (video_variants (map vt_quality (sr_video r)))
      = map (\<lambda>t. (vt_quality t, vt_bandwidth t, vt_playlist t)) (sr_video r)"
proof -
  from encode_separate_cases [OF assms] obtain k where k: "subseq k (selectQualities (vi_width info) (vi_height info))"
    "sr_video r = map track_of k"
    "map at_bitrate (sr_audio r) = [''192k'', ''128k'', ''96k'']" "map at_default (sr_audio r) = [True, False, False]" .
  have "set k \<subseteq> set all_specs" using subseq_set [OF k(1)] selected_specs by blast
  from video_variants_tracks [OF this] k show ?thesis
    by (simp add: comp_def subseq_map)
qed

text \<open>Programs that all succeed and do nothing.\<close>

definition idle_runner :: "'w runner" where
  "idle_runner c as w = (\<lparr>cr_started = True, cr_error = None, cr_stdout = [], cr_stderr = []\<rparr>, w)"

definition out_world :: os where
  "out_world = \<lparr>fs = [((True, [''o'']), Dir 0)], clock = (\<lambda>_. 0), io = (\<lambda>_. IO_ok),
                statfs = (\<lambda>_. Inl ''''), doclen = (\<lambda>_. 0), tick = 0\<rparr>"

definition info_of :: "int \<Rightarrow> int \<Rightarrow> video_info" where
  "info_of width height = \<lparr>vi_width = width, vi_height = height, vi_duration = f_of_int 0, vi_has_audio = True\<rparr>"

lemma idle_cmd [simp]: "cmd_run idle_runner c as w = (Inr (), w)"
  by (simp add: cmd_run_def idle_runner_def)

lemma idle_audio [simp]:
  "ExtractAudio idle_runner p q w = (Inr (), w)" "ProcessAudio idle_runner p q b w = (Inr (), w)"
  by (simp_all add: ExtractAudio_def ProcessAudio_def ensureDir_def)

lemma idle_separate:
  assumes "GenerateMultiQualityAudio idle_runner (join_path [dir, ''processed_audio.aac''])
      (join_path [dir, ''audio'', ''default'']) d w = (Inr aqs, w)"
    and "video_loop idle_runner p (join_path [dir, ''video'']) d (selectQualities (vi_width info) (vi_height info)) w = (Inr vts, w)"
    and "io w (tick w) = IO_ok" "is_dir_at (fs w) (parent (parse_path (join_path [dir, ''master.m3u8''])))"
    and "lookup (fs w) (parse_path (join_path [dir, ''master.m3u8''])) = None"
  shows "\<exists>r. fst (EncodeSeparateAV idle_runner p dir info d w) = Inr r \<and> sr_video r = vts"
  using assms
  by (simp add: EncodeSeparateAV_def Let_def GenerateSeparateAudioVideoMaster_def GeneratePlaylistFile_def os_write_file_def)

lemma idle_audio_loop: "\<exists>aqs. audio_loop idle_runner p dir d qs w = (Inr aqs, w)"
proof (induction qs)
  case (Cons q qs)
  then show ?case
    by (auto simp: ensureDir_def GenerateAudioHLS_def)
qed simp

text \<open>A video narrower than 426 or lower than 240 pixels is encoded successfully to a stream
without any video track: no quality fits it, and this is not an error.\<close>

theorem small_video_has_no_tracks:
  assumes "vi_width info < 426 \<or> vi_height info < 240"
    and "io w (tick w) = IO_ok" "is_dir_at (fs w) (parent (parse_path (join_path [dir, ''master.m3u8''])))"
    and "lookup (fs w) (parse_path (join_path [dir, ''master.m3u8''])) = None"
  shows "\<exists>r. fst (EncodeSeparateAV idle_runner p dir info d w) = Inr r \<and> sr_video r = []"
proof -
  have s: "selectQualities (vi_width info) (vi_height info) = []"
    using assms(1) by (auto simp: selectQualities_def all_specs_def spec_def)
  obtain aqs where "GenerateMultiQualityAudio idle_runner (join_path [dir, ''processed_audio.aac''])
      (join_path [dir, ''audio'', ''default'']) d w = (Inr aqs, w)"
    using idle_audio_loop by (metis GenerateMultiQualityAudio_def)
  from idle_separate [OF this _ assms(2-4), of p info "[]"] s show ?thesis by simp
qed

theorem small_video_has_no_tracks_witness:
  "\<exists>r. fst (EncodeSeparateAV idle_runner ''in.mp4'' ''/o'' (info_of 1080 200) 6 out_world) = Inr r \<and> sr_video r = []"
proof (rule small_video_has_no_tracks)
  show "vi_width (info_of 1080 200) < 426 \<or> vi_height (info_of 1080 200) < 240" by (simp add: info_of_def)
  show "io out_world (tick out_world) = IO_ok" by (simp add: out_world_def)
  show "is_dir_at (fs out_world) (parent (parse_path (join_path [''/o'', ''master.m3u8''])))" by code_simp
  show "lookup (fs out_world) (parse_path (join_path [''/o'', ''master.m3u8''])) = None" by code_simp
qed

lemma idle_video_loop: "\<exists>vts. video_loop idle_runner p dir d qs w = (Inr vts, w)"
proof (induction qs)
  case (Cons q qs)
  then show ?case
    by (auto simp: ensureDir_def EncodeVideoOnly_def Let_def)
qed simp

theorem separate_av_tracks_witness:
  "\<exists>r. fst (EncodeSeparateAV idle_runner ''in.mp4'' ''/o'' (info_of 1920 1080) 6 out_world) = Inr r
     \<and> subseq (map vt_quality (sr_video r)) [''240p'', ''360p'', ''480p'', ''720p'', ''1080p'']"
proof -
  have q: "map qs_name (selectQualities (vi_width (info_of 1920 1080)) (vi_height (info_of 1920 1080)))
      = [''240p'', ''360p'', ''480p'', ''720p'', ''1080p'']"
    by (simp add: info_of_def selectQualities_def all_specs_def spec_def)
  obtain aqs where a: "GenerateMultiQualityAudio idle_runner (join_path [''/o'', ''processed_audio.aac''])
      (join_path [''/o'', ''audio'', ''default'']) 6 out_world = (Inr aqs, out_world)"
    using idle_audio_loop by (metis GenerateMultiQualityAudio_def)
  obtain vts where v: "video_loop idle_runner ''in.mp4'' (join_path [''/o'', ''video'']) 6
      (selectQualities (vi_width (info_of 1920 1080)) (vi_height (info_of 1920 1080))) out_world = (Inr vts, out_world)"
    using idle_video_loop by metis
  have f: "io out_world (tick out_world) = IO_ok" "is_dir_at (fs out_world) (parent (parse_path (join_path [''/o'', ''master.m3u8''])))"
    "lookup (fs out_world) (parse_path (join_path [''/o'', ''master.m3u8''])) = None"
    by (simp add: out_world_def, code_simp, code_simp)
  from idle_separate [OF a v f] obtain r
    where r: "fst (EncodeSeparateAV idle_runner ''in.mp4'' ''/o'' (info_of 1920 1080) 6 out_world) = Inr r" by blast
  with separate_av_tracks [OF r] q show ?thesis by auto
qed

end
