(* ===== verification/Job_Store.thy ===== *)
theory Job_Store
  imports Job_Types Config Priority_Queue
begin

text \<open>
  The jobs in memory: the interface \<open>ports.JobRepository\<close>
  (\<open>internal/core/ports/repository.go\<close>), the map that implements it
  (\<open>internal/infrastructure/filesystem/repository.go\<close>) and the service over it
  (\<open>internal/application/services/job_service.go\<close>).

  The repository maps an identifier to a pointer. A pointer is a \<open>jref\<close>, the objects are in
  the heap \<open>st_jobs\<close>: the service changes the object behind the pointer it got, and everybody
  who holds the pointer sees the change. The repository's lock makes each of its methods one
  step.
\<close>



record store = os +
  st_jobs :: "(jref, job) gomap"
  st_repo :: "(string, jref) gomap"
  st_next :: jref

section \<open>Objects\<close>

definition zero_job :: job where
  "zero_job = \<lparr>j_id = [], j_status = QUEUED, j_input_path = [], j_input_hash = [],
     j_chunk_duration = 0, j_input = None, j_output = None, j_progress = None,
     j_meta = \<lparr>created_at = 0, completed_at = None, processing_time = Fin 0\<rparr>, j_retries = 0,
     j_max_retries = 0, j_error = None, j_message = []\<rparr>"

text \<open>Every reference the program holds was allocated; \<open>zero_job\<close> is never read.\<close>

definition deref :: "'a store_scheme \<Rightarrow> jref \<Rightarrow> job" where
  "deref w r = (case lookup (st_jobs w) r of Some j \<Rightarrow> j | None \<Rightarrow> zero_job)"

lemma deref_upd [simp]:
  "deref (w\<lparr>st_repo := m\<rparr>) = deref w" "deref (w\<lparr>tick := n\<rparr>) = deref w" "deref (w\<lparr>fs := t\<rparr>) = deref w"
  by (simp_all add: deref_def fun_eq_iff)

definition mutate :: "jref \<Rightarrow> (job \<Rightarrow> job) \<Rightarrow> 'a store_scheme \<Rightarrow> 'a store_scheme" where
  "mutate r f w = w\<lparr>st_jobs := put r (f (deref w r)) (st_jobs w)\<rparr>"

definition alloc :: "job \<Rightarrow> 'a store_scheme \<Rightarrow> jref \<times> 'a store_scheme" where
  "alloc j w = (st_next w, w\<lparr>st_jobs := put (st_next w) j (st_jobs w), st_next := Suc (st_next w)\<rparr>)"

section \<open>The repository\<close>

definition repo_Create :: "jref \<Rightarrow> 'a store_scheme \<Rightarrow> (err + unit) \<times> 'a store_scheme" where
  "repo_Create r w =
     (case lookup (st_repo w) (j_id (deref w r)) of
        Some _ \<Rightarrow> (Inl ErrJobAlreadyExists, w)
      | None \<Rightarrow> (Inr (), w\<lparr>st_repo := put (j_id (deref w r)) r (st_repo w)\<rparr>))"

definition repo_Get :: "string \<Rightarrow> 'a store_scheme \<Rightarrow> err + jref" where
  "repo_Get i w = (case lookup (st_repo w) i of None \<Rightarrow> Inl ErrJobNotFound | Some r \<Rightarrow> Inr r)"

definition repo_Update :: "jref \<Rightarrow> 'a store_scheme \<Rightarrow> (err + unit) \<times> 'a store_scheme" where
  "repo_Update r w =
     (case lookup (st_repo w) (j_id (deref w r)) of
        None \<Rightarrow> (Inl ErrJobNotFound, w)
      | Some _ \<Rightarrow> (Inr (), w\<lparr>st_repo := put (j_id (deref w r)) r (st_repo w)\<rparr>))"

definition repo_Delete :: "string \<Rightarrow> 'a store_scheme \<Rightarrow> (err + unit) \<times> 'a store_scheme" where
  "repo_Delete i w =
     (case lookup (st_repo w) i of
        None \<Rightarrow> (Inl ErrJobNotFound, w)
      | Some _ \<Rightarrow> (Inr (), w\<lparr>st_repo := del i (st_repo w)\<rparr>))"

definition repo_List :: "'a store_scheme \<Rightarrow> jref list" where
  "repo_List w = vals (st_repo w)"

definition repo_Exists :: "string \<Rightarrow> 'a store_scheme \<Rightarrow> bool" where
  "repo_Exists i w \<longleftrightarrow> lookup (st_repo w) i \<noteq> None"

section \<open>The job service\<close>

definition CreateJob :: "config \<Rightarrow> string \<Rightarrow> int \<Rightarrow> 'a store_scheme \<Rightarrow> (err + jref) \<times> 'a store_scheme" where
  "CreateJob cfg inputPath chunkDuration w =
     (let cd = (if chunkDuration = 0 then ec_chunk_duration (cf_encoding cfg) else chunkDuration);
          (now, w1) = time_now w;
          (r, w2) = alloc
            \<lparr>j_id = ''job_'' @ show_int (now div 1000000), j_status = QUEUED, j_input_path = inputPath,
             j_input_hash = [], j_chunk_duration = cd, j_input = None, j_output = None,
             j_progress = None,
             j_meta = \<lparr>created_at = now, completed_at = None, processing_time = Fin 0\<rparr>,
             j_retries = 0, j_max_retries = wc_max_retries (cf_worker cfg), j_error = None,
             j_message = ''Job created and queued for processing''\<rparr> w1;
          (res, w3) = repo_Create r w2
      in (case res of Inl e \<Rightarrow> Inl (wrap ''failed to create job'' e) | Inr _ \<Rightarrow> Inr r, w3))"

definition GetJob :: "string \<Rightarrow> 'a store_scheme \<Rightarrow> err + jref" where
  "GetJob i w = repo_Get i w"

definition ListJobs :: "'a store_scheme \<Rightarrow> jref list" where
  "ListJobs w = repo_List w"

definition DeleteJob :: "string \<Rightarrow> 'a store_scheme \<Rightarrow> (err + unit) \<times> 'a store_scheme" where
  "DeleteJob i w = repo_Delete i w"

definition finish_job :: "go_time \<Rightarrow> job \<Rightarrow> job" where
  "finish_job now j =
     j\<lparr>j_meta := (j_meta j)\<lparr>completed_at := Some now,
        processing_time := seconds (time_sub now (created_at (j_meta j)))\<rparr>\<rparr>"

definition UpdateStatus :: "string \<Rightarrow> job_status \<Rightarrow> 'a store_scheme \<Rightarrow> (err + unit) \<times> 'a store_scheme" where
  "UpdateStatus i status w =
     (case repo_Get i w of
        Inl e \<Rightarrow> (Inl e, w)
      | Inr r \<Rightarrow>
          (let w1 = mutate r (\<lambda>j. j\<lparr>j_status := status\<rparr>) w;
               w2 = (if status = COMPLETED \<or> status = FAILED
                     then let (now, w') = time_now w1 in mutate r (finish_job now) w'
                     else w1)
           in repo_Update r w2))"

definition UpdateProgress :: "string \<Rightarrow> int \<Rightarrow> string \<Rightarrow> 'a store_scheme \<Rightarrow> (err + unit) \<times> 'a store_scheme" where
  "UpdateProgress i percentage step w =
     (case repo_Get i w of
        Inl e \<Rightarrow> (Inl e, w)
      | Inr r \<Rightarrow> repo_Update r
          (mutate r (\<lambda>j. j\<lparr>j_progress := Some \<lparr>pr_percentage = percentage, pr_step = step\<rparr>\<rparr>) w))"

definition SetError :: "string \<Rightarrow> job_error \<Rightarrow> 'a store_scheme \<Rightarrow> (err + unit) \<times> 'a store_scheme" where
  "SetError i e w =
     (case repo_Get i w of
        Inl e' \<Rightarrow> (Inl e', w)
      | Inr r \<Rightarrow>
          (let w1 = mutate r (\<lambda>j. j\<lparr>j_error := Some e, j_status := FAILED\<rparr>) w;
               (now, w2) = time_now w1
           in repo_Update r (mutate r (finish_job now) w2)))"

definition SetMetadata ::
    "string \<Rightarrow> video_metadata option \<Rightarrow> output_info option \<Rightarrow> 'a store_scheme \<Rightarrow> (err + unit) \<times> 'a store_scheme" where
  "SetMetadata i input outp w =
     (case repo_Get i w of
        Inl e \<Rightarrow> (Inl e, w)
      | Inr r \<Rightarrow> repo_Update r (mutate r (\<lambda>j. j\<lparr>j_input := input, j_output := outp\<rparr>) w))"

definition SetHash :: "string \<Rightarrow> string \<Rightarrow> 'a store_scheme \<Rightarrow> (err + unit) \<times> 'a store_scheme" where
  "SetHash i h w =
     (case repo_Get i w of
        Inl e \<Rightarrow> (Inl e, w)
      | Inr r \<Rightarrow> repo_Update r (mutate r (\<lambda>j. j\<lparr>j_input_hash := h\<rparr>) w))"

definition IncrementRetry :: "string \<Rightarrow> 'a store_scheme \<Rightarrow> (err + unit) \<times> 'a store_scheme" where
  "IncrementRetry i w =
     (case repo_Get i w of
        Inl e \<Rightarrow> (Inl e, w)
      | Inr r \<Rightarrow> repo_Update r (mutate r (\<lambda>j. j\<lparr>j_retries := wrap64 (j_retries j + 1)\<rparr>) w))"

section \<open>The contract of the repository\<close>

text \<open>
  \<open>view s i\<close> is the job stored under \<open>i\<close>. The interface promises that a lookup returns the
  object that is stored, that a change through the pointer shows under its identifier and
  nowhere else, and that update keeps what is there.
\<close>

locale job_repository =
  fixes create :: "'r \<Rightarrow> 's \<Rightarrow> (err + unit) \<times> 's"
    and get :: "string \<Rightarrow> 's \<Rightarrow> err + 'r"
    and update :: "'r \<Rightarrow> 's \<Rightarrow> (err + unit) \<times> 's"
    and delete :: "string \<Rightarrow> 's \<Rightarrow> (err + unit) \<times> 's"
    and list :: "'s \<Rightarrow> 'r list"
    and exists :: "string \<Rightarrow> 's \<Rightarrow> bool"
    and obj :: "'s \<Rightarrow> 'r \<Rightarrow> job"
    and change :: "'r \<Rightarrow> (job \<Rightarrow> job) \<Rightarrow> 's \<Rightarrow> 's"
    and live :: "'s \<Rightarrow> 'r \<Rightarrow> bool"
    and view :: "'s \<Rightarrow> string \<Rightarrow> job option"
    and invar :: "'s \<Rightarrow> bool"
  assumes get_None: "invar s \<Longrightarrow> view s i = None \<Longrightarrow> get i s = Inl ErrJobNotFound"
    and get_Some: "invar s \<Longrightarrow> view s i = Some j \<Longrightarrow> \<exists>r. get i s = Inr r \<and> obj s r = j"
    and change: "invar s \<Longrightarrow> get i s = Inr r \<Longrightarrow> (\<And>j. j_id (f j) = j_id j) \<Longrightarrow>
      invar (change r f s) \<and> get i (change r f s) = Inr r \<and> view (change r f s) = (view s)(i \<mapsto> f (obj s r))"
    and update: "invar s \<Longrightarrow> get i s = Inr r \<Longrightarrow>
      fst (update r s) = Inr () \<and> invar (snd (update r s)) \<and> view (snd (update r s)) = view s"
    and create_new: "invar s \<Longrightarrow> live s r \<Longrightarrow> view s (j_id (obj s r)) = None \<Longrightarrow>
      fst (create r s) = Inr () \<and> invar (snd (create r s))
      \<and> view (snd (create r s)) = (view s)(j_id (obj s r) \<mapsto> obj s r)
      \<and> get (j_id (obj s r)) (snd (create r s)) = Inr r"
    and create_dup: "invar s \<Longrightarrow> view s (j_id (obj s r)) \<noteq> None \<Longrightarrow> create r s = (Inl ErrJobAlreadyExists, s)"
    and delete_ok: "invar s \<Longrightarrow> view s i \<noteq> None \<Longrightarrow>
      fst (delete i s) = Inr () \<and> invar (snd (delete i s)) \<and> view (snd (delete i s)) = (view s)(i := None)"
    and delete_None: "invar s \<Longrightarrow> view s i = None \<Longrightarrow> delete i s = (Inl ErrJobNotFound, s)"
    and list: "invar s \<Longrightarrow> obj s ` set (list s) = ran (view s)"
    and exists: "invar s \<Longrightarrow> exists i s \<longleftrightarrow> view s i \<noteq> None"
begin

text \<open>The pattern of the service's setters: look the job up, change it, store it.\<close>

definition modify :: "string \<Rightarrow> (job \<Rightarrow> job) \<Rightarrow> 's \<Rightarrow> (err + unit) \<times> 's" where
  "modify i f s = (case get i s of Inl e \<Rightarrow> (Inl e, s) | Inr r \<Rightarrow> update r (change r f s))"

lemma modify_None: "invar s \<Longrightarrow> view s i = None \<Longrightarrow> modify i f s = (Inl ErrJobNotFound, s)"
  by (simp add: modify_def get_None)

lemma modify_Some:
  assumes "invar s" "view s i = Some j" "\<And>j. j_id (f j) = j_id j"
  shows "fst (modify i f s) = Inr () \<and> invar (snd (modify i f s)) \<and> view (snd (modify i f s)) = (view s)(i \<mapsto> f j)"
proof -
  obtain r where r: "get i s = Inr r" "obj s r = j" using get_Some assms(1,2) by blast
  note c = change [OF assms(1) r(1), of f, OF assms(3)]
  from update [of "change r f s" i r] c r show ?thesis by (simp add: modify_def)
qed

lemma get_iff: "invar s \<Longrightarrow> is_ok (get i s) \<longleftrightarrow> view s i \<noteq> None"
  using get_None get_Some by (cases "view s i") force+

lemma delete_then_get: "invar s \<Longrightarrow> view s i \<noteq> None \<Longrightarrow> get i (snd (delete i s)) = Inl ErrJobNotFound"
  using delete_ok [of s i] by (intro get_None) simp_all

end

definition job_view :: "'a store_scheme \<Rightarrow> string \<Rightarrow> job option" where
  "job_view w i = map_option (deref w) (lookup (st_repo w) i)"

definition store_wf :: "'a store_scheme \<Rightarrow> bool" where
  "store_wf w \<longleftrightarrow> wf_map (st_repo w) \<and> wf_map (st_jobs w)
     \<and> list_all (\<lambda>(r, j). r < st_next w) (st_jobs w)
     \<and> list_all (\<lambda>(i, r). case lookup (st_jobs w) r of None \<Rightarrow> False | Some j \<Rightarrow> j_id j = i) (st_repo w)"

definition live_ref :: "'a store_scheme \<Rightarrow> jref \<Rightarrow> bool" where
  "live_ref w r \<longleftrightarrow> lookup (st_jobs w) r \<noteq> None"

lemma store_wf_repo:
  "store_wf w \<Longrightarrow> lookup (st_repo w) i = Some r \<Longrightarrow> lookup (st_jobs w) r = Some (deref w r) \<and> j_id (deref w r) = i"
  by (auto simp: store_wf_def list_all_iff deref_def dest!: map_of_SomeD split: option.splits)

lemma store_wf_bound: "store_wf w \<Longrightarrow> lookup (st_jobs w) r = Some j \<Longrightarrow> r < st_next w"
  by (auto simp: store_wf_def list_all_iff dest!: map_of_SomeD)

lemma store_wfI:
  assumes "wf_map (st_repo w)" "wf_map (st_jobs w)"
    "\<And>r j. lookup (st_jobs w) r = Some j \<Longrightarrow> r < st_next w"
    "\<And>i r. lookup (st_repo w) i = Some r \<Longrightarrow> \<exists>j. lookup (st_jobs w) r = Some j \<and> j_id j = i"
  shows "store_wf w"
proof -
  have "\<forall>(r, j) \<in> set (st_jobs w). r < st_next w" using assms(2,3) by auto
  moreover have "case lookup (st_jobs w) r of None \<Rightarrow> False | Some j \<Rightarrow> j_id j = i"
    if "(i, r) \<in> set (st_repo w)" for i r
    using assms(4) [of i r] assms(1) that by (auto split: option.splits)
  ultimately show ?thesis using assms(1,2) by (auto simp: store_wf_def list_all_iff)
qed

lemma deref_mutate [simp]: "deref (mutate r f w) q = (if q = r then f (deref w r) else deref w q)"
  by (simp add: mutate_def deref_def)

lemma mutate_other [simp, frame]:
  "st_repo (mutate r f w) = st_repo w" "st_next (mutate r f w) = st_next w" "fs (mutate r f w) = fs w"
  "clock (mutate r f w) = clock w" "io (mutate r f w) = io w" "tick (mutate r f w) = tick w"
  by (simp_all add: mutate_def)

lemma store_wf_mutate:
  assumes "store_wf w" "live_ref w r" "\<And>j. j_id (f j) = j_id j"
  shows "store_wf (mutate r f w)"
proof (rule store_wfI)
  show "wf_map (st_repo (mutate r f w))" "wf_map (st_jobs (mutate r f w))"
    using assms(1) by (simp_all add: mutate_def store_wf_def)
  show "q < st_next (mutate r f w)" if "lookup (st_jobs (mutate r f w)) q = Some j" for q j
    using that assms store_wf_bound [OF assms(1)] by (auto simp: mutate_def live_ref_def split: if_splits)
  show "\<exists>j. lookup (st_jobs (mutate r f w)) q = Some j \<and> j_id j = i"
    if "lookup (st_repo (mutate r f w)) i = Some q" for i q
    using that store_wf_repo [OF assms(1), of i q] assms(3) by (auto simp: mutate_def)
qed

lemma repo_Update_same:
  "store_wf w \<Longrightarrow> lookup (st_repo w) i = Some r \<Longrightarrow>
     repo_Update r w = (Inr (), w\<lparr>st_repo := put i r (st_repo w)\<rparr>)"
  using store_wf_repo [of w i r] by (simp add: repo_Update_def)

lemma put_same_lookup: "lookup m i = Some r \<Longrightarrow> lookup (put i r m) = lookup m"
  by (rule ext) simp

lemma job_view_repo [simp]: "job_view (w\<lparr>st_repo := m\<rparr>) i = map_option (deref w) (lookup m i)"
  by (simp add: job_view_def)

lemma store_wf_Update:
  assumes "store_wf w" "lookup (st_repo w) i = Some r"
  shows "store_wf (w\<lparr>st_repo := put i r (st_repo w)\<rparr>)"
  using assms store_wf_repo [OF assms(1)] store_wf_bound [OF assms(1)]
  by (intro store_wfI) (auto simp: store_wf_def split: if_splits)

interpretation mem: job_repository repo_Create repo_Get repo_Update repo_Delete repo_List repo_Exists
  deref mutate live_ref job_view store_wf
proof unfold_locales
  fix s :: "'a store_scheme" and i r and f :: "job \<Rightarrow> job"
  assume wf: "store_wf s"
  show "job_view s i = None \<Longrightarrow> repo_Get i s = Inl ErrJobNotFound"
    by (simp add: job_view_def repo_Get_def)
  show "\<exists>r. repo_Get i s = Inr r \<and> deref s r = j" if "job_view s i = Some j" for j
    using that by (auto simp: job_view_def repo_Get_def split: option.splits)
  show "job_view s i = None \<Longrightarrow> repo_Delete i s = (Inl ErrJobNotFound, s)"
    by (simp add: job_view_def repo_Delete_def)
  show "repo_Exists i s \<longleftrightarrow> job_view s i \<noteq> None" by (simp add: job_view_def repo_Exists_def)
  show "deref s ` set (repo_List s) = ran (job_view s)"
    using wf by (force simp: repo_List_def ran_def job_view_def store_wf_def lookup_iff_mem)
  show "repo_Create r s = (Inl ErrJobAlreadyExists, s)" if "job_view s (j_id (deref s r)) \<noteq> None"
    using that by (auto simp: repo_Create_def job_view_def)
  show "fst (repo_Delete i s) = Inr () \<and> store_wf (snd (repo_Delete i s))
      \<and> job_view (snd (repo_Delete i s)) = (job_view s)(i := None)" if ne: "job_view s i \<noteq> None"
  proof -
    obtain q where q: "lookup (st_repo s) i = Some q"
      using ne by (cases "lookup (st_repo s) i") (simp_all add: job_view_def)
    have "store_wf (s\<lparr>st_repo := del i (st_repo s)\<rparr>)"
      using wf store_wf_repo [OF wf] store_wf_bound [OF wf]
      by (intro store_wfI) (auto simp: store_wf_def split: if_splits)
    with q show ?thesis by (auto simp: repo_Delete_def fun_eq_iff) (simp_all add: job_view_def)
  qed
  show "fst (repo_Create r s) = Inr () \<and> store_wf (snd (repo_Create r s))
      \<and> job_view (snd (repo_Create r s)) = (job_view s)(j_id (deref s r) \<mapsto> deref s r)
      \<and> repo_Get (j_id (deref s r)) (snd (repo_Create r s)) = Inr r"
    if "live_ref s r" "job_view s (j_id (deref s r)) = None"
  proof -
    have n: "lookup (st_repo s) (j_id (deref s r)) = None" using that(2) by (simp add: job_view_def)
    have l: "lookup (st_jobs s) r = Some (deref s r)"
      using that(1) by (auto simp: live_ref_def deref_def)
    have "store_wf (s\<lparr>st_repo := put (j_id (deref s r)) r (st_repo s)\<rparr>)"
      using wf store_wf_repo [OF wf] store_wf_bound [OF wf] l
      by (intro store_wfI) (auto simp: store_wf_def split: if_splits)
    with n show ?thesis by (auto simp: repo_Create_def fun_eq_iff repo_Get_def) (simp_all add: job_view_def)
  qed
  assume g: "repo_Get i s = Inr r"
  then have r: "lookup (st_repo s) i = Some r" by (simp add: repo_Get_def split: option.splits)
  show "fst (repo_Update r s) = Inr () \<and> store_wf (snd (repo_Update r s)) \<and> job_view (snd (repo_Update r s)) = job_view s"
    using repo_Update_same [OF wf r] store_wf_Update [OF wf r] r
    by (auto simp: fun_eq_iff job_view_def)
  assume f: "\<And>j. j_id (f j) = j_id j"
  have "live_ref s r" using store_wf_repo [OF wf r] by (simp add: live_ref_def)
  then have "store_wf (mutate r f s)" using wf f by (intro store_wf_mutate)
  moreover have "job_view (mutate r f s) k = ((job_view s)(i \<mapsto> f (deref s r))) k" for k
    using store_wf_repo [OF wf] r by (cases "lookup (st_repo s) k") (auto simp: job_view_def)
  ultimately show "store_wf (mutate r f s) \<and> repo_Get i (mutate r f s) = Inr r
      \<and> job_view (mutate r f s) = (job_view s)(i \<mapsto> f (deref s r))"
    using g by (auto simp: repo_Get_def)
qed

section \<open>The service\<close>

lemma os_frame_store:
  "os_frame w w' \<Longrightarrow> st_jobs w' = st_jobs w \<and> st_repo w' = st_repo w \<and> st_next w' = st_next w"
  by (auto simp: os_frame_def)

lemma os_frame_job_view: "os_frame w w' \<Longrightarrow> job_view w' = job_view w \<and> store_wf w' = store_wf w \<and> deref w' = deref w"
  by (auto simp: os_frame_def job_view_def fun_eq_iff store_wf_def)

lemma time_now_other [simp, frame]:
  "st_jobs (snd (time_now w)) = st_jobs w" "st_repo (snd (time_now w)) = st_repo w"
  "st_next (snd (time_now w)) = st_next w" "deref (snd (time_now w)) = deref w"
  "job_view (snd (time_now w)) = job_view w" "store_wf (snd (time_now w)) = store_wf w"
  using os_frame_store [OF os_frame_time_now [of w]] os_frame_job_view [OF os_frame_time_now [of w]]
  by simp_all

lemma fst_time_now [simp]: "fst (time_now w) = clock w (tick w)"
  by (simp add: time_now_def)

lemma finish_job_id [simp]: "j_id (finish_job t j) = j_id j"
  by (simp add: finish_job_def)

text \<open>Every setter is the pattern of the contract, with the clock read in between where the job
ends.\<close>

lemma setters_modify:
  "UpdateProgress i p step w = mem.modify i (\<lambda>j. j\<lparr>j_progress := Some \<lparr>pr_percentage = p, pr_step = step\<rparr>\<rparr>) w"
  "SetMetadata i inp outp w = mem.modify i (\<lambda>j. j\<lparr>j_input := inp, j_output := outp\<rparr>) w"
  "SetHash i h w = mem.modify i (\<lambda>j. j\<lparr>j_input_hash := h\<rparr>) w"
  "IncrementRetry i w = mem.modify i (\<lambda>j. j\<lparr>j_retries := wrap64 (j_retries j + 1)\<rparr>) w"
  by (simp_all add: UpdateProgress_def SetMetadata_def SetHash_def IncrementRetry_def mem.modify_def)

text \<open>The change an update of the status makes.\<close>

definition status_change :: "job_status \<Rightarrow> go_time \<Rightarrow> job \<Rightarrow> job" where
  "status_change status now j =
     (if status = COMPLETED \<or> status = FAILED then finish_job now (j\<lparr>j_status := status\<rparr>)
      else j\<lparr>j_status := status\<rparr>)"

lemma j_id_status_change [simp]: "j_id (status_change s t j) = j_id j"
  by (simp add: status_change_def)

lemma mutate_mutate [simp]: "mutate r f (mutate r g w) = mutate r (f \<circ> g) w"
  by (simp add: mutate_def deref_def o_def)

lemma mutate_tick: "mutate r f (w\<lparr>tick := n\<rparr>) = (mutate r f w)\<lparr>tick := n\<rparr>"
  by (simp add: mutate_def deref_def)

lemma repo_tick: "repo_Get i (w\<lparr>tick := n\<rparr>) = repo_Get i w"
  by (simp add: repo_Get_def)

lemma UpdateStatus_modify:
  assumes "repo_Get i w = Inr r"
  shows "\<exists>n. UpdateStatus i status w = mem.modify i (status_change status (clock w (tick w))) (w\<lparr>tick := n\<rparr>)"
proof (cases "status = COMPLETED \<or> status = FAILED")
  case True
  then have "(\<lambda>j. finish_job (clock w (tick w)) (j\<lparr>j_status := status\<rparr>)) = status_change status (clock w (tick w))"
    by (simp add: status_change_def fun_eq_iff)
  with True assms have "UpdateStatus i status w
      = mem.modify i (status_change status (clock w (tick w))) (w\<lparr>tick := Suc (tick w)\<rparr>)"
    by (simp add: UpdateStatus_def mem.modify_def time_now_def mutate_tick [symmetric] repo_tick o_def Let_def)
  then show ?thesis by blast
next
  case False
  then have "(\<lambda>j. j\<lparr>j_status := status\<rparr>) = status_change status (clock w (tick w))"
    by (simp add: status_change_def fun_eq_iff)
  with False have "UpdateStatus i status w = mem.modify i (status_change status (clock w (tick w))) (w\<lparr>tick := tick w\<rparr>)"
    using assms by (simp add: UpdateStatus_def mem.modify_def)
  then show ?thesis by blast
qed

lemma job_view_tick [simp]: "job_view (w\<lparr>tick := n\<rparr>) = job_view w" "store_wf (w\<lparr>tick := n\<rparr>) = store_wf w"
  by (simp_all add: job_view_def fun_eq_iff store_wf_def)

lemma UpdateStatus_None: "store_wf w \<Longrightarrow> job_view w i = None \<Longrightarrow> UpdateStatus i st w = (Inl ErrJobNotFound, w)"
  by (simp add: UpdateStatus_def mem.get_None)

lemma UpdateStatus_Some:
  assumes "store_wf w" "job_view w i = Some j"
  shows "fst (UpdateStatus i st w) = Inr () \<and> store_wf (snd (UpdateStatus i st w))
    \<and> job_view (snd (UpdateStatus i st w)) = (job_view w)(i \<mapsto> status_change st (clock w (tick w)) j)"
proof -
  obtain r where "repo_Get i w = Inr r" using mem.get_Some [OF assms] by blast
  from UpdateStatus_modify [OF this, of st] obtain n where
    n: "UpdateStatus i st w = mem.modify i (status_change st (clock w (tick w))) (w\<lparr>tick := n\<rparr>)" by blast
  show ?thesis unfolding n
    using mem.modify_Some [of "w\<lparr>tick := n\<rparr>" i j "status_change st (clock w (tick w))"] assms by simp
qed

lemma SetError_Some:
  assumes "store_wf w" "job_view w i = Some j"
  shows "fst (SetError i e w) = Inr () \<and> store_wf (snd (SetError i e w))
    \<and> job_view (snd (SetError i e w))
        = (job_view w)(i \<mapsto> finish_job (clock w (tick w)) (j\<lparr>j_error := Some e, j_status := FAILED\<rparr>))"
proof -
  let ?f = "\<lambda>j. finish_job (clock w (tick w)) (j\<lparr>j_error := Some e, j_status := FAILED\<rparr>)"
  obtain r where "repo_Get i w = Inr r" using mem.get_Some [OF assms] by blast
  then have "SetError i e w = mem.modify i ?f (w\<lparr>tick := Suc (tick w)\<rparr>)"
    by (simp add: SetError_def mem.modify_def time_now_def mutate_tick [symmetric] repo_tick o_def)
  then show ?thesis using mem.modify_Some [of "w\<lparr>tick := Suc (tick w)\<rparr>" i j ?f] assms by simp
qed

lemma alloc_simps [simp]:
  "fst (alloc j w) = st_next w" "st_repo (snd (alloc j w)) = st_repo w"
  "deref (snd (alloc j w)) (st_next w) = j" "live_ref (snd (alloc j w)) (st_next w)"
  "fs (snd (alloc j w)) = fs w"
  by (simp_all add: alloc_def deref_def live_ref_def)

lemma alloc_store:
  assumes "store_wf w"
  shows "store_wf (snd (alloc j w)) \<and> job_view (snd (alloc j w)) = job_view w"
proof
  note b = store_wf_bound [OF assms]
  show "store_wf (snd (alloc j w))"
  proof (rule store_wfI)
    show "wf_map (st_repo (snd (alloc j w)))" "wf_map (st_jobs (snd (alloc j w)))"
      using assms by (simp_all add: alloc_def store_wf_def)
    show "r < st_next (snd (alloc j w))" if "lookup (st_jobs (snd (alloc j w))) r = Some k" for r k
      using that b [of r] by (auto simp: alloc_def less_Suc_eq split: if_splits)
    show "\<exists>k. lookup (st_jobs (snd (alloc j w))) r = Some k \<and> j_id k = i"
      if "lookup (st_repo (snd (alloc j w))) i = Some r" for i r
      using that store_wf_repo [OF assms, of i r] b by (fastforce simp: alloc_def)
  qed
  have "lookup (st_repo w) i = Some r \<Longrightarrow> deref (snd (alloc j w)) r = deref w r" for i r
    using store_wf_repo [OF assms, of i r] b [of r] by (auto simp: alloc_def deref_def)
  then show "job_view (snd (alloc j w)) = job_view w"
    by (auto simp: job_view_def fun_eq_iff map_option_case split: option.splits)
qed

definition job_id_at :: "go_time \<Rightarrow> string" where
  "job_id_at now = ''job_'' @ show_int (now div 1000000)"

lemma job_id_at_inject: "job_id_at s = job_id_at t \<longleftrightarrow> s div 1000000 = t div 1000000"
  by (simp add: job_id_at_def show_int_inject)

definition new_job :: "config \<Rightarrow> string \<Rightarrow> int \<Rightarrow> go_time \<Rightarrow> job" where
  "new_job cfg inputPath chunkDuration now =
     \<lparr>j_id = job_id_at now, j_status = QUEUED, j_input_path = inputPath, j_input_hash = [],
      j_chunk_duration = (if chunkDuration = 0 then ec_chunk_duration (cf_encoding cfg) else chunkDuration),
      j_input = None, j_output = None, j_progress = None,
      j_meta = \<lparr>created_at = now, completed_at = None, processing_time = Fin 0\<rparr>, j_retries = 0,
      j_max_retries = wc_max_retries (cf_worker cfg), j_error = None,
      j_message = ''Job created and queued for processing''\<rparr>"

lemma CreateJob_eq:
  "CreateJob cfg p c w =
     (let (r, w2) = alloc (new_job cfg p c (clock w (tick w))) (snd (time_now w)); (res, w3) = repo_Create r w2
      in (case res of Inl e \<Rightarrow> Inl (wrap ''failed to create job'' e) | Inr _ \<Rightarrow> Inr r, w3))"
  by (simp add: CreateJob_def new_job_def job_id_at_def time_now_def Let_def)

lemma CreateJob_fresh:
  assumes "store_wf w" "job_view w (job_id_at (clock w (tick w))) = None"
  shows "\<exists>r. fst (CreateJob cfg p c w) = Inr r
    \<and> GetJob (job_id_at (clock w (tick w))) (snd (CreateJob cfg p c w)) = Inr r
    \<and> store_wf (snd (CreateJob cfg p c w))
    \<and> job_view (snd (CreateJob cfg p c w))
        = (job_view w)(job_id_at (clock w (tick w)) \<mapsto> new_job cfg p c (clock w (tick w)))"
proof -
  let ?j = "new_job cfg p c (clock w (tick w))" and ?w1 = "snd (time_now w)"
  let ?w2 = "snd (alloc ?j ?w1)"
  have id: "j_id ?j = job_id_at (clock w (tick w))" by (simp add: new_job_def)
  have a: "store_wf ?w2" "job_view ?w2 = job_view w" using alloc_store [of ?w1 ?j] assms(1) by simp_all
  have d: "deref ?w2 (st_next w) = ?j" "live_ref ?w2 (st_next w)"
    using alloc_simps(3,4) [of ?j ?w1] by simp_all
  note c = mem.create_new [OF a(1) d(2)]
  have e: "CreateJob cfg p c w
      = (case fst (repo_Create (st_next w) ?w2) of Inl e \<Rightarrow> Inl (wrap ''failed to create job'' e) | Inr _ \<Rightarrow> Inr (st_next w),
         snd (repo_Create (st_next w) ?w2))"
    using alloc_simps(1) [of ?j ?w1] by (simp add: CreateJob_eq case_prod_beta Let_def split: sum.split)
  show ?thesis unfolding e GetJob_def using c d a id assms(2) by simp
qed

text \<open>Every operation keeps the store well formed.\<close>

lemma store_wf_service:
  assumes "store_wf w"
  shows "store_wf (snd (CreateJob cfg p c w)) \<and> store_wf (snd (DeleteJob i w))
    \<and> store_wf (snd (UpdateStatus i st w)) \<and> store_wf (snd (UpdateProgress i n step w))
    \<and> store_wf (snd (SetError i e w)) \<and> store_wf (snd (SetMetadata i inp outp w))
    \<and> store_wf (snd (SetHash i h w)) \<and> store_wf (snd (IncrementRetry i w))"
proof -
  have m: "store_wf (snd (mem.modify i f w))" if "\<And>j. j_id (f j) = j_id j" for f
    using mem.modify_None [OF assms, of i f] mem.modify_Some [OF assms, of i _ f] that assms
    by (cases "job_view w i") simp_all
  have "store_wf (snd (CreateJob cfg p c w))"
  proof (cases "job_view w (job_id_at (clock w (tick w)))")
    case None
    with CreateJob_fresh [OF assms] show ?thesis by blast
  next
    case (Some j)
    let ?j = "new_job cfg p c (clock w (tick w))"
    let ?w2 = "snd (alloc ?j (snd (time_now w)))"
    have a: "store_wf ?w2" "job_view ?w2 = job_view w" using alloc_store [of "snd (time_now w)" ?j] assms by simp_all
    have d: "deref ?w2 (st_next w) = ?j" using alloc_simps(3) [of ?j "snd (time_now w)"] by simp
    have "repo_Create (st_next w) ?w2 = (Inl ErrJobAlreadyExists, ?w2)"
      using mem.create_dup [OF a(1), of "st_next w"] Some a(2) d by (simp add: new_job_def)
    then show ?thesis using alloc_simps(1) [of ?j "snd (time_now w)"] a
      by (simp add: CreateJob_eq case_prod_beta Let_def)
  qed
  moreover have "store_wf (snd (DeleteJob i w))"
    using mem.delete_ok [OF assms, of i] mem.delete_None [OF assms, of i] assms
    by (cases "job_view w i") (simp_all add: DeleteJob_def)
  moreover have "store_wf (snd (UpdateStatus i st w))"
    using UpdateStatus_None [OF assms] UpdateStatus_Some [OF assms] assms by (cases "job_view w i") simp_all
  moreover have "store_wf (snd (SetError i e w))"
    using SetError_Some [OF assms, of i] mem.get_None [OF assms, of i] assms
    by (cases "job_view w i") (simp_all add: SetError_def)
  ultimately show ?thesis unfolding setters_modify by (simp add: m)
qed

lemma CreateJob_live:
  assumes "fst (CreateJob cfg p c w) = Inr r"
  shows "live_ref (snd (CreateJob cfg p c w)) r"
  using assms alloc_simps(1,4) [of "new_job cfg p c (clock w (tick w))" "snd (time_now w)"]
  by (auto simp: CreateJob_eq case_prod_beta Let_def repo_Create_def live_ref_def split: option.splits sum.splits)

section \<open>Properties\<close>

text \<open>A submission stores a queued job with the given input, the default chunk length where
none is given and the configured number of retries, under an identifier made of the clock's
milliseconds, and leaves every other job as it is; the identifier then leads to it.\<close>

theorem create_job_stores:
  assumes "store_wf w" "job_view w (job_id_at (clock w (tick w))) = None"
  shows "\<exists>r. fst (CreateJob cfg p c w) = Inr r
    \<and> GetJob (job_id_at (clock w (tick w))) (snd (CreateJob cfg p c w)) = Inr r
    \<and> store_wf (snd (CreateJob cfg p c w))
    \<and> job_view (snd (CreateJob cfg p c w))
        = (job_view w)(job_id_at (clock w (tick w)) \<mapsto> new_job cfg p c (clock w (tick w)))"
  using CreateJob_fresh [OF assms] .

definition empty_store :: "(nat \<Rightarrow> go_time) \<Rightarrow> store" where
  "empty_store clk = \<lparr>fs = [], clock = clk, io = (\<lambda>_. IO_ok), statfs = (\<lambda>_. Inl ''''), doclen = (\<lambda>_. 0),
     tick = 0, st_jobs = [], st_repo = [], st_next = 0\<rparr>"

lemma store_wf_empty [simp]: "store_wf (empty_store clk)" "job_view (empty_store clk) = Map.empty"
  by (simp_all add: empty_store_def store_wf_def job_view_def fun_eq_iff)

theorem create_job_stores_witness:
  "\<exists>r. fst (CreateJob (Load (\<lambda>_. [])) ''/a.mp4'' 0 (empty_store (\<lambda>_. 1700000000123456789))) = Inr r"
  using create_job_stores [of "empty_store (\<lambda>_. 1700000000123456789)" "Load (\<lambda>_. [])" "''/a.mp4''" 0] by auto

text \<open>Two submissions within the same millisecond get the same identifier, and the second is
refused: the service accepts at most one job per millisecond.\<close>

theorem same_millisecond_refused:
  assumes "store_wf w" "job_view w (job_id_at (clock w (tick w))) = None"
    and "clock w (Suc (tick w)) div 1000000 = clock w (tick w) div 1000000"
  shows "fst (CreateJob cfg q d (snd (CreateJob cfg p c w)))
    = Inl (Err ''failed to create job: job already exists'')"
proof -
  let ?w = "snd (CreateJob cfg p c w)"
  from CreateJob_fresh [OF assms(1,2), of cfg p c] have
    wf: "store_wf ?w" and v: "job_view ?w (job_id_at (clock w (tick w))) \<noteq> None" by auto
  have tk: "tick ?w = Suc (tick w)" "clock ?w = clock w"
    by (simp_all add: CreateJob_eq case_prod_beta Let_def alloc_def repo_Create_def time_now_def split: option.splits)
  let ?j = "new_job cfg q d (clock ?w (tick ?w))"
  let ?w2 = "snd (alloc ?j (snd (time_now ?w)))"
  have id: "j_id ?j = job_id_at (clock w (tick w))"
    using assms(3) by (simp add: new_job_def tk job_id_at_inject)
  have a: "store_wf ?w2" "job_view ?w2 = job_view ?w" using alloc_store [of "snd (time_now ?w)" ?j] wf by simp_all
  have d: "deref ?w2 (st_next ?w) = ?j" using alloc_simps(3) [of ?j "snd (time_now ?w)"] by simp
  have "repo_Create (st_next ?w) ?w2 = (Inl ErrJobAlreadyExists, ?w2)"
    using mem.create_dup [OF a(1), of "st_next ?w"] v a(2) d id by simp
  then show ?thesis
    using alloc_simps(1) [of ?j "snd (time_now ?w)"]
    by (simp add: CreateJob_eq [of cfg q d ?w] case_prod_beta Let_def wrap_def ErrJobAlreadyExists_def)
qed

theorem same_millisecond_refused_witness:
  "fst (CreateJob (Load (\<lambda>_. [])) ''/b.mp4'' 0
     (snd (CreateJob (Load (\<lambda>_. [])) ''/a.mp4'' 0 (empty_store (\<lambda>n. 1700000000123456789 + int n)))))
   = Inl (Err ''failed to create job: job already exists'')"
  by (rule same_millisecond_refused) (simp_all add: empty_store_def store_wf_def job_view_def)

text \<open>A status update reaches the stored job, stamps the end and the processing time exactly
when the new status is COMPLETED or FAILED, and touches no other job; for an unknown
identifier it reports that and changes nothing.\<close>

theorem update_status_spec:
  assumes "store_wf w"
  shows "case job_view w i of
      None \<Rightarrow> UpdateStatus i st w = (Inl ErrJobNotFound, w)
    | Some j \<Rightarrow> fst (UpdateStatus i st w) = Inr () \<and> store_wf (snd (UpdateStatus i st w))
        \<and> job_view (snd (UpdateStatus i st w)) = (job_view w)(i \<mapsto>
            (let j1 = j\<lparr>j_status := st\<rparr> in
             if st \<in> {COMPLETED, FAILED}
             then j1\<lparr>j_meta := \<lparr>created_at = created_at (j_meta j), completed_at = Some (clock w (tick w)),
                processing_time = seconds (time_sub (clock w (tick w)) (created_at (j_meta j)))\<rparr>\<rparr>
             else j1))"
  using UpdateStatus_None [OF assms] UpdateStatus_Some [OF assms]
  by (auto simp: status_change_def finish_job_def split: option.splits)

definition one_job_store :: store where
  "one_job_store = (empty_store (\<lambda>_. 0))\<lparr>st_jobs := [(0, zero_job\<lparr>j_id := ''job_1''\<rparr>)],
     st_repo := [(''job_1'', 0)], st_next := 1\<rparr>"

lemma one_job_store [simp]: "store_wf one_job_store" "job_view one_job_store ''job_1'' = Some (zero_job\<lparr>j_id := ''job_1''\<rparr>)"
  by (simp_all add: one_job_store_def empty_store_def store_wf_def job_view_def deref_def)

theorem update_status_spec_witness:
  "map_option j_status (job_view (snd (UpdateStatus ''job_1'' RUNNING one_job_store)) ''job_1'') = Some RUNNING"
  using update_status_spec [of one_job_store "''job_1''" RUNNING] by simp

text \<open>The store stays well formed (every identifier leads to a live job of that identifier) under
every operation of the service, for any outcome of its calls.\<close>

theorem job_service_invariant:
  assumes "store_wf w"
  shows "store_wf (snd (CreateJob cfg p c w)) \<and> store_wf (snd (DeleteJob i w))
    \<and> store_wf (snd (UpdateStatus i st w)) \<and> store_wf (snd (UpdateProgress i n step w))
    \<and> store_wf (snd (SetError i e w)) \<and> store_wf (snd (SetMetadata i inp outp w))
    \<and> store_wf (snd (SetHash i h w)) \<and> store_wf (snd (IncrementRetry i w))"
  using store_wf_service [OF assms] .

theorem job_service_invariant_witness: "store_wf (snd (DeleteJob ''job_1'' one_job_store))"
  using job_service_invariant [of one_job_store] by simp

end
