(* ===== verification/Job_State.thy ===== *)
theory Job_State
  imports Job_Types
begin

text \<open>
  \<open>pkg/types/state.go\<close>: the state of a job that survives in \<open>state.json\<close>, the steps of the
  transcoding, and the methods that update it. \<open>state_json\<close> and \<open>dec_state\<close> are the JSON
  form given by the struct tags. The main facts: the lists of finished steps and qualities
  stay free of duplicates, grow only, and a state survives writing and reading.
\<close>

record job_state =
  js_job_id :: string
  js_status :: string
  js_current_step :: string
  js_steps_completed :: "string list"
  js_qualities_complete :: "string list"
  js_qualities_failed :: "string list"
  js_chunks_completed :: int
  js_total_chunks :: int
  js_last_heartbeat :: go_time
  js_created_at :: go_time
  js_updated_at :: go_time
  js_resume_supported :: bool
  js_input_path :: string
  js_chunk_duration :: int

definition StepValidation :: string where "StepValidation = ''validation''"
definition StepAnalysis :: string where "StepAnalysis = ''analysis''"
definition StepHashComputation :: string where "StepHashComputation = ''hash_computation''"
definition StepDeduplication :: string where "StepDeduplication = ''deduplication''"
definition StepEncoding240p :: string where "StepEncoding240p = ''encoding_240p''"
definition StepEncoding360p :: string where "StepEncoding360p = ''encoding_360p''"
definition StepEncoding480p :: string where "StepEncoding480p = ''encoding_480p''"
definition StepEncoding720p :: string where "StepEncoding720p = ''encoding_720p''"
definition StepEncoding1080p :: string where "StepEncoding1080p = ''encoding_1080p''"
definition StepEncoding1440p :: string where "StepEncoding1440p = ''encoding_1440p''"
definition StepEncoding4K :: string where "StepEncoding4K = ''encoding_4k''"
definition StepMasterPlaylist :: string where "StepMasterPlaylist = ''master_playlist''"
definition StepCleanup :: string where "StepCleanup = ''cleanup''"
definition StepFinalization :: string where "StepFinalization = ''finalization''"

lemmas step_defs = StepValidation_def StepAnalysis_def StepHashComputation_def
  StepDeduplication_def StepEncoding720p_def StepMasterPlaylist_def StepCleanup_def
  StepFinalization_def

section \<open>Methods\<close>

definition IsStepCompleted :: "job_state \<Rightarrow> string \<Rightarrow> bool" where
  "IsStepCompleted s step \<longleftrightarrow> list_ex (\<lambda>c. c = step) (js_steps_completed s)"

definition IsQualityCompleted :: "job_state \<Rightarrow> string \<Rightarrow> bool" where
  "IsQualityCompleted s q \<longleftrightarrow> list_ex (\<lambda>c. c = q) (js_qualities_complete s)"

definition MarkStepCompleted :: "string \<Rightarrow> go_time \<Rightarrow> job_state \<Rightarrow> job_state" where
  "MarkStepCompleted step now s =
     (let s1 = (if \<not> IsStepCompleted s step
                then s\<lparr>js_steps_completed := js_steps_completed s @ [step]\<rparr> else s)
      in s1\<lparr>js_updated_at := now\<rparr>)"

definition MarkQualityCompleted :: "string \<Rightarrow> go_time \<Rightarrow> job_state \<Rightarrow> job_state" where
  "MarkQualityCompleted q now s =
     (let s1 = (if \<not> IsQualityCompleted s q
                then s\<lparr>js_qualities_complete := js_qualities_complete s @ [q]\<rparr> else s)
      in s1\<lparr>js_updated_at := now\<rparr>)"

definition MarkQualityFailed :: "string \<Rightarrow> go_time \<Rightarrow> job_state \<Rightarrow> job_state" where
  "MarkQualityFailed q now s =
     s\<lparr>js_qualities_failed := js_qualities_failed s @ [q], js_updated_at := now\<rparr>"

text \<open>The method reads the clock once for each of its two assignments.\<close>

definition UpdateHeartbeat_state :: "go_time \<Rightarrow> go_time \<Rightarrow> job_state \<Rightarrow> job_state" where
  "UpdateHeartbeat_state now now' s = s\<lparr>js_last_heartbeat := now, js_updated_at := now'\<rparr>"

definition IsOrphaned :: "go_time \<Rightarrow> job_state \<Rightarrow> bool" where
  "IsOrphaned now s \<longleftrightarrow> now - js_last_heartbeat s > 60 * second"

definition state_wf :: "job_state \<Rightarrow> bool" where
  "state_wf s \<longleftrightarrow> distinct (js_steps_completed s) \<and> distinct (js_qualities_complete s)"

lemma IsStepCompleted_iff: "IsStepCompleted s step \<longleftrightarrow> step \<in> set (js_steps_completed s)"
  by (auto simp: IsStepCompleted_def list_ex_iff)

lemma IsQualityCompleted_iff: "IsQualityCompleted s q \<longleftrightarrow> q \<in> set (js_qualities_complete s)"
  by (auto simp: IsQualityCompleted_def list_ex_iff)

lemma steps_MarkStepCompleted [simp]:
  "set (js_steps_completed (MarkStepCompleted step now s)) = insert step (set (js_steps_completed s))"
  by (auto simp: MarkStepCompleted_def Let_def IsStepCompleted_iff)

lemma qualities_MarkQualityCompleted [simp]:
  "set (js_qualities_complete (MarkQualityCompleted q now s)) = insert q (set (js_qualities_complete s))"
  by (auto simp: MarkQualityCompleted_def Let_def IsQualityCompleted_iff)

lemma IsStepCompleted_Mark [simp]:
  "IsStepCompleted (MarkStepCompleted a now s) b \<longleftrightarrow> b = a \<or> IsStepCompleted s b"
  by (auto simp: IsStepCompleted_iff)

lemma IsQualityCompleted_Mark [simp]:
  "IsQualityCompleted (MarkQualityCompleted a now s) b \<longleftrightarrow> b = a \<or> IsQualityCompleted s b"
  by (auto simp: IsQualityCompleted_iff)

lemma Mark_other [simp, frame]:
  "js_qualities_complete (MarkStepCompleted step now s) = js_qualities_complete s"
  "js_qualities_failed (MarkStepCompleted step now s) = js_qualities_failed s"
  "js_job_id (MarkStepCompleted step now s) = js_job_id s"
  "js_status (MarkStepCompleted step now s) = js_status s"
  "js_last_heartbeat (MarkStepCompleted step now s) = js_last_heartbeat s"
  "js_steps_completed (MarkQualityCompleted q now s) = js_steps_completed s"
  "js_qualities_failed (MarkQualityCompleted q now s) = js_qualities_failed s"
  "js_job_id (MarkQualityCompleted q now s) = js_job_id s"
  "js_status (MarkQualityCompleted q now s) = js_status s"
  "js_last_heartbeat (MarkQualityCompleted q now s) = js_last_heartbeat s"
  "js_steps_completed (MarkQualityFailed q now s) = js_steps_completed s"
  "js_qualities_complete (MarkQualityFailed q now s) = js_qualities_complete s"
  "js_qualities_failed (MarkQualityFailed q now s) = js_qualities_failed s @ [q]"
  "js_job_id (MarkQualityFailed q now s) = js_job_id s"
  "js_status (MarkQualityFailed q now s) = js_status s"
  "js_last_heartbeat (MarkQualityFailed q now s) = js_last_heartbeat s"
  by (simp_all add: MarkStepCompleted_def MarkQualityCompleted_def MarkQualityFailed_def Let_def)

lemma state_wf_Mark [simp, intro]:
  "state_wf s \<Longrightarrow> state_wf (MarkStepCompleted step now s)"
  "state_wf s \<Longrightarrow> state_wf (MarkQualityCompleted q now s)"
  "state_wf s \<Longrightarrow> state_wf (MarkQualityFailed q now s)"
  by (simp_all add: state_wf_def MarkStepCompleted_def MarkQualityCompleted_def Let_def
      IsStepCompleted_iff IsQualityCompleted_iff)

text \<open>Marking twice is marking once, apart from the time of the change.\<close>

lemma MarkStepCompleted_idem:
  "MarkStepCompleted step b (MarkStepCompleted step a s) = (MarkStepCompleted step a s)\<lparr>js_updated_at := b\<rparr>"
  by (simp add: MarkStepCompleted_def [of step b] Let_def)

section \<open>The JSON form\<close>

definition state_json :: "job_state \<Rightarrow> json" where
  "state_json s = JObj
     [(''jobId'', JStr (js_job_id s)),
      (''status'', JStr (js_status s)),
      (''currentStep'', JStr (js_current_step s)),
      (''stepsCompleted'', JStrs (js_steps_completed s)),
      (''qualitiesComplete'', JStrs (js_qualities_complete s)),
      (''qualitiesFailed'', JStrs (js_qualities_failed s)),
      (''chunksCompleted'', JInt (js_chunks_completed s)),
      (''totalChunks'', JInt (js_total_chunks s)),
      (''lastHeartbeat'', JTime (js_last_heartbeat s)),
      (''createdAt'', JTime (js_created_at s)),
      (''updatedAt'', JTime (js_updated_at s)),
      (''resumeSupported'', JBool (js_resume_supported s)),
      (''inputPath'', JStr (js_input_path s)),
      (''chunkDuration'', JInt (js_chunk_duration s))]"

definition zero_state :: job_state where
  "zero_state = \<lparr>js_job_id = [], js_status = [], js_current_step = [], js_steps_completed = [],
     js_qualities_complete = [], js_qualities_failed = [], js_chunks_completed = 0,
     js_total_chunks = 0, js_last_heartbeat = 0, js_created_at = 0, js_updated_at = 0,
     js_resume_supported = False, js_input_path = [], js_chunk_duration = 0\<rparr>"

definition set_state_field :: "string \<Rightarrow> json \<Rightarrow> job_state \<Rightarrow> job_state option" where
  "set_state_field k j s =
    (if k = ''jobid'' then map_option (\<lambda>x. s\<lparr>js_job_id := x\<rparr>) (dec_string j (js_job_id s))
     else if k = ''status'' then map_option (\<lambda>x. s\<lparr>js_status := x\<rparr>) (dec_string j (js_status s))
     else if k = ''currentstep'' then map_option (\<lambda>x. s\<lparr>js_current_step := x\<rparr>) (dec_string j (js_current_step s))
     else if k = ''stepscompleted'' then map_option (\<lambda>x. s\<lparr>js_steps_completed := x\<rparr>) (dec_strings j)
     else if k = ''qualitiescomplete'' then map_option (\<lambda>x. s\<lparr>js_qualities_complete := x\<rparr>) (dec_strings j)
     else if k = ''qualitiesfailed'' then map_option (\<lambda>x. s\<lparr>js_qualities_failed := x\<rparr>) (dec_strings j)
     else if k = ''chunkscompleted'' then map_option (\<lambda>x. s\<lparr>js_chunks_completed := x\<rparr>) (dec_int j (js_chunks_completed s))
     else if k = ''totalchunks'' then map_option (\<lambda>x. s\<lparr>js_total_chunks := x\<rparr>) (dec_int j (js_total_chunks s))
     else if k = ''lastheartbeat'' then map_option (\<lambda>x. s\<lparr>js_last_heartbeat := x\<rparr>) (dec_time j (js_last_heartbeat s))
     else if k = ''createdat'' then map_option (\<lambda>x. s\<lparr>js_created_at := x\<rparr>) (dec_time j (js_created_at s))
     else if k = ''updatedat'' then map_option (\<lambda>x. s\<lparr>js_updated_at := x\<rparr>) (dec_time j (js_updated_at s))
     else if k = ''resumesupported'' then map_option (\<lambda>x. s\<lparr>js_resume_supported := x\<rparr>) (dec_bool j (js_resume_supported s))
     else if k = ''inputpath'' then map_option (\<lambda>x. s\<lparr>js_input_path := x\<rparr>) (dec_string j (js_input_path s))
     else if k = ''chunkduration'' then map_option (\<lambda>x. s\<lparr>js_chunk_duration := x\<rparr>) (dec_int j (js_chunk_duration s))
     else Some s)"

definition dec_state :: "json \<Rightarrow> job_state option" where
  "dec_state j = dec_struct set_state_field j zero_state"

definition state_ints_fit :: "job_state \<Rightarrow> bool" where
  "state_ints_fit s \<longleftrightarrow> fits64 (js_chunks_completed s) \<and> fits64 (js_total_chunks s) \<and> fits64 (js_chunk_duration s)"

lemma state_keys_lower:
  "to_lower ''jobId'' = ''jobid''"
  "to_lower ''status'' = ''status''"
  "to_lower ''currentStep'' = ''currentstep''"
  "to_lower ''stepsCompleted'' = ''stepscompleted''"
  "to_lower ''qualitiesComplete'' = ''qualitiescomplete''"
  "to_lower ''qualitiesFailed'' = ''qualitiesfailed''"
  "to_lower ''chunksCompleted'' = ''chunkscompleted''"
  "to_lower ''totalChunks'' = ''totalchunks''"
  "to_lower ''lastHeartbeat'' = ''lastheartbeat''"
  "to_lower ''createdAt'' = ''createdat''"
  "to_lower ''updatedAt'' = ''updatedat''"
  "to_lower ''resumeSupported'' = ''resumesupported''"
  "to_lower ''inputPath'' = ''inputpath''"
  "to_lower ''chunkDuration'' = ''chunkduration''"
  by code_simp+

lemma dec_state_json: "state_ints_fit s \<Longrightarrow> dec_state (state_json s) = Some s"
  by (simp add: dec_state_def state_json_def state_ints_fit_def zero_state_def set_state_field_def
      state_keys_lower)

end
