(* ===== verification/State_Service.thy ===== *)
theory State_Service
  imports Job_State Config
begin

text \<open>
  \<open>internal/application/services/state_service.go\<close>: the states of the jobs on disk. A state is
  written to a temporary file that is then renamed, so that a failure at any point leaves
  either the old or the new state; the lock makes a save one operation. \<open>SaveState\<close> sets the
  time of the change in the caller's object, so the object is returned too.
\<close>

definition getStatePath :: "config \<Rightarrow> string \<Rightarrow> string" where
  "getStatePath cfg jobID = join_path [outputs cfg, jobID, ''state.json'']"

definition state_dir :: "config \<Rightarrow> string \<Rightarrow> string" where
  "state_dir cfg jobID = join_path [outputs cfg, jobID]"

definition SaveState ::
    "config \<Rightarrow> job_state \<Rightarrow> 'a os_scheme \<Rightarrow> ((err + unit) \<times> job_state) \<times> 'a os_scheme" where
  "SaveState cfg state w =
     (let (now, w1) = time_now w;
          state' = state\<lparr>js_updated_at := now\<rparr>;
          (r, w2) = EnsureDir (state_dir cfg (js_job_id state')) w1
      in case r of
           Inl e \<Rightarrow> ((Inl (wrap ''failed to create state directory'' e), state'), w2)
         | Inr _ \<Rightarrow>
             (let statePath = getStatePath cfg (js_job_id state');
                  tempPath = statePath @ ''.tmp'';
                  (r, w3) = os_write_file tempPath (Doc (state_json state')) w2
              in case r of
                   Inl e \<Rightarrow> ((Inl (wrap ''failed to write temp state file'' e), state'), w3)
                 | Inr _ \<Rightarrow>
                     (let (r, w4) = os_rename tempPath statePath w3
                      in case r of
                           Inl e \<Rightarrow> ((Inl (wrap ''failed to rename state file'' e), state'), w4)
                         | Inr _ \<Rightarrow> ((Inr (), state'), w4))))"

definition initial_state :: "string \<Rightarrow> string \<Rightarrow> int \<Rightarrow> go_time \<Rightarrow> job_state" where
  "initial_state jobID inputPath chunkDuration now =
     \<lparr>js_job_id = jobID, js_status = ''processing'', js_current_step = StepValidation,
      js_steps_completed = [], js_qualities_complete = [], js_qualities_failed = [],
      js_chunks_completed = 0, js_total_chunks = 0, js_last_heartbeat = now, js_created_at = now,
      js_updated_at = now, js_resume_supported = True, js_input_path = inputPath,
      js_chunk_duration = chunkDuration\<rparr>"

definition CreateState ::
    "config \<Rightarrow> string \<Rightarrow> string \<Rightarrow> int \<Rightarrow> 'a os_scheme \<Rightarrow> (err + job_state) \<times> 'a os_scheme" where
  "CreateState cfg jobID inputPath chunkDuration w =
     (let (now, w1) = time_now w;
          ((r, state), w2) = SaveState cfg (initial_state jobID inputPath chunkDuration now) w1
      in (case r of Inl e \<Rightarrow> Inl (wrap ''failed to save initial state'' e) | Inr _ \<Rightarrow> Inr state, w2))"

text \<open>What \<open>json.Unmarshal\<close> makes of the content of a state file.\<close>

definition unmarshal_state :: "content \<Rightarrow> job_state option" where
  "unmarshal_state c = (case c of Doc j \<Rightarrow> dec_state j | Opaque _ _ \<Rightarrow> None)"

definition LoadState :: "config \<Rightarrow> string \<Rightarrow> 'a os_scheme \<Rightarrow> (err + job_state) \<times> 'a os_scheme" where
  "LoadState cfg jobID w =
     (let statePath = getStatePath cfg jobID;
          (ex, w1) = FileExists statePath w
      in if \<not> ex then (Inl (Err (''state file not found for job '' @ jobID)), w1)
         else (let (r, w2) = os_read_file statePath w1
               in (case r of
                     Inl e \<Rightarrow> Inl (wrap ''failed to read state file'' e)
                   | Inr c \<Rightarrow> (case unmarshal_state c of
                                 None \<Rightarrow> Inl (Err ''failed to unmarshal state'')
                               | Some s \<Rightarrow> Inr s), w2)))"

definition UpdateState ::
    "config \<Rightarrow> string \<Rightarrow> (job_state \<Rightarrow> 'a os_scheme \<Rightarrow> job_state \<times> 'a os_scheme) \<Rightarrow> 'a os_scheme
       \<Rightarrow> (err + unit) \<times> 'a os_scheme" where
  "UpdateState cfg jobID updateFn w =
     (let (r, w1) = LoadState cfg jobID w
      in case r of
           Inl e \<Rightarrow> (Inl e, w1)
         | Inr state \<Rightarrow>
             (let (state', w2) = updateFn state w1; ((r, _), w3) = SaveState cfg state' w2 in (r, w3)))"

definition DeleteState :: "config \<Rightarrow> string \<Rightarrow> 'a os_scheme \<Rightarrow> (err + unit) \<times> 'a os_scheme" where
  "DeleteState cfg jobID w =
     (let statePath = getStatePath cfg jobID; (ex, w1) = FileExists statePath w
      in if ex then os_remove statePath w1 else (Inr (), w1))"

definition UpdateHeartbeat :: "config \<Rightarrow> string \<Rightarrow> 'a os_scheme \<Rightarrow> (err + unit) \<times> 'a os_scheme" where
  "UpdateHeartbeat cfg jobID =
     UpdateState cfg jobID (\<lambda>state w.
       let (now, w1) = time_now w; (now', w2) = time_now w1 in (UpdateHeartbeat_state now now' state, w2))"

text \<open>The loop over the entries of the output directory; the kind of an entry comes with it.\<close>

fun orphans_among ::
    "config \<Rightarrow> (string \<times> bool) list \<Rightarrow> 'a os_scheme \<Rightarrow> job_state list \<times> 'a os_scheme" where
  "orphans_among cfg [] w = ([], w)"
| "orphans_among cfg ((jobID, isDir) # es) w =
     (if \<not> isDir then orphans_among cfg es w
      else let statePath = getStatePath cfg jobID; (ex, w1) = FileExists statePath w
           in if \<not> ex then orphans_among cfg es w1
              else let (r, w2) = os_read_file statePath w1
                   in case r of
                        Inl _ \<Rightarrow> orphans_among cfg es w2
                      | Inr c \<Rightarrow>
                          (case unmarshal_state c of
                             None \<Rightarrow> orphans_among cfg es w2
                           | Some state \<Rightarrow>
                               if js_status state = ''processing''
                               then let (now, w3) = time_now w2; (os, w4) = orphans_among cfg es w3
                                    in (if IsOrphaned now state then state # os else os, w4)
                               else orphans_among cfg es w2))"

definition dir_entries :: "'a os_scheme \<Rightarrow> string \<Rightarrow> string list \<Rightarrow> (string \<times> bool) list" where
  "dir_entries w dir names =
     map (\<lambda>n. (n, is_dir_at (fs w) (fst (parse_path dir), snd (parse_path dir) @ [n]))) names"

definition FindOrphanedJobs :: "config \<Rightarrow> 'a os_scheme \<Rightarrow> (err + job_state list) \<times> 'a os_scheme" where
  "FindOrphanedJobs cfg w =
     (let (r, w1) = os_read_dir (outputs cfg) w
      in case r of
           Inl e \<Rightarrow> (Inl (wrap ''failed to read outputs directory'' e), w1)
         | Inr names \<Rightarrow>
             (let (os, w2) = orphans_among cfg (dir_entries w (outputs cfg) names) w1 in (Inr os, w2)))"

section \<open>Saving is atomic\<close>

definition state_file :: "config \<Rightarrow> string \<Rightarrow> path" where
  "state_file cfg jobID = (rooted (outputs cfg), comps (outputs cfg) @ [jobID, ''state.json''])"

definition temp_file :: "config \<Rightarrow> string \<Rightarrow> path" where
  "temp_file cfg jobID = (rooted (outputs cfg), comps (outputs cfg) @ [jobID, ''state.json.tmp''])"

definition job_dir :: "config \<Rightarrow> string \<Rightarrow> path" where
  "job_dir cfg jobID = (rooted (outputs cfg), comps (outputs cfg) @ [jobID])"

lemma plain_state_json [simp]: "plain ''state.json''" "plain ''state.json.tmp''"
  by (simp_all add: plain_def)

lemma join_with_snoc_append: "join_with sep (vs @ [w]) @ t = join_with sep (vs @ [w @ t])"
  by (induction sep vs rule: join_with.induct) simp_all

lemma render_snoc_append: "render r (vs @ [w]) @ t = render r (vs @ [w @ t])"
  by (simp add: render_def join_with_snoc_append)

lemma parse_state_path:
  assumes "outputs cfg \<noteq> []" "plain i"
  shows "parse_path (getStatePath cfg i) = state_file cfg i"
    and "parse_path (getStatePath cfg i @ ''.tmp'') = temp_file cfg i"
    and "parse_path (state_dir cfg i) = job_dir cfg i"
proof -
  let ?d = "outputs cfg"
  show "parse_path (getStatePath cfg i) = state_file cfg i"
    using parse_join_plain3 [OF assms plain_state_json(1)] by (simp add: getStatePath_def state_file_def)
  show "parse_path (state_dir cfg i) = job_dir cfg i"
    using parse_join_plain [OF assms] by (simp add: state_dir_def job_dir_def)
  have "getStatePath cfg i @ ''.tmp'' = render (rooted ?d) ((comps ?d @ [i]) @ [''state.json'' @ ''.tmp''])"
    using join_path_plain3 [OF assms plain_state_json(1)] render_snoc_append [of "rooted ?d" "comps ?d @ [i]" "''state.json''" "''.tmp''"]
    by (simp add: getStatePath_def)
  also have "\<dots> = join_path [?d, i, ''state.json.tmp'']"
    using join_path_plain3 [OF assms plain_state_json(2)] by simp
  finally show "parse_path (getStatePath cfg i @ ''.tmp'') = temp_file cfg i"
    using parse_join_plain3 [OF assms plain_state_json(2)] by (simp add: temp_file_def)
qed

definition file_content :: "(path, node) gomap \<Rightarrow> path \<Rightarrow> content option" where
  "file_content m p = (case lookup m p of Some (File c _) \<Rightarrow> Some c | _ \<Rightarrow> None)"

lemma file_content_put [simp]:
  "file_content (put p n m) q = (if q = p then (case n of File c _ \<Rightarrow> Some c | Dir _ \<Rightarrow> None) else file_content m q)"
  by (simp add: file_content_def split: node.splits)

lemma file_content_touch [simp]: "file_content (touch p t m) q = file_content m q"
  by (auto simp: file_content_def lookup_touch is_dir_at_def split: option.splits node.splits)

lemma file_content_del [simp]: "file_content (del p m) q = (if q = p then None else file_content m q)"
  by (simp add: file_content_def)

lemma file_content_mkdirs [simp]: "file_content (mkdirs r pre xs t m) q = file_content m q"
proof (induction r pre xs t m rule: mkdirs.induct)
  case (2 r pre x xs t m)
  have "lookup m (r, pre @ [x]) = None \<Longrightarrow> file_content m (r, pre @ [x]) = None" by (simp add: file_content_def)
  with 2 show ?case by (cases "lookup m (r, pre @ [x])") auto
qed simp

lemma file_content_time_now [simp]: "fs (snd (time_now w)) = fs w"
  by simp

lemma file_content_EnsureDir [simp]: "file_content (fs (snd (EnsureDir d w))) q = file_content (fs w) q"
  by (simp add: EnsureDir_def case_prod_beta os_mkdir_all_def Let_def split: io_outcome.split)

lemma file_content_write_other:
  "q \<noteq> parse_path p \<Longrightarrow> file_content (fs (snd (os_write_file p c w))) q = file_content (fs w) q"
  by (simp add: os_write_file_def Let_def split: io_outcome.split)

lemma file_content_write:
  "fst (os_write_file p c w) = Inr () \<Longrightarrow> file_content (fs (snd (os_write_file p c w))) (parse_path p) = Some c"
  by (auto simp: os_write_file_def Let_def split: io_outcome.splits if_splits)

lemma file_content_rename:
  assumes "fst (os_rename a b w) = Inr ()" "parse_path a \<noteq> parse_path b"
  shows "file_content (fs (snd (os_rename a b w))) q =
    (if q = parse_path b then file_content (fs w) (parse_path a)
     else if q = parse_path a then None else file_content (fs w) q)"
proof -
  have ok: "io w (tick w) = IO_ok"
    using assms(1) by (cases "io w (tick w)") (simp_all add: os_rename_def Let_def)
  then obtain c u where f: "lookup (fs w) (parse_path a) = Some (File c u)"
    using assms(1) by (auto simp: os_rename_def Let_def split: option.splits node.splits)
  with ok assms show ?thesis
    by (auto simp: os_rename_def Let_def split: if_splits) (simp add: file_content_def)
qed

lemma fs_rename_failed: "fst (os_rename a b w) = Inl e \<Longrightarrow> fs (snd (os_rename a b w)) = fs w"
  by (auto simp: os_rename_def Let_def split: io_outcome.splits option.splits node.splits if_splits)

lemma state_and_temp [simp]: "temp_file cfg i \<noteq> state_file cfg j" "state_file cfg j \<noteq> temp_file cfg i"
  by (simp_all add: state_file_def temp_file_def)

lemma state_file_inject [simp]: "state_file cfg i = state_file cfg j \<longleftrightarrow> i = j"
  by (simp add: state_file_def)

lemma SaveState_eq:
  assumes "w1 = snd (time_now w)" "w2 = snd (EnsureDir (state_dir cfg (js_job_id s)) w1)"
    "w3 = snd (os_write_file (getStatePath cfg (js_job_id s) @ ''.tmp'')
       (Doc (state_json (s\<lparr>js_updated_at := clock w (tick w)\<rparr>))) w2)"
    "w4 = snd (os_rename (getStatePath cfg (js_job_id s) @ ''.tmp'') (getStatePath cfg (js_job_id s)) w3)"
  shows "SaveState cfg s w =
     (case fst (EnsureDir (state_dir cfg (js_job_id s)) w1) of
        Inl e \<Rightarrow> ((Inl (wrap ''failed to create state directory'' e), s\<lparr>js_updated_at := clock w (tick w)\<rparr>), w2)
      | Inr _ \<Rightarrow>
          (case fst (os_write_file (getStatePath cfg (js_job_id s) @ ''.tmp'')
                  (Doc (state_json (s\<lparr>js_updated_at := clock w (tick w)\<rparr>))) w2) of
             Inl e \<Rightarrow> ((Inl (wrap ''failed to write temp state file'' e), s\<lparr>js_updated_at := clock w (tick w)\<rparr>), w3)
           | Inr _ \<Rightarrow>
               (case fst (os_rename (getStatePath cfg (js_job_id s) @ ''.tmp'') (getStatePath cfg (js_job_id s)) w3) of
                  Inl e \<Rightarrow> ((Inl (wrap ''failed to rename state file'' e), s\<lparr>js_updated_at := clock w (tick w)\<rparr>), w4)
                | Inr _ \<Rightarrow> ((Inr (), s\<lparr>js_updated_at := clock w (tick w)\<rparr>), w4))))"
  unfolding assms by (simp add: SaveState_def case_prod_beta Let_def time_now_def cong: sum.case_cong)

lemma SaveState_files:
  assumes "outputs cfg \<noteq> []" "plain (js_job_id s)" "SaveState cfg s w = ((r, s'), w')"
  shows "s' = s\<lparr>js_updated_at := clock w (tick w)\<rparr> \<and> os_frame w w'
    \<and> (\<forall>q. q \<noteq> temp_file cfg (js_job_id s) \<longrightarrow> file_content (fs w') q =
        (if is_ok r \<and> q = state_file cfg (js_job_id s) then Some (Doc (state_json s')) else file_content (fs w) q))"
proof -
  let ?i = "js_job_id s" and ?s = "s\<lparr>js_updated_at := clock w (tick w)\<rparr>"
  let ?tmp = "getStatePath cfg ?i @ ''.tmp''" and ?st = "getStatePath cfg ?i"
  note P = parse_state_path [OF assms(1,2)]
  define w1 where "w1 = snd (time_now w)"
  define w2 where "w2 = snd (EnsureDir (state_dir cfg ?i) w1)"
  define w3 where "w3 = snd (os_write_file ?tmp (Doc (state_json ?s)) w2)"
  define w4 where "w4 = snd (os_rename ?tmp ?st w3)"
  have f: "os_frame w w1" "os_frame w w2" "os_frame w w3" "os_frame w w4"
    unfolding w1_def w2_def w3_def w4_def
    by (meson os_frame_time_now os_frame_utils(2) os_frame_calls(4,5) os_frame_trans)+
  have c2: "file_content (fs w2) q = file_content (fs w) q" for q by (simp add: w2_def w1_def)
  have c3: "file_content (fs w3) q = file_content (fs w) q" if "q \<noteq> temp_file cfg ?i" for q
    using that P(2) by (simp add: w3_def file_content_write_other c2)
  note eq = SaveState_eq [OF w1_def w2_def w3_def w4_def]
  show ?thesis
  proof (cases "fst (EnsureDir (state_dir cfg ?i) w1)")
    case (Inl e)
    with eq assms(3) f c2 show ?thesis by auto
  next
    case d: (Inr u)
    show ?thesis
    proof (cases "fst (os_write_file ?tmp (Doc (state_json ?s)) w2)")
      case (Inl e)
      with eq d assms(3) f c3 show ?thesis by auto
    next
      case wr: (Inr v)
      have tmp: "file_content (fs w3) (temp_file cfg ?i) = Some (Doc (state_json ?s))"
        using wr P(2) file_content_write [of ?tmp "Doc (state_json ?s)" w2] by (simp add: w3_def)
      show ?thesis
      proof (cases "fst (os_rename ?tmp ?st w3)")
        case (Inl e)
        with fs_rename_failed have "fs w4 = fs w3" unfolding w4_def by blast
        with eq d wr Inl assms(3) f c3 show ?thesis by auto
      next
        case rn: (Inr x)
        have "file_content (fs w4) q = (if q = state_file cfg ?i then Some (Doc (state_json ?s)) else file_content (fs w) q)"
          if "q \<noteq> temp_file cfg ?i" for q
          using that rn P file_content_rename [of ?tmp ?st w3 q] tmp c3 by (simp add: w4_def)
        with eq d wr rn assms(3) f show ?thesis by auto
      qed
    qed
  qed
qed

section \<open>Properties\<close>

text \<open>C11. A save is atomic for any failures of the system: afterwards the state file holds the new
state if the call succeeded and exactly what it held before if it did not, even where a write
was torn; no other file but the temporary one is affected.\<close>

theorem save_state_atomic:
  assumes "outputs cfg \<noteq> []" "plain (js_job_id s)" "SaveState cfg s w = ((r, s'), w')"
  shows "file_content (fs w') (state_file cfg (js_job_id s)) =
      (if is_ok r then Some (Doc (state_json (s\<lparr>js_updated_at := clock w (tick w)\<rparr>)))
       else file_content (fs w) (state_file cfg (js_job_id s)))
    \<and> (\<forall>q. q \<noteq> temp_file cfg (js_job_id s) \<longrightarrow> q \<noteq> state_file cfg (js_job_id s)
           \<longrightarrow> file_content (fs w') q = file_content (fs w) q)"
  using SaveState_files [OF assms] by (metis state_and_temp(2))

section \<open>Saving and loading\<close>

text \<open>No file stands where a directory is needed, and no directory where a file is.\<close>

definition state_place_free :: "config \<Rightarrow> string \<Rightarrow> 'a os_scheme \<Rightarrow> bool" where
  "state_place_free cfg i w \<longleftrightarrow>
     list_all (\<lambda>ws. \<not> is_file_at (fs w) (rooted (outputs cfg), ws)) (prefixes (comps (outputs cfg) @ [i]))
     \<and> \<not> is_dir_at (fs w) (state_file cfg i) \<and> \<not> is_dir_at (fs w) (temp_file cfg i)"

lemma is_dir_at_mkdirs: "is_dir_at m q \<Longrightarrow> is_dir_at (mkdirs r pre xs t m) q"
  by (induction r pre xs t m rule: mkdirs.induct) (auto simp: is_dir_at_def lookup_touch)

lemma is_file_at_content: "is_file_at m q \<longleftrightarrow> file_content m q \<noteq> None"
  by (auto simp: is_file_at_def file_content_def split: option.splits node.splits)

lemma lookup_not_file: "lookup m q \<noteq> None \<Longrightarrow> \<not> is_file_at m q \<Longrightarrow> is_dir_at m q"
  by (auto simp: is_file_at_def is_dir_at_def split: option.splits node.splits)

lemma mkdirs_creates:
  assumes "\<And>ws. prefix ws xs \<Longrightarrow> \<not> is_file_at m (r, pre @ ws)" "is_dir_at m (r, pre) \<or> xs \<noteq> []"
  shows "is_dir_at (mkdirs r pre xs t m) (r, pre @ xs)"
  using assms
proof (induction r pre xs t m rule: mkdirs.induct)
  case (2 r pre x xs t m)
  let ?m = "if lookup m (r, pre @ [x]) = None then put (r, pre @ [x]) (Dir t) (touch (r, pre) t m) else m"
  have nf: "\<not> is_file_at m (r, pre @ [x])" using "2.prems"(1) [of "[x]"] by simp
  have d: "is_dir_at ?m (r, pre @ [x])" using nf lookup_not_file [of m "(r, pre @ [x])"] by simp
  have "\<not> is_file_at ?m (r, (pre @ [x]) @ ws)" if p: "prefix ws xs" for ws
  proof (cases "ws = []")
    case True
    with d not_file_and_dir [of ?m "(r, pre @ [x])"] show ?thesis by auto
  next
    case False
    have "\<not> is_file_at m (r, pre @ x # ws)" using "2.prems"(1) [of "x # ws"] p by simp
    with False show ?thesis by (simp add: is_file_at_content)
  qed
  moreover have "is_dir_at ?m (r, pre @ [x]) \<or> xs \<noteq> []" using d by blast
  ultimately have "is_dir_at (mkdirs r (pre @ [x]) xs t ?m) (r, (pre @ [x]) @ xs)" by (rule "2.IH")
  then show ?case by simp
qed simp

lemma mkdirs_keeps_none:
  "lookup m q = None \<Longrightarrow> q \<notin> (\<lambda>ws. (r, pre @ ws)) ` set (prefixes xs) \<Longrightarrow> lookup (mkdirs r pre xs t m) q = None"
proof (induction r pre xs t m rule: mkdirs.induct)
  case (2 r pre x xs t m)
  have "q \<noteq> (r, pre @ [x])" using "2.prems"(2) by (auto simp: image_iff)
  moreover have "q \<notin> (\<lambda>ws. (r, (pre @ [x]) @ ws)) ` set (prefixes xs)" using "2.prems"(2) by (auto simp: image_iff)
  moreover have "lookup (touch (r, pre) t m) q = None" using "2.prems"(1) by (simp add: lookup_touch is_dir_at_def split: option.splits) auto
  ultimately show ?case using "2.IH" "2.prems"(1) by simp
qed simp

lemma EnsureDir_good:
  assumes "io_good w" "list_all (\<lambda>ws. \<not> is_file_at (fs w) (r, ws)) (prefixes ws)" "parse_path d = (r, ws)" "ws \<noteq> []"
  shows "fst (EnsureDir d w) = Inr ()" "is_dir_at (fs (snd (EnsureDir d w))) (r, ws)"
proof -
  have ok: "\<not> list_ex (\<lambda>vs. is_file_at (fs w) (r, vs)) (prefixes ws)"
    using assms(2) by (auto simp: list_all_iff list_ex_iff)
  then show "fst (EnsureDir d w) = Inr ()"
    using assms(1,3) by (simp add: EnsureDir_def os_mkdir_all_def Let_def)
  have "is_dir_at (mkdirs r [] ws (clock w (tick w)) (fs w)) (r, [] @ ws)"
    using assms(2,4) by (intro mkdirs_creates) (auto simp: list_all_iff)
  with ok show "is_dir_at (fs (snd (EnsureDir d w))) (r, ws)"
    using assms(1,3) by (simp add: EnsureDir_def os_mkdir_all_def Let_def)
qed

lemma EnsureDir_not_dir:
  assumes "io_good w" "parse_path d = (r, ws)" "q \<notin> (\<lambda>vs. (r, vs)) ` set (prefixes ws)" "\<not> is_dir_at (fs w) q"
  shows "\<not> is_dir_at (fs (snd (EnsureDir d w))) q"
proof (cases "lookup (fs w) q")
  case None
  with assms mkdirs_keeps_none [of "fs w" q r "[]" ws "clock w (tick w)"] show ?thesis
    by (simp add: EnsureDir_def os_mkdir_all_def Let_def is_dir_at_def)
next
  case (Some n)
  with assms(4) have "is_file_at (fs w) q" using lookup_not_file by blast
  then have "is_file_at (fs (snd (EnsureDir d w))) q" by (simp add: is_file_at_content)
  then show ?thesis by (rule not_file_and_dir)
qed

lemma write_good:
  assumes "io_good w" "is_dir_at (fs w) (parent (parse_path p))" "\<not> is_dir_at (fs w) (parse_path p)"
  shows "fst (os_write_file p c w) = Inr ()"
    and "is_dir_at (fs (snd (os_write_file p c w))) q \<longleftrightarrow> is_dir_at (fs w) q"
proof -
  have "is_file_at (fs w) (parse_path p) \<or> lookup (fs w) (parse_path p) = None"
    using assms(3) lookup_not_file by blast
  with assms show "fst (os_write_file p c w) = Inr ()"
    "is_dir_at (fs (snd (os_write_file p c w))) q \<longleftrightarrow> is_dir_at (fs w) q"
    by (auto simp: os_write_file_def Let_def)
qed

lemma file_content_lookup: "file_content m p = Some c \<longleftrightarrow> (\<exists>t. lookup m p = Some (File c t))"
  by (auto simp: file_content_def split: option.splits node.splits)

lemma rename_good:
  assumes "io_good w" "file_content (fs w) (parse_path a) = Some c"
    "is_dir_at (fs w) (parent (parse_path b))" "\<not> is_dir_at (fs w) (parse_path b)"
  shows "fst (os_rename a b w) = Inr ()"
  using assms by (auto simp: file_content_lookup os_rename_def Let_def)

lemma parent_job_files [simp]:
  "parent (state_file cfg i) = job_dir cfg i" "parent (temp_file cfg i) = job_dir cfg i"
  by (simp_all add: parent_def state_file_def temp_file_def job_dir_def butlast_append)

lemma job_files_not_prefix:
  "state_file cfg i \<notin> (\<lambda>vs. (rooted (outputs cfg), vs)) ` set (prefixes (comps (outputs cfg) @ [i]))"
  "temp_file cfg i \<notin> (\<lambda>vs. (rooted (outputs cfg), vs)) ` set (prefixes (comps (outputs cfg) @ [i]))"
  by (auto simp: state_file_def temp_file_def dest: prefix_length_le)

lemma SaveState_good:
  assumes "io_good w" "outputs cfg \<noteq> []" "plain (js_job_id s)" "state_place_free cfg (js_job_id s) w"
  shows "fst (fst (SaveState cfg s w)) = Inr ()"
proof -
  let ?i = "js_job_id s" and ?s = "s\<lparr>js_updated_at := clock w (tick w)\<rparr>"
  let ?tmp = "getStatePath cfg ?i @ ''.tmp''" and ?st = "getStatePath cfg ?i"
  note P = parse_state_path [OF assms(2,3)]
  define w1 where "w1 = snd (time_now w)"
  define w2 where "w2 = snd (EnsureDir (state_dir cfg ?i) w1)"
  define w3 where "w3 = snd (os_write_file ?tmp (Doc (state_json ?s)) w2)"
  have "os_frame w w1" "os_frame w w2" "os_frame w w3" unfolding w1_def w2_def w3_def
    by (meson os_frame_time_now os_frame_utils(2) os_frame_calls(4) os_frame_trans)+
  then have g: "io_good w1" "io_good w2" "io_good w3" using assms(1) os_frame_io_good by blast+
  have fs1: "fs w1 = fs w" by (simp add: w1_def)
  have pf: "list_all (\<lambda>ws. \<not> is_file_at (fs w1) (rooted (outputs cfg), ws)) (prefixes (comps (outputs cfg) @ [?i]))"
    using assms(4) fs1 by (simp add: state_place_free_def)
  have e: "fst (EnsureDir (state_dir cfg ?i) w1) = Inr ()" "is_dir_at (fs w2) (job_dir cfg ?i)"
    using EnsureDir_good [OF g(1) pf, of "state_dir cfg ?i"] P(3) by (simp_all add: w2_def job_dir_def)
  have nd: "\<not> is_dir_at (fs w2) (state_file cfg ?i)" "\<not> is_dir_at (fs w2) (temp_file cfg ?i)"
    using EnsureDir_not_dir [OF g(1), of "state_dir cfg ?i" "rooted (outputs cfg)" "comps (outputs cfg) @ [?i]"]
      job_files_not_prefix assms(4) P(3) fs1 by (simp_all add: w2_def job_dir_def state_place_free_def)
  have wr: "fst (os_write_file ?tmp (Doc (state_json ?s)) w2) = Inr ()"
    "is_dir_at (fs w3) (job_dir cfg ?i)" "\<not> is_dir_at (fs w3) (state_file cfg ?i)"
    using write_good [OF g(2), of ?tmp] P(2) e(2) nd by (simp_all add: w3_def)
  have "file_content (fs w3) (temp_file cfg ?i) = Some (Doc (state_json ?s))"
    using file_content_write [OF wr(1)] P(2) by (simp add: w3_def)
  then have rn: "fst (os_rename ?tmp ?st w3) = Inr ()"
    using rename_good [OF g(3), of ?tmp _ ?st] P wr(2,3) by simp
  show ?thesis using SaveState_eq [OF w1_def w2_def w3_def refl] e(1) wr(1) rn by simp
qed

lemma LoadState_good:
  assumes "io_good w" "outputs cfg \<noteq> []" "plain i" "file_content (fs w) (state_file cfg i) = Some (Doc (state_json s))"
    "state_ints_fit s"
  shows "fst (LoadState cfg i w) = Inr s"
proof -
  obtain t where "lookup (fs w) (state_file cfg i) = Some (File (Doc (state_json s)) t)"
    using assms(4) by (auto simp: file_content_lookup)
  then show ?thesis
    using assms(1,5) parse_state_path(1) [OF assms(2,3)]
    by (simp add: LoadState_def FileExists_def os_stat_def os_read_file_def advance_def unmarshal_state_def
        dec_state_json Let_def case_prod_beta)
qed

text \<open>C34. What is saved is what is loaded: without failures of the system a save succeeds, and a
later load returns the saved state with all its fields, the time of the change set.\<close>

theorem save_then_load:
  assumes "io_good w" "outputs cfg \<noteq> []" "plain (js_job_id s)" "state_place_free cfg (js_job_id s) w"
    "state_ints_fit s"
  shows "fst (fst (SaveState cfg s w)) = Inr ()
    \<and> fst (LoadState cfg (js_job_id s) (snd (SaveState cfg s w))) = Inr (s\<lparr>js_updated_at := clock w (tick w)\<rparr>)"
proof -
  let ?w = "snd (SaveState cfg s w)"
  have ok: "fst (fst (SaveState cfg s w)) = Inr ()" using assms(1-4) by (rule SaveState_good)
  have "SaveState cfg s w = ((fst (fst (SaveState cfg s w)), snd (fst (SaveState cfg s w))), ?w)" by simp
  from SaveState_files [OF assms(2,3) this] ok have
    "os_frame w ?w" "file_content (fs ?w) (state_file cfg (js_job_id s))
       = Some (Doc (state_json (s\<lparr>js_updated_at := clock w (tick w)\<rparr>)))"
    by (simp_all del: split_paired_All)
  then show ?thesis
    using ok assms LoadState_good [of ?w cfg "js_job_id s" "s\<lparr>js_updated_at := clock w (tick w)\<rparr>"]
    by (simp add: os_frame_io_good state_ints_fit_def)
qed

text \<open>A directory with nothing in it, and one in which the job's first write is torn.\<close>

definition plain_world :: os where
  "plain_world = \<lparr>fs = [((False, []), Dir 0)], clock = (\<lambda>n. 1000 + int n), io = (\<lambda>_. IO_ok),
     statfs = (\<lambda>_. Inl ''''), doclen = (\<lambda>_. 0), tick = 0\<rparr>"

definition sample_state :: job_state where
  "sample_state = initial_state ''job_1'' ''/in.mp4'' 4 7"

lemma sample_state_simps [simp]:
  "js_job_id sample_state = ''job_1''" "state_ints_fit sample_state" "plain ''job_1''"
  by (simp_all add: sample_state_def initial_state_def state_ints_fit_def fits64_def plain_def)

lemma Load_default: "outputs (Load (\<lambda>_. [])) = ''outputs''"
  by (simp add: Load_def getEnv_def OutputsDir_default_def)

lemma comps_outputs: "comps ''outputs'' = [''outputs'']" "rooted ''outputs'' = False"
  by code_simp+

lemma plain_world_free: "state_place_free (Load (\<lambda>_. [])) ''job_1'' plain_world"
  by (simp add: state_place_free_def Load_default comps_outputs plain_world_def is_file_at_def is_dir_at_def
      state_file_def temp_file_def)

theorem save_then_load_witness:
  "fst (LoadState (Load (\<lambda>_. [])) ''job_1'' (snd (SaveState (Load (\<lambda>_. [])) sample_state plain_world)))
     = Inr (sample_state\<lparr>js_updated_at := 1000\<rparr>)"
  using save_then_load [of plain_world "Load (\<lambda>_. [])" sample_state] plain_world_free outputs_Load(1)
  by (simp add: io_good_def plain_world_def)

definition torn_world :: os where
  "torn_world = plain_world\<lparr>fs := [((False, []), Dir 0), ((False, [''outputs'']), Dir 0),
     ((False, [''outputs'', ''job_1'']), Dir 0),
     ((False, [''outputs'', ''job_1'', ''state.json'']), File (Doc (state_json sample_state)) 3)],
     io := (\<lambda>n. if n = 2 then IO_torn ''no space left on device'' else IO_ok)\<rparr>"

lemma torn_world_fails: "\<not> is_ok (fst (fst (SaveState (Load (\<lambda>_. [])) sample_state torn_world)))"
  by code_simp

theorem save_state_atomic_witness:
  "file_content (fs (snd (SaveState (Load (\<lambda>_. [])) sample_state torn_world))) (state_file (Load (\<lambda>_. [])) ''job_1'')
     = Some (Doc (state_json sample_state))"
proof -
  let ?c = "Load (\<lambda>_. [])"
  have "SaveState ?c sample_state torn_world
      = ((fst (fst (SaveState ?c sample_state torn_world)), snd (fst (SaveState ?c sample_state torn_world))),
         snd (SaveState ?c sample_state torn_world))" by simp
  from save_state_atomic [OF outputs_Load(1) _ this] torn_world_fails show ?thesis
    by (simp add: torn_world_def file_content_def state_file_def Load_default comps_outputs)
qed

text \<open>A heartbeat replaces the time of the heartbeat and of the change in the stored state and
nothing else, so for the next minute the job does not count as orphaned.\<close>

theorem heartbeat_stored:
  assumes "outputs cfg \<noteq> []" "plain (js_job_id s)" "state_ints_fit s"
    and "file_content (fs w) (state_file cfg (js_job_id s)) = Some (Doc (state_json s))"
    and "UpdateHeartbeat cfg (js_job_id s) w = (Inr (), w')"
  shows "\<exists>s'. file_content (fs w') (state_file cfg (js_job_id s)) = Some (Doc (state_json s'))
    \<and> s' = s\<lparr>js_last_heartbeat := clock w (tick w + 2), js_updated_at := clock w (tick w + 4)\<rparr>
    \<and> (\<forall>now. now \<le> clock w (tick w + 2) + minute \<longrightarrow> \<not> IsOrphaned now s')"
proof -
  let ?i = "js_job_id s"
  have ok: "fst (LoadState cfg ?i w) \<noteq> Inl e" for e
    using assms(5) by (auto simp: UpdateHeartbeat_def UpdateState_def case_prod_beta Let_def)
  obtain t where f: "lookup (fs w) (state_file cfg ?i) = Some (File (Doc (state_json s)) t)"
    using assms(4) by (auto simp: file_content_lookup)
  have ex: "fst (FileExists (getStatePath cfg ?i) w)"
  proof (rule ccontr)
    assume "\<not> fst (FileExists (getStatePath cfg ?i) w)"
    then have "fst (LoadState cfg ?i w) = Inl (Err (''state file not found for job '' @ ?i))"
      by (simp add: LoadState_def case_prod_beta Let_def)
    with ok show False by blast
  qed
  obtain l where l: "fst (LoadState cfg ?i w) = Inr l" using ok by (cases "fst (LoadState cfg ?i w)") auto
  have "l = s"
    using l ex f assms(3) parse_state_path(1) [OF assms(1,2)]
    by (auto simp: LoadState_def case_prod_beta Let_def os_read_file_def unmarshal_state_def dec_state_json
      split: io_outcome.splits)
  have w1: "snd (LoadState cfg ?i w) = w\<lparr>tick := tick w + 2\<rparr>"
    using ex by (simp add: LoadState_def case_prod_beta Let_def os_read_file_def FileExists_def os_stat_def advance_def)
  let ?h = "s\<lparr>js_last_heartbeat := clock w (tick w + 2), js_updated_at := clock w (tick w + 3)\<rparr>"
  let ?w2 = "w\<lparr>tick := tick w + 4\<rparr>"
  have sv: "UpdateHeartbeat cfg ?i w = (fst (fst (SaveState cfg ?h ?w2)), snd (SaveState cfg ?h ?w2))"
    using l \<open>l = s\<close> w1
    by (simp add: UpdateHeartbeat_def UpdateState_def case_prod_beta Let_def time_now_def UpdateHeartbeat_state_def
      numeral_eq_Suc)
  have "SaveState cfg ?h ?w2 = ((fst (fst (SaveState cfg ?h ?w2)), snd (fst (SaveState cfg ?h ?w2))), snd (SaveState cfg ?h ?w2))"
    by simp
  from SaveState_files [OF assms(1) _ this] assms(2,5) sv have
    "file_content (fs w') (state_file cfg ?i) = Some (Doc (state_json (?h\<lparr>js_updated_at := clock w (tick w + 4)\<rparr>)))"
    by (simp del: split_paired_All)
  then show ?thesis by (intro exI [where x = "?h\<lparr>js_updated_at := clock w (tick w + 4)\<rparr>"]) (simp add: IsOrphaned_def)
qed

definition saved_world :: os where
  "saved_world = torn_world\<lparr>io := (\<lambda>_. IO_ok)\<rparr>"

lemma saved_world_file:
  "file_content (fs saved_world) (state_file (Load (\<lambda>_. [])) ''job_1'') = Some (Doc (state_json sample_state))"
  by (simp add: saved_world_def torn_world_def file_content_def state_file_def Load_default comps_outputs)

theorem heartbeat_stored_witness:
  "\<exists>s'. file_content (fs (snd (UpdateHeartbeat (Load (\<lambda>_. [])) ''job_1'' saved_world)))
      (state_file (Load (\<lambda>_. [])) ''job_1'') = Some (Doc (state_json s')) \<and> js_last_heartbeat s' = 1002"
proof -
  have "fst (UpdateHeartbeat (Load (\<lambda>_. [])) ''job_1'' saved_world) = Inr ()" by code_simp
  then have "UpdateHeartbeat (Load (\<lambda>_. [])) ''job_1'' saved_world
      = (Inr (), snd (UpdateHeartbeat (Load (\<lambda>_. [])) ''job_1'' saved_world))" by (metis prod.collapse)
  from heartbeat_stored [OF outputs_Load(1), of sample_state saved_world, simplified, OF saved_world_file this]
  show ?thesis by (auto simp: saved_world_def torn_world_def plain_world_def)
qed

section \<open>Orphans\<close>

text \<open>The state in the state file of a job directory, if there is one that can be read.\<close>

definition stored_state :: "config \<Rightarrow> 'a os_scheme \<Rightarrow> string \<Rightarrow> job_state option" where
  "stored_state cfg w i = (case file_content (fs w) (parse_path (getStatePath cfg i)) of
     None \<Rightarrow> None | Some c \<Rightarrow> unmarshal_state c)"

lemma stored_state_frame: "fs w' = fs w \<Longrightarrow> stored_state cfg w' i = stored_state cfg w i"
  by (simp add: stored_state_def)

lemma reads_fs [simp]: "fs (snd (FileExists p w)) = fs w" "fs (snd (os_read_file p w)) = fs w" "fs (snd (time_now w)) = fs w"
  by simp_all

lemma reads_clock [simp]: "clock (snd (FileExists p w)) = clock w" "clock (snd (os_read_file p w)) = clock w"
    "clock (snd (time_now w)) = clock w"
  using os_frame_env [OF os_frame_utils(1)] os_frame_env [OF os_frame_calls(2)]
    os_frame_env [OF os_frame_time_now] by blast+

lemma reads_io [simp]: "io (snd (FileExists p w)) = io w" "io (snd (os_read_file p w)) = io w"
    "io (snd (time_now w)) = io w"
  using os_frame_env [OF os_frame_utils(1)] os_frame_env [OF os_frame_calls(2)]
    os_frame_env [OF os_frame_time_now] by blast+

lemma read_file_content: "fst (os_read_file p w) = Inr c \<Longrightarrow> file_content (fs w) (parse_path p) = Some c"
  by (auto simp: os_read_file_def file_content_def split: io_outcome.splits option.splits node.splits)

lemma orphans_among_frame: "fs (snd (orphans_among cfg es w)) = fs w"
proof (induction es arbitrary: w)
  case (Cons e es)
  then show ?case by (cases e) (simp add: Let_def case_prod_beta reads_fs split: sum.split option.split)
qed simp

lemma orphans_sound:
  fixes w :: "'a os_scheme"
  shows "s \<in> set (fst (orphans_among cfg es w)) \<Longrightarrow>
     \<exists>i. (i, True) \<in> set es \<and> stored_state cfg w i = Some s \<and> js_status s = ''processing''
       \<and> (\<exists>n. IsOrphaned (clock w n) s)"
proof (induction es arbitrary: w)
  case (Cons e es)
  obtain i d where e: "e = (i, d)" by (cases e)
  let ?p = "getStatePath cfg i"
  let ?w1 = "snd (FileExists ?p w)"
  let ?w2 = "snd (os_read_file ?p ?w1)"
  have IH: "s \<in> set (fst (orphans_among cfg es v)) \<Longrightarrow> fs v = fs w \<Longrightarrow> clock v = clock w \<Longrightarrow> ?case" for v :: "'a os_scheme"
    using Cons.IH [of v] e by (auto simp: stored_state_frame [of v w])
  show ?case
  proof (cases "d \<and> fst (FileExists ?p w)")
    case False
    with Cons.prems e IH [of w] IH [of ?w1] show ?thesis
      by (auto simp: Let_def case_prod_beta split: if_splits)
  next
    case True
    show ?thesis
    proof (cases "fst (os_read_file ?p ?w1)")
      case (Inl x)
      with True Cons.prems e IH [of ?w2] show ?thesis by (simp add: Let_def case_prod_beta)
    next
      case (Inr c)
      have fc: "file_content (fs w) (parse_path ?p) = Some c"
        using read_file_content [OF Inr] by simp
      show ?thesis
      proof (cases "unmarshal_state c")
        case None
        with Inr True Cons.prems e IH [of ?w2] show ?thesis by (simp add: Let_def case_prod_beta)
      next
        case (Some t)
        let ?w3 = "snd (time_now ?w2)"
        have st: "stored_state cfg w i = Some t" using fc Some by (simp add: stored_state_def)
        consider "s \<in> set (fst (orphans_among cfg es ?w2))" | "s \<in> set (fst (orphans_among cfg es ?w3))"
          | "s = t" "js_status t = ''processing''" "IsOrphaned (fst (time_now ?w2)) t"
          using Cons.prems e True Inr Some by (auto simp: Let_def case_prod_beta split: if_splits)
        then show ?thesis
        proof cases
          case 3
          moreover have "fst (time_now ?w2) = clock w (tick ?w2)" by (simp add: time_now_def)
          ultimately show ?thesis using st e True by auto
        qed (use IH [of ?w2] IH [of ?w3] in simp_all)
      qed
    qed
  qed
qed simp

lemma orphans_complete:
  fixes w :: "'a os_scheme"
  shows "io_good w \<Longrightarrow> (i, True) \<in> set es \<Longrightarrow> stored_state cfg w i = Some s \<Longrightarrow> js_status s = ''processing'' \<Longrightarrow>
     \<forall>n. IsOrphaned (clock w n) s \<Longrightarrow> s \<in> set (fst (orphans_among cfg es w))"
proof (induction es arbitrary: w)
  case (Cons e es)
  obtain k d where e: "e = (k, d)" by (cases e)
  let ?p = "getStatePath cfg k"
  let ?w1 = "snd (FileExists ?p w)"
  let ?w2 = "snd (os_read_file ?p ?w1)"
  let ?w3 = "snd (time_now ?w2)"
  have good: "io_good ?w1" "io_good ?w2" "io_good ?w3" using Cons.prems(1) by (simp_all add: io_good_def)
  have IH: "s \<in> set (fst (orphans_among cfg es v))" if "(i, True) \<in> set es" "v \<in> {w, ?w1, ?w2, ?w3}" for v
    using Cons.IH [of v] that Cons.prems(1,3-5) good stored_state_frame [of v w cfg i] by auto
  show ?case
  proof (cases "(i, True) = e")
    case False
    then have "(i, True) \<in> set es" using Cons.prems(2) by auto
    with IH e show ?thesis by (auto simp: Let_def case_prod_beta split: sum.split option.split)
  next
    case True
    then have k: "k = i" "d" using e by auto
    obtain c where c: "file_content (fs w) (parse_path ?p) = Some c" "unmarshal_state c = Some s"
      using Cons.prems(3) k by (auto simp: stored_state_def split: option.splits)
    then obtain t where f: "lookup (fs w) (parse_path ?p) = Some (File c t)" by (auto simp: file_content_lookup)
    have ex: "fst (FileExists ?p w)"
      using f Cons.prems(1) by (simp add: FileExists_def os_stat_def case_prod_beta)
    have rf: "fst (os_read_file ?p ?w1) = Inr c"
      using f Cons.prems(1) by (simp add: os_read_file_def)
    have "IsOrphaned (fst (time_now ?w2)) s" using Cons.prems(5) by (simp add: time_now_def)
    with k e ex rf c(2) Cons.prems(4) show ?thesis by (simp add: Let_def case_prod_beta)
  qed
qed simp

text \<open>C35. The search for orphans reports only jobs whose stored state is being processed and has
had no heartbeat for more than a minute; without failures it reports every such job.\<close>

theorem find_orphans_spec:
  assumes "FindOrphanedJobs cfg w = (Inr found, w')"
  shows "(\<forall>s \<in> set found. \<exists>i. stored_state cfg w i = Some s \<and> js_status s = ''processing'' \<and> (\<exists>n. IsOrphaned (clock w n) s))
    \<and> (\<forall>i s. io_good w \<and> i \<in> set (children (fs w) (parse_path (outputs cfg)))
          \<and> is_dir_at (fs w) (fst (parse_path (outputs cfg)), snd (parse_path (outputs cfg)) @ [i])
          \<and> stored_state cfg w i = Some s \<and> js_status s = ''processing'' \<and> (\<forall>n. IsOrphaned (clock w n) s)
          \<longrightarrow> s \<in> set found)"
proof -
  let ?w1 = "snd (os_read_dir (outputs cfg) w)"
  obtain names where n: "fst (os_read_dir (outputs cfg) w) = Inr names"
    using assms by (cases "fst (os_read_dir (outputs cfg) w)") (simp_all add: FindOrphanedJobs_def case_prod_beta)
  let ?es = "dir_entries w (outputs cfg) names"
  have found: "found = fst (orphans_among cfg ?es ?w1)"
    using assms n by (simp add: FindOrphanedJobs_def case_prod_beta)
  have names: "names = children (fs w) (parse_path (outputs cfg))"
    using n by (auto simp: os_read_dir_def split: io_outcome.splits if_splits)
  have env: "fs ?w1 = fs w" "clock ?w1 = clock w" "io_good w \<Longrightarrow> io_good ?w1"
    using os_frame_env [OF os_frame_calls(3) [of w "outputs cfg"]] os_frame_io_good [OF os_frame_calls(3) [of w "outputs cfg"]]
    by simp_all
  show ?thesis
  proof (intro conjI ballI allI impI)
    fix s assume "s \<in> set found"
    then show "\<exists>i. stored_state cfg w i = Some s \<and> js_status s = ''processing'' \<and> (\<exists>n. IsOrphaned (clock w n) s)"
      using orphans_sound [of s cfg ?es ?w1] env(1,2) stored_state_frame [of ?w1 w cfg] found by auto
  next
    fix i s
    assume *: "io_good w \<and> i \<in> set (children (fs w) (parse_path (outputs cfg)))
          \<and> is_dir_at (fs w) (fst (parse_path (outputs cfg)), snd (parse_path (outputs cfg)) @ [i])
          \<and> stored_state cfg w i = Some s \<and> js_status s = ''processing'' \<and> (\<forall>n. IsOrphaned (clock w n) s)"
    have "(i, True) \<in> set ?es" using * names by (auto simp: dir_entries_def)
    moreover have "stored_state cfg ?w1 i = Some s" using * stored_state_frame [of ?w1 w cfg i] env(1) by simp
    ultimately show "s \<in> set found" unfolding found using * env by (intro orphans_complete) auto
  qed
qed

definition late_world :: os where
  "late_world = saved_world\<lparr>clock := (\<lambda>_. 2 * minute)\<rparr>"

theorem find_orphans_spec_witness:
  "\<exists>i. stored_state (Load (\<lambda>_. [])) late_world i = Some sample_state"
proof -
  let ?r = "FindOrphanedJobs (Load (\<lambda>_. [])) late_world"
  have "fst ?r = Inr [sample_state]" by code_simp
  then have "?r = (Inr [sample_state], snd ?r)" by (metis prod.collapse)
  from find_orphans_spec [OF this] show ?thesis by auto
qed

end
