(* ===== verification/Json_Codec.thy ===== *)
theory Json_Codec
  imports State_Service
begin

text \<open>
  The interface between the services that keep records in files and the JSON form of a record:
  what is encoded and decoded again is the same record. The states, the metrics, the jobs and the
  entries of the dead letter queue each interpret it; a service that wrote such a document
  and reads it again has its record back.
\<close>

locale json_codec =
  fixes enc :: "'a \<Rightarrow> json option"
    and dec :: "json \<Rightarrow> 'a option"
    and wf :: "'a \<Rightarrow> bool"
  assumes enc_dec: "wf x \<Longrightarrow> enc x = Some j \<Longrightarrow> dec j = Some x"
begin

definition unmarshal :: "content \<Rightarrow> 'a option" where
  "unmarshal c = (case c of Doc j \<Rightarrow> dec j | Opaque _ _ \<Rightarrow> None)"

lemma enc_inject: "wf x \<Longrightarrow> wf y \<Longrightarrow> enc x = Some j \<Longrightarrow> enc y = Some j \<Longrightarrow> x = y"
  by (metis enc_dec option.inject)

lemma written_back:
  assumes "fst (os_write_file p (Doc j) w) = Inr ()" "enc x = Some j" "wf x"
  shows "\<exists>c. file_content (fs (snd (os_write_file p (Doc j) w))) (parse_path p) = Some c \<and> unmarshal c = Some x"
  using file_content_write [OF assms(1)] enc_dec [OF assms(3,2)] by (simp add: unmarshal_def)

end

text \<open>The pattern of all loaders: look for the file, then read it.\<close>

lemma exists_then_read:
  assumes "io_good w" "file_content (fs w) (parse_path p) = Some c"
  shows "fst (FileExists p w)" "fst (os_read_file p (snd (FileExists p w))) = Inr c"
proof -
  obtain t where "lookup (fs w) (parse_path p) = Some (File c t)"
    using assms(2) by (auto simp: file_content_def split: option.splits node.splits)
  with assms(1) show "fst (FileExists p w)" "fst (os_read_file p (snd (FileExists p w))) = Inr c"
    by (simp_all add: FileExists_def os_stat_def os_read_file_def case_prod_beta advance_def)
qed

lemma io_good_reset [simp]: "io_good (w\<lparr>io := \<lambda>_. IO_ok\<rparr>)"
  by (simp add: io_good_def)

interpretation state_doc: json_codec "\<lambda>s. Some (state_json s)" dec_state state_ints_fit
  by unfold_locales (auto simp: dec_state_json)

end
