(* ===== verification/Metrics_Service.thy ===== *)
theory Metrics_Service
  imports Json_Codec Media
begin

text \<open>
  \<open>internal/application/services/metrics_service.go\<close>: what a job used, in memory while it runs and in
  a file of the logs directory when it has ended. Each method is one step, as its lock makes
  it. The readings of the Go runtime (bytes allocated, goroutines, processors) are arguments;
  the ticker of \<open>StartMetricsMonitoring\<close> is a sequence of calls of \<open>UpdateJobMetrics\<close>.
\<close>

record job_metrics =
  jm_job_id :: string
  jm_start :: go_time
  jm_end :: "go_time option"
  jm_duration :: duration
  jm_cpu :: float64
  jm_memory :: float64
  jm_peak :: float64
  jm_disk :: float64
  jm_input :: float64
  jm_output :: float64
  jm_qualities :: int
  jm_chunks :: int
  jm_status :: string

record worker_metrics =
  wm_id :: string
  wm_updated :: go_time
  wm_processed :: int
  wm_succeeded :: int
  wm_failed :: int
  wm_cpu :: float64
  wm_memory :: float64
  wm_uptime :: string

type_synonym metrics_map = "(string, job_metrics) gomap"

definition zero_metrics :: job_metrics where
  "zero_metrics = \<lparr>jm_job_id = [], jm_start = 0, jm_end = None, jm_duration = 0, jm_cpu = Fin 0, jm_memory = Fin 0,
     jm_peak = Fin 0, jm_disk = Fin 0, jm_input = Fin 0, jm_output = Fin 0, jm_qualities = 0, jm_chunks = 0,
     jm_status = []\<rparr>"

section \<open>The JSON form\<close>

text \<open>Infinities and NaN have no JSON form: \<open>json.Marshal\<close> fails.\<close>

fun f_json :: "float64 \<Rightarrow> json option" where
  "f_json (Fin q) = Some (JNum q)"
| "f_json _ = None"

fun dec_float :: "json \<Rightarrow> float64 \<Rightarrow> float64 option" where
  "dec_float JNull old = Some old"
| "dec_float (JNum q) old = (let v = round64 q in if v = PInf \<or> v = NInf then None else Some v)"
| "dec_float _ old = None"

text \<open>The members of an object; the first that has no JSON form makes the call fail.\<close>

fun members :: "(string \<times> json option) list \<Rightarrow> (string \<times> json) list option" where
  "members [] = Some []"
| "members ((k, None) # ms) = None"
| "members ((k, Some j) # ms) = map_option (Cons (k, j)) (members ms)"

definition metrics_json :: "job_metrics \<Rightarrow> json option" where
  "metrics_json m = map_option JObj (members
     ([(''jobId'', Some (JStr (jm_job_id m))), (''startTime'', Some (JTime (jm_start m)))]
      @ (case jm_end m of None \<Rightarrow> [] | Some t \<Rightarrow> [(''endTime'', Some (JTime t))])
      @ [(''duration'', Some (JInt (jm_duration m))),
         (''cpuUsagePercent'', f_json (jm_cpu m)), (''memoryUsageMB'', f_json (jm_memory m)),
         (''peakMemoryMB'', f_json (jm_peak m)), (''diskUsedMB'', f_json (jm_disk m)),
         (''inputSizeMB'', f_json (jm_input m)), (''outputSizeMB'', f_json (jm_output m)),
         (''qualitiesGenerated'', Some (JInt (jm_qualities m))), (''chunksGenerated'', Some (JInt (jm_chunks m))),
         (''status'', Some (JStr (jm_status m)))]))"

definition set_metrics_field :: "string \<Rightarrow> json \<Rightarrow> job_metrics \<Rightarrow> job_metrics option" where
  "set_metrics_field k j m =
    (if k = ''jobid'' then map_option (\<lambda>x. m\<lparr>jm_job_id := x\<rparr>) (dec_string j (jm_job_id m))
     else if k = ''starttime'' then map_option (\<lambda>x. m\<lparr>jm_start := x\<rparr>) (dec_time j (jm_start m))
     else if k = ''endtime''
       then (if j = JNull then Some (m\<lparr>jm_end := None\<rparr>) else map_option (\<lambda>x. m\<lparr>jm_end := Some x\<rparr>) (dec_time j 0))
     else if k = ''duration'' then map_option (\<lambda>x. m\<lparr>jm_duration := x\<rparr>) (dec_int j (jm_duration m))
     else if k = ''cpuusagepercent'' then map_option (\<lambda>x. m\<lparr>jm_cpu := x\<rparr>) (dec_float j (jm_cpu m))
     else if k = ''memoryusagemb'' then map_option (\<lambda>x. m\<lparr>jm_memory := x\<rparr>) (dec_float j (jm_memory m))
     else if k = ''peakmemorymb'' then map_option (\<lambda>x. m\<lparr>jm_peak := x\<rparr>) (dec_float j (jm_peak m))
     else if k = ''diskusedmb'' then map_option (\<lambda>x. m\<lparr>jm_disk := x\<rparr>) (dec_float j (jm_disk m))
     else if k = ''inputsizemb'' then map_option (\<lambda>x. m\<lparr>jm_input := x\<rparr>) (dec_float j (jm_input m))
     else if k = ''outputsizemb'' then map_option (\<lambda>x. m\<lparr>jm_output := x\<rparr>) (dec_float j (jm_output m))
     else if k = ''qualitiesgenerated'' then map_option (\<lambda>x. m\<lparr>jm_qualities := x\<rparr>) (dec_int j (jm_qualities m))
     else if k = ''chunksgenerated'' then map_option (\<lambda>x. m\<lparr>jm_chunks := x\<rparr>) (dec_int j (jm_chunks m))
     else if k = ''status'' then map_option (\<lambda>x. m\<lparr>jm_status := x\<rparr>) (dec_string j (jm_status m))
     else Some m)"

definition dec_metrics :: "json \<Rightarrow> job_metrics option" where
  "dec_metrics j = dec_struct set_metrics_field j zero_metrics"

definition worker_json :: "worker_metrics \<Rightarrow> json option" where
  "worker_json m = map_option JObj (members
     [(''workerId'', Some (JStr (wm_id m))), (''lastUpdated'', Some (JTime (wm_updated m))),
      (''jobsProcessed'', Some (JInt (wm_processed m))), (''jobsSucceeded'', Some (JInt (wm_succeeded m))),
      (''jobsFailed'', Some (JInt (wm_failed m))), (''totalCpuPercent'', f_json (wm_cpu m)),
      (''totalMemoryMB'', f_json (wm_memory m)), (''uptime'', Some (JStr (wm_uptime m)))])"

section \<open>Operations\<close>

definition metrics_dir :: "config \<Rightarrow> string" where
  "metrics_dir cfg = join_path [logs_dir (cf_storage cfg), ''metrics'']"

definition metrics_path :: "config \<Rightarrow> string \<Rightarrow> string" where
  "metrics_path cfg jobID = join_path [metrics_dir cfg, ''job_'' @ jobID @ ''.json'']"

definition NewMetricsService :: "config \<Rightarrow> 'a os_scheme \<Rightarrow> metrics_map \<times> 'a os_scheme" where
  "NewMetricsService cfg w = (let (_, w1) = EnsureDir (metrics_dir cfg) w in ([], w1))"

definition StartJobMetrics :: "string \<Rightarrow> string \<Rightarrow> metrics_map \<Rightarrow> 'a os_scheme \<Rightarrow> metrics_map \<times> 'a os_scheme" where
  "StartJobMetrics jobID inputPath mm w =
     (let ((inputSize, _), w1) = GetFileSizeMB inputPath w; (now, w2) = time_now w1
      in (put jobID (zero_metrics\<lparr>jm_job_id := jobID, jm_start := now, jm_input := inputSize, jm_status := ''running''\<rparr>) mm, w2))"

definition UpdateJobMetrics :: "int \<Rightarrow> int \<Rightarrow> int \<Rightarrow> string \<Rightarrow> metrics_map \<Rightarrow> metrics_map" where
  "UpdateJobMetrics alloc goroutines cpus jobID mm =
     (case lookup mm jobID of
        None \<Rightarrow> mm
      | Some m \<Rightarrow>
          (let cur = fdiv (fdiv (f_of_int alloc) (Fin 1024)) (Fin 1024);
               m1 = m\<lparr>jm_memory := cur\<rparr>;
               m2 = (if flt (jm_peak m1) cur then m1\<lparr>jm_peak := cur\<rparr> else m1)
           in put jobID (m2\<lparr>jm_cpu := fmul (fdiv (f_of_int goroutines) (f_of_int cpus)) (Fin 10)\<rparr>) mm))"

definition saveMetrics :: "config \<Rightarrow> string \<Rightarrow> job_metrics \<Rightarrow> 'a os_scheme \<Rightarrow> (err + unit) \<times> 'a os_scheme" where
  "saveMetrics cfg jobID m w =
     (case metrics_json m of
        None \<Rightarrow> (Inl (Err ''failed to marshal metrics: json: unsupported value''), w)
      | Some j \<Rightarrow>
          (let (r, w1) = os_write_file (metrics_path cfg jobID) (Doc j) w
           in (case r of Inl e \<Rightarrow> Inl (wrap ''failed to write metrics'' e) | Inr _ \<Rightarrow> Inr (), w1)))"

definition EndJobMetrics ::
    "config \<Rightarrow> string \<Rightarrow> string \<Rightarrow> int \<Rightarrow> int \<Rightarrow> metrics_map \<Rightarrow> 'a os_scheme \<Rightarrow> ((err + unit) \<times> metrics_map) \<times> 'a os_scheme" where
  "EndJobMetrics cfg jobID status qualities chunks mm w =
     (case lookup mm jobID of
        None \<Rightarrow> ((Inl (Err (''metrics not found for job '' @ jobID)), mm), w)
      | Some m \<Rightarrow>
          (let (now, w1) = time_now w;
               ((outputSize, e), w2) = GetDirSize (join_path [outputs cfg, jobID]) w1;
               m1 = m\<lparr>jm_end := Some now, jm_duration := time_sub now (jm_start m), jm_status := status,
                       jm_qualities := qualities, jm_chunks := chunks\<rparr>;
               m2 = (if e = None then m1\<lparr>jm_output := fdiv (fdiv (f_of_int outputSize) (Fin 1024)) (Fin 1024)\<rparr> else m1);
               m3 = m2\<lparr>jm_disk := jm_output m2\<rparr>;
               (r, w3) = saveMetrics cfg jobID m3 w2
           in ((r, put jobID m3 mm), w3)))"

definition unmarshal_metrics :: "content \<Rightarrow> job_metrics option" where
  "unmarshal_metrics c = (case c of Doc j \<Rightarrow> dec_metrics j | Opaque _ _ \<Rightarrow> None)"

definition loadMetrics :: "config \<Rightarrow> string \<Rightarrow> 'a os_scheme \<Rightarrow> (err + job_metrics) \<times> 'a os_scheme" where
  "loadMetrics cfg jobID w =
     (let p = metrics_path cfg jobID; (ex, w1) = FileExists p w
      in if \<not> ex then (Inl (Err (''metrics file not found for job '' @ jobID)), w1)
         else case os_read_file p w1 of
                (Inl e, w2) \<Rightarrow> (Inl (wrap ''failed to read metrics'' e), w2)
              | (Inr c, w2) \<Rightarrow>
                  (case unmarshal_metrics c of
                     None \<Rightarrow> (Inl (Err ''failed to unmarshal metrics''), w2)
                   | Some m \<Rightarrow> (Inr m, w2)))"

definition GetJobMetrics :: "config \<Rightarrow> string \<Rightarrow> metrics_map \<Rightarrow> 'a os_scheme \<Rightarrow> (err + job_metrics) \<times> 'a os_scheme" where
  "GetJobMetrics cfg jobID mm w =
     (case lookup mm jobID of None \<Rightarrow> loadMetrics cfg jobID w | Some m \<Rightarrow> (Inr m, w))"

definition SaveWorkerMetrics :: "config \<Rightarrow> string \<Rightarrow> worker_metrics \<Rightarrow> 'a os_scheme \<Rightarrow> (err + unit) \<times> 'a os_scheme" where
  "SaveWorkerMetrics cfg workerID m w =
     (case worker_json m of
        None \<Rightarrow> (Inl (Err ''failed to marshal worker metrics: json: unsupported value''), w)
      | Some j \<Rightarrow>
          (let (r, w1) = os_write_file (join_path [metrics_dir cfg, ''worker_'' @ workerID @ ''.json'']) (Doc j) w
           in (case r of Inl e \<Rightarrow> Inl (wrap ''failed to write worker metrics'' e) | Inr _ \<Rightarrow> Inr (), w1)))"

section \<open>The peak\<close>

definition peak_ok :: "job_metrics \<Rightarrow> bool" where
  "peak_ok m \<longleftrightarrow> \<not> flt (jm_peak m) (jm_memory m)"

datatype metrics_op = Start string string | Sample int int int string | Finish string string int int

fun run_metrics :: "config \<Rightarrow> metrics_op list \<Rightarrow> metrics_map \<Rightarrow> 'a os_scheme \<Rightarrow> metrics_map \<times> 'a os_scheme" where
  "run_metrics cfg [] mm w = (mm, w)"
| "run_metrics cfg (Start i p # ops) mm w = (let (mm1, w1) = StartJobMetrics i p mm w in run_metrics cfg ops mm1 w1)"
| "run_metrics cfg (Sample a g c i # ops) mm w = run_metrics cfg ops (UpdateJobMetrics a g c i mm) w"
| "run_metrics cfg (Finish i s q c # ops) mm w =
     (let ((_, mm1), w1) = EndJobMetrics cfg i s q c mm w in run_metrics cfg ops mm1 w1)"

lemma flt_irrefl [simp]: "\<not> flt x x"
  by (cases x) auto

lemma peak_ok_ops:
  assumes "\<And>i m. lookup mm i = Some m \<Longrightarrow> peak_ok m"
  shows "lookup (fst (StartJobMetrics j p mm w)) i = Some m \<Longrightarrow> peak_ok m"
    and "lookup (UpdateJobMetrics a g c j mm) i = Some m \<Longrightarrow> peak_ok m"
    and "lookup (snd (fst (EndJobMetrics cfg j s q n mm w))) i = Some m \<Longrightarrow> peak_ok m"
proof -
  show "lookup (fst (StartJobMetrics j p mm w)) i = Some m \<Longrightarrow> peak_ok m"
    using assms [of i m] by (auto simp: StartJobMetrics_def case_prod_beta peak_ok_def zero_metrics_def split: if_splits)
  show "lookup (UpdateJobMetrics a g c j mm) i = Some m \<Longrightarrow> peak_ok m"
    using assms [of i m] by (auto simp: UpdateJobMetrics_def Let_def peak_ok_def split: if_splits option.splits)
  show "lookup (snd (fst (EndJobMetrics cfg j s q n mm w))) i = Some m \<Longrightarrow> peak_ok m"
    using assms [of i] assms [of j]
    by (auto simp: EndJobMetrics_def Let_def case_prod_beta peak_ok_def split: if_splits option.splits)
qed

text \<open>Whatever is started, sampled and ended, and in whatever order, the recorded peak of a job is
never below its last reading.\<close>

theorem peak_is_maximum:
  assumes "lookup (fst (run_metrics cfg ops [] w)) i = Some m"
  shows "\<not> flt (jm_peak m) (jm_memory m)"
proof -
  have "lookup (fst (run_metrics cfg ops mm w)) i = Some m \<Longrightarrow> (\<And>i m. lookup mm i = Some m \<Longrightarrow> peak_ok m) \<Longrightarrow> peak_ok m" for mm
  proof (induction cfg ops mm w rule: run_metrics.induct)
    case (2 cfg j p ops mm w)
    show ?case
    proof (rule "2.IH" [OF refl surjective_pairing [symmetric]])
      show "lookup (fst (run_metrics cfg ops (fst (StartJobMetrics j p mm w)) (snd (StartJobMetrics j p mm w)))) i = Some m"
        using "2.prems"(1) by (simp add: case_prod_beta)
    qed (rule peak_ok_ops(1) [OF "2.prems"(2)])
  next
    case (3 cfg a g c j ops mm w)
    show ?case by (rule "3.IH") (use "3.prems"(1) in simp, rule peak_ok_ops(2) [OF "3.prems"(2)])
  next
    case (4 cfg j s q c ops mm w)
    show ?case
    proof (rule "4.IH" [OF refl surjective_pairing [symmetric] surjective_pairing [symmetric]])
      show "lookup (fst (run_metrics cfg ops (snd (fst (EndJobMetrics cfg j s q c mm w))) (snd (EndJobMetrics cfg j s q c mm w)))) i = Some m"
        using "4.prems"(1) by (simp add: case_prod_beta)
    qed (rule peak_ok_ops(3) [OF "4.prems"(2)])
  qed simp
  from this [of "[]"] assms show ?thesis by (simp add: peak_ok_def)
qed

section \<open>Saving and loading\<close>

definition rep :: "float64 \<Rightarrow> bool" where
  "rep x \<longleftrightarrow> (case x of Fin q \<Rightarrow> round64 q = Fin q | _ \<Rightarrow> True)"

text \<open>The numbers of a record are values of their Go types.\<close>

definition metrics_wf :: "job_metrics \<Rightarrow> bool" where
  "metrics_wf m \<longleftrightarrow> fits64 (jm_duration m) \<and> fits64 (jm_qualities m) \<and> fits64 (jm_chunks m)
     \<and> rep (jm_cpu m) \<and> rep (jm_memory m) \<and> rep (jm_peak m) \<and> rep (jm_disk m) \<and> rep (jm_input m) \<and> rep (jm_output m)"

lemma dec_float_json: "f_json x = Some j \<Longrightarrow> rep x \<Longrightarrow> dec_float j old = Some x"
  by (cases x) (auto simp: rep_def)

lemma f_json_eq: "f_json x = Some j \<longleftrightarrow> (\<exists>q. x = Fin q \<and> j = JNum q)"
  by (cases x) auto

lemma metrics_keys_lower:
  "to_lower ''startTime'' = ''starttime''" "to_lower ''endTime'' = ''endtime''"
  "to_lower ''duration'' = ''duration''" "to_lower ''cpuUsagePercent'' = ''cpuusagepercent''"
  "to_lower ''memoryUsageMB'' = ''memoryusagemb''" "to_lower ''peakMemoryMB'' = ''peakmemorymb''"
  "to_lower ''diskUsedMB'' = ''diskusedmb''" "to_lower ''inputSizeMB'' = ''inputsizemb''"
  "to_lower ''outputSizeMB'' = ''outputsizemb''" "to_lower ''qualitiesGenerated'' = ''qualitiesgenerated''"
  "to_lower ''chunksGenerated'' = ''chunksgenerated''"
  by code_simp+

lemma members_Some: "members ms = Some js \<Longrightarrow> \<forall>(k, j) \<in> set ms. j \<noteq> None"
  by (induction ms arbitrary: js rule: members.induct) auto

lemma dec_metrics_json:
  assumes "metrics_json m = Some j" "metrics_wf m"
  shows "dec_metrics j = Some m"
proof -
  have "f_json (jm_cpu m) \<noteq> None" "f_json (jm_memory m) \<noteq> None" "f_json (jm_peak m) \<noteq> None"
    "f_json (jm_disk m) \<noteq> None" "f_json (jm_input m) \<noteq> None" "f_json (jm_output m) \<noteq> None"
    using assms(1) by (auto simp: metrics_json_def dest!: members_Some)
  then obtain a b c d e f where q: "jm_cpu m = Fin a" "jm_memory m = Fin b" "jm_peak m = Fin c" "jm_disk m = Fin d"
    "jm_input m = Fin e" "jm_output m = Fin f"
    by (metis f_json.elims option.distinct(1))
  have r: "round64 a = Fin a" "round64 b = Fin b" "round64 c = Fin c" "round64 d = Fin d" "round64 e = Fin e" "round64 f = Fin f"
    using assms(2) q by (simp_all add: metrics_wf_def rep_def)
  show ?thesis
    using assms q r
    by (cases "jm_end m")
       (auto simp: metrics_json_def dec_metrics_def zero_metrics_def set_metrics_field_def metrics_keys_lower
          state_keys_lower metrics_wf_def)
qed

interpretation metrics_doc: json_codec metrics_json dec_metrics metrics_wf
  by unfold_locales (rule dec_metrics_json)

lemma unmarshal_metrics_doc: "metrics_doc.unmarshal = unmarshal_metrics"
  by (simp add: metrics_doc.unmarshal_def unmarshal_metrics_def fun_eq_iff)

lemma loadMetrics_file:
  assumes "io_good w" "file_content (fs w) (parse_path (metrics_path cfg i)) = Some c" "unmarshal_metrics c = Some m"
  shows "fst (loadMetrics cfg i w) = Inr m"
  using exists_then_read [OF assms(1,2)] assms(3) by (simp add: loadMetrics_def case_prod_beta Let_def)

text \<open>When the end of a job is reported as saved, a service started later, with nothing in memory,
loads exactly the metrics the running one holds for it, with the reported status and counts.\<close>

theorem ended_metrics_survive:
  assumes "fst (fst (EndJobMetrics cfg i s q c mm w)) = Inr ()"
    and "lookup (snd (fst (EndJobMetrics cfg i s q c mm w))) i = Some m" "metrics_wf m"
  shows "fst (GetJobMetrics cfg i [] ((snd (EndJobMetrics cfg i s q c mm w))\<lparr>io := \<lambda>_. IO_ok\<rparr>)) = Inr m
    \<and> jm_status m = s \<and> jm_qualities m = q \<and> jm_chunks m = c \<and> jm_end m = Some (clock w (tick w))"
proof -
  obtain m0 where m0: "lookup mm i = Some m0" using assms(1) by (auto simp: EndJobMetrics_def split: option.splits)
  let ?w2 = "snd (GetDirSize (join_path [outputs cfg, i]) (snd (time_now w)))"
  have sv: "fst (saveMetrics cfg i m ?w2) = Inr ()" "snd (EndJobMetrics cfg i s q c mm w) = snd (saveMetrics cfg i m ?w2)"
    and f: "jm_status m = s" "jm_qualities m = q" "jm_chunks m = c" "jm_end m = Some (clock w (tick w))"
    using assms(1,2) m0 by (auto simp: EndJobMetrics_def Let_def case_prod_beta time_now_def)
  obtain j where j: "metrics_json m = Some j" using sv(1) by (auto simp: saveMetrics_def split: option.splits)
  have "fst (os_write_file (metrics_path cfg i) (Doc j) ?w2) = Inr ()"
    using sv(1) j by (auto simp: saveMetrics_def Let_def case_prod_beta split: sum.splits)
  from metrics_doc.written_back [OF this j assms(3)] obtain d where
    "file_content (fs (snd (EndJobMetrics cfg i s q c mm w))) (parse_path (metrics_path cfg i)) = Some d"
    "unmarshal_metrics d = Some m"
    using sv(2) j by (auto simp: saveMetrics_def Let_def case_prod_beta unmarshal_metrics_doc)
  then have "fst (loadMetrics cfg i ((snd (EndJobMetrics cfg i s q c mm w))\<lparr>io := \<lambda>_. IO_ok\<rparr>)) = Inr m"
    by (intro loadMetrics_file) simp_all
  with f show ?thesis by (simp add: GetJobMetrics_def)
qed

definition metrics_world :: os where
  "metrics_world = \<lparr>fs = [((False, [''logs'']), Dir 0), ((False, [''logs'', ''metrics'']), Dir 0),
       ((False, [''outputs'', ''job_1'']), Dir 0)],
     clock = (\<lambda>n. int n * second), io = (\<lambda>_. IO_ok), statfs = (\<lambda>_. Inl ''''), doclen = (\<lambda>_. 0), tick = 5\<rparr>"

lemma round64_0: "round64 0 = Fin 0"
  using f_of_int_exact [of 0] by (simp add: f_of_int_def)

theorem ended_metrics_survive_witness:
  "\<exists>m. fst (GetJobMetrics (Load (\<lambda>_. [])) ''job_1'' []
      ((snd (EndJobMetrics (Load (\<lambda>_. [])) ''job_1'' ''completed'' 2 30
         [(''job_1'', zero_metrics\<lparr>jm_job_id := ''job_1''\<rparr>)] metrics_world))\<lparr>io := \<lambda>_. IO_ok\<rparr>)) = Inr m
     \<and> jm_duration m = 5 * second \<and> jm_chunks m = 30"
proof -
  let ?c = "Load (\<lambda>_. [])" and ?mm = "[(''job_1'', zero_metrics\<lparr>jm_job_id := ''job_1''\<rparr>)]"
  let ?m = "zero_metrics\<lparr>jm_job_id := ''job_1'', jm_end := Some (5 * second), jm_duration := 5 * second,
      jm_status := ''completed'', jm_qualities := 2, jm_chunks := 30\<rparr>"
  have p: "parse_path (metrics_path ?c ''job_1'') = (False, [''logs'', ''metrics'', ''job_job_1.json''])"
    "parse_path (join_path [outputs ?c, ''job_1'']) = (False, [''outputs'', ''job_1''])" by code_simp+
  have z: "f_of_int 0 = Fin 0" "round64 0 = Fin 0" using f_of_int_exact [of 0] round64_0 by simp_all
  have g: "fst (GetDirSize (join_path [outputs ?c, ''job_1'']) (snd (time_now metrics_world))) = (0, None)"
    by (simp add: GetDirSize_def p metrics_world_def time_now_def under_def node_size_def)
  have s: "fst (saveMetrics ?c ''job_1'' ?m w) = Inr ()" if "w = snd (GetDirSize d (snd (time_now metrics_world)))" for d w
    using that
    by (simp add: saveMetrics_def metrics_json_def zero_metrics_def Let_def case_prod_beta os_write_file_def p
        GetDirSize_def metrics_world_def time_now_def advance_def is_file_at_def is_dir_at_def parent_def)
  have E: "fst (EndJobMetrics ?c ''job_1'' ''completed'' 2 30 ?mm metrics_world) = (Inr (), [(''job_1'', ?m)])"
    using s [OF refl] g by (simp add: EndJobMetrics_def Let_def case_prod_beta time_now_def metrics_world_def zero_metrics_def z
        time_sub_def)
  have wf: "metrics_wf ?m" using z by (simp add: metrics_wf_def zero_metrics_def fits64_def rep_def)
  have "fst (fst (EndJobMetrics ?c ''job_1'' ''completed'' 2 30 ?mm metrics_world)) = Inr ()"
    "lookup (snd (fst (EndJobMetrics ?c ''job_1'' ''completed'' 2 30 ?mm metrics_world))) ''job_1'' = Some ?m"
    using E by simp_all
  from ended_metrics_survive [OF this wf] show ?thesis by (intro exI [of _ ?m]) (simp add: zero_metrics_def)
qed

theorem peak_is_maximum_witness:
  "\<exists>m. lookup (fst (run_metrics (Load (\<lambda>_. [])) [Start ''job_1'' ''in.mp4''] [] metrics_world)) ''job_1'' = Some m
     \<and> \<not> flt (jm_peak m) (jm_memory m)"
proof -
  obtain m where "lookup (fst (run_metrics (Load (\<lambda>_. [])) [Start ''job_1'' ''in.mp4''] [] metrics_world)) ''job_1'' = Some m"
    by (simp add: StartJobMetrics_def case_prod_beta)
  from this peak_is_maximum [OF this] show ?thesis by blast
qed

end
