(* ===== verification/Job_Json.thy ===== *)
theory Job_Json
  imports Job_Store Metrics_Service
begin

text \<open>
  The JSON form of a job, given by the struct tags of \<open>pkg/types/job.go\<close>, as the dead letter queue
  writes it. Encoding fails for a number that has no JSON form. Decoding knows the statuses of
  the program only, and counts are natural numbers; a document that holds anything else, which
  the service never writes, is taken as one that cannot be decoded.
\<close>

section \<open>Helpers\<close>

fun dec_nat :: "json \<Rightarrow> nat \<Rightarrow> nat option" where
  "dec_nat j old = (case dec_int j (int old) of Some n \<Rightarrow> if 0 \<le> n then Some (nat n) else None | None \<Rightarrow> None)"

text \<open>A pointer to a struct: \<open>null\<close> is nil, an object is decoded into the struct that is there or a new one.\<close>

definition dec_ptr :: "(string \<Rightarrow> json \<Rightarrow> 's \<Rightarrow> 's option) \<Rightarrow> 's \<Rightarrow> json \<Rightarrow> 's option \<Rightarrow> 's option option" where
  "dec_ptr f zero j old =
     (if j = JNull then Some None
      else map_option Some (dec_struct f j (case old of None \<Rightarrow> zero | Some x \<Rightarrow> x)))"

definition opt_member :: "bool \<Rightarrow> string \<Rightarrow> json option \<Rightarrow> (string \<times> json option) list" where
  "opt_member b k j = (if b then [(k, j)] else [])"

fun seq_all :: "('a \<Rightarrow> json option) \<Rightarrow> 'a list \<Rightarrow> json list option" where
  "seq_all f [] = Some []"
| "seq_all f (x # xs) =
     (case f x of None \<Rightarrow> None | Some j \<Rightarrow> map_option (Cons j) (seq_all f xs))"

text \<open>Decoding the members of an object while they are encoded.\<close>

fun dec_opt :: "(string \<Rightarrow> json \<Rightarrow> 's \<Rightarrow> 's option) \<Rightarrow> (string \<times> json option) list \<Rightarrow> 's \<Rightarrow> 's option" where
  "dec_opt f [] s = Some s"
| "dec_opt f ((k, None) # ms) s = None"
| "dec_opt f ((k, Some j) # ms) s =
     (case f (to_lower k) j s of None \<Rightarrow> None | Some s' \<Rightarrow> dec_opt f ms s')"

lemma dec_opt_members:
  "members ms = Some js \<Longrightarrow> dec_members f js s = dec_opt f ms s"
  by (induction f ms s arbitrary: js rule: dec_opt.induct) (auto split: option.split)

lemma dec_opt_append: "dec_opt f (ms @ ns) s = (case dec_opt f ms s of None \<Rightarrow> None | Some s' \<Rightarrow> dec_opt f ns s')"
  by (induction f ms s rule: dec_opt.induct) (auto split: option.split)

lemma dec_opt_member: "dec_opt f (opt_member b k (Some j)) s = (if b then f (to_lower k) j s else Some s)"
  by (auto simp: opt_member_def split: option.split)

section \<open>Encoding\<close>

definition quality_metadata_json :: "quality_metadata \<Rightarrow> json" where
  "quality_metadata_json q = JObj [(''quality'', JStr (qm_quality q)), (''resolution'', JStr (qm_resolution q)),
     (''bitrate'', JStr (qm_bitrate q))]"

definition video_members :: "video_metadata \<Rightarrow> (string \<times> json option) list" where
  "video_members v = [(''fileName'', Some (JStr (vm_file_name v))), (''sourcePath'', Some (JStr (vm_source_path v))),
     (''resolution'', Some (JStr (vm_resolution v))), (''duration'', f_json (vm_duration v))]
     @ opt_member (vm_generated v \<noteq> []) ''generatedQualities'' (Some (JArr (map quality_metadata_json (vm_generated v))))"

definition quality_output_json :: "quality_output \<Rightarrow> json" where
  "quality_output_json q = JObj [(''quality'', JStr (qt_quality q)), (''playlist'', JStr (qt_playlist q)),
     (''chunksDir'', JStr (qt_chunks_dir q)), (''chunkCount'', JInt (int (qt_chunk_count q)))]"

definition audio_members :: "audio_info \<Rightarrow> (string \<times> json option) list" where
  "audio_members a = [(''normalized'', Some (JBool (ai_normalized a)))]
     @ opt_member (ai_standard a \<noteq> []) ''standard'' (Some (JStr (ai_standard a)))"

definition ptr_member :: "('a \<Rightarrow> (string \<times> json option) list) \<Rightarrow> string \<Rightarrow> 'a option \<Rightarrow> (string \<times> json option) list" where
  "ptr_member f k x = (case x of None \<Rightarrow> [] | Some v \<Rightarrow> [(k, map_option JObj (members (f v)))])"

definition output_members :: "output_info \<Rightarrow> (string \<times> json option) list" where
  "output_members v = [(''outputDir'', Some (JStr (oi_output_dir v)))]
     @ opt_member (oi_master v \<noteq> []) ''masterPlaylist'' (Some (JStr (oi_master v)))
     @ opt_member (oi_qualities v \<noteq> []) ''qualities'' (Some (JArr (map quality_output_json (oi_qualities v))))
     @ opt_member (oi_thumbnails v \<noteq> []) ''thumbnails'' (Some (JStrs (oi_thumbnails v)))
     @ opt_member (oi_sprite v \<noteq> []) ''spriteSheet'' (Some (JStr (oi_sprite v)))
     @ opt_member (oi_clip v \<noteq> []) ''previewClip'' (Some (JStr (oi_clip v)))
     @ opt_member (oi_gif v \<noteq> []) ''previewGif'' (Some (JStr (oi_gif v)))
     @ ptr_member audio_members ''audio'' (oi_audio v)"

definition progress_members :: "progress \<Rightarrow> (string \<times> json option) list" where
  "progress_members p = [(''percentage'', Some (JInt (pr_percentage p))), (''currentStep'', Some (JStr (pr_step p)))]"

definition meta_members :: "job_meta \<Rightarrow> (string \<times> json option) list" where
  "meta_members m = [(''createdAt'', Some (JTime (created_at m)))]
     @ (case completed_at m of None \<Rightarrow> [] | Some t \<Rightarrow> [(''completedAt'', Some (JTime t))])
     @ opt_member (processing_time m \<noteq> Fin 0) ''processingTimeSec'' (f_json (processing_time m))"

definition error_members :: "job_error \<Rightarrow> (string \<times> json option) list" where
  "error_members e = [(''code'', Some (JStr (je_code e))), (''stage'', Some (JStr (je_stage e))),
     (''message'', Some (JStr (je_message e)))]
     @ opt_member (je_logs_path e \<noteq> []) ''logsPath'' (Some (JStr (je_logs_path e)))
     @ opt_member (je_failed e \<noteq> []) ''failedResolutions'' (Some (JStrs (je_failed e)))"

definition job_members :: "job \<Rightarrow> (string \<times> json option) list" where
  "job_members j = [(''jobId'', Some (JStr (j_id j))), (''status'', Some (JStr (status_text (j_status j))))]
     @ opt_member (j_input_path j \<noteq> []) ''inputPath'' (Some (JStr (j_input_path j)))
     @ opt_member (j_input_hash j \<noteq> []) ''inputHash'' (Some (JStr (j_input_hash j)))
     @ opt_member (j_chunk_duration j \<noteq> 0) ''chunkDuration'' (Some (JInt (j_chunk_duration j)))
     @ ptr_member video_members ''input'' (j_input j)
     @ ptr_member output_members ''output'' (j_output j)
     @ ptr_member progress_members ''progress'' (j_progress j)
     @ [(''meta'', map_option JObj (members (meta_members (j_meta j))))]
     @ opt_member (j_retries j \<noteq> 0) ''retries'' (Some (JInt (j_retries j)))
     @ opt_member (j_max_retries j \<noteq> 0) ''maxRetries'' (Some (JInt (j_max_retries j)))
     @ ptr_member error_members ''error'' (j_error j)
     @ opt_member (j_message j \<noteq> []) ''message'' (Some (JStr (j_message j)))"

definition job_json :: "job \<Rightarrow> json option" where
  "job_json j = map_option JObj (members (job_members j))"

section \<open>Decoding\<close>

definition status_of :: "string \<Rightarrow> job_status option" where
  "status_of s = find (\<lambda>x. status_text x = s)
     [QUEUED, RUNNING, COMPLETED, PARTIAL_SUCCESS, FAILED, INTERRUPTED, SCHEDULED]"

definition dec_status :: "json \<Rightarrow> job_status \<Rightarrow> job_status option" where
  "dec_status j old = (case j of JNull \<Rightarrow> Some old | JStr s \<Rightarrow> status_of s | _ \<Rightarrow> None)"

definition set_quality_metadata :: "string \<Rightarrow> json \<Rightarrow> quality_metadata \<Rightarrow> quality_metadata option" where
  "set_quality_metadata k j q =
    (if k = ''quality'' then map_option (\<lambda>x. q\<lparr>qm_quality := x\<rparr>) (dec_string j (qm_quality q))
     else if k = ''resolution'' then map_option (\<lambda>x. q\<lparr>qm_resolution := x\<rparr>) (dec_string j (qm_resolution q))
     else if k = ''bitrate'' then map_option (\<lambda>x. q\<lparr>qm_bitrate := x\<rparr>) (dec_string j (qm_bitrate q))
     else Some q)"

definition zero_quality_metadata :: quality_metadata where
  "zero_quality_metadata = \<lparr>qm_quality = [], qm_resolution = [], qm_bitrate = []\<rparr>"

definition set_video :: "string \<Rightarrow> json \<Rightarrow> video_metadata \<Rightarrow> video_metadata option" where
  "set_video k j v =
    (if k = ''filename'' then map_option (\<lambda>x. v\<lparr>vm_file_name := x\<rparr>) (dec_string j (vm_file_name v))
     else if k = ''sourcepath'' then map_option (\<lambda>x. v\<lparr>vm_source_path := x\<rparr>) (dec_string j (vm_source_path v))
     else if k = ''resolution'' then map_option (\<lambda>x. v\<lparr>vm_resolution := x\<rparr>) (dec_string j (vm_resolution v))
     else if k = ''duration'' then map_option (\<lambda>x. v\<lparr>vm_duration := x\<rparr>) (dec_float j (vm_duration v))
     else if k = ''generatedqualities'' then map_option (\<lambda>x. v\<lparr>vm_generated := x\<rparr>)
            (dec_list (\<lambda>j. dec_struct set_quality_metadata j zero_quality_metadata) j)
     else Some v)"

definition zero_video :: video_metadata where
  "zero_video = \<lparr>vm_file_name = [], vm_source_path = [], vm_resolution = [], vm_duration = Fin 0, vm_generated = []\<rparr>"

definition set_quality_output :: "string \<Rightarrow> json \<Rightarrow> quality_output \<Rightarrow> quality_output option" where
  "set_quality_output k j q =
    (if k = ''quality'' then map_option (\<lambda>x. q\<lparr>qt_quality := x\<rparr>) (dec_string j (qt_quality q))
     else if k = ''playlist'' then map_option (\<lambda>x. q\<lparr>qt_playlist := x\<rparr>) (dec_string j (qt_playlist q))
     else if k = ''chunksdir'' then map_option (\<lambda>x. q\<lparr>qt_chunks_dir := x\<rparr>) (dec_string j (qt_chunks_dir q))
     else if k = ''chunkcount'' then map_option (\<lambda>x. q\<lparr>qt_chunk_count := x\<rparr>) (dec_nat j (qt_chunk_count q))
     else Some q)"

definition zero_quality_output :: quality_output where
  "zero_quality_output = \<lparr>qt_quality = [], qt_playlist = [], qt_chunks_dir = [], qt_chunk_count = 0\<rparr>"

definition set_audio :: "string \<Rightarrow> json \<Rightarrow> audio_info \<Rightarrow> audio_info option" where
  "set_audio k j a =
    (if k = ''normalized'' then map_option (\<lambda>x. a\<lparr>ai_normalized := x\<rparr>) (dec_bool j (ai_normalized a))
     else if k = ''standard'' then map_option (\<lambda>x. a\<lparr>ai_standard := x\<rparr>) (dec_string j (ai_standard a))
     else Some a)"

definition zero_audio :: audio_info where
  "zero_audio = \<lparr>ai_normalized = False, ai_standard = []\<rparr>"

definition set_output :: "string \<Rightarrow> json \<Rightarrow> output_info \<Rightarrow> output_info option" where
  "set_output k j v =
    (if k = ''outputdir'' then map_option (\<lambda>x. v\<lparr>oi_output_dir := x\<rparr>) (dec_string j (oi_output_dir v))
     else if k = ''masterplaylist'' then map_option (\<lambda>x. v\<lparr>oi_master := x\<rparr>) (dec_string j (oi_master v))
     else if k = ''qualities'' then map_option (\<lambda>x. v\<lparr>oi_qualities := x\<rparr>)
            (dec_list (\<lambda>j. dec_struct set_quality_output j zero_quality_output) j)
     else if k = ''thumbnails'' then map_option (\<lambda>x. v\<lparr>oi_thumbnails := x\<rparr>) (dec_strings j)
     else if k = ''spritesheet'' then map_option (\<lambda>x. v\<lparr>oi_sprite := x\<rparr>) (dec_string j (oi_sprite v))
     else if k = ''previewclip'' then map_option (\<lambda>x. v\<lparr>oi_clip := x\<rparr>) (dec_string j (oi_clip v))
     else if k = ''previewgif'' then map_option (\<lambda>x. v\<lparr>oi_gif := x\<rparr>) (dec_string j (oi_gif v))
     else if k = ''audio'' then map_option (\<lambda>x. v\<lparr>oi_audio := x\<rparr>) (dec_ptr set_audio zero_audio j (oi_audio v))
     else Some v)"

definition zero_output :: output_info where
  "zero_output = \<lparr>oi_output_dir = [], oi_master = [], oi_qualities = [], oi_thumbnails = [], oi_sprite = [],
     oi_clip = [], oi_gif = [], oi_audio = None\<rparr>"

definition set_progress :: "string \<Rightarrow> json \<Rightarrow> progress \<Rightarrow> progress option" where
  "set_progress k j p =
    (if k = ''percentage'' then map_option (\<lambda>x. p\<lparr>pr_percentage := x\<rparr>) (dec_int j (pr_percentage p))
     else if k = ''currentstep'' then map_option (\<lambda>x. p\<lparr>pr_step := x\<rparr>) (dec_string j (pr_step p))
     else Some p)"

definition zero_progress :: progress where
  "zero_progress = \<lparr>pr_percentage = 0, pr_step = []\<rparr>"

definition set_meta :: "string \<Rightarrow> json \<Rightarrow> job_meta \<Rightarrow> job_meta option" where
  "set_meta k j m =
    (if k = ''createdat'' then map_option (\<lambda>x. m\<lparr>created_at := x\<rparr>) (dec_time j (created_at m))
     else if k = ''completedat''
       then (if j = JNull then Some (m\<lparr>completed_at := None\<rparr>) else map_option (\<lambda>x. m\<lparr>completed_at := Some x\<rparr>) (dec_time j 0))
     else if k = ''processingtimesec'' then map_option (\<lambda>x. m\<lparr>processing_time := x\<rparr>) (dec_float j (processing_time m))
     else Some m)"

definition set_error :: "string \<Rightarrow> json \<Rightarrow> job_error \<Rightarrow> job_error option" where
  "set_error k j e =
    (if k = ''code'' then map_option (\<lambda>x. e\<lparr>je_code := x\<rparr>) (dec_string j (je_code e))
     else if k = ''stage'' then map_option (\<lambda>x. e\<lparr>je_stage := x\<rparr>) (dec_string j (je_stage e))
     else if k = ''message'' then map_option (\<lambda>x. e\<lparr>je_message := x\<rparr>) (dec_string j (je_message e))
     else if k = ''logspath'' then map_option (\<lambda>x. e\<lparr>je_logs_path := x\<rparr>) (dec_string j (je_logs_path e))
     else if k = ''failedresolutions'' then map_option (\<lambda>x. e\<lparr>je_failed := x\<rparr>) (dec_strings j)
     else Some e)"

definition zero_error :: job_error where
  "zero_error = \<lparr>je_code = [], je_stage = [], je_message = [], je_logs_path = [], je_failed = []\<rparr>"

definition set_job :: "string \<Rightarrow> json \<Rightarrow> job \<Rightarrow> job option" where
  "set_job k j v =
    (if k = ''jobid'' then map_option (\<lambda>x. v\<lparr>j_id := x\<rparr>) (dec_string j (j_id v))
     else if k = ''status'' then map_option (\<lambda>x. v\<lparr>j_status := x\<rparr>) (dec_status j (j_status v))
     else if k = ''inputpath'' then map_option (\<lambda>x. v\<lparr>j_input_path := x\<rparr>) (dec_string j (j_input_path v))
     else if k = ''inputhash'' then map_option (\<lambda>x. v\<lparr>j_input_hash := x\<rparr>) (dec_string j (j_input_hash v))
     else if k = ''chunkduration'' then map_option (\<lambda>x. v\<lparr>j_chunk_duration := x\<rparr>) (dec_int j (j_chunk_duration v))
     else if k = ''input'' then map_option (\<lambda>x. v\<lparr>j_input := x\<rparr>) (dec_ptr set_video zero_video j (j_input v))
     else if k = ''output'' then map_option (\<lambda>x. v\<lparr>j_output := x\<rparr>) (dec_ptr set_output zero_output j (j_output v))
     else if k = ''progress'' then map_option (\<lambda>x. v\<lparr>j_progress := x\<rparr>) (dec_ptr set_progress zero_progress j (j_progress v))
     else if k = ''meta'' then map_option (\<lambda>x. v\<lparr>j_meta := x\<rparr>) (dec_struct set_meta j (j_meta v))
     else if k = ''retries'' then map_option (\<lambda>x. v\<lparr>j_retries := x\<rparr>) (dec_int j (j_retries v))
     else if k = ''maxretries'' then map_option (\<lambda>x. v\<lparr>j_max_retries := x\<rparr>) (dec_int j (j_max_retries v))
     else if k = ''error'' then map_option (\<lambda>x. v\<lparr>j_error := x\<rparr>) (dec_ptr set_error zero_error j (j_error v))
     else if k = ''message'' then map_option (\<lambda>x. v\<lparr>j_message := x\<rparr>) (dec_string j (j_message v))
     else Some v)"

definition dec_job :: "json \<Rightarrow> job option" where
  "dec_job j = dec_struct set_job j zero_job"

section \<open>Round trip\<close>

definition video_wf :: "video_metadata \<Rightarrow> bool" where
  "video_wf v \<longleftrightarrow> rep (vm_duration v)"

definition output_wf :: "output_info \<Rightarrow> bool" where
  "output_wf v \<longleftrightarrow> list_all (\<lambda>q. fits64 (int (qt_chunk_count q))) (oi_qualities v)"

text \<open>The numbers of a job are values of their Go types.\<close>

definition job_wf :: "job \<Rightarrow> bool" where
  "job_wf j \<longleftrightarrow> fits64 (j_chunk_duration j) \<and> fits64 (j_retries j) \<and> fits64 (j_max_retries j)
     \<and> rep (processing_time (j_meta j))
     \<and> (case j_input j of None \<Rightarrow> True | Some v \<Rightarrow> video_wf v)
     \<and> (case j_output j of None \<Rightarrow> True | Some v \<Rightarrow> output_wf v)
     \<and> (case j_progress j of None \<Rightarrow> True | Some p \<Rightarrow> fits64 (pr_percentage p))"

lemma job_keys_lower:
  "to_lower ''quality'' = ''quality''" "to_lower ''resolution'' = ''resolution''" "to_lower ''bitrate'' = ''bitrate''"
  "to_lower ''fileName'' = ''filename''" "to_lower ''sourcePath'' = ''sourcepath''"
  "to_lower ''generatedQualities'' = ''generatedqualities''" "to_lower ''playlist'' = ''playlist''"
  "to_lower ''chunksDir'' = ''chunksdir''" "to_lower ''chunkCount'' = ''chunkcount''" "to_lower ''normalized'' = ''normalized''"
  "to_lower ''standard'' = ''standard''" "to_lower ''outputDir'' = ''outputdir''" "to_lower ''masterPlaylist'' = ''masterplaylist''"
  "to_lower ''qualities'' = ''qualities''" "to_lower ''thumbnails'' = ''thumbnails''" "to_lower ''spriteSheet'' = ''spritesheet''"
  "to_lower ''previewClip'' = ''previewclip''" "to_lower ''previewGif'' = ''previewgif''" "to_lower ''audio'' = ''audio''"
  "to_lower ''percentage'' = ''percentage''" "to_lower ''createdAt'' = ''createdat''" "to_lower ''completedAt'' = ''completedat''"
  "to_lower ''processingTimeSec'' = ''processingtimesec''" "to_lower ''code'' = ''code''" "to_lower ''stage'' = ''stage''"
  "to_lower ''message'' = ''message''" "to_lower ''logsPath'' = ''logspath''" "to_lower ''failedResolutions'' = ''failedresolutions''"
  "to_lower ''inputHash'' = ''inputhash''" "to_lower ''input'' = ''input''" "to_lower ''output'' = ''output''"
  "to_lower ''progress'' = ''progress''" "to_lower ''meta'' = ''meta''" "to_lower ''retries'' = ''retries''"
  "to_lower ''maxRetries'' = ''maxretries''" "to_lower ''error'' = ''error''"
  by code_simp+

lemmas keys_lower = job_keys_lower metrics_keys_lower state_keys_lower

lemma dec_struct_members:
  "map_option JObj (members ms) = Some j \<Longrightarrow> dec_struct f j s = dec_opt f ms s"
  by (auto simp: dec_opt_members)

lemma dec_ptr_members:
  "map_option JObj (members ms) = Some j \<Longrightarrow> dec_ptr f z j None = map_option Some (dec_opt f ms z)"
  by (auto simp: dec_ptr_def dec_opt_members)

text \<open>If every nested value decodes to itself, so does a pointer member.\<close>

lemma members_all: "members ms = Some js \<Longrightarrow> (k, x) \<in> set ms \<Longrightarrow> \<exists>j. x = Some j"
  by (induction ms arbitrary: js rule: members.induct) auto

lemma quality_metadata_back:
  "dec_struct set_quality_metadata (quality_metadata_json q) zero_quality_metadata = Some q"
  by (simp add: quality_metadata_json_def set_quality_metadata_def zero_quality_metadata_def keys_lower)

lemma quality_output_back:
  "fits64 (int (qt_chunk_count q)) \<Longrightarrow> dec_struct set_quality_output (quality_output_json q) zero_quality_output = Some q"
  by (simp add: quality_output_json_def set_quality_output_def zero_quality_output_def keys_lower)

lemma video_back:
  assumes "map_option JObj (members (video_members v)) = Some j" "video_wf v"
  shows "dec_ptr set_video zero_video j None = Some (Some v)"
proof -
  obtain d where d: "f_json (vm_duration v) = Some d"
    using assms(1) members_all by (fastforce simp: video_members_def)
  then have "dec_float d (Fin 0) = Some (vm_duration v)" using assms(2) by (simp add: dec_float_json video_wf_def)
  then have "dec_opt set_video (video_members v) zero_video = Some v"
    using d by (auto simp: video_members_def dec_opt_append set_video_def zero_video_def keys_lower dec_opt_member quality_metadata_back)
  then show ?thesis by (simp add: dec_ptr_members [OF assms(1)])
qed

lemma audio_back:
  assumes "map_option JObj (members (audio_members a)) = Some j"
  shows "dec_ptr set_audio zero_audio j None = Some (Some a)"
  by (auto simp: dec_ptr_members [OF assms] audio_members_def dec_opt_append set_audio_def zero_audio_def keys_lower dec_opt_member)

lemma progress_back:
  assumes "map_option JObj (members (progress_members p)) = Some j" "fits64 (pr_percentage p)"
  shows "dec_ptr set_progress zero_progress j None = Some (Some p)"
  using assms(2)
  by (simp add: dec_ptr_members [OF assms(1)] progress_members_def set_progress_def zero_progress_def keys_lower)

lemma error_back:
  assumes "map_option JObj (members (error_members e)) = Some j"
  shows "dec_ptr set_error zero_error j None = Some (Some e)"
  by (auto simp: dec_ptr_members [OF assms] error_members_def dec_opt_append set_error_def zero_error_def keys_lower dec_opt_member)

lemma meta_back:
  assumes "map_option JObj (members (meta_members m)) = Some j" "rep (processing_time m)"
  shows "dec_struct set_meta j (j_meta zero_job) = Some m"
proof (cases "processing_time m = Fin 0")
  case False
  then obtain p where p: "f_json (processing_time m) = Some p"
    using assms(1) members_all by (fastforce simp: meta_members_def opt_member_def)
  then have "dec_float p (Fin 0) = Some (processing_time m)" using assms(2) by (simp add: dec_float_json)
  with False p show ?thesis
    by (cases "completed_at m")
       (auto simp: dec_struct_members [OF assms(1)] meta_members_def dec_opt_append set_meta_def zero_job_def keys_lower dec_opt_member)
next
  case True
  then show ?thesis
    by (cases "completed_at m")
       (auto simp: dec_struct_members [OF assms(1)] meta_members_def dec_opt_append set_meta_def zero_job_def keys_lower opt_member_def)
qed

lemma output_back:
  assumes "map_option JObj (members (output_members v)) = Some j" "output_wf v"
  shows "dec_ptr set_output zero_output j None = Some (Some v)"
proof -
  define base where "base = \<lparr>oi_output_dir = oi_output_dir v, oi_master = oi_master v, oi_qualities = oi_qualities v,
    oi_thumbnails = oi_thumbnails v, oi_sprite = [], oi_clip = [], oi_gif = [], oi_audio = None\<rparr>"
  define rest where "rest = opt_member (oi_sprite v \<noteq> []) ''spriteSheet'' (Some (JStr (oi_sprite v)))
     @ opt_member (oi_clip v \<noteq> []) ''previewClip'' (Some (JStr (oi_clip v)))
     @ opt_member (oi_gif v \<noteq> []) ''previewGif'' (Some (JStr (oi_gif v)))"
  define full where "full = base\<lparr>oi_sprite := oi_sprite v, oi_clip := oi_clip v, oi_gif := oi_gif v\<rparr>"
  have q: "dec_list (\<lambda>j. dec_struct set_quality_output j zero_quality_output) (JArr (map quality_output_json (oi_qualities v))) = Some (oi_qualities v)"
    using assms(2) by (simp add: output_wf_def list_all_iff quality_output_back)
  have m: "output_members v = [(''outputDir'', Some (JStr (oi_output_dir v)))]
     @ opt_member (oi_master v \<noteq> []) ''masterPlaylist'' (Some (JStr (oi_master v)))
     @ opt_member (oi_qualities v \<noteq> []) ''qualities'' (Some (JArr (map quality_output_json (oi_qualities v))))
     @ opt_member (oi_thumbnails v \<noteq> []) ''thumbnails'' (Some (JStrs (oi_thumbnails v))) @ rest
     @ ptr_member audio_members ''audio'' (oi_audio v)" by (simp add: output_members_def rest_def)
  have b: "dec_opt set_output ([(''outputDir'', Some (JStr (oi_output_dir v)))]
     @ opt_member (oi_master v \<noteq> []) ''masterPlaylist'' (Some (JStr (oi_master v)))
     @ opt_member (oi_qualities v \<noteq> []) ''qualities'' (Some (JArr (map quality_output_json (oi_qualities v))))
     @ opt_member (oi_thumbnails v \<noteq> []) ''thumbnails'' (Some (JStrs (oi_thumbnails v)))) zero_output = Some base"
    using q by (auto simp: dec_opt_append set_output_def zero_output_def keys_lower dec_opt_member base_def)
  have r: "dec_opt set_output rest base = Some full"
    by (auto simp: rest_def full_def dec_opt_append set_output_def keys_lower dec_opt_member base_def)
  have a: "dec_opt set_output (ptr_member audio_members ''audio'' (oi_audio v)) full = Some v"
  proof (cases "oi_audio v")
    case None
    then show ?thesis by (simp add: ptr_member_def full_def base_def)
  next
    case (Some x)
    then obtain jx where jx: "map_option JObj (members (audio_members x)) = Some jx"
      using assms(1) members_all by (fastforce simp: output_members_def ptr_member_def)
    have "dec_ptr set_audio zero_audio jx None = Some (Some x)" by (rule audio_back [OF jx])
    with Some show ?thesis
      by (simp add: ptr_member_def jx set_output_def keys_lower full_def base_def)
  qed
  have "dec_opt set_output (output_members v) zero_output = Some v"
    using b r a by (simp add: m dec_opt_append del: append.simps append_assoc flip: append_assoc)
  then show ?thesis by (simp add: dec_ptr_members [OF assms(1)])
qed

lemma status_back [simp]: "status_of (status_text s) = Some s"
  by (cases s) (simp_all add: status_of_def)

lemma ptr_member_back:
  assumes "\<And>x. (k, x) \<in> set (ptr_member f k p) \<Longrightarrow> \<exists>y. x = Some y"
    and "\<And>v y. p = Some v \<Longrightarrow> map_option JObj (members (f v)) = Some y \<Longrightarrow> dec_ptr g z y None = Some (Some v)"
    and "\<And>y. s (to_lower k) y b = map_option u (dec_ptr g z y None)" and "u None = b"
  shows "dec_opt s (ptr_member f k p) b = Some (u p)"
proof (cases p)
  case (Some v)
  with assms(1) obtain y where y: "map_option JObj (members (f v)) = Some y" by (auto simp: ptr_member_def)
  from assms(2) [OF Some y] show ?thesis by (simp add: Some ptr_member_def y assms(3))
qed (simp add: ptr_member_def assms(4))

lemma job_json_back:
  assumes "job_json j = Some d" "job_wf j"
  shows "dec_job d = Some j"
proof -
  define b1 where "b1 = zero_job\<lparr>j_id := j_id j, j_status := j_status j, j_input_path := j_input_path j,
    j_input_hash := j_input_hash j, j_chunk_duration := j_chunk_duration j\<rparr>"
  define b2 where "b2 = b1\<lparr>j_input := j_input j\<rparr>"
  define b3 where "b3 = b2\<lparr>j_output := j_output j\<rparr>"
  define b4 where "b4 = b3\<lparr>j_progress := j_progress j\<rparr>"
  define b5 where "b5 = b4\<lparr>j_meta := j_meta j\<rparr>"
  define b6 where "b6 = b5\<lparr>j_retries := j_retries j, j_max_retries := j_max_retries j\<rparr>"
  define b7 where "b7 = b6\<lparr>j_error := j_error j\<rparr>"
  define m1 where "m1 = [(''jobId'', Some (JStr (j_id j))), (''status'', Some (JStr (status_text (j_status j))))]
     @ opt_member (j_input_path j \<noteq> []) ''inputPath'' (Some (JStr (j_input_path j)))
     @ opt_member (j_input_hash j \<noteq> []) ''inputHash'' (Some (JStr (j_input_hash j)))
     @ opt_member (j_chunk_duration j \<noteq> 0) ''chunkDuration'' (Some (JInt (j_chunk_duration j)))"
  define m5 where "m5 = opt_member (j_retries j \<noteq> 0) ''retries'' (Some (JInt (j_retries j)))
     @ opt_member (j_max_retries j \<noteq> 0) ''maxRetries'' (Some (JInt (j_max_retries j)))"
  have m: "job_members j = m1 @ ptr_member video_members ''input'' (j_input j) @ ptr_member output_members ''output'' (j_output j)
     @ ptr_member progress_members ''progress'' (j_progress j) @ [(''meta'', map_option JObj (members (meta_members (j_meta j))))]
     @ m5 @ ptr_member error_members ''error'' (j_error j)
     @ opt_member (j_message j \<noteq> []) ''message'' (Some (JStr (j_message j)))"
    by (simp add: job_members_def m1_def m5_def)
  have ok: "(k, x) \<in> set (job_members j) \<Longrightarrow> \<exists>y. x = Some y" for k x
    using assms(1) members_all by (auto simp: job_json_def)
  have ok': "(k, x) \<in> set (ptr_member f k p) \<Longrightarrow> \<exists>y. x = Some y" if "set (ptr_member f k p) \<subseteq> set (job_members j)"
    for k x and f :: "'x \<Rightarrow> (string \<times> json option) list" and p
    using ok that by blast
  note bs = b7_def b6_def b5_def b4_def b3_def b2_def b1_def
  note wf = assms(2) [unfolded job_wf_def]
  have s1: "dec_opt set_job m1 zero_job = Some b1"
    using assms(2) by (auto simp: m1_def b1_def dec_opt_append set_job_def keys_lower dec_opt_member dec_status_def job_wf_def zero_job_def)
  have s2: "dec_opt set_job (ptr_member video_members ''input'' (j_input j)) b1 = Some b2" unfolding b2_def
    by (rule ptr_member_back [OF ok' video_back]) (use wf in \<open>auto simp: m set_job_def keys_lower bs zero_job_def\<close>)
  have s3: "dec_opt set_job (ptr_member output_members ''output'' (j_output j)) b2 = Some b3" unfolding b3_def
    by (rule ptr_member_back [OF ok' output_back]) (use wf in \<open>auto simp: m set_job_def keys_lower bs zero_job_def\<close>)
  have s4: "dec_opt set_job (ptr_member progress_members ''progress'' (j_progress j)) b3 = Some b4" unfolding b4_def
    by (rule ptr_member_back [OF ok' progress_back]) (use wf in \<open>auto simp: m set_job_def keys_lower bs zero_job_def\<close>)
  have s5: "dec_opt set_job [(''meta'', map_option JObj (members (meta_members (j_meta j))))] b4 = Some b5"
  proof -
    obtain y where y: "map_option JObj (members (meta_members (j_meta j))) = Some y"
      using ok [of "''meta''"] by (fastforce simp: m)
    have "dec_struct set_meta y (j_meta zero_job) = Some (j_meta j)"
      using assms(2) by (intro meta_back [OF y]) (simp add: job_wf_def)
    then show ?thesis by (simp add: y set_job_def keys_lower bs zero_job_def)
  qed
  have s6: "dec_opt set_job m5 b5 = Some b6"
    using assms(2) by (auto simp: m5_def dec_opt_append set_job_def keys_lower dec_opt_member job_wf_def bs zero_job_def)
  have s7: "dec_opt set_job (ptr_member error_members ''error'' (j_error j)) b6 = Some b7" unfolding b7_def
    by (rule ptr_member_back [OF ok' error_back]) (auto simp: m set_job_def keys_lower bs zero_job_def)
  have s8: "dec_opt set_job (opt_member (j_message j \<noteq> []) ''message'' (Some (JStr (j_message j)))) b7 = Some j"
    by (auto simp: dec_opt_member set_job_def keys_lower bs zero_job_def)
  have "dec_opt set_job (job_members j) zero_job = Some j"
    by (simp only: m dec_opt_append s1 s2 s3 s4 s5 s6 s7 s8 option.case)
  moreover have "dec_struct set_job d zero_job = dec_opt set_job (job_members j) zero_job"
    using assms(1) by (intro dec_struct_members) (simp only: job_json_def)
  ultimately show ?thesis by (simp add: dec_job_def)
qed

interpretation job_doc: json_codec job_json dec_job job_wf
  by unfold_locales (rule job_json_back)

end
