(* ===== verification/Disk_Service.thy ===== *)
theory Disk_Service
  imports Float64 Os Config "HOL-Library.Multiset"
begin

text \<open>
  \<open>internal/application/services/disk_service.go\<close> and \<open>pkg/utils/disk.go\<close>: how full the disk
  is, whether a job may be accepted, the size limit of a job, and the clean-up.

  The numbers of the file system are unsigned 64-bit words, the percentages binary64 numbers, as
  in the code. \<open>sort.Slice\<close> is insertion sort, which is what it is for up to twelve elements; for more it
  gives some sorted order, and the lemmas use only what every sort gives (locale \<open>slice_order\<close>: the same elements,
  in an order that no comparison contradicts). The clock is read once for all comparisons of a sort. What the code logs is left out, the clock reading for it is not.
\<close>

section \<open>\<open>utils/disk.go\<close>\<close>

definition os_statfs :: "string \<Rightarrow> 'a os_scheme \<Rightarrow> (err + statfs_buf) \<times> 'a os_scheme" where
  "os_statfs p w = (case statfs w (tick w) of Inl m \<Rightarrow> Inl (Err m) | Inr b \<Rightarrow> Inr b, advance w)"

definition f_of_uint64 :: "64 word \<Rightarrow> float64" where
  "f_of_uint64 x = f_of_int (uint x)"

definition usage_percent :: "statfs_buf \<Rightarrow> float64" where
  "usage_percent b =
     (let total = st_blocks b * st_bsize b; free = st_bfree b * st_bsize b; used = total - free
      in fmul (fdiv (f_of_uint64 used) (f_of_uint64 total)) (Fin 100))"

definition GetDiskUsagePercent :: "string \<Rightarrow> 'a os_scheme \<Rightarrow> (float64 \<times> err option) \<times> 'a os_scheme" where
  "GetDiskUsagePercent p w =
     (case os_statfs p w of
        (Inl e, w1) \<Rightarrow> ((Fin 0, Some (wrap ''failed to get disk stats'' e)), w1)
      | (Inr b, w1) \<Rightarrow> ((usage_percent b, None), w1))"

definition GetDiskSpace :: "string \<Rightarrow> 'a os_scheme \<Rightarrow> (err + 64 word \<times> 64 word \<times> 64 word) \<times> 'a os_scheme" where
  "GetDiskSpace p w =
     (case os_statfs p w of
        (Inl e, w1) \<Rightarrow> (Inl (wrap ''failed to get disk stats'' e), w1)
      | (Inr b, w1) \<Rightarrow>
          (let total = st_blocks b * st_bsize b; free = st_bfree b * st_bsize b
           in (Inr (total, total - free, free), w1)))"

section \<open>Accepting jobs\<close>

text \<open>The verb \<open>%.1f\<close>.\<close>

definition fmt_f1 :: "float64 \<Rightarrow> string" where
  "fmt_f1 x = (case x of
     Fin q \<Rightarrow> (let n = nat (rne (\<bar>q\<bar> * 10)) in
        (if q < 0 then ''-'' else []) @ show_nat (n div 10) @ ''.'' @ show_nat (n mod 10))
   | PInf \<Rightarrow> ''+Inf'' | NInf \<Rightarrow> ''-Inf'' | NaN \<Rightarrow> ''NaN'')"

definition threshold :: "config \<Rightarrow> float64" where
  "threshold cfg = f_of_int (dc_threshold (cf_disk cfg))"

definition CanAcceptNewJob :: "config \<Rightarrow> 'a os_scheme \<Rightarrow> (bool \<times> string) \<times> 'a os_scheme" where
  "CanAcceptNewJob cfg w =
     (case GetDiskUsagePercent ''.'' w of
        ((_, Some e), w1) \<Rightarrow> ((False, ''Failed to check disk usage: '' @ error_text e), w1)
      | ((usage, None), w1) \<Rightarrow>
          if fle (threshold cfg) usage
          then ((False, ''Disk usage at '' @ fmt_f1 usage @ ''%, exceeds threshold of ''
                   @ show_int (dc_threshold (cf_disk cfg)) @ ''%''), w1)
          else ((True, []), w1))"

section \<open>Deleting and measuring a job\<close>

definition output_path :: "config \<Rightarrow> string \<Rightarrow> string" where
  "output_path cfg jobID = join_path [outputs cfg, jobID]"

definition chunk_path :: "config \<Rightarrow> string \<Rightarrow> string" where
  "chunk_path cfg jobID = join_path [chunks_dir (cf_storage cfg), jobID]"

definition tmp_path :: "config \<Rightarrow> string \<Rightarrow> string" where
  "tmp_path cfg jobID = join_path [tmp_dir (cf_storage cfg), jobID]"

definition DeleteJobFiles :: "config \<Rightarrow> string \<Rightarrow> 'a os_scheme \<Rightarrow> (err + unit) \<times> 'a os_scheme" where
  "DeleteJobFiles cfg jobID w =
     (case RemoveDir (output_path cfg jobID) w of
        (Inl e, w1) \<Rightarrow> (Inl (wrap ''failed to delete output dir'' e), w1)
      | (Inr _, w1) \<Rightarrow>
          (case RemoveDir (chunk_path cfg jobID) w1 of
             (Inl e, w2) \<Rightarrow> (Inl (wrap ''failed to delete chunk dir'' e), w2)
           | (Inr _, w2) \<Rightarrow> (Inr (), w2)))"

definition dir_size_if_exists :: "string \<Rightarrow> string \<Rightarrow> 'a os_scheme \<Rightarrow> (err + int) \<times> 'a os_scheme" where
  "dir_size_if_exists what dir w =
     (case FileExists dir w of
        (False, w1) \<Rightarrow> (Inr 0, w1)
      | (True, w1) \<Rightarrow>
          (case GetDirSize dir w1 of
             ((_, Some e), w2) \<Rightarrow> (Inl (wrap (''failed to get '' @ what @ '' dir size'') e), w2)
           | ((bytes, None), w2) \<Rightarrow> (Inr bytes, w2)))"

definition GetJobSize :: "config \<Rightarrow> string \<Rightarrow> 'a os_scheme \<Rightarrow> (err + int) \<times> 'a os_scheme" where
  "GetJobSize cfg jobID w =
     (case dir_size_if_exists ''output'' (output_path cfg jobID) w of
        (Inl e, w1) \<Rightarrow> (Inl e, w1)
      | (Inr a, w1) \<Rightarrow>
          (case dir_size_if_exists ''chunk'' (chunk_path cfg jobID) w1 of
             (Inl e, w2) \<Rightarrow> (Inl e, w2)
           | (Inr b, w2) \<Rightarrow> (Inr (wrap64 (wrap64 a + b)), w2)))"

definition max_job_bytes :: "config \<Rightarrow> int" where
  "max_job_bytes cfg = wrap64 (wrap64 (dc_max_job_size (cf_disk cfg) * 1024) * 1024)"

definition CheckJobSizeLimit :: "config \<Rightarrow> string \<Rightarrow> 'a os_scheme \<Rightarrow> (err + bool \<times> int) \<times> 'a os_scheme" where
  "CheckJobSizeLimit cfg jobID w =
     (case GetJobSize cfg jobID w of
        (Inl e, w1) \<Rightarrow> (Inl e, w1)
      | (Inr currentSize, w1) \<Rightarrow>
          (let currentSizeMB = quot currentSize 1048576
           in if currentSize > max_job_bytes cfg then (Inr (False, currentSizeMB), w1)
              else (Inr (True, currentSizeMB), w1)))"

definition EnforceJobSizeLimit :: "config \<Rightarrow> string \<Rightarrow> 'a os_scheme \<Rightarrow> (err + unit) \<times> 'a os_scheme" where
  "EnforceJobSizeLimit cfg jobID w =
     (case CheckJobSizeLimit cfg jobID w of
        (Inl e, w1) \<Rightarrow> (Inl (wrap ''failed to check job size'' e), w1)
      | (Inr (withinLimit, currentSizeMB), w1) \<Rightarrow>
          if \<not> withinLimit
          then (let (_, w2) = DeleteJobFiles cfg jobID w1
                in (Inl (Err (''job size limit exceeded: '' @ show_int currentSizeMB @ '' MB / ''
                          @ show_int (dc_max_job_size (cf_disk cfg)) @ '' MB'')), w2))
          else (Inr (), w1))"

definition GetJobSizeMB :: "config \<Rightarrow> string \<Rightarrow> 'a os_scheme \<Rightarrow> (err + int) \<times> 'a os_scheme" where
  "GetJobSizeMB cfg jobID w =
     (case GetJobSize cfg jobID w of
        (Inl e, w1) \<Rightarrow> (Inl e, w1)
      | (Inr n, w1) \<Rightarrow> (Inr (quot n 1048576), w1))"

definition CleanupIntermediateFiles :: "config \<Rightarrow> string \<Rightarrow> 'a os_scheme \<Rightarrow> (err + unit) \<times> 'a os_scheme" where
  "CleanupIntermediateFiles cfg jobID w =
     (let (ex, w1) = FileExists (chunk_path cfg jobID) w;
          (r, w2) = (if ex then RemoveDir (chunk_path cfg jobID) w1 else (Inr (), w1))
      in case r of
           Inl e \<Rightarrow> (Inl (wrap ''failed to remove chunks'' e), w2)
         | Inr _ \<Rightarrow>
             (let (ex, w3) = FileExists (tmp_path cfg jobID) w2;
                  (r, w4) = (if ex then RemoveDir (tmp_path cfg jobID) w3 else (Inr (), w3))
              in case r of
                   Inl e \<Rightarrow> (Inl (wrap ''failed to remove tmp files'' e), w4)
                 | Inr _ \<Rightarrow> (Inr (), w4)))"

section \<open>Which jobs to clean up\<close>

record job_dir_info =
  ji_id :: string
  ji_mod_time :: go_time
  ji_size :: int
  ji_status :: string

definition set_status_field :: "string \<Rightarrow> json \<Rightarrow> string \<Rightarrow> string option" where
  "set_status_field k j s = (if k = ''status'' then dec_string j s else Some s)"

definition getJobStatus :: "config \<Rightarrow> string \<Rightarrow> 'a os_scheme \<Rightarrow> string \<times> 'a os_scheme" where
  "getJobStatus cfg jobID w =
     (let stateFile = join_path [outputs cfg, jobID, ''state.json'']
      in case FileExists stateFile w of
           (False, w1) \<Rightarrow> (''unknown'', w1)
         | (True, w1) \<Rightarrow>
             (case os_read_file stateFile w1 of
                (Inr (Doc j), w2) \<Rightarrow>
                  (case dec_struct set_status_field j [] of None \<Rightarrow> ''unknown'' | Some s \<Rightarrow> s, w2)
              | (_, w2) \<Rightarrow> (''unknown'', w2)))"

definition day :: duration where "day = 24 * hour"

definition getCleanupPriority :: "go_time \<Rightarrow> bool \<Rightarrow> job_dir_info \<Rightarrow> int" where
  "getCleanupPriority now isEmergency job =
     (let age = time_sub now (ji_mod_time job); st = ji_status job
      in if st = ''FAILED'' \<or> st = ''failed'' then 100
         else if st = ''INTERRUPTED'' \<or> st = ''interrupted'' then (if age > day then 90 else 50)
         else if st = ''COMPLETED'' \<or> st = ''completed''
         then (if isEmergency then (if age > 3 * day then 80 else 40)
               else if age > 7 * day then 70 else 30)
         else if st = ''PARTIAL_SUCCESS'' \<or> st = ''partial_success'' then (if age > 7 * day then 60 else 25)
         else if age > 30 * day then 50 else 20)"

text \<open>One round of insertion sort: the new element moves left past the elements it is less than.\<close>

fun ins_left :: "('a \<Rightarrow> 'a \<Rightarrow> bool) \<Rightarrow> 'a \<Rightarrow> 'a list \<Rightarrow> 'a list" where
  "ins_left lt x [] = [x]"
| "ins_left lt x (y # ys) = (if lt x y then y # ins_left lt x ys else x # y # ys)"

definition sort_slice :: "('a \<Rightarrow> 'a \<Rightarrow> bool) \<Rightarrow> 'a list \<Rightarrow> 'a list" where
  "sort_slice lt xs = rev (fold (ins_left lt) xs [])"

definition cleanup_before :: "go_time \<Rightarrow> bool \<Rightarrow> job_dir_info \<Rightarrow> job_dir_info \<Rightarrow> bool" where
  "cleanup_before now isEmergency a b =
     (let p = getCleanupPriority now isEmergency a; q = getCleanupPriority now isEmergency b
      in if p \<noteq> q then p > q else ji_mod_time a < ji_mod_time b)"

text \<open>The loop over the entries of the output directory. \<open>entry.Info\<close> is a call that may fail.\<close>

fun collect_jobs :: "config \<Rightarrow> string list \<Rightarrow> 'a os_scheme \<Rightarrow> job_dir_info list \<times> 'a os_scheme" where
  "collect_jobs cfg [] w = ([], w)"
| "collect_jobs cfg (name # names) w =
     (let p = (fst (parse_path (outputs cfg)), snd (parse_path (outputs cfg)) @ [name])
      in if \<not> is_dir_at (fs w) p then collect_jobs cfg names w
         else let ok = (io w (tick w) = IO_ok); w1 = advance w
              in case lookup (fs w) p of
                   Some (Dir t) \<Rightarrow>
                     if \<not> ok then collect_jobs cfg names w1
                     else let ((bytes, _), w2) = GetDirSize (output_path cfg name) w1;
                              (status, w3) = getJobStatus cfg name w2;
                              (jobs, w4) = collect_jobs cfg names w3
                          in (\<lparr>ji_id = name, ji_mod_time = t, ji_size = bytes, ji_status = status\<rparr> # jobs, w4)
                 | _ \<Rightarrow> collect_jobs cfg names w1)"

definition getJobsForCleanup :: "config \<Rightarrow> bool \<Rightarrow> 'a os_scheme \<Rightarrow> (err + job_dir_info list) \<times> 'a os_scheme" where
  "getJobsForCleanup cfg isEmergency w =
     (case os_read_dir (outputs cfg) w of
        (Inl e, w1) \<Rightarrow> (Inl e, w1)
      | (Inr names, w1) \<Rightarrow>
          (let (jobs, w2) = collect_jobs cfg names w1; (now, w3) = time_now w2
           in (Inr (sort_slice (cleanup_before now isEmergency) jobs), w3)))"

text \<open>The result of the loop is the number of jobs removed and the bytes they held.\<close>

fun cleanup_loop ::
    "config \<Rightarrow> float64 \<Rightarrow> job_dir_info list \<Rightarrow> nat \<times> int \<Rightarrow> 'a os_scheme \<Rightarrow> (nat \<times> int) \<times> 'a os_scheme" where
  "cleanup_loop cfg targetUsage [] acc w = (acc, w)"
| "cleanup_loop cfg targetUsage (job # jobs) (cleaned, freed) w =
     (let ((currentUsage, _), w1) = GetDiskUsagePercent ''.'' w
      in if flt currentUsage targetUsage then ((cleaned, freed), w1)
         else let (_, w2) = time_now w1; (r, w3) = DeleteJobFiles cfg (ji_id job) w2
              in case r of
                   Inl _ \<Rightarrow> cleanup_loop cfg targetUsage jobs (cleaned, freed) w3
                 | Inr _ \<Rightarrow> cleanup_loop cfg targetUsage jobs (Suc cleaned, wrap64 (freed + ji_size job)) w3)"

definition AutoCleanup :: "config \<Rightarrow> 'a os_scheme \<Rightarrow> (err + nat) \<times> 'a os_scheme" where
  "AutoCleanup cfg w =
     (case GetDiskUsagePercent ''.'' w of
        ((_, Some e), w1) \<Rightarrow> (Inl e, w1)
      | ((usage, None), w1) \<Rightarrow>
          if flt usage (threshold cfg) then (Inr 0, w1)
          else let isEmergency = fle (f_of_int (dc_hard_limit (cf_disk cfg))) usage;
                   targetUsage = fsub (threshold cfg) (if isEmergency then Fin 10 else Fin 5)
               in case getJobsForCleanup cfg isEmergency w1 of
                    (Inl e, w2) \<Rightarrow> (Inl e, w2)
                  | (Inr jobs, w2) \<Rightarrow>
                      (let ((cleaned, _), w3) = cleanup_loop cfg targetUsage jobs (0, 0) w2;
                           (_, w4) = GetDiskUsagePercent ''.'' w3
                       in (Inr cleaned, w4)))"

definition GetOutputsDir :: "config \<Rightarrow> string" where
  "GetOutputsDir cfg = outputs cfg"

section \<open>Sorting\<close>

text \<open>What \<open>sort.Slice\<close> asks of its comparison, and what it gives for it.\<close>

locale slice_order =
  fixes lt :: "'a \<Rightarrow> 'a \<Rightarrow> bool"
  assumes asym: "lt x y \<Longrightarrow> \<not> lt y x"
    and neg_trans: "\<not> lt x y \<Longrightarrow> \<not> lt y z \<Longrightarrow> \<not> lt x z"
begin

lemma set_ins_left: "set (ins_left lt x ys) = insert x (set ys)"
  by (induction ys) auto

lemma mset_ins_left: "mset (ins_left lt x ys) = add_mset x (mset ys)"
  by (induction ys) auto

lemma sorted_ins_left: "sorted_wrt (\<lambda>a b. \<not> lt a b) ys \<Longrightarrow> sorted_wrt (\<lambda>a b. \<not> lt a b) (ins_left lt x ys)"
proof (induction ys)
  case (Cons y ys)
  show ?case
  proof (cases "lt x y")
    case True
    then have "\<not> lt y x" by (rule asym)
    with Cons True show ?thesis by (simp add: set_ins_left)
  next
    case False
    then have "\<not> lt x z" if "z \<in> set ys" for z using neg_trans [of x y z] Cons.prems that by simp
    with Cons.prems False show ?thesis by simp
  qed
qed simp

lemma fold_ins_left:
  "sorted_wrt (\<lambda>a b. \<not> lt a b) acc \<Longrightarrow>
     sorted_wrt (\<lambda>a b. \<not> lt a b) (fold (ins_left lt) xs acc) \<and> mset (fold (ins_left lt) xs acc) = mset xs + mset acc"
  by (induction xs arbitrary: acc) (simp_all add: sorted_ins_left mset_ins_left)

lemma mset_sort_slice: "mset (sort_slice lt xs) = mset xs"
  using fold_ins_left [of "[]" xs] by (simp add: sort_slice_def)

lemma sorted_sort_slice: "sorted_wrt (\<lambda>a b. \<not> lt b a) (sort_slice lt xs)"
  using fold_ins_left [of "[]" xs] by (simp add: sort_slice_def sorted_wrt_rev)

end

interpretation cleanup_order: slice_order "cleanup_before now isEmergency"
  by unfold_locales (auto simp: cleanup_before_def Let_def split: if_splits)

section \<open>What the operations do\<close>

lemma statfs_frame [simp]: "os_frame w (snd (os_statfs p w))" "fs (snd (os_statfs p w)) = fs w"
  by (simp_all add: os_statfs_def)

lemma usage_frame [simp]: "os_frame w (snd (GetDiskUsagePercent p w))" "fs (snd (GetDiskUsagePercent p w)) = fs w"
  by (simp_all add: GetDiskUsagePercent_def case_prod_beta split: sum.split)

lemma output_path_parse:
  "outputs cfg \<noteq> [] \<Longrightarrow> plain i \<Longrightarrow> parse_path (output_path cfg i) = (rooted (outputs cfg), comps (outputs cfg) @ [i])"
  by (simp add: output_path_def parse_join_plain)

lemma chunk_path_parse:
  "chunks_dir (cf_storage cfg) \<noteq> [] \<Longrightarrow> plain i \<Longrightarrow>
     parse_path (chunk_path cfg i) = (rooted (chunks_dir (cf_storage cfg)), comps (chunks_dir (cf_storage cfg)) @ [i])"
  by (simp add: chunk_path_def parse_join_plain)

lemma RemoveDir_frame_good: "io_good w \<Longrightarrow> io_good (snd (RemoveDir p w))"
  using os_frame_io_good [OF os_frame_utils(3)] by blast

lemma DeleteJobFiles_good:
  assumes "io_good w"
  shows "fst (DeleteJobFiles cfg i w) = Inr ()"
    and "snd (DeleteJobFiles cfg i w) = snd (RemoveDir (chunk_path cfg i) (snd (RemoveDir (output_path cfg i) w)))"
  using assms RemoveDir_ok [OF assms] RemoveDir_ok [OF RemoveDir_frame_good [OF assms]]
  by (simp_all add: DeleteJobFiles_def case_prod_beta split: sum.split)

lemma DeleteJobFiles_frame [simp]: "os_frame w (snd (DeleteJobFiles cfg i w))"
  by (simp add: DeleteJobFiles_def case_prod_beta os_frame_trans [OF os_frame_utils(3) os_frame_utils(3)] split: sum.split)

lemma DeleteJobFiles_other:
  assumes "io_good w" "\<not> under (parse_path (output_path cfg i)) q" "\<not> under (parse_path (chunk_path cfg i)) q"
    "q \<noteq> parent (parse_path (output_path cfg i))" "q \<noteq> parent (parse_path (chunk_path cfg i))"
  shows "lookup (fs (snd (DeleteJobFiles cfg i w))) q = lookup (fs w) q"
  using DeleteJobFiles_good(2) [OF assms(1)] RemoveDir_other [OF assms(1,2,4)]
    RemoveDir_other [OF RemoveDir_frame_good [OF assms(1)] assms(3,5)] by simp

lemma lookup_RemoveDir_under:
  assumes "io_good w" "under (parse_path p) q"
  shows "lookup (fs (snd (RemoveDir p w))) q = None \<or>
    (lookup (fs w) (parse_path p) = None \<and> lookup (fs (snd (RemoveDir p w))) q = lookup (fs w) q)"
proof (cases "lookup (fs w) (parse_path p)")
  case None
  with assms(1) show ?thesis by (simp add: RemoveDir_def FileExists_def os_stat_def advance_def)
next
  case (Some n)
  then show ?thesis using RemoveDir_gone [OF assms(1)] assms(2) by simp
qed

lemma RemoveDir_keeps_none: "lookup (fs w) q = None \<Longrightarrow> lookup (fs (snd (RemoveDir p w))) q = None"
proof -
  assume n: "lookup (fs w) q = None"
  have t: "lookup (touch r t m) q = None" if "lookup m q = None" for r t and m :: "(path, node) gomap"
    using that by (auto simp: lookup_touch is_dir_at_def)
  have rt: "lookup (remove_tree r (fs w)) q = None" for r using n by (simp add: lookup_remove_tree)
  have "lookup (fs (snd (os_remove_all p v))) q = None" if "fs v = fs w" for v :: "'a os_scheme"
    using that n t [OF rt] rt by (auto simp: os_remove_all_def Let_def is_dir_at_def lookup_remove_tree split: io_outcome.split)
  with n show ?thesis by (simp add: RemoveDir_def case_prod_beta)
qed

section \<open>Properties\<close>

text \<open>The jobs to clean up are the job directories found, each once, by descending priority and
the older one first within a priority.\<close>

theorem cleanup_order_spec:
  assumes "fst (getJobsForCleanup cfg em w) = Inr jobs"
  shows "\<exists>now names. mset jobs = mset (fst (collect_jobs cfg names (snd (os_read_dir (outputs cfg) w))))
    \<and> sorted_wrt (\<lambda>a b. getCleanupPriority now em b < getCleanupPriority now em a
        \<or> getCleanupPriority now em a = getCleanupPriority now em b \<and> ji_mod_time a \<le> ji_mod_time b) jobs"
proof -
  obtain names where n: "fst (os_read_dir (outputs cfg) w) = Inr names"
    using assms by (cases "fst (os_read_dir (outputs cfg) w)") (simp_all add: getJobsForCleanup_def case_prod_beta)
  let ?c = "collect_jobs cfg names (snd (os_read_dir (outputs cfg) w))"
  let ?now = "fst (time_now (snd ?c))"
  have j: "jobs = sort_slice (cleanup_before ?now em) (fst ?c)"
    using assms n by (simp add: getJobsForCleanup_def case_prod_beta)
  have "sorted_wrt (\<lambda>a b. \<not> cleanup_before ?now em b a) jobs"
    unfolding j by (rule cleanup_order.sorted_sort_slice)
  then have "sorted_wrt (\<lambda>a b. getCleanupPriority ?now em b < getCleanupPriority ?now em a
        \<or> getCleanupPriority ?now em a = getCleanupPriority ?now em b \<and> ji_mod_time a \<le> ji_mod_time b) jobs"
    by (rule sorted_wrt_mono_rel [rotated]) (auto simp: cleanup_before_def Let_def split: if_splits)
  then show ?thesis using j cleanup_order.mset_sort_slice by blast
qed

lemma dir_size_fs [simp]: "fs (snd (dir_size_if_exists what d w)) = fs w" "os_frame w (snd (dir_size_if_exists what d w))"
proof -
  show "fs (snd (dir_size_if_exists what d w)) = fs w"
    by (auto simp: dir_size_if_exists_def case_prod_beta split: bool.split option.split)
  show "os_frame w (snd (dir_size_if_exists what d w))"
    using os_frame_utils(1) [of w d] os_frame_trans [OF os_frame_utils(1) os_frame_utils(6)]
    by (auto simp: dir_size_if_exists_def case_prod_beta split: bool.split option.split)
qed

lemma GetJobSize_fs [simp]: "fs (snd (GetJobSize cfg i w)) = fs w" "os_frame w (snd (GetJobSize cfg i w))"
  by (simp_all add: GetJobSize_def case_prod_beta os_frame_trans [OF dir_size_fs(2) dir_size_fs(2)] split: sum.split)

lemma CheckJobSizeLimit_fs [simp]: "fs (snd (CheckJobSizeLimit cfg i w)) = fs w" "os_frame w (snd (CheckJobSizeLimit cfg i w))"
  by (simp_all add: CheckJobSizeLimit_def case_prod_beta Let_def split: sum.split)

text \<open>The paths the deletion of a job may touch.\<close>

definition job_paths :: "config \<Rightarrow> string \<Rightarrow> path \<Rightarrow> bool" where
  "job_paths cfg i q \<longleftrightarrow> under (parse_path (output_path cfg i)) q \<or> under (parse_path (chunk_path cfg i)) q
     \<or> q = parent (parse_path (output_path cfg i)) \<or> q = parent (parse_path (chunk_path cfg i))"

lemma under_trans: "under p q \<Longrightarrow> under q r \<Longrightarrow> under p r"
  by (auto simp: under_def intro: prefix_order.trans)

text \<open>What \<open>RemoveDir\<close> removes is under its path.\<close>

lemma RemoveDir_removes:
  assumes "io_good w" "lookup (fs w) q \<noteq> None" "lookup (fs (snd (RemoveDir p w))) q = None"
  shows "under (parse_path p) q"
  using assms
  by (auto simp: RemoveDir_def FileExists_def os_stat_def os_remove_all_def advance_def io_good_def Let_def lookup_touch
      lookup_remove_tree is_dir_at_def split: if_splits)

lemma DeleteJobFiles_gone:
  assumes "io_good w" "p \<in> {output_path cfg i, chunk_path cfg i}" "lookup (fs w) (parse_path p) \<noteq> None" "under (parse_path p) q"
  shows "lookup (fs (snd (DeleteJobFiles cfg i w))) q = None"
proof -
  let ?v = "snd (RemoveDir (output_path cfg i) w)"
  have g: "io_good ?v" by (rule RemoveDir_frame_good [OF assms(1)])
  have out: "lookup (fs ?v) x = None" if "under (parse_path (output_path cfg i)) x" "lookup (fs w) (parse_path (output_path cfg i)) \<noteq> None" for x
    using lookup_RemoveDir_under [OF assms(1) that(1)] that(2) by blast
  show ?thesis
  proof (cases "p = output_path cfg i")
    case True
    with out [of q] assms(3,4) RemoveDir_keeps_none [of ?v q] show ?thesis by (simp add: DeleteJobFiles_good(2) [OF assms(1)])
  next
    case False
    then have p: "p = chunk_path cfg i" using assms(2) by simp
    show ?thesis
    proof (cases "lookup (fs ?v) (parse_path p) = None")
      case True
      then have u: "under (parse_path (output_path cfg i)) (parse_path p)" using RemoveDir_removes [OF assms(1,3)] by blast
      have "lookup (fs w) (parse_path (output_path cfg i)) \<noteq> None"
      proof
        assume "lookup (fs w) (parse_path (output_path cfg i)) = None"
        then have "fs ?v = fs w" using assms(1) by (simp add: RemoveDir_def FileExists_def os_stat_def advance_def)
        with True assms(3) show False by simp
      qed
      with out [OF under_trans [OF u assms(4)]] RemoveDir_keeps_none [of ?v q] show ?thesis
        by (simp add: DeleteJobFiles_good(2) [OF assms(1)])
    next
      case False
      with lookup_RemoveDir_under [OF g assms(4)] show ?thesis unfolding DeleteJobFiles_good(2) [OF assms(1)] p by blast
    qed
  qed
qed

text \<open>C25. A job whose files exceed the limit is refused with an error and loses them, those of its output directory and those of
its chunk directory; nothing outside the two directories is touched but the time of the directory that
holds them. Within the limit nothing is touched at all.\<close>

theorem size_limit_enforced:
  assumes "io_good w" "fst (GetJobSize cfg i w) = Inr n"
  shows "if n > max_job_bytes cfg
    then (\<exists>e. fst (EnforceJobSizeLimit cfg i w) = Inl e)
      \<and> (\<forall>p\<in>{output_path cfg i, chunk_path cfg i}. lookup (fs w) (parse_path p) \<noteq> None \<longrightarrow>
          (\<forall>q. under (parse_path p) q \<longrightarrow> lookup (fs (snd (EnforceJobSizeLimit cfg i w))) q = None))
      \<and> (\<forall>q. \<not> job_paths cfg i q \<longrightarrow> lookup (fs (snd (EnforceJobSizeLimit cfg i w))) q = lookup (fs w) q)
    else fst (EnforceJobSizeLimit cfg i w) = Inr () \<and> fs (snd (EnforceJobSizeLimit cfg i w)) = fs w"
proof -
  let ?w1 = "snd (CheckJobSizeLimit cfg i w)"
  have c: "fst (CheckJobSizeLimit cfg i w) = Inr (n \<le> max_job_bytes cfg, quot n 1048576)"
    using assms(2) by (simp add: CheckJobSizeLimit_def case_prod_beta Let_def)
  have good: "io_good ?w1" using assms(1) os_frame_io_good [OF CheckJobSizeLimit_fs(2) [of w cfg i]] by simp
  show ?thesis
  proof (cases "n > max_job_bytes cfg")
    case True
    with c have e: "snd (EnforceJobSizeLimit cfg i w) = snd (DeleteJobFiles cfg i ?w1)" "\<exists>e. fst (EnforceJobSizeLimit cfg i w) = Inl e"
      by (simp_all add: EnforceJobSizeLimit_def case_prod_beta Let_def)
    show ?thesis using True e DeleteJobFiles_gone [OF good, of _ cfg i] DeleteJobFiles_other [OF good, of cfg i]
      by (simp add: job_paths_def)
  next
    case False
    with c show ?thesis by (simp add: EnforceJobSizeLimit_def case_prod_beta)
  qed
qed

definition usage_reading :: "'a os_scheme \<Rightarrow> nat \<Rightarrow> float64" where
  "usage_reading w n = (case statfs w n of Inl _ \<Rightarrow> Fin 0 | Inr b \<Rightarrow> usage_percent b)"

lemma usage_is_reading: "fst (fst (GetDiskUsagePercent p w)) = usage_reading w (tick w)"
  by (simp add: GetDiskUsagePercent_def os_statfs_def usage_reading_def split: sum.split)

lemma usage_reading_frame: "os_frame w w' \<Longrightarrow> usage_reading w' = usage_reading w"
  by (auto simp: os_frame_def usage_reading_def fun_eq_iff)

lemma Dir_gone: "io_good w \<Longrightarrow> lookup (fs (snd (DeleteJobFiles cfg i w))) (parse_path (output_path cfg i)) = None"
  using DeleteJobFiles_good(2) [of w cfg i] RemoveDir_keeps_none
    lookup_RemoveDir_under [of w "output_path cfg i" "parse_path (output_path cfg i)"]
  by (metis under_refl)

lemma DeleteJobFiles_keeps_none:
  "io_good w \<Longrightarrow> lookup (fs w) q = None \<Longrightarrow> lookup (fs (snd (DeleteJobFiles cfg i w))) q = None"
  by (simp add: DeleteJobFiles_good(2) RemoveDir_keeps_none)

lemma cleanup_loop_spec:
  fixes w :: "'a os_scheme"
  assumes "io_good w" "cleanup_loop cfg t jobs (c, f) w = ((c', f'), w')"
  shows "\<exists>k \<le> length jobs. c' = c + k \<and> os_frame w w'
    \<and> (\<forall>j \<in> set (take k jobs). lookup (fs w') (parse_path (output_path cfg (ji_id j))) = None)
    \<and> (\<forall>q. lookup (fs w) q = None \<longrightarrow> lookup (fs w') q = None)
    \<and> (\<forall>q. (\<forall>j \<in> set (take k jobs). \<not> job_paths cfg (ji_id j) q) \<longrightarrow> lookup (fs w') q = lookup (fs w) q)
    \<and> (k < length jobs \<longrightarrow> (\<exists>n. flt (usage_reading w n) t))
    \<and> (0 < k \<longrightarrow> (\<exists>n. \<not> flt (usage_reading w n) t))"
  using assms
proof (induction jobs arbitrary: c f w)
  case Nil
  then show ?case by simp
next
  case (Cons job jobs)
  let ?g = "GetDiskUsagePercent ''.'' w"
  let ?w2 = "snd (time_now (snd ?g))"
  let ?w3 = "snd (DeleteJobFiles cfg (ji_id job) ?w2)"
  show ?case
  proof (cases "flt (usage_reading w (tick w)) t")
    case True
    then have "w' = snd ?g" "c' = c"
      using Cons.prems(2) by (simp_all add: case_prod_beta usage_is_reading)
    with True show ?thesis by (intro exI [where x = 0]) auto
  next
    case False
    have f2: "os_frame w ?w2" by (rule os_frame_trans [OF usage_frame(1) os_frame_time_now])
    then have g2: "io_good ?w2" using Cons.prems(1) os_frame_io_good by blast
    have f3: "os_frame w ?w3" by (rule os_frame_trans [OF f2 DeleteJobFiles_frame])
    then have g3: "io_good ?w3" using Cons.prems(1) os_frame_io_good by blast
    have fs2: "fs ?w2 = fs w" by simp
    have st: "cleanup_loop cfg t jobs (Suc c, wrap64 (f + ji_size job)) ?w3 = ((c', f'), w')"
      using Cons.prems(2) False DeleteJobFiles_good(1) [OF g2, of cfg "ji_id job"]
      by (simp add: case_prod_beta usage_is_reading)
    from Cons.IH [OF g3 st] obtain k where k: "k \<le> length jobs" "c' = Suc c + k" "os_frame ?w3 w'"
      "\<forall>j \<in> set (take k jobs). lookup (fs w') (parse_path (output_path cfg (ji_id j))) = None"
      "\<forall>q. lookup (fs ?w3) q = None \<longrightarrow> lookup (fs w') q = None"
      "\<forall>q. (\<forall>j \<in> set (take k jobs). \<not> job_paths cfg (ji_id j) q) \<longrightarrow> lookup (fs w') q = lookup (fs ?w3) q"
      "k < length jobs \<longrightarrow> (\<exists>n. flt (usage_reading w n) t)"
      using usage_reading_frame [OF f3] by auto
    have gone: "lookup (fs w') (parse_path (output_path cfg (ji_id job))) = None"
      using k(5) Dir_gone [OF g2] by blast
    have none: "lookup (fs w) q = None \<longrightarrow> lookup (fs w') q = None" for q
      using k(5) DeleteJobFiles_keeps_none [OF g2, of q cfg "ji_id job"] fs2 by metis
    have other: "lookup (fs w') q = lookup (fs w) q"
      if "\<forall>j \<in> set (take (Suc k) (job # jobs)). \<not> job_paths cfg (ji_id j) q" for q
    proof -
      have "\<not> job_paths cfg (ji_id job) q" "\<forall>j \<in> set (take k jobs). \<not> job_paths cfg (ji_id j) q" using that by simp_all
      then show ?thesis
        using k(6) [rule_format, of q] DeleteJobFiles_other [OF g2, of cfg "ji_id job" q] fs2 by (simp add: job_paths_def)
    qed
    show ?thesis
      using k f3 gone none other False
      by (intro exI [where x = "Suc k"] conjI) (auto intro: os_frame_trans)
  qed
qed

text \<open>The worlds in which the loop looks at the usage: it stops at the first reading below the target.\<close>

lemma cleanup_loop_trace:
  fixes w :: "'a os_scheme"
  assumes "io_good w"
  shows "\<exists>vs. length vs \<le> Suc (length jobs) \<and> fst (fst (cleanup_loop cfg t jobs (c, f) w)) + 1 = c + length vs \<and> vs ! 0 = w
    \<and> (\<forall>i. Suc i < length vs \<longrightarrow> \<not> flt (fst (fst (GetDiskUsagePercent ''.'' (vs ! i)))) t
         \<and> vs ! Suc i = snd (DeleteJobFiles cfg (ji_id (jobs ! i)) (snd (time_now (snd (GetDiskUsagePercent ''.'' (vs ! i)))))))
    \<and> (length vs \<le> length jobs \<longrightarrow> flt (fst (fst (GetDiskUsagePercent ''.'' (last vs)))) t) \<and> vs \<noteq> []"
  using assms
proof (induction jobs arbitrary: c f w)
  case Nil
  then show ?case by (intro exI [of _ "[w]"]) simp
next
  case (Cons job jobs)
  let ?g = "GetDiskUsagePercent ''.'' w"
  let ?w2 = "snd (time_now (snd ?g))"
  let ?w3 = "snd (DeleteJobFiles cfg (ji_id job) ?w2)"
  show ?case
  proof (cases "flt (fst (fst ?g)) t")
    case True
    then show ?thesis by (intro exI [of _ "[w]"]) (simp add: case_prod_beta)
  next
    case False
    have g2: "io_good ?w2" using Cons.prems os_frame_io_good [OF os_frame_trans [OF usage_frame(1) os_frame_time_now]] by blast
    then have g3: "io_good ?w3" using os_frame_io_good [OF DeleteJobFiles_frame] by blast
    have st: "cleanup_loop cfg t (job # jobs) (c, f) w = cleanup_loop cfg t jobs (Suc c, wrap64 (f + ji_size job)) ?w3"
      using False DeleteJobFiles_good(1) [OF g2, of cfg "ji_id job"] by (simp add: case_prod_beta)
    from Cons.IH [OF g3, of "Suc c" "wrap64 (f + ji_size job)"] obtain vs where vs: "length vs \<le> Suc (length jobs)"
      "fst (fst (cleanup_loop cfg t jobs (Suc c, wrap64 (f + ji_size job)) ?w3)) + 1 = Suc c + length vs" "vs ! 0 = ?w3"
      "\<And>i. Suc i < length vs \<Longrightarrow> \<not> flt (fst (fst (GetDiskUsagePercent ''.'' (vs ! i)))) t
         \<and> vs ! Suc i = snd (DeleteJobFiles cfg (ji_id (jobs ! i)) (snd (time_now (snd (GetDiskUsagePercent ''.'' (vs ! i))))))"
      "length vs \<le> length jobs \<longrightarrow> flt (fst (fst (GetDiskUsagePercent ''.'' (last vs)))) t" "vs \<noteq> []" by blast
    have "\<not> flt (fst (fst (GetDiskUsagePercent ''.'' ((w # vs) ! i)))) t
         \<and> (w # vs) ! Suc i = snd (DeleteJobFiles cfg (ji_id ((job # jobs) ! i)) (snd (time_now (snd (GetDiskUsagePercent ''.'' ((w # vs) ! i))))))"
      if "Suc i < length (w # vs)" for i
      using that False vs(3) vs(4) [of "i - 1"] by (cases i) auto
    with vs(1,2,5,6) st show ?thesis by (intro exI [of _ "w # vs"]) (simp del: cleanup_loop.simps)
  qed
qed

lemma AutoCleanup_idle:
  assumes "statfs w (tick w) = Inr b" "flt (usage_percent b) (threshold cfg)"
  shows "fst (AutoCleanup cfg w) = Inr 0 \<and> fs (snd (AutoCleanup cfg w)) = fs w"
  using assms by (simp add: AutoCleanup_def GetDiskUsagePercent_def os_statfs_def)

lemma getJobStatus_fs [simp]: "fs (snd (getJobStatus cfg i w)) = fs w" "os_frame w (snd (getJobStatus cfg i w))"
proof -
  let ?p = "join_path [outputs cfg, i, ''state.json'']"
  have 1: "snd (getJobStatus cfg i w) = (if fst (FileExists ?p w) then snd (os_read_file ?p (snd (FileExists ?p w)))
      else snd (FileExists ?p w))"
    by (simp add: getJobStatus_def case_prod_beta Let_def split: bool.split sum.split content.split)
  show "fs (snd (getJobStatus cfg i w)) = fs w" by (simp add: 1)
  show "os_frame w (snd (getJobStatus cfg i w))"
    by (simp add: 1 os_frame_trans [OF os_frame_utils(1) os_frame_calls(2)])
qed

lemma collect_jobs_fs [simp]: "fs (snd (collect_jobs cfg names w)) = fs w" "os_frame w (snd (collect_jobs cfg names w))"
proof -
  show "fs (snd (collect_jobs cfg names w)) = fs w"
    by (induction names arbitrary: w) (simp_all add: Let_def case_prod_beta split: option.split node.split)
  show "os_frame w (snd (collect_jobs cfg names w))"
  proof (induction names arbitrary: w)
    case (Cons n names)
    have "os_frame w (snd (collect_jobs cfg names v))" if "os_frame w v" for v
      using that Cons os_frame_trans by blast
    moreover have "os_frame w (snd (getJobStatus cfg n (snd (GetDirSize d (advance w)))))" for d
      by (rule os_frame_trans [OF os_frame_trans [OF os_frame_advance os_frame_utils(6)] getJobStatus_fs(2)])
    ultimately show ?case by (simp add: Let_def case_prod_beta split: option.split node.split)
  qed simp
qed

lemma getJobsForCleanup_fs [simp]:
  "fs (snd (getJobsForCleanup cfg em w)) = fs w" "os_frame w (snd (getJobsForCleanup cfg em w))"
  by (simp_all add: getJobsForCleanup_def case_prod_beta
    os_frame_trans [OF os_frame_trans [OF os_frame_calls(3) collect_jobs_fs(2)] os_frame_time_now] split: sum.split)

lemma getJobsForCleanup_ok:
  "io_good w \<Longrightarrow> is_dir_at (fs w) (parse_path (outputs cfg)) \<Longrightarrow> \<exists>jobs. fst (getJobsForCleanup cfg em w) = Inr jobs"
  by (simp add: getJobsForCleanup_def case_prod_beta os_read_dir_def)


lemma zero_blocks_NaN: "st_blocks b = 0 \<Longrightarrow> st_bfree b = 0 \<Longrightarrow> usage_percent b = NaN"
  by (simp add: usage_percent_def f_of_uint64_def f_of_int_exact)

lemma NaN_compare [simp]: "\<not> flt NaN x" "\<not> fle x NaN"
  by (cases x; simp)+

text \<open>On a file system that reports no blocks (as virtual ones do) the usage is not a number: the
service accepts jobs, and the clean-up deletes the files of every job it lists, with no regard to
whether the job is running.\<close>

theorem zero_blocks_deletes_all:
  assumes "io_good w" "is_dir_at (fs w) (parse_path (outputs cfg))"
    and "\<And>n. statfs w n = Inr b" "st_blocks b = 0" "st_bfree b = 0"
  shows "fst (CanAcceptNewJob cfg w) = (True, [])
    \<and> (\<exists>jobs. fst (getJobsForCleanup cfg False (snd (GetDiskUsagePercent ''.'' w))) = Inr jobs
        \<and> fst (AutoCleanup cfg w) = Inr (length jobs)
        \<and> (\<forall>j \<in> set jobs. lookup (fs (snd (AutoCleanup cfg w))) (parse_path (output_path cfg (ji_id j))) = None))"
proof
  note nan = zero_blocks_NaN [OF assms(4,5)]
  show "fst (CanAcceptNewJob cfg w) = (True, [])"
    using assms(3) nan by (simp add: CanAcceptNewJob_def GetDiskUsagePercent_def os_statfs_def)
  let ?g = "snd (GetDiskUsagePercent ''.'' w)" and ?t = "fsub (threshold cfg) (Fin 5)"
  let ?j = "getJobsForCleanup cfg False ?g"
  have "io_good ?g" using assms(1) os_frame_io_good [OF usage_frame(1)] by blast
  then obtain jobs where jobs: "fst ?j = Inr jobs" using getJobsForCleanup_ok assms(2) by fastforce
  have fr: "os_frame w (snd ?j)" by (rule os_frame_trans [OF usage_frame(1) getJobsForCleanup_fs(2)])
  then have good: "io_good (snd ?j)" using assms(1) os_frame_io_good by blast
  obtain c f w' where l: "cleanup_loop cfg ?t jobs (0, 0) (snd ?j) = ((c, f), w')" by (metis prod.collapse)
  have "fst (GetDiskUsagePercent ''.'' w) = (NaN, None)"
    using assms(3) nan by (simp add: GetDiskUsagePercent_def os_statfs_def)
  then have A: "AutoCleanup cfg w = (Inr c, snd (GetDiskUsagePercent ''.'' w'))"
    using jobs l by (simp add: AutoCleanup_def Let_def case_prod_beta)
  have "usage_reading w n = NaN" for n using assms(3) nan by (simp add: usage_reading_def)
  with cleanup_loop_spec [OF good l] usage_reading_frame [OF fr] have
    "c = length jobs \<and> (\<forall>j \<in> set jobs. lookup (fs w') (parse_path (output_path cfg (ji_id j))) = None)" by fastforce
  with A jobs show "\<exists>jobs. fst ?j = Inr jobs \<and> fst (AutoCleanup cfg w) = Inr (length jobs)
        \<and> (\<forall>j \<in> set jobs. lookup (fs (snd (AutoCleanup cfg w))) (parse_path (output_path cfg (ji_id j))) = None)"
    by simp
qed

text \<open>Two jobs: one whose state says that it is being processed, one that failed.\<close>

definition disk_world :: os where
  "disk_world =
    \<lparr>fs = [((False, []), Dir 0), ((False, [''outputs'']), Dir 0),
       ((False, [''outputs'', ''a'']), Dir 5),
       ((False, [''outputs'', ''a'', ''state.json'']), File (Doc (JObj [(''status'', JStr ''processing'')])) 5),
       ((False, [''outputs'', ''b'']), Dir 6),
       ((False, [''outputs'', ''b'', ''state.json'']), File (Doc (JObj [(''status'', JStr ''failed'')])) 6)],
     clock = (\<lambda>n. 1000 + int n), io = (\<lambda>_. IO_ok),
     statfs = (\<lambda>_. Inr \<lparr>st_blocks = 0, st_bfree = 0, st_bsize = 4096\<rparr>), doclen = (\<lambda>_. 40), tick = 0\<rparr>"

lemma disk_world_jobs:
  "map_option (map ji_id) (case fst (getJobsForCleanup (Load (\<lambda>_. [])) False disk_world) of Inr js \<Rightarrow> Some js | Inl _ \<Rightarrow> None)
     = Some [''b'', ''a'']"
  by code_simp

theorem cleanup_order_spec_witness:
  "\<exists>jobs now. fst (getJobsForCleanup (Load (\<lambda>_. [])) False disk_world) = Inr jobs \<and> length jobs = 2
     \<and> sorted_wrt (\<lambda>a b. getCleanupPriority now False b \<le> getCleanupPriority now False a) jobs"
proof -
  obtain jobs where j: "fst (getJobsForCleanup (Load (\<lambda>_. [])) False disk_world) = Inr jobs"
    "map ji_id jobs = [''b'', ''a'']"
    using disk_world_jobs by (cases "fst (getJobsForCleanup (Load (\<lambda>_. [])) False disk_world)") auto
  from cleanup_order_spec [OF j(1)] obtain now where
    "sorted_wrt (\<lambda>a b. getCleanupPriority now False b < getCleanupPriority now False a
        \<or> getCleanupPriority now False a = getCleanupPriority now False b \<and> ji_mod_time a \<le> ji_mod_time b) jobs"
    by blast
  then have "sorted_wrt (\<lambda>a b. getCleanupPriority now False b \<le> getCleanupPriority now False a) jobs"
    by (rule sorted_wrt_mono_rel [rotated]) auto
  moreover have "length jobs = 2" using arg_cong [OF j(2), of length] by simp
  ultimately show ?thesis using j(1) by blast
qed

lemma disk_world_simps:
  "io_good disk_world" "is_dir_at (fs disk_world) (parse_path (outputs (Load (\<lambda>_. []))))"
  by (simp add: io_good_def disk_world_def) code_simp

theorem zero_blocks_deletes_all_witness:
  "fst (CanAcceptNewJob (Load (\<lambda>_. [])) disk_world) = (True, [])"
  using zero_blocks_deletes_all [OF disk_world_simps] by (simp add: disk_world_def)


definition small_limit :: config where
  "small_limit = (Load (\<lambda>_. []))\<lparr>cf_disk := (cf_disk (Load (\<lambda>_. [])))\<lparr>dc_max_job_size := 0\<rparr>\<rparr>"

theorem size_limit_enforced_witness:
  "lookup (fs (snd (EnforceJobSizeLimit small_limit ''a'' disk_world))) (False, [''outputs'', ''a'', ''state.json'']) = None"
proof -
  have n: "fst (GetJobSize small_limit ''a'' disk_world) = Inr 40" by code_simp
  have p: "parse_path (output_path small_limit ''a'') = (False, [''outputs'', ''a''])" by code_simp
  have "40 > max_job_bytes small_limit" by code_simp
  moreover have "lookup (fs disk_world) (False, [''outputs'', ''a'']) \<noteq> None"
    "under (False, [''outputs'', ''a'']) (False, [''outputs'', ''a'', ''state.json''])" by code_simp+
  moreover from calculation(1) have "\<forall>x\<in>{output_path small_limit ''a'', chunk_path small_limit ''a''}. lookup (fs disk_world) (parse_path x) \<noteq> None \<longrightarrow>
      (\<forall>q. under (parse_path x) q \<longrightarrow> lookup (fs (snd (EnforceJobSizeLimit small_limit ''a'' disk_world))) q = None)"
    using size_limit_enforced [OF disk_world_simps(1) n] by (simp only: if_True) blast
  ultimately show ?thesis using p by (metis insertI1)
qed

section \<open>Other operations\<close>

text \<open>\<open>getJobsByAge\<close>, which nothing calls: the directories of the output directory, oldest first.\<close>

fun collect_by_age :: "config \<Rightarrow> string list \<Rightarrow> 'a os_scheme \<Rightarrow> job_dir_info list \<times> 'a os_scheme" where
  "collect_by_age cfg [] w = ([], w)"
| "collect_by_age cfg (name # names) w =
     (let p = (fst (parse_path (outputs cfg)), snd (parse_path (outputs cfg)) @ [name])
      in if \<not> is_dir_at (fs w) p then collect_by_age cfg names w
         else let ok = (io w (tick w) = IO_ok); w1 = advance w
              in case lookup (fs w) p of
                   Some (Dir t) \<Rightarrow>
                     if \<not> ok then collect_by_age cfg names w1
                     else let ((bytes, _), w2) = GetDirSize (output_path cfg name) w1; (jobs, w3) = collect_by_age cfg names w2
                          in (\<lparr>ji_id = name, ji_mod_time = t, ji_size = bytes, ji_status = ''unknown''\<rparr> # jobs, w3)
                 | _ \<Rightarrow> collect_by_age cfg names w1)"

definition getJobsByAge :: "config \<Rightarrow> 'a os_scheme \<Rightarrow> (err + job_dir_info list) \<times> 'a os_scheme" where
  "getJobsByAge cfg w =
     (case os_read_dir (outputs cfg) w of
        (Inl e, w1) \<Rightarrow> (Inl e, w1)
      | (Inr names, w1) \<Rightarrow>
          (let (jobs, w2) = collect_by_age cfg names w1
           in (Inr (sort_slice (\<lambda>a b. ji_mod_time a < ji_mod_time b) jobs), w2)))"

text \<open>\<open>StartCleanupWorker\<close>: the time between two runs of \<open>AutoCleanup\<close>, or the panic of \<open>time.NewTicker\<close>.\<close>

definition StartCleanupWorker :: "config \<Rightarrow> err + duration" where
  "StartCleanupWorker cfg =
     (let d = wrap64 (dc_cleanup_interval (cf_disk cfg) * second)
      in if d \<le> 0 then Inl (Err ''panic: non-positive interval for NewTicker'') else Inr d)"

end
