(* ===== verification/DLQ_Service.thy ===== *)
theory DLQ_Service
  imports Job_Json Disk_Service
begin

text \<open>
  \<open>internal/application/services/dlq_service.go\<close>: the queue of the jobs that failed for good, one file
  per job in the directory \<open>dlq\<close> below the outputs. \<open>addDate t n\<close> is \<open>t.AddDate(0, 0, n)\<close>, which
  depends on the time zone of the host and is an argument.
\<close>

record dlq_entry =
  de_job_id :: string
  de_input_path :: string
  de_status :: string
  de_error :: "job_error option"
  de_retries :: int
  de_max_retries :: int
  de_reason :: string
  de_moved_at :: go_time
  de_original :: "job option"

section \<open>The JSON form\<close>

definition entry_members :: "dlq_entry \<Rightarrow> (string \<times> json option) list" where
  "entry_members e = [(''jobId'', Some (JStr (de_job_id e))), (''inputPath'', Some (JStr (de_input_path e))),
     (''status'', Some (JStr (de_status e)))]
     @ ptr_member error_members ''error'' (de_error e)
     @ [(''retries'', Some (JInt (de_retries e))), (''maxRetries'', Some (JInt (de_max_retries e))),
        (''reason'', Some (JStr (de_reason e))), (''movedAt'', Some (JTime (de_moved_at e)))]
     @ ptr_member job_members ''originalJob'' (de_original e)"

definition entry_json :: "dlq_entry \<Rightarrow> json option" where
  "entry_json e = map_option JObj (members (entry_members e))"

definition set_entry :: "string \<Rightarrow> json \<Rightarrow> dlq_entry \<Rightarrow> dlq_entry option" where
  "set_entry k j e =
    (if k = ''jobid'' then map_option (\<lambda>x. e\<lparr>de_job_id := x\<rparr>) (dec_string j (de_job_id e))
     else if k = ''inputpath'' then map_option (\<lambda>x. e\<lparr>de_input_path := x\<rparr>) (dec_string j (de_input_path e))
     else if k = ''status'' then map_option (\<lambda>x. e\<lparr>de_status := x\<rparr>) (dec_string j (de_status e))
     else if k = ''error'' then map_option (\<lambda>x. e\<lparr>de_error := x\<rparr>) (dec_ptr set_error zero_error j (de_error e))
     else if k = ''retries'' then map_option (\<lambda>x. e\<lparr>de_retries := x\<rparr>) (dec_int j (de_retries e))
     else if k = ''maxretries'' then map_option (\<lambda>x. e\<lparr>de_max_retries := x\<rparr>) (dec_int j (de_max_retries e))
     else if k = ''reason'' then map_option (\<lambda>x. e\<lparr>de_reason := x\<rparr>) (dec_string j (de_reason e))
     else if k = ''movedat'' then map_option (\<lambda>x. e\<lparr>de_moved_at := x\<rparr>) (dec_time j (de_moved_at e))
     else if k = ''originaljob'' then map_option (\<lambda>x. e\<lparr>de_original := x\<rparr>) (dec_ptr set_job zero_job j (de_original e))
     else Some e)"

definition zero_entry :: dlq_entry where
  "zero_entry = \<lparr>de_job_id = [], de_input_path = [], de_status = [], de_error = None, de_retries = 0, de_max_retries = 0,
     de_reason = [], de_moved_at = 0, de_original = None\<rparr>"

definition dec_entry :: "json \<Rightarrow> dlq_entry option" where
  "dec_entry j = dec_struct set_entry j zero_entry"

definition unmarshal_entry :: "content \<Rightarrow> dlq_entry option" where
  "unmarshal_entry c = (case c of Doc j \<Rightarrow> dec_entry j | Opaque _ _ \<Rightarrow> None)"

section \<open>Operations\<close>

definition dlq_dir :: "config \<Rightarrow> string" where
  "dlq_dir cfg = join_path [outputs cfg, ''dlq'']"

definition dlq_path :: "config \<Rightarrow> string \<Rightarrow> string" where
  "dlq_path cfg jobID = join_path [dlq_dir cfg, jobID @ ''.json'']"

definition NewDLQService :: "config \<Rightarrow> 'a os_scheme \<Rightarrow> 'a os_scheme" where
  "NewDLQService cfg w = snd (EnsureDir (dlq_dir cfg) w)"

definition entry_of :: "job \<Rightarrow> string \<Rightarrow> go_time \<Rightarrow> dlq_entry" where
  "entry_of j reason now =
     \<lparr>de_job_id = j_id j, de_input_path = j_input_path j, de_status = status_text (j_status j), de_error = j_error j,
      de_retries = j_retries j, de_max_retries = j_max_retries j, de_reason = reason, de_moved_at = now,
      de_original = Some j\<rparr>"

definition MoveToDLQ :: "config \<Rightarrow> job \<Rightarrow> string \<Rightarrow> 'a os_scheme \<Rightarrow> (err + unit) \<times> 'a os_scheme" where
  "MoveToDLQ cfg j reason w =
     (let (now, w1) = time_now w
      in case entry_json (entry_of j reason now) of
           None \<Rightarrow> (Inl (Err ''failed to marshal DLQ entry: json: unsupported value''), w1)
         | Some d \<Rightarrow>
             (let (r, w2) = os_write_file (dlq_path cfg (j_id j)) (Doc d) w1
              in (case r of Inl e \<Rightarrow> Inl (wrap ''failed to write DLQ entry'' e) | Inr _ \<Rightarrow> Inr (), w2)))"

fun read_entries :: "string list \<Rightarrow> 'a os_scheme \<Rightarrow> dlq_entry list \<times> 'a os_scheme" where
  "read_entries [] w = ([], w)"
| "read_entries (f # files) w =
     (let (r, w1) = os_read_file f w; (es, w2) = read_entries files w1
      in (case r of
            Inl _ \<Rightarrow> es
          | Inr c \<Rightarrow> (case unmarshal_entry c of None \<Rightarrow> es | Some e \<Rightarrow> e # es), w2))"

definition ListDLQJobs :: "config \<Rightarrow> 'a os_scheme \<Rightarrow> dlq_entry list \<times> 'a os_scheme" where
  "ListDLQJobs cfg w = (let (files, w1) = os_glob (dlq_dir cfg) [] ''.json'' w in read_entries files w1)"

definition GetDLQEntry :: "config \<Rightarrow> string \<Rightarrow> 'a os_scheme \<Rightarrow> (err + dlq_entry) \<times> 'a os_scheme" where
  "GetDLQEntry cfg jobID w =
     (let (ex, w1) = FileExists (dlq_path cfg jobID) w
      in if \<not> ex then (Inl (Err (''DLQ entry not found for job '' @ jobID)), w1)
         else case os_read_file (dlq_path cfg jobID) w1 of
                (Inl e, w2) \<Rightarrow> (Inl (wrap ''failed to read DLQ entry'' e), w2)
              | (Inr c, w2) \<Rightarrow>
                  (case unmarshal_entry c of
                     None \<Rightarrow> (Inl (Err ''failed to unmarshal DLQ entry''), w2)
                   | Some e \<Rightarrow> (Inr e, w2)))"

definition RemoveFromDLQ :: "config \<Rightarrow> string \<Rightarrow> 'a os_scheme \<Rightarrow> (err + unit) \<times> 'a os_scheme" where
  "RemoveFromDLQ cfg jobID w =
     (let (ex, w1) = FileExists (dlq_path cfg jobID) w
      in if \<not> ex then (Inl (Err (''DLQ entry not found for job '' @ jobID)), w1)
         else let (r, w2) = os_remove (dlq_path cfg jobID) w1
              in (case r of Inl e \<Rightarrow> Inl (wrap ''failed to remove DLQ entry'' e) | Inr _ \<Rightarrow> Inr (), w2))"

fun remove_old :: "config \<Rightarrow> go_time \<Rightarrow> dlq_entry list \<Rightarrow> nat \<Rightarrow> 'a os_scheme \<Rightarrow> nat \<times> 'a os_scheme" where
  "remove_old cfg cutoff [] cleaned w = (cleaned, w)"
| "remove_old cfg cutoff (e # es) cleaned w =
     (if de_moved_at e < cutoff
      then let (r, w1) = RemoveFromDLQ cfg (de_job_id e) w
           in remove_old cfg cutoff es (if is_ok r then Suc cleaned else cleaned) w1
      else remove_old cfg cutoff es cleaned w)"

text \<open>The number of entries removed, which the code only logs.\<close>

definition CleanupOldDLQEntries ::
    "(go_time \<Rightarrow> int \<Rightarrow> go_time) \<Rightarrow> config \<Rightarrow> int \<Rightarrow> 'a os_scheme \<Rightarrow> nat \<times> 'a os_scheme" where
  "CleanupOldDLQEntries addDate cfg daysOld w =
     (let (entries, w1) = ListDLQJobs cfg w; (now, w2) = time_now w1
      in remove_old cfg (addDate now (- daysOld)) entries 0 w2)"

section \<open>Round trip\<close>

definition entry_wf :: "dlq_entry \<Rightarrow> bool" where
  "entry_wf e \<longleftrightarrow> fits64 (de_retries e) \<and> fits64 (de_max_retries e)
     \<and> (case de_original e of None \<Rightarrow> True | Some j \<Rightarrow> job_wf j)"

lemma entry_keys_lower:
  "to_lower ''reason'' = ''reason''" "to_lower ''movedAt'' = ''movedat''" "to_lower ''originalJob'' = ''originaljob''"
  by code_simp+

lemma job_ptr_back:
  assumes "map_option JObj (members (job_members v)) = Some d" "job_wf v"
  shows "dec_ptr set_job zero_job d None = Some (Some v)"
proof -
  have "dec_job d = Some v" using assms by (intro job_json_back) (simp_all only: job_json_def)
  moreover have "d \<noteq> JNull" using assms(1) by auto
  ultimately show ?thesis by (simp add: dec_ptr_def dec_job_def)
qed

lemma entry_json_back:
  assumes "entry_json e = Some d" "entry_wf e"
  shows "dec_entry d = Some e"
proof -
  define b1 where "b1 = zero_entry\<lparr>de_job_id := de_job_id e, de_input_path := de_input_path e, de_status := de_status e\<rparr>"
  define b2 where "b2 = b1\<lparr>de_error := de_error e\<rparr>"
  define b3 where "b3 = b2\<lparr>de_retries := de_retries e, de_max_retries := de_max_retries e, de_reason := de_reason e,
    de_moved_at := de_moved_at e\<rparr>"
  note bs = b3_def b2_def b1_def
  have ok: "(k, x) \<in> set (entry_members e) \<Longrightarrow> \<exists>y. x = Some y" for k x
    using assms(1) members_all by (auto simp: entry_json_def)
  have s1: "dec_opt set_entry [(''jobId'', Some (JStr (de_job_id e))), (''inputPath'', Some (JStr (de_input_path e))),
     (''status'', Some (JStr (de_status e)))] zero_entry = Some b1"
    by (simp add: set_entry_def keys_lower b1_def)
  have s2: "dec_opt set_entry (ptr_member error_members ''error'' (de_error e)) b1 = Some b2"
  proof (cases "de_error e")
    case (Some v)
    obtain y where y: "map_option JObj (members (error_members v)) = Some y"
      using ok [of "''error''"] Some by (fastforce simp: entry_members_def ptr_member_def)
    have "dec_ptr set_error zero_error y None = Some (Some v)" by (rule error_back [OF y])
    with Some show ?thesis by (simp add: ptr_member_def y set_entry_def keys_lower bs zero_entry_def)
  qed (simp add: ptr_member_def bs zero_entry_def)
  have s3: "dec_opt set_entry [(''retries'', Some (JInt (de_retries e))), (''maxRetries'', Some (JInt (de_max_retries e))),
        (''reason'', Some (JStr (de_reason e))), (''movedAt'', Some (JTime (de_moved_at e)))] b2 = Some b3"
    using assms(2) by (simp add: set_entry_def keys_lower entry_keys_lower bs entry_wf_def)
  have s4: "dec_opt set_entry (ptr_member job_members ''originalJob'' (de_original e)) b3 = Some e"
  proof (cases "de_original e")
    case (Some v)
    obtain y where y: "map_option JObj (members (job_members v)) = Some y"
      using ok [of "''originalJob''"] Some by (fastforce simp: entry_members_def ptr_member_def)
    have "dec_ptr set_job zero_job y None = Some (Some v)"
      using Some assms(2) by (intro job_ptr_back [OF y]) (simp add: entry_wf_def)
    with Some show ?thesis by (simp add: ptr_member_def y set_entry_def entry_keys_lower bs zero_entry_def)
  qed (simp add: ptr_member_def bs zero_entry_def)
  have "dec_opt set_entry (entry_members e) zero_entry = Some e"
    by (simp only: entry_members_def dec_opt_append s1 s2 s3 s4 option.case)
  moreover have "dec_struct set_entry d zero_entry = dec_opt set_entry (entry_members e) zero_entry"
    using assms(1) by (intro dec_struct_members) (simp only: entry_json_def)
  ultimately show ?thesis by (simp add: dec_entry_def)
qed

interpretation entry_doc: json_codec entry_json dec_entry entry_wf
  by unfold_locales (rule entry_json_back)

lemma unmarshal_entry_doc: "entry_doc.unmarshal = unmarshal_entry"
  by (simp add: entry_doc.unmarshal_def unmarshal_entry_def fun_eq_iff)

lemma GetDLQEntry_file:
  assumes "io_good w" "file_content (fs w) (parse_path (dlq_path cfg i)) = Some c" "unmarshal_entry c = Some e"
  shows "fst (GetDLQEntry cfg i w) = Inr e"
  using exists_then_read [OF assms(1,2)] assms(3) by (simp add: GetDLQEntry_def case_prod_beta)

section \<open>Properties\<close>

text \<open>C37. A job that was moved to the queue successfully can be read back from it, the whole job with the
reason and the time, by a service started later.\<close>

theorem dlq_keeps_job:
  assumes "fst (MoveToDLQ cfg j reason w) = Inr ()" "job_wf j"
  shows "fst (GetDLQEntry cfg (j_id j) ((snd (MoveToDLQ cfg j reason w))\<lparr>io := \<lambda>_. IO_ok\<rparr>))
    = Inr (entry_of j reason (clock w (tick w)))"
proof -
  let ?e = "entry_of j reason (clock w (tick w))" and ?w1 = "snd (time_now w)" and ?p = "dlq_path cfg (j_id j)"
  obtain d where d: "entry_json ?e = Some d"
    using assms(1) by (auto simp: MoveToDLQ_def time_now_def split: option.splits)
  have wr: "fst (os_write_file ?p (Doc d) ?w1) = Inr ()" "snd (MoveToDLQ cfg j reason w) = snd (os_write_file ?p (Doc d) ?w1)"
    using assms(1) d by (auto simp: MoveToDLQ_def time_now_def Let_def case_prod_beta split: sum.splits)
  have "entry_wf ?e" using assms(2) by (simp add: entry_wf_def entry_of_def job_wf_def)
  from entry_doc.written_back [OF wr(1) d this] obtain c where
    "file_content (fs (snd (MoveToDLQ cfg j reason w))) (parse_path ?p) = Some c" "unmarshal_entry c = Some ?e"
    using wr(2) by (auto simp: unmarshal_entry_doc)
  then show ?thesis by (intro GetDLQEntry_file) simp_all
qed

text \<open>Moving a job to the queue writes one file: it takes away nothing else.\<close>

lemma dlq_parse:
  assumes "outputs cfg \<noteq> []" "plain (i @ ''.json'')"
  shows "parse_path (dlq_path cfg i) = (rooted (outputs cfg), comps (outputs cfg) @ [''dlq'', i @ ''.json''])"
    and "parse_path (dlq_dir cfg) = (rooted (outputs cfg), comps (outputs cfg) @ [''dlq''])"
proof -
  have d: "plain ''dlq''" by (simp add: plain_def)
  show D: "parse_path (dlq_dir cfg) = (rooted (outputs cfg), comps (outputs cfg) @ [''dlq''])"
    using parse_join_plain [OF assms(1) d] by (simp add: dlq_dir_def)
  have "comps [] = []" by code_simp
  with D have ne: "dlq_dir cfg \<noteq> []" by (auto simp: parse_path_def)
  show "parse_path (dlq_path cfg i) = (rooted (outputs cfg), comps (outputs cfg) @ [''dlq'', i @ ''.json''])"
    using parse_join_plain [OF ne assms(2)] D by (simp add: dlq_path_def parse_path_def)
qed

lemma plain_dlq: "plain ''dlq''"
  by (simp add: plain_def)

lemma child_name: "q \<in> set (keys m) \<Longrightarrow> snd q \<noteq> [] \<Longrightarrow> parent q = p \<Longrightarrow> last (snd q) \<in> set (children m p)"
  by (auto simp: children_def)

lemma collect_jobs_all:
  fixes w :: "'a os_scheme"
  assumes "io_good w" "n \<in> set names" "is_dir_at (fs w) (fst (parse_path (outputs cfg)), snd (parse_path (outputs cfg)) @ [n])"
  shows "n \<in> ji_id ` set (fst (collect_jobs cfg names w))"
  using assms
proof (induction names arbitrary: w)
  case (Cons m names)
  let ?w3 = "snd (getJobStatus cfg m (snd (GetDirSize (output_path cfg m) (advance w))))"
  have fr: "os_frame w ?w3"
    by (rule os_frame_trans [OF os_frame_trans [OF os_frame_advance os_frame_utils(6)] getJobStatus_fs(2)])
  have fs3: "fs ?w3 = fs w" by simp
  have good: "io_good ?w3" "io_good (advance w)"
    using os_frame_io_good [OF fr] os_frame_io_good [OF os_frame_advance [of w]] Cons.prems(1) by simp_all
  have later: "n \<in> ji_id ` set (fst (collect_jobs cfg names v))" if "io_good v" "fs v = fs w" "n \<in> set names"
    for v :: "'a os_scheme"
    using Cons.IH [OF that(1,3)] Cons.prems(3) that(2) by simp
  show ?case
    using Cons.prems later [OF good(1) fs3] later [OF good(2)] later [OF Cons.prems(1)]
    by (auto simp: Let_def case_prod_beta is_dir_at_def image_iff split: option.splits node.splits)
qed simp

lemma MoveToDLQ_no_dir:
  assumes "lookup (fs w) (parse_path (dlq_path cfg (j_id j))) = None"
    "lookup (fs w) (parent (parse_path (dlq_path cfg (j_id j)))) = None"
  shows "\<not> is_ok (fst (MoveToDLQ cfg j reason w))"
proof -
  have "\<exists>e. fst (os_write_file (dlq_path cfg (j_id j)) c (snd (time_now w))) = Inl e" for c
    using assms by (cases "io w (Suc (tick w))") (simp_all add: os_write_file_def time_now_def Let_def is_file_at_def is_dir_at_def)
  then obtain e where "fst (os_write_file (dlq_path cfg (j_id j)) c (snd (time_now w))) = Inl (e c)" for c by metis
  then show ?thesis by (cases "entry_json (entry_of j reason (clock w (tick w)))")
    (simp_all add: MoveToDLQ_def case_prod_beta time_now_def)
qed


section \<open>Concrete runs\<close>

definition dlq_world :: os where
  "dlq_world = \<lparr>fs = [((False, [''outputs'']), Dir 0), ((False, [''outputs'', ''dlq'']), Dir 0)],
     clock = (\<lambda>n. int n), io = (\<lambda>_. IO_ok), statfs = (\<lambda>_. Inl ''''), doclen = (\<lambda>_. 0), tick = 0\<rparr>"

definition failed_job :: job where
  "failed_job = zero_job\<lparr>j_id := ''job_7'', j_status := FAILED, j_input_path := ''in.mp4'', j_retries := 3\<rparr>"

lemma dlq_world_facts:
  "io_good dlq_world" "outputs (Load (\<lambda>_. [])) \<noteq> []" "plain (j_id failed_job @ ''.json'')"
  "is_dir_at (fs dlq_world) (parse_path (outputs (Load (\<lambda>_. []))))"
  "is_dir_at (fs dlq_world) (parse_path (dlq_dir (Load (\<lambda>_. []))))"
proof -
  show "io_good dlq_world" by (simp add: io_good_def dlq_world_def)
  show "outputs (Load (\<lambda>_. [])) \<noteq> []" by (rule outputs_Load)
  show "plain (j_id failed_job @ ''.json'')" by (simp add: plain_def failed_job_def)
  have "parse_path (outputs (Load (\<lambda>_. []))) = (False, [''outputs''])"
    "parse_path (dlq_dir (Load (\<lambda>_. []))) = (False, [''outputs'', ''dlq''])" by code_simp+
  then show "is_dir_at (fs dlq_world) (parse_path (outputs (Load (\<lambda>_. []))))"
    "is_dir_at (fs dlq_world) (parse_path (dlq_dir (Load (\<lambda>_. []))))"
    by (simp_all add: dlq_world_def is_dir_at_def)
qed


theorem dlq_keeps_job_witness:
  "fst (GetDLQEntry (Load (\<lambda>_. [])) ''job_7'' ((snd (MoveToDLQ (Load (\<lambda>_. [])) failed_job ''Max retries exceeded'' dlq_world))\<lparr>io := \<lambda>_. IO_ok\<rparr>))
    = Inr (entry_of failed_job ''Max retries exceeded'' 0)"
proof -
  have p: "parse_path (dlq_path (Load (\<lambda>_. [])) ''job_7'') = (False, [''outputs'', ''dlq'', ''job_7.json''])" by code_simp
  have "job_json failed_job \<noteq> None"
    by (simp add: job_json_def job_members_def failed_job_def zero_job_def ptr_member_def opt_member_def meta_members_def)
  then have "members (job_members failed_job) \<noteq> None" by (simp add: job_json_def)
  moreover have "de_error (entry_of failed_job r t) = None" "de_original (entry_of failed_job r t) = Some failed_job" for r t
    by (simp_all add: entry_of_def failed_job_def zero_job_def)
  ultimately have "entry_json (entry_of failed_job r t) \<noteq> None" for r t
    by (auto simp: entry_json_def entry_members_def ptr_member_def)
  then have "fst (MoveToDLQ (Load (\<lambda>_. [])) failed_job ''Max retries exceeded'' dlq_world) = Inr ()"
    by (auto simp: MoveToDLQ_def time_now_def os_write_file_def Let_def p failed_job_def dlq_world_def is_file_at_def is_dir_at_def parent_def
        split: option.split)
  moreover have "job_wf failed_job"
    by (simp add: job_wf_def failed_job_def zero_job_def fits64_def rep_def round64_0)
  ultimately show ?thesis
    using dlq_keeps_job [of "Load (\<lambda>_. [])" failed_job "''Max retries exceeded''" dlq_world]
    by (simp add: failed_job_def dlq_world_def)
qed

end
