(* ===== verification/Dedup_Cache.thy ===== *)
theory Dedup_Cache
  imports State_Service
begin

text \<open>
  \<open>internal/infrastructure/cache/deduplication.go\<close>: the map from the hash of an input to the job
  that encoded it, in memory and in \<open>dedup.json\<close>. Each method is one step, as its lock makes it.
  The nil map, which a file that holds \<open>null\<close> would leave, is \<open>None\<close>; assigning to it is a
  panic of the Go program, reported here as an error.
\<close>

type_synonym dedup_map = "(string, string) gomap option"

definition hashes :: "dedup_map \<Rightarrow> (string, string) gomap" where
  "hashes m = (case m of None \<Rightarrow> [] | Some h \<Rightarrow> h)"

definition cache_file :: "string \<Rightarrow> string" where
  "cache_file cacheDir = join_path [cacheDir, ''dedup.json'']"

text \<open>\<open>json.MarshalIndent\<close> writes the members of a map in the order of their names.\<close>

definition map_json :: "dedup_map \<Rightarrow> json" where
  "map_json m = (case m of None \<Rightarrow> JNull
     | Some h \<Rightarrow> JObj (map (\<lambda>k. (k, JStr (case lookup h k of Some v \<Rightarrow> v | None \<Rightarrow> []))) (sort (keys h))))"

text \<open>
  \<open>json.Unmarshal\<close> into a map adds the members to it. A member of the wrong type is stored as
  the empty text, and the call fails at the end.
\<close>

fun dec_map_members :: "(string \<times> json) list \<Rightarrow> (string, string) gomap \<Rightarrow> bool \<Rightarrow> (string, string) gomap \<times> bool" where
  "dec_map_members [] h ok = (h, ok)"
| "dec_map_members ((k, j) # ms) h ok =
     (case dec_string j [] of
        Some v \<Rightarrow> dec_map_members ms (put k v h) ok
      | None \<Rightarrow> dec_map_members ms (put k [] h) False)"

definition unmarshal_map :: "content \<Rightarrow> dedup_map \<Rightarrow> dedup_map \<times> bool" where
  "unmarshal_map c m =
     (case c of
        Doc JNull \<Rightarrow> (None, True)
      | Doc (JObj ms) \<Rightarrow> (let (h, ok) = dec_map_members ms (hashes m) True in (Some h, ok))
      | _ \<Rightarrow> (m, False))"

definition cache_load :: "string \<Rightarrow> dedup_map \<Rightarrow> 'a os_scheme \<Rightarrow> ((err + unit) \<times> dedup_map) \<times> 'a os_scheme" where
  "cache_load cacheDir m w =
     (let (ex, w1) = FileExists (cache_file cacheDir) w
      in if \<not> ex then ((Inr (), m), w1)
         else case os_read_file (cache_file cacheDir) w1 of
                (Inl e, w2) \<Rightarrow> ((Inl (wrap ''failed to read cache file'' e), m), w2)
              | (Inr c, w2) \<Rightarrow>
                  (let (m', ok) = unmarshal_map c m
                   in ((if ok then Inr () else Inl (Err ''failed to unmarshal cache''), m'), w2)))"

definition cache_save :: "string \<Rightarrow> dedup_map \<Rightarrow> 'a os_scheme \<Rightarrow> (err + unit) \<times> 'a os_scheme" where
  "cache_save cacheDir m w =
     (let (r, w1) = os_write_file (cache_file cacheDir) (Doc (map_json m)) w
      in (case r of Inl e \<Rightarrow> Inl (wrap ''failed to write cache file'' e) | Inr _ \<Rightarrow> Inr (), w1))"

definition NewDeduplicationCache :: "string \<Rightarrow> 'a os_scheme \<Rightarrow> dedup_map \<times> 'a os_scheme" where
  "NewDeduplicationCache cacheDir w =
     (let (_, w1) = EnsureDir cacheDir w; ((_, m), w2) = cache_load cacheDir (Some []) w1 in (m, w2))"

definition ComputeHash :: "(content \<Rightarrow> string) \<Rightarrow> string \<Rightarrow> 'a os_scheme \<Rightarrow> (err + string) \<times> 'a os_scheme" where
  "ComputeHash = ComputeFileHash"

definition CheckDuplicate :: "string \<Rightarrow> dedup_map \<Rightarrow> string \<times> bool" where
  "CheckDuplicate h m = (case lookup (hashes m) h of Some jobID \<Rightarrow> (jobID, True) | None \<Rightarrow> ([], False))"

definition nil_map_write :: err where
  "nil_map_write = Err ''panic: assignment to entry in nil map''"

definition Store :: "string \<Rightarrow> string \<Rightarrow> string \<Rightarrow> dedup_map \<Rightarrow> 'a os_scheme \<Rightarrow> ((err + unit) \<times> dedup_map) \<times> 'a os_scheme" where
  "Store cacheDir h jobID m w =
     (case m of
        None \<Rightarrow> ((Inl nil_map_write, None), w)
      | Some hm \<Rightarrow> (let m' = Some (put h jobID hm); (r, w1) = cache_save cacheDir m' w in ((r, m'), w1)))"

definition cache_Delete :: "string \<Rightarrow> string \<Rightarrow> dedup_map \<Rightarrow> 'a os_scheme \<Rightarrow> ((err + unit) \<times> dedup_map) \<times> 'a os_scheme" where
  "cache_Delete cacheDir h m w =
     (let m' = map_option (del h) m; (r, w1) = cache_save cacheDir m' w in ((r, m'), w1))"

section \<open>Writing and reading\<close>

lemma dec_map_members_strings:
  "distinct (map fst kvs) \<Longrightarrow>
     snd (dec_map_members (map (\<lambda>(k, v). (k, JStr v)) kvs) h True)
     \<and> lookup (fst (dec_map_members (map (\<lambda>(k, v). (k, JStr v)) kvs) h True)) q
       = (case lookup kvs q of Some v \<Rightarrow> Some v | None \<Rightarrow> lookup h q)"
proof (induction kvs arbitrary: h)
  case (Cons kv kvs)
  obtain k v where kv: "kv = (k, v)" by (cases kv)
  then have "lookup kvs k = None" using Cons.prems by (simp add: lookup_eq_None)
  with Cons kv show ?case by (auto split: option.split)
qed simp

lemma lookup_map_pairs: "lookup (map (\<lambda>k. (k, f k)) ks) q = (if q \<in> set ks then Some (f q) else None)"
  by (induction ks) auto

lemma lookup_sorted_kvs:
  "lookup (map (\<lambda>k. (k, case lookup h k of Some v \<Rightarrow> v | None \<Rightarrow> [])) (sort (keys h))) q = lookup h q"
proof (cases "lookup h q")
  case None
  then have "q \<notin> set (keys h)" by (simp only: lookup_eq_None) simp
  with None show ?thesis by (simp only: lookup_map_pairs set_sort if_False)
next
  case (Some v)
  then have "q \<in> set (keys h)" by (rule lookup_in_keys)
  with Some show ?thesis by (simp only: lookup_map_pairs set_sort if_True option.case)
qed

lemma dec_map_json:
  "\<exists>h'. unmarshal_map (Doc (map_json (Some h))) (Some []) = (Some h', True) \<and> lookup h' = lookup h" if "wf_map h"
proof -
  let ?kvs = "map (\<lambda>k. (k, case lookup h k of Some v \<Rightarrow> v | None \<Rightarrow> [])) (sort (keys h))"
  have j: "map_json (Some h) = JObj (map (\<lambda>(k, v). (k, JStr v)) ?kvs)" by (simp add: map_json_def)
  have d: "distinct (map fst ?kvs)" using that by (simp add: comp_def)
  let ?r = "dec_map_members (map (\<lambda>(k, v). (k, JStr v)) ?kvs) [] True"
  have "lookup (fst ?r) = lookup h"
  proof
    fix q
    have "lookup (fst ?r) q = lookup ?kvs q"
      using dec_map_members_strings [OF d, of "[]" q] by (cases "lookup ?kvs q") simp_all
    then show "lookup (fst ?r) q = lookup h q" by (simp only: lookup_sorted_kvs)
  qed
  moreover have "snd ?r" using dec_map_members_strings [OF d] by blast
  moreover have "unmarshal_map (Doc (map_json (Some h))) (Some []) = (Some (fst ?r), snd ?r)"
    by (simp only: j unmarshal_map_def hashes_def case_prod_beta Let_def content.case json.case option.case)
  ultimately show ?thesis by (intro exI [of _ "fst ?r"]) simp
qed

lemma cache_load_file:
  assumes "io_good w" "file_content (fs w) (parse_path (cache_file d)) = Some c"
  shows "fst (cache_load d m w) = ((if snd (unmarshal_map c m) then Inr () else Inl (Err ''failed to unmarshal cache'')),
           fst (unmarshal_map c m))"
proof -
  obtain t where "lookup (fs w) (parse_path (cache_file d)) = Some (File c t)"
    using assms(2) by (auto simp: file_content_def split: option.splits node.splits)
  with assms(1) show ?thesis
    by (simp add: cache_load_def FileExists_def os_stat_def os_read_file_def case_prod_beta advance_def)
qed

lemma io_good_io: "io_good (w\<lparr>io := \<lambda>_. IO_ok\<rparr>)"
  by (simp add: io_good_def)

lemma EnsureDir_io_good: "io_good w \<Longrightarrow> io_good (snd (EnsureDir d w))"
  using os_frame_io_good [OF os_frame_utils(2)] by blast

lemma reopen_map:
  assumes "file_content (fs w) (parse_path (cache_file d)) = Some c"
  shows "fst (NewDeduplicationCache d (w\<lparr>io := \<lambda>_. IO_ok\<rparr>)) = fst (unmarshal_map c (Some []))"
proof -
  let ?w = "w\<lparr>io := \<lambda>_. IO_ok\<rparr>"
  have "io_good (snd (EnsureDir d ?w))" by (rule EnsureDir_io_good [OF io_good_io])
  moreover have "file_content (fs (snd (EnsureDir d ?w))) (parse_path (cache_file d)) = Some c" using assms by simp
  ultimately show ?thesis
    by (simp add: NewDeduplicationCache_def case_prod_beta cache_load_file)
qed

text \<open>C26. What a successful \<open>Store\<close> leaves on disk survives a restart: a cache opened on those files
gives the same answer as the running one for every hash, the stored job for the stored hash.\<close>

theorem store_survives_restart:
  assumes "wf_map hm" "fst (fst (Store d h jobID (Some hm) w)) = Inr ()"
  shows "CheckDuplicate h' (fst (NewDeduplicationCache d ((snd (Store d h jobID (Some hm) w))\<lparr>io := \<lambda>_. IO_ok\<rparr>)))
     = (if h' = h then (jobID, True) else CheckDuplicate h' (Some hm))"
proof -
  let ?w = "snd (Store d h jobID (Some hm) w)" and ?m = "put h jobID hm"
  have ok: "fst (os_write_file (cache_file d) (Doc (map_json (Some ?m))) w) = Inr ()"
    using assms(2) by (auto simp: Store_def cache_save_def Let_def case_prod_beta split: sum.splits)
  then have "file_content (fs ?w) (parse_path (cache_file d)) = Some (Doc (map_json (Some ?m)))"
    by (simp add: Store_def cache_save_def Let_def case_prod_beta file_content_write)
  note r = reopen_map [OF this]
  obtain h2 where "unmarshal_map (Doc (map_json (Some ?m))) (Some []) = (Some h2, True)" "lookup h2 = lookup ?m"
    using dec_map_json [OF wf_map_put [OF assms(1)]] by blast
  with r show ?thesis by (simp add: CheckDuplicate_def hashes_def)
qed

text \<open>The file is overwritten in place: when that write fails halfway, the running cache still knows
every job, but after a restart the whole cache is empty, earlier entries included.\<close>

theorem torn_store_loses_cache:
  assumes "io w (tick w) = IO_torn msg" "is_file_at (fs w) (parse_path (cache_file d))"
  shows "\<not> is_ok (fst (fst (Store d h jobID (Some hm) w)))
    \<and> CheckDuplicate h (snd (fst (Store d h jobID (Some hm) w))) = (jobID, True)
    \<and> CheckDuplicate h' (fst (NewDeduplicationCache d ((snd (Store d h jobID (Some hm) w))\<lparr>io := \<lambda>_. IO_ok\<rparr>))) = ([], False)"
proof -
  let ?w = "snd (Store d h jobID (Some hm) w)"
  have "file_content (fs ?w) (parse_path (cache_file d)) = Some junk"
    using assms by (simp add: Store_def cache_save_def os_write_file_def Let_def)
  from reopen_map [OF this] show ?thesis
    using assms
    by (simp add: Store_def cache_save_def os_write_file_def Let_def unmarshal_map_def junk_def CheckDuplicate_def hashes_def)
qed

definition cache_world :: "(nat \<Rightarrow> io_outcome) \<Rightarrow> os" where
  "cache_world o1 = \<lparr>fs = [((True, [''c'']), Dir 0), ((True, [''c'', ''dedup.json'']), File (Doc (JObj [(''h1'', JStr ''job_1'')])) 0)],
     clock = (\<lambda>_. 0), io = o1, statfs = (\<lambda>_. Inl ''''), doclen = (\<lambda>_. 0), tick = 0\<rparr>"

theorem store_survives_restart_witness:
  "CheckDuplicate ''h1'' (fst (NewDeduplicationCache ''/c''
      ((snd (Store ''/c'' ''h2'' ''job_2'' (Some [(''h1'', ''job_1'')]) (cache_world (\<lambda>_. IO_ok))))\<lparr>io := \<lambda>_. IO_ok\<rparr>))) = (''job_1'', True)"
proof -
  have "is_file_at (fs (cache_world (\<lambda>_. IO_ok))) (parse_path (cache_file ''/c''))" by code_simp
  then have "fst (fst (Store ''/c'' ''h2'' ''job_2'' (Some [(''h1'', ''job_1'')]) (cache_world (\<lambda>_. IO_ok)))) = Inr ()"
    by (simp add: Store_def cache_save_def os_write_file_def Let_def cache_world_def)
  from store_survives_restart [OF _ this, of "''h1''"] show ?thesis by (simp add: CheckDuplicate_def hashes_def)
qed

theorem torn_store_loses_cache_witness:
  "CheckDuplicate ''h1'' (fst (NewDeduplicationCache ''/c''
      ((snd (Store ''/c'' ''h2'' ''job_2'' (Some [(''h1'', ''job_1'')]) (cache_world (\<lambda>_. IO_torn ''disk full''))))\<lparr>io := \<lambda>_. IO_ok\<rparr>))) = ([], False)"
proof -
  have "is_file_at (fs (cache_world (\<lambda>_. IO_torn ''disk full''))) (parse_path (cache_file ''/c''))" by code_simp
  moreover have "io (cache_world (\<lambda>_. IO_torn ''disk full'')) (tick (cache_world (\<lambda>_. IO_torn ''disk full''))) = IO_torn ''disk full''"
    by (simp add: cache_world_def)
  ultimately show ?thesis using torn_store_loses_cache by blast
qed

end
