(* ===== verification/Previews.thy ===== *)
theory Previews
  imports Media
begin

text \<open>
  \<open>internal/infrastructure/ffmpeg/preview_generator.go\<close>: the thumbnails, the GIF, the sprite sheet
  and the clip of a video. The programs are the runner of \<^emph>\<open>Media\<close>; every step that
  fails ends the operation with its error.
\<close>

section \<open>Printing numbers\<close>

text \<open>The verb \<open>%.nf\<close>: rounded to \<open>n\<close> decimals, half to even.\<close>

definition pad_left :: "nat \<Rightarrow> string \<Rightarrow> string" where
  "pad_left n s = replicate (n - length s) CHR ''0'' @ s"

definition fmt_fixed :: "nat \<Rightarrow> float64 \<Rightarrow> string" where
  "fmt_fixed d x = (case x of
     Fin q \<Rightarrow> (let n = nat (rne (\<bar>q\<bar> * 10 ^ d)) in
        (if q < 0 then ''-'' else []) @ show_nat (n div 10 ^ d) @ ''.'' @ pad_left d (show_nat (n mod 10 ^ d)))
   | PInf \<Rightarrow> ''+Inf'' | NInf \<Rightarrow> ''-Inf'' | NaN \<Rightarrow> ''NaN'')"

section \<open>Previews\<close>

record preview_config =
  pc_count :: int
  pc_gif_duration :: float64
  pc_gif_start :: float64
  pc_width :: int
  pc_gif_width :: int

record preview_output =
  po_thumbnails :: "string list"
  po_gif :: string

definition feq :: "float64 \<Rightarrow> float64 \<Rightarrow> bool" where
  "feq x y \<longleftrightarrow> fle x y \<and> fle y x"

definition thumb_path :: "string \<Rightarrow> int \<Rightarrow> string" where
  "thumb_path outputDir i = join_path [outputDir, ''thumb_'' @ show_int i @ ''.jpg'']"

fun thumb_loop :: "'w runner \<Rightarrow> string \<Rightarrow> string \<Rightarrow> int \<Rightarrow> float64 \<Rightarrow> int list \<Rightarrow> 'w \<Rightarrow> (err + string list) \<times> 'w" where
  "thumb_loop run inputPath outputDir width interval [] w = (Inr [], w)"
| "thumb_loop run inputPath outputDir width interval (i # is) w =
     (case cmd_run run ''ffmpeg''
             [''-ss'', fmt_fixed 2 (fmul interval (f_of_int i)), ''-i'', inputPath, ''-vframes'', ''1'',
              ''-vf'', ''scale='' @ show_int width @ '':-1'', ''-q:v'', ''2'', ''-y'', thumb_path outputDir i] w of
        (Inl e, w1) \<Rightarrow> (Inl (wrap (''failed to generate thumbnail '' @ show_int i) e), w1)
      | (Inr _, w1) \<Rightarrow>
          (case thumb_loop run inputPath outputDir width interval is w1 of
             (Inl e, w2) \<Rightarrow> (Inl e, w2)
           | (Inr ts, w2) \<Rightarrow> (Inr (thumb_path outputDir i # ts), w2)))"

definition generateThumbnails ::
    "'w runner \<Rightarrow> string \<Rightarrow> string \<Rightarrow> preview_config \<Rightarrow> 'w \<Rightarrow> (err + string list) \<times> 'w" where
  "generateThumbnails run inputPath outputDir config w =
     (let width = (if pc_width config = 0 then 320 else pc_width config)
      in case GetVideoInfo run inputPath w of
           (Inl e, w1) \<Rightarrow> (Inl (wrap ''failed to probe video'' e), w1)
         | (Inr info, w1) \<Rightarrow>
             thumb_loop run inputPath outputDir width
               (fdiv (vi_duration info) (f_of_int (wrap64 (pc_count config + 1)))) [1..pc_count config] w1)"

definition generateGIF ::
    "'a os_scheme runner \<Rightarrow> string \<Rightarrow> string \<Rightarrow> preview_config \<Rightarrow> 'a os_scheme \<Rightarrow> (err + string) \<times> 'a os_scheme" where
  "generateGIF run inputPath outputDir config w =
     (let gifPath = join_path [outputDir, ''preview.gif''];
          width = (if pc_gif_width config = 0 then 480 else pc_gif_width config);
          duration = (if feq (pc_gif_duration config) (Fin 0) then Fin 3 else pc_gif_duration config);
          paletteFile = join_path [outputDir, ''palette.png''];
          window = [''-ss'', fmt_fixed 2 (pc_gif_start config), ''-t'', fmt_fixed 2 duration, ''-i'', inputPath]
      in case cmd_run run ''ffmpeg''
                (window @ [''-vf'', ''fps=10,scale='' @ show_int width @ '':-1:flags=lanczos,palettegen'', ''-y'', paletteFile]) w of
           (Inl e, w1) \<Rightarrow> (Inl (wrap ''failed to generate palette'' e), w1)
         | (Inr _, w1) \<Rightarrow>
             (let (r, w2) = cmd_run run ''ffmpeg''
                    (window @ [''-i'', paletteFile, ''-filter_complex'',
                       ''fps=10,scale='' @ show_int width @ '':-1:flags=lanczos[x];[x][1:v]paletteuse'', ''-y'', gifPath]) w1;
                  (_, w3) = os_remove paletteFile w2
              in (case r of Inl e \<Rightarrow> Inl (wrap ''failed to generate GIF'' e) | Inr _ \<Rightarrow> Inr gifPath, w3)))"

definition GeneratePreviews ::
    "'a os_scheme runner \<Rightarrow> string \<Rightarrow> string \<Rightarrow> preview_config \<Rightarrow> 'a os_scheme \<Rightarrow> (err + preview_output) \<times> 'a os_scheme" where
  "GeneratePreviews run inputPath outputDir config w =
     (let previewDir = join_path [outputDir, ''previews'']
      in case os_mkdir_all previewDir w of
           (Inl e, w1) \<Rightarrow> (Inl (wrap ''failed to create preview directory'' e), w1)
         | (Inr _, w1) \<Rightarrow>
             (case (if pc_count config > 0 then generateThumbnails run inputPath previewDir config w1 else (Inr [], w1)) of
                (Inl e, w2) \<Rightarrow> (Inl (wrap ''failed to generate thumbnails'' e), w2)
              | (Inr ts, w2) \<Rightarrow>
                  (case (if flt (Fin 0) (pc_gif_duration config) then generateGIF run inputPath previewDir config w2 else (Inr [], w2)) of
                     (Inl e, w3) \<Rightarrow> (Inl (wrap ''failed to generate GIF'' e), w3)
                   | (Inr gif, w3) \<Rightarrow> (Inr \<lparr>po_thumbnails = ts, po_gif = gif\<rparr>, w3))))"

definition GenerateSingleThumbnail ::
    "'w runner \<Rightarrow> string \<Rightarrow> string \<Rightarrow> float64 \<Rightarrow> int \<Rightarrow> 'w \<Rightarrow> (err + unit) \<times> 'w" where
  "GenerateSingleThumbnail run inputPath outputPath timestamp width0 w =
     (let width = (if width0 = 0 then 320 else width0);
          (r, w1) = cmd_run run ''ffmpeg''
            [''-ss'', fmt_fixed 2 timestamp, ''-i'', inputPath, ''-vframes'', ''1'',
             ''-vf'', ''scale='' @ show_int width @ '':-1'', ''-q:v'', ''2'', ''-y'', outputPath] w
      in (case r of Inl e \<Rightarrow> Inl (wrap ''failed to generate thumbnail'' e) | Inr _ \<Rightarrow> Inr (), w1))"

definition GenerateSpriteSheet ::
    "'w runner \<Rightarrow> string \<Rightarrow> string \<Rightarrow> preview_config \<Rightarrow> 'w \<Rightarrow> (err + unit) \<times> 'w" where
  "GenerateSpriteSheet run inputPath outputPath config w =
     (let width = (if pc_width config = 0 then 160 else pc_width config)
      in case GetVideoInfo run inputPath w of
           (Inl e, w1) \<Rightarrow> (Inl (wrap ''failed to probe video'' e), w1)
         | (Inr info, w1) \<Rightarrow>
             (let count = (if pc_count config = 0 then 10 else pc_count config);
                  interval = fdiv (vi_duration info) (f_of_int (wrap64 (count + 1)));
                  cols = 5; rows = quot (wrap64 (count + cols - 1)) cols;
                  filt = ''fps=1/'' @ fmt_fixed 6 interval @ '',scale='' @ show_int width @ '':-1,tile=''
                           @ show_int cols @ ''x'' @ show_int rows;
                  (r, w2) = cmd_run run ''ffmpeg''
                    [''-i'', inputPath, ''-vf'', filt, ''-frames:v'', ''1'', ''-q:v'', ''2'', ''-y'', outputPath] w1
              in (case r of Inl e \<Rightarrow> Inl (wrap ''failed to generate sprite sheet'' e) | Inr _ \<Rightarrow> Inr (), w2)))"

definition GeneratePreviewClip ::
    "'w runner \<Rightarrow> string \<Rightarrow> string \<Rightarrow> float64 \<Rightarrow> float64 \<Rightarrow> 'w \<Rightarrow> (err + unit) \<times> 'w" where
  "GeneratePreviewClip run inputPath outputPath startTime duration0 w =
     (let duration = (if feq duration0 (Fin 0) then Fin 3 else duration0);
          (r, w1) = cmd_run run ''ffmpeg''
            [''-ss'', fmt_fixed 2 startTime, ''-t'', fmt_fixed 2 duration, ''-i'', inputPath, ''-c:v'', ''libx264'',
             ''-preset'', ''fast'', ''-crf'', ''23'', ''-c:a'', ''aac'', ''-b:a'', ''128k'',
             ''-movflags'', ''+faststart'', ''-y'', outputPath] w
      in (case r of Inl e \<Rightarrow> Inl (wrap ''failed to generate preview clip'' e) | Inr _ \<Rightarrow> Inr (), w1))"

section \<open>What they leave alone\<close>

lemma tame_thumb_loop: "tame run \<Longrightarrow> os_frame w (snd (thumb_loop run p d width t is w))"
proof (induction "is" arbitrary: w)
  case (Cons i "is")
  let ?c = "cmd_run run ''ffmpeg'' [''-ss'', fmt_fixed 2 (fmul t (f_of_int i)), ''-i'', p, ''-vframes'', ''1'',
              ''-vf'', ''scale='' @ show_int width @ '':-1'', ''-q:v'', ''2'', ''-y'', thumb_path d i] w"
  have "os_frame w (snd ?c)" using Cons.prems by blast
  with Cons show ?case
    by (cases ?c) (auto simp: case_prod_beta split: sum.split intro: os_frame_trans)
qed simp

lemma tame_previews [intro]:
  assumes "tame run"
  shows "os_frame w (snd (generateThumbnails run p d c w))" "os_frame w (snd (generateGIF run p d c w))"
    "os_frame w (snd (GenerateSpriteSheet run p d c w))" "os_frame w (snd (GeneratePreviewClip run p d s t w))"
    "os_frame w (snd (GeneratePreviews run p d c w))"
proof -
  note c = tame_frame(2) [OF assms] tame_probe(2) [OF assms]
  show T: "os_frame w (snd (generateThumbnails run p d c w))" for d w
    using os_frame_trans [OF c(2) tame_thumb_loop [OF assms]] c(2)
    by (simp add: generateThumbnails_def case_prod_beta Let_def split: sum.split)
  show G: "os_frame w (snd (generateGIF run p d c w))" for d w
    using os_frame_trans [OF os_frame_trans [OF c(1) c(1)] os_frame_calls(6)] c(1)
    by (simp add: generateGIF_def case_prod_beta Let_def split: sum.split)
  show "os_frame w (snd (GenerateSpriteSheet run p d c w))"
    using os_frame_trans [OF c(2) c(1)] c(2)
    by (simp add: GenerateSpriteSheet_def case_prod_beta Let_def split: sum.split)
  show "os_frame w (snd (GeneratePreviewClip run p d s t w))"
    using c(1) by (simp add: GeneratePreviewClip_def case_prod_beta Let_def)
  show "os_frame w (snd (GeneratePreviews run p d c w))"
    using os_frame_calls(8) [of w] T G os_frame_trans [OF os_frame_calls(8) T]
      os_frame_trans [OF os_frame_trans [OF os_frame_calls(8) T] G] os_frame_trans [OF os_frame_calls(8) G]
    by (simp add: GeneratePreviews_def case_prod_beta Let_def split: sum.split)
qed

section \<open>Results\<close>

lemma thumb_loop_paths: "fst (thumb_loop run p d width t is w) = Inr ts \<Longrightarrow> ts = map (thumb_path d) is"
  by (induction "is" arbitrary: w ts) (auto simp: case_prod_beta split: sum.splits prod.splits)

text \<open>Previews that are reported as generated have exactly the requested number of thumbnails, under
different names numbered from one, and a GIF if and only if a positive duration was asked for.\<close>

theorem previews_complete:
  assumes "fst (GeneratePreviews run p d c w) = Inr out"
  shows "po_thumbnails out = map (thumb_path (join_path [d, ''previews''])) [1..pc_count c]
    \<and> length (po_thumbnails out) = nat (pc_count c)
    \<and> po_gif out = (if flt (Fin 0) (pc_gif_duration c) then join_path [join_path [d, ''previews''], ''preview.gif''] else [])"
proof -
  let ?d = "join_path [d, ''previews'']"
  obtain r1 w1 where 1: "os_mkdir_all ?d w = (r1, w1)" by fastforce
  with assms obtain u where u: "r1 = Inr u" by (cases r1) (simp_all add: GeneratePreviews_def)
  obtain r2 w2 where 2: "(if pc_count c > 0 then generateThumbnails run p ?d c w1 else (Inr [], w1)) = (r2, w2)" by fastforce
  with assms 1 u obtain ts where ts: "r2 = Inr ts" by (cases r2) (simp_all add: GeneratePreviews_def)
  obtain r3 w3 where 3: "(if flt (Fin 0) (pc_gif_duration c) then generateGIF run p ?d c w2 else (Inr [], w2)) = (r3, w3)" by fastforce
  with assms 1 u 2 ts obtain gif where gif: "r3 = Inr gif" by (cases r3) (simp_all add: GeneratePreviews_def)
  have out: "out = \<lparr>po_thumbnails = ts, po_gif = gif\<rparr>" using assms 1 u 2 ts 3 gif by (simp add: GeneratePreviews_def)
  have "ts = map (thumb_path ?d) [1..pc_count c]"
  proof (cases "pc_count c > 0")
    case True
    with 2 ts have "fst (generateThumbnails run p ?d c w1) = Inr ts" by simp
    then show ?thesis
      by (auto simp: generateThumbnails_def Let_def case_prod_beta split: sum.splits dest!: thumb_loop_paths)
  qed (use 2 ts in simp)
  moreover have "gif = (if flt (Fin 0) (pc_gif_duration c) then join_path [?d, ''preview.gif''] else [])"
    using 3 gif by (auto simp: generateGIF_def Let_def case_prod_beta split: if_splits sum.splits prod.splits)
  ultimately show ?thesis using out by simp
qed

text \<open>A prober that reports a video of 640x480 pixels and ten seconds, and programs that do nothing.\<close>

definition demo_runner :: "'w runner" where
  "demo_runner c as w =
     (\<lparr>cr_started = True, cr_error = None,
       cr_stdout = (if c = ''ffprobe'' then ''640'' @ newline @ ''480'' @ newline @ ''10'' @ newline else []),
       cr_stderr = []\<rparr>, w)"

lemma round64_10: "round64 10 = Fin 10"
  using f_of_int_exact [of 10] by (simp add: f_of_int_def)

lemma scan_f_10: "scan_f (''10'' @ newline) = Some (Fin 10, newline)"
proof -
  have d: "is_digit CHR ''1''" "is_digit CHR ''0''" "\<not> is_digit CHR 0x0A" by code_simp+
  have b: "\<not> is_blank CHR ''1''" by code_simp
  have v: "digits_val ''10'' = 10" by code_simp
  have t: "to_lower (''10'' @ [CHR 0x0A]) \<noteq> ''nan''" "to_lower (''10'' @ [CHR 0x0A]) \<noteq> ''inf''" by code_simp+
  show ?thesis
    using d b t by (simp add: scan_f_def Let_def newline_def scan_exp_def v pow10_def round64_10)
qed

lemma demo_info: "\<exists>i. GetVideoInfo demo_runner p w = (Inr i, w) \<and> vi_width i = 640 \<and> vi_height i = 480 \<and> vi_duration i = Fin 10"
proof -
  have a: "scan_d (''640'' @ newline @ ''480'' @ newline @ ''10'' @ newline) = Some (640, newline @ ''480'' @ newline @ ''10'' @ newline)"
    by code_simp
  have b: "scan_newline (newline @ ''480'' @ newline @ ''10'' @ newline) = Some (''480'' @ newline @ ''10'' @ newline)" by code_simp
  have c: "scan_d (''480'' @ newline @ ''10'' @ newline) = Some (480, newline @ ''10'' @ newline)" by code_simp
  have d: "scan_newline (newline @ ''10'' @ newline) = Some (''10'' @ newline)" by code_simp
  have "scan_info (''640'' @ newline @ ''480'' @ newline @ ''10'' @ newline) = Some (640, 480, Fin 10)"
    by (simp only: scan_info_def a b c d scan_f_10 option.case prod.case)
  then show ?thesis
    by (simp add: GetVideoInfo_def cmd_output_def demo_runner_def HasAudioStream_def case_prod_beta)
qed

theorem previews_complete_witness:
  "\<exists>out. fst (GeneratePreviews demo_runner ''in.mp4'' ''/o''
        \<lparr>pc_count = 2, pc_gif_duration = Fin 3, pc_gif_start = Fin 1, pc_width = 320, pc_gif_width = 0\<rparr>
        \<lparr>fs = [((True, [''o'']), Dir 0)], clock = (\<lambda>_. 0), io = (\<lambda>_. IO_ok), statfs = (\<lambda>_. Inl ''''),
         doclen = (\<lambda>_. 0), tick = 0\<rparr>) = Inr out \<and> length (po_thumbnails out) = 2"
proof -
  let ?c = "\<lparr>pc_count = 2, pc_gif_duration = Fin 3, pc_gif_start = Fin 1, pc_width = 320, pc_gif_width = 0\<rparr>"
  let ?w = "\<lparr>fs = [((True, [''o'']), Dir 0)], clock = (\<lambda>_. 0), io = (\<lambda>_. IO_ok), statfs = (\<lambda>_. Inl ''''),
         doclen = (\<lambda>_. 0), tick = 0\<rparr> :: os"
  have r: "cmd_run demo_runner c as w = (Inr (), w)" for c as and w :: os by (simp add: cmd_run_def demo_runner_def)
  have T: "\<exists>ts. thumb_loop demo_runner p d width t is w = (Inr ts, w)" for p d width t "is" and w :: os
    by (induction "is") (auto simp: r)
  have "\<exists>ts. fst (generateThumbnails demo_runner p d ?c w) = Inr ts" for p d and w :: os
    using demo_info [of p w] T by (auto simp: generateThumbnails_def Let_def) (metis fst_conv)
  moreover have "\<exists>g. fst (generateGIF demo_runner p d ?c w) = Inr g" for p d and w :: os
    by (simp add: generateGIF_def Let_def r case_prod_beta)
  moreover have "fst (os_mkdir_all (join_path [''/o'', ''previews'']) ?w) = Inr ()" by code_simp
  ultimately have "\<exists>out. fst (GeneratePreviews demo_runner ''in.mp4'' ''/o'' ?c ?w) = Inr out"
    by (simp add: GeneratePreviews_def Let_def case_prod_beta split: sum.split) (metis Inr_Inl_False)
  then obtain out where "fst (GeneratePreviews demo_runner ''in.mp4'' ''/o'' ?c ?w) = Inr out" ..
  with previews_complete [OF this] show ?thesis by (intro exI [of _ out]) simp
qed

end
