(* ===== verification/Transcode.thy ===== *)
theory Transcode
  imports Separate_AV DLQ_Service Dedup_Cache Previews
begin

text \<open>
  \<open>internal/application/usecases/transcode_usecase.go\<close>: one job from the queue to its end. The
  use case works on everything the services keep: the files and the jobs in memory
  (\<^emph>\<open>Job_Store\<close>), the deduplication cache, the metrics, the messages sent to WebSocket clients
  and, for the retries, the times slept.

  \<^item> The state of the job is passed through the steps, as the code passes the pointer; the file
    \<open>state.json\<close> is another copy. After an error the copy in memory is dropped.
  \<^item> The job is given by the fields the use case reads (\<open>j_id\<close>, \<open>j_input_path\<close>,
    \<open>j_chunk_duration\<close>), which nothing changes after the creation of a job.
  \<^item> Only the worker's own goroutine is modelled here. Its companions (heartbeat, metrics,
    size check) are \<^emph>\<open>Worker_Sync\<close>.
  \<^item> A panic ends the Go program: the errors for which \<open>panics\<close> holds stand for one, \<open>nil_deref\<close> for the
    use of a nil pointer and \<open>nil_map_write\<close> for an entry into a cache that is nil.
\<close>

section \<open>The state\<close>

record broadcast =
  bc_job :: string
  bc_status :: string
  bc_progress :: int
  bc_step :: string

record world = store +
  w_cache :: dedup_map
  w_metrics :: metrics_map
  w_sent :: "broadcast list"
  w_slept :: "duration list"

record 'w use_case =
  uc_cfg :: config
  uc_run :: "'w runner"
  uc_sha :: "content \<Rightarrow> string"
  uc_ws :: bool
  uc_max_retries :: int

definition nil_deref :: err where
  "nil_deref = Err ''panic: runtime error: invalid memory address or nil pointer dereference''"

definition panics :: "err \<Rightarrow> bool" where
  "panics e \<longleftrightarrow> e = nil_deref \<or> e = nil_map_write"

definition broadcastProgress ::
    "'a world_scheme use_case \<Rightarrow> string \<Rightarrow> string \<Rightarrow> int \<Rightarrow> string \<Rightarrow> 'a world_scheme \<Rightarrow> 'a world_scheme" where
  "broadcastProgress uc jobID status progress step w =
     (if uc_ws uc
      then w\<lparr>w_sent := w_sent w @ [\<lparr>bc_job = jobID, bc_status = status, bc_progress = progress, bc_step = step\<rparr>]\<rparr>
      else w)"

text \<open>The methods of the state read the clock; saving returns the state with its new time.\<close>

definition mark :: "(go_time \<Rightarrow> job_state \<Rightarrow> job_state) \<Rightarrow> job_state \<Rightarrow> 'a os_scheme \<Rightarrow> job_state \<times> 'a os_scheme" where
  "mark f s w = (let (now, w1) = time_now w in (f now s, w1))"

definition save :: "'a os_scheme use_case \<Rightarrow> job_state \<Rightarrow> 'a os_scheme \<Rightarrow> job_state \<times> 'a os_scheme" where
  "save uc s w = (let ((_, s'), w1) = SaveState (uc_cfg uc) s w in (s', w1))"

section \<open>Classification of errors\<close>

text \<open>The helper looks at the start, the end, and the position one of the text only.\<close>

definition contains :: "string \<Rightarrow> string \<Rightarrow> bool" where
  "contains s sub \<longleftrightarrow>
     length s \<ge> length sub \<and>
     (s = sub \<or> length s > length sub \<and>
        (take (length sub) s = sub \<or> drop (length s - length sub) s = sub
         \<or> length s > length sub + 1 \<and> take (length sub) (drop 1 s) = sub))"

definition extractErrorCode :: "err \<Rightarrow> string" where
  "extractErrorCode e =
     (let errStr = error_text e
      in if contains errStr ''resolution'' then CodeResolutionDetectFailed
         else if contains errStr ''disk'' then CodeDiskFull
         else if contains errStr ''permission'' then CodePermissionDenied
         else if contains errStr ''I/O'' \<or> contains errStr ''io'' then CodeIOError
         else CodeFFmpegFailed)"

section \<open>Helpers\<close>

text \<open>\<open>fmt.Sscanf\<close> with \<open>%dx%d\<close>; what is read before the text stops matching is kept.\<close>

definition scan_resolution :: "string \<Rightarrow> int \<times> int" where
  "scan_resolution s =
     (case scan_d s of
        None \<Rightarrow> (0, 0)
      | Some (width, r) \<Rightarrow>
          (case r of
             c # r' \<Rightarrow> if c = CHR ''x'' then (case scan_d r' of None \<Rightarrow> (width, 0) | Some (height, _) \<Rightarrow> (width, height))
                       else (width, 0)
           | [] \<Rightarrow> (width, 0)))"

definition parseWidth :: "string \<Rightarrow> int" where
  "parseWidth res = fst (scan_resolution res)"

definition parseHeight :: "string \<Rightarrow> int" where
  "parseHeight res = snd (scan_resolution res)"

definition buildInputMetadata :: "string \<Rightarrow> video_info \<Rightarrow> quality_variant list \<Rightarrow> video_metadata" where
  "buildInputMetadata inputPath info variants =
     \<lparr>vm_file_name = path_base inputPath, vm_source_path = inputPath,
      vm_resolution = resolution (vi_width info) (vi_height info), vm_duration = vi_duration info,
      vm_generated = map (\<lambda>v. \<lparr>qm_quality = qv_name v, qm_resolution = resolution (qv_width v) (qv_height v),
                               qm_bitrate = qv_bitrate v\<rparr>) variants\<rparr>"

definition buildOutputInfo :: "string \<Rightarrow> encode_result \<Rightarrow> output_info" where
  "buildOutputInfo jobID result =
     \<lparr>oi_output_dir = path_dir (er_master result), oi_master = er_master result,
      oi_qualities = map (\<lambda>q. \<lparr>qt_quality = qo_quality q, qt_playlist = qo_playlist q, qt_chunks_dir = qo_chunks_dir q,
                               qt_chunk_count = qo_chunk_count q\<rparr>) (er_outputs result),
      oi_thumbnails = [], oi_sprite = [], oi_clip = [], oi_gif = [], oi_audio = None\<rparr>"

definition loadExistingQuality ::
    "config \<Rightarrow> string \<Rightarrow> quality_variant \<Rightarrow> 'a os_scheme \<Rightarrow> quality_output_info option \<times> 'a os_scheme" where
  "loadExistingQuality cfg jobID v w =
     (let variantDir = join_path [GetOutputsDir cfg, jobID, ''hls'', qv_name v];
          (ex, w1) = FileExists variantDir w
      in if \<not> ex then (None, w1)
         else let (chunks, w2) = os_glob variantDir ''chunk_'' ''.ts'' w1
              in (Some \<lparr>qo_quality = qv_name v, qo_playlist = join_path [variantDir, ''main.m3u8''],
                        qo_chunks_dir = variantDir, qo_chunk_count = length chunks\<rparr>, w2))"

definition handleError ::
    "string \<Rightarrow> string \<Rightarrow> string \<Rightarrow> string \<Rightarrow> 'a store_scheme \<Rightarrow> 'a store_scheme" where
  "handleError jobID stage code message w =
     snd (SetError jobID \<lparr>je_code = code, je_stage = stage, je_message = message,
            je_logs_path = ''logs/'' @ jobID @ ''/'' @ stage @ ''.log'', je_failed = []\<rparr> w)"

definition checkJobDiskLimit :: "config \<Rightarrow> string \<Rightarrow> 'a store_scheme \<Rightarrow> (err + unit) \<times> 'a store_scheme" where
  "checkJobDiskLimit cfg jobID w =
     (case CheckJobSizeLimit cfg jobID w of
        (Inl _, w1) \<Rightarrow> (Inr (), w1)
      | (Inr (withinLimit, currentSizeMB), w1) \<Rightarrow>
          if withinLimit then (Inr (), w1)
          else let (_, w2) = UpdateStatus jobID FAILED w1;
                   (_, w3) = SetError jobID \<lparr>je_code = CodeJobSizeExceeded, je_stage = ''encoding'',
                       je_message = ''Job size exceeded maximum allowed: '' @ show_int currentSizeMB @ '' MB'',
                       je_logs_path = [], je_failed = []\<rparr> w2;
                   (_, w4) = DeleteJobFiles cfg jobID w3
               in (Inl (Err (''job size limit exceeded: '' @ show_int currentSizeMB @ '' MB'')), w4))"

section \<open>Previews\<close>

record preview_data =
  pd_thumbnails :: "string list"
  pd_sprite :: string
  pd_clip :: string
  pd_gif :: string
  pd_audio :: "audio_info option"

definition generatePreviews ::
    "'a os_scheme use_case \<Rightarrow> string \<Rightarrow> string \<Rightarrow> video_info \<Rightarrow> 'a os_scheme \<Rightarrow> (err + preview_data) \<times> 'a os_scheme" where
  "generatePreviews uc jobID inputPath info w =
     (let outputDir = join_path [GetOutputsDir (uc_cfg uc), jobID]; previewDir = join_path [outputDir, ''previews'']
      in case EnsureDir previewDir w of
           (Inl e, w1) \<Rightarrow> (Inl (wrap ''failed to create preview directory'' e), w1)
         | (Inr _, w1) \<Rightarrow>
             (let quarter = fdiv (vi_duration info) (Fin 4);
                  config = \<lparr>pc_count = 10, pc_gif_duration = Fin 3, pc_gif_start = quarter, pc_width = 320, pc_gif_width = 0\<rparr>
              in case GeneratePreviews (uc_run uc) inputPath outputDir config w1 of
                   (Inl e, w2) \<Rightarrow> (Inl (wrap ''failed to generate previews'' e), w2)
                 | (Inr out, w2) \<Rightarrow>
                     (let sprite = join_path [previewDir, ''sprite.jpg''];
                          (rs, w3) = GenerateSpriteSheet (uc_run uc) inputPath sprite config w2;
                          clip = join_path [previewDir, ''preview.mp4''];
                          (rc, w4) = GeneratePreviewClip (uc_run uc) inputPath clip quarter (Fin 3) w3
                      in (Inr \<lparr>pd_thumbnails = po_thumbnails out,
                               pd_sprite = (if is_ok rs then sprite else []),
                               pd_clip = (if is_ok rc then clip else []),
                               pd_gif = po_gif out,
                               pd_audio = (if vi_has_audio info then Some \<lparr>ai_normalized = False, ai_standard = ''ITU BS.1770''\<rparr>
                                           else None)\<rparr>, w4))))"

section \<open>The steps\<close>

type_synonym 'x step_result = "err + 'x \<times> job_state"

definition stepHashComputation ::
    "'a world_scheme use_case \<Rightarrow> job \<Rightarrow> job_state \<Rightarrow> 'a world_scheme \<Rightarrow> unit step_result \<times> 'a world_scheme" where
  "stepHashComputation uc j s w =
     (let (_, w1) = UpdateProgress (j_id j) 5 ''Computing file hash'' w;
          w2 = broadcastProgress uc (j_id j) ''RUNNING'' 5 ''Computing file hash'' w1
      in case ComputeHash (uc_sha uc) (j_input_path j) w2 of
           (Inl e, w3) \<Rightarrow> (Inl (wrap ''failed to compute hash'' e), w3)
         | (Inr h, w3) \<Rightarrow>
             (case SetHash (j_id j) h w3 of
                (Inl e, w4) \<Rightarrow> (Inl e, w4)
              | (Inr _, w4) \<Rightarrow>
                  (let (s1, w5) = mark (MarkStepCompleted StepHashComputation) s w4;
                       ((r, s2), w6) = SaveState (uc_cfg uc) (s1\<lparr>js_current_step := StepDeduplication\<rparr>) w5
                   in (case r of Inl e \<Rightarrow> Inl e | Inr _ \<Rightarrow> Inr ((), s2), w6))))"

definition stepDeduplication ::
    "'a world_scheme use_case \<Rightarrow> job \<Rightarrow> job_state \<Rightarrow> 'a world_scheme \<Rightarrow> bool step_result \<times> 'a world_scheme" where
  "stepDeduplication uc j s w =
     (let (_, w1) = UpdateProgress (j_id j) 10 ''Checking for duplicates'' w
      in case GetJob (j_id j) w1 of
           Inl _ \<Rightarrow> (Inl nil_deref, w1)
         | Inr r \<Rightarrow>
             (let h = j_input_hash (deref w1 r)
              in if h = [] then (Inl (Err ''hash not computed''), w1)
                 else if snd (CheckDuplicate h (w_cache w1))
                 then let (_, w2) = UpdateProgress (j_id j) 100 ''Completed (duplicate)'' w1;
                          (_, w3) = UpdateStatus (j_id j) COMPLETED w2;
                          (s1, w4) = mark (MarkStepCompleted StepDeduplication) (s\<lparr>js_status := ''completed''\<rparr>) w3;
                          (s2, w5) = save uc s1 w4
                      in (Inr (True, s2), w5)
                 else let (s1, w2) = mark (MarkStepCompleted StepDeduplication) s w1;
                          ((r, s2), w3) = SaveState (uc_cfg uc) (s1\<lparr>js_current_step := StepAnalysis\<rparr>) w2
                      in (case r of Inl e \<Rightarrow> Inl e | Inr _ \<Rightarrow> Inr (False, s2), w3)))"

definition stepAnalysis ::
    "'a world_scheme use_case \<Rightarrow> job \<Rightarrow> job_state \<Rightarrow> 'a world_scheme \<Rightarrow> video_info step_result \<times> 'a world_scheme" where
  "stepAnalysis uc j s w =
     (let (_, w1) = UpdateProgress (j_id j) 15 ''Analyzing input video'' w;
          w2 = broadcastProgress uc (j_id j) ''RUNNING'' 15 ''Analyzing input video'' w1
      in case GetVideoInfo (uc_run uc) (j_input_path j) w2 of
           (Inl e, w3) \<Rightarrow> (Inl (wrap ''failed to analyze video'' e), w3)
         | (Inr info, w3) \<Rightarrow>
             (let (s1, w4) = mark (MarkStepCompleted StepAnalysis) s w3;
                  (s2, w5) = save uc (s1\<lparr>js_current_step := StepEncoding720p\<rparr>) w4
              in (Inr (info, s2), w5)))"

fun mark_all :: "(string \<Rightarrow> go_time \<Rightarrow> job_state \<Rightarrow> job_state) \<Rightarrow> string list \<Rightarrow> job_state \<Rightarrow> 'a os_scheme \<Rightarrow> job_state \<times> 'a os_scheme" where
  "mark_all f [] s w = (s, w)"
| "mark_all f (q # qs) s w = (let (s1, w1) = mark (f q) s w in mark_all f qs s1 w1)"

definition track_variant :: "video_track \<Rightarrow> quality_variant" where
  "track_variant t =
     \<lparr>qv_name = vt_quality t, qv_width = parseWidth (vt_resolution t), qv_height = parseHeight (vt_resolution t),
      qv_bitrate = show_int (quot (vt_bandwidth t) 1000) @ ''k'', qv_maxrate = [], qv_bufsize = []\<rparr>"

definition encodeSeparateAV ::
    "'a world_scheme use_case \<Rightarrow> job \<Rightarrow> job_state \<Rightarrow> video_info \<Rightarrow> 'a world_scheme
       \<Rightarrow> (encode_result \<times> quality_variant list) step_result \<times> 'a world_scheme" where
  "encodeSeparateAV uc j s info w =
     (let outputDir = join_path [GetOutputsDir (uc_cfg uc), j_id j, ''hls'']
      in case EncodeSeparateAV (uc_run uc) (j_input_path j) outputDir info (j_chunk_duration j) w of
           (Inl e, w1) \<Rightarrow> (Inl (wrap ''separate A/V encoding failed'' e), w1)
         | (Inr av, w1) \<Rightarrow>
             (let result = \<lparr>er_master = sr_master av,
                     er_outputs = map (\<lambda>t. \<lparr>qo_quality = vt_quality t, qo_playlist = vt_playlist t,
                                              qo_chunks_dir = path_dir (vt_playlist t), qo_chunk_count = 0\<rparr>) (sr_video av)\<rparr>;
                  variants = map track_variant (sr_video av);
                  (s1, w2) = mark_all MarkQualityCompleted (map qv_name variants) s w1;
                  (s2, w3) = mark (MarkStepCompleted StepMasterPlaylist) s1 w2;
                  (s3, w4) = save uc (s2\<lparr>js_current_step := StepCleanup\<rparr>) w3
              in (Inr ((result, variants), s3), w4)))"

text \<open>The loop over the qualities: the outputs, the variants that succeeded and the names that failed.\<close>

fun resume_loop ::
    "'a world_scheme use_case \<Rightarrow> job \<Rightarrow> video_info \<Rightarrow> quality_variant list
       \<Rightarrow> quality_output_info list \<times> quality_variant list \<times> string list \<Rightarrow> job_state \<Rightarrow> 'a world_scheme
       \<Rightarrow> (quality_output_info list \<times> quality_variant list \<times> string list) step_result \<times> 'a world_scheme" where
  "resume_loop uc j info [] acc s w = (Inr (acc, s), w)"
| "resume_loop uc j info (v # vs) (outs, oks, failed) s w =
     (if IsQualityCompleted s (qv_name v)
      then (case loadExistingQuality (uc_cfg uc) (j_id j) v w of
              (Some out, w1) \<Rightarrow> resume_loop uc j info vs (outs @ [out], oks @ [v], failed) s w1
            | (None, w1) \<Rightarrow> resume_loop uc j info vs (outs, oks, failed) s w1)
      else let (s1, w1) = save uc (s\<lparr>js_current_step := ''encoding_'' @ qv_name v\<rparr>) w;
               (r, w2) = EncodeQuality (uc_run uc) (j_id j) (j_input_path j) v (j_chunk_duration j)
                           (GetOutputsDir (uc_cfg uc)) (vi_has_audio info) w1
           in if qr_success r
              then let (s2, w3) = mark (MarkQualityCompleted (qv_name v)) s1 w2
                   in case EnforceJobSizeLimit (uc_cfg uc) (j_id j) w3 of
                        (Inl e, w4) \<Rightarrow>
                          (let (_, w5) = UpdateStatus (j_id j) FAILED w4;
                               (_, w6) = save uc (s2\<lparr>js_status := ''failed''\<rparr>) w5
                           in (Inl (wrap CodeJobSizeExceeded e), w6))
                      | (Inr _, w4) \<Rightarrow>
                          (let (s3, w5) = save uc s2 w4
                           in resume_loop uc j info vs (outs @ [output_of r], oks @ [v], failed) s3 w5)
              else let (s2, w3) = mark (MarkQualityFailed (qv_name v)) s1 w2;
                       (s3, w4) = save uc s2 w3
                   in resume_loop uc j info vs (outs, oks, failed @ [qv_name v]) s3 w4)"

text \<open>The result: nothing but an error, or what was encoded with the error of a partial success if any.\<close>

definition finish_resume ::
    "'a world_scheme use_case \<Rightarrow> job \<Rightarrow> video_info \<Rightarrow> nat \<Rightarrow> quality_output_info list \<times> quality_variant list \<times> string list
       \<Rightarrow> job_state \<Rightarrow> 'a world_scheme \<Rightarrow> (encode_result \<times> quality_variant list \<times> err option) step_result \<times> 'a world_scheme" where
  "finish_resume uc j info n acc s w =
     (let (outs, oks, failed) = acc;
          masterPlaylist = join_path [join_path [GetOutputsDir (uc_cfg uc), j_id j, ''hls''], ''master.m3u8'']
      in if oks = [] then (Inl (Err ''all quality encodings failed''), w)
         else case GenerateMasterPlaylist masterPlaylist oks (vi_has_audio info) w of
                (Inl e, w1) \<Rightarrow> (Inl (wrap ''failed to generate master playlist'' e), w1)
              | (Inr _, w1) \<Rightarrow>
                  (Inr ((\<lparr>er_master = masterPlaylist, er_outputs = outs\<rparr>, oks,
                         if failed \<noteq> [] then Some (PartialSuccess failed (length oks) n) else None), s), w1))"

definition encodeWithResume ::
    "'a world_scheme use_case \<Rightarrow> job \<Rightarrow> job_state \<Rightarrow> video_info \<Rightarrow> 'a world_scheme
       \<Rightarrow> (encode_result \<times> quality_variant list \<times> err option) step_result \<times> 'a world_scheme" where
  "encodeWithResume uc j s info w =
     (let variants = SelectVariants (vi_width info) (vi_height info)
      in case resume_loop uc j info variants ([], [], []) s w of
           (Inl e, w1) \<Rightarrow> (Inl e, w1)
         | (Inr (acc, s1), w1) \<Rightarrow> finish_resume uc j info (length variants) acc s1 w1)"

text \<open>The encoding step: what it does before the encoder runs, and after the qualities are encoded.\<close>

definition begin_encoding :: "'a world_scheme use_case \<Rightarrow> job \<Rightarrow> 'a world_scheme \<Rightarrow> (err + unit) \<times> 'a world_scheme" where
  "begin_encoding uc j w =
     (let (_, w1) = UpdateProgress (j_id j) 30 ''Starting multi-quality encoding'' w
      in checkJobDiskLimit (uc_cfg uc) (j_id j)
           (broadcastProgress uc (j_id j) ''RUNNING'' 30 ''Starting multi-quality encoding'' w1))"

definition end_encoding ::
    "'a world_scheme use_case \<Rightarrow> encode_result \<times> quality_variant list \<times> err option \<Rightarrow> job_state \<Rightarrow> 'a world_scheme
       \<Rightarrow> (encode_result \<times> quality_variant list) step_result \<times> 'a world_scheme" where
  "end_encoding uc encoded s w =
     (let (result, variants, partial) = encoded;
          (s1, w1) = (case partial of
             Some (PartialSuccess failed _ _) \<Rightarrow>
               (let (t, w') = mark_all MarkQualityFailed failed s w in save uc t w')
           | _ \<Rightarrow> (s, w));
          (s2, w2) = mark (MarkStepCompleted StepMasterPlaylist) s1 w1;
          (s3, w3) = save uc (s2\<lparr>js_current_step := StepCleanup\<rparr>) w2
      in (case partial of Some e \<Rightarrow> Inl e | None \<Rightarrow> Inr ((result, variants), s3), w3))"

definition stepEncoding ::
    "'a world_scheme use_case \<Rightarrow> job \<Rightarrow> job_state \<Rightarrow> video_info \<Rightarrow> 'a world_scheme
       \<Rightarrow> (encode_result \<times> quality_variant list) step_result \<times> 'a world_scheme" where
  "stepEncoding uc j s info w =
     (case begin_encoding uc j w of
        (Inl e, w1) \<Rightarrow> (Inl e, w1)
      | (Inr _, w1) \<Rightarrow>
          if vi_has_audio info then encodeSeparateAV uc j s info w1
          else case encodeWithResume uc j s info w1 of
                 (Inl e, w2) \<Rightarrow> (Inl (wrap ''encoding failed'' e), w2)
               | (Inr (encoded, s1), w2) \<Rightarrow> end_encoding uc encoded s1 w2)"

text \<open>The preview data goes into the output; the final status depends on the failures in the state.\<close>

definition with_previews :: "output_info \<Rightarrow> preview_data \<Rightarrow> output_info" where
  "with_previews out p =
     out\<lparr>oi_thumbnails := pd_thumbnails p, oi_sprite := pd_sprite p, oi_clip := pd_clip p, oi_gif := pd_gif p,
          oi_audio := pd_audio p\<rparr>"

definition finish_status ::
    "'a world_scheme use_case \<Rightarrow> string \<Rightarrow> bool \<Rightarrow> job_state \<Rightarrow> 'a world_scheme \<Rightarrow> job_state \<times> 'a world_scheme" where
  "finish_status uc i partial s w =
     (if partial
      then let (_, w1) = UpdateProgress i 100 ''Completed with partial success'' w;
               (_, w2) = UpdateStatus i PARTIAL_SUCCESS w1;
               w3 = broadcastProgress uc i ''PARTIAL_SUCCESS'' 100 ''Completed with partial success'' w2
           in (s\<lparr>js_status := ''partial_success''\<rparr>, w3)
      else let (_, w1) = UpdateProgress i 100 ''Completed'' w;
               (_, w2) = UpdateStatus i COMPLETED w1;
               w3 = broadcastProgress uc i ''COMPLETED'' 100 ''Completed'' w2
           in (s\<lparr>js_status := ''completed''\<rparr>, w3))"

definition clean_step_once ::
    "'a world_scheme use_case \<Rightarrow> string \<Rightarrow> job_state \<Rightarrow> 'a world_scheme \<Rightarrow> job_state \<times> 'a world_scheme" where
  "clean_step_once uc i s w =
     (if \<not> IsStepCompleted s StepCleanup
      then let (_, w1) = CleanupIntermediateFiles (uc_cfg uc) i w;
               (s1, w2) = mark (MarkStepCompleted StepCleanup) s w1
           in save uc s1 w2
      else (s, w))"

definition store_in_cache :: "'a world_scheme use_case \<Rightarrow> string \<Rightarrow> 'a world_scheme \<Rightarrow> err option \<times> 'a world_scheme" where
  "store_in_cache uc i w =
     (case GetJob i w of
        Inl _ \<Rightarrow> (Some nil_deref, w)
      | Inr r \<Rightarrow>
          (let h = j_input_hash (deref w r)
           in if h = [] then (None, w)
              else let ((r, m), w1) = Store (cache_dir (cf_storage (uc_cfg uc))) h i (w_cache w) w
                   in (if r = Inl nil_map_write then Some nil_map_write else None, w1\<lparr>w_cache := m\<rparr>)))"

text \<open>The finalization: the output is described in the job, then the job is concluded.\<close>

definition describe_output ::
    "'a world_scheme use_case \<Rightarrow> job \<Rightarrow> encode_result \<Rightarrow> quality_variant list \<Rightarrow> video_info
       \<Rightarrow> 'a world_scheme \<Rightarrow> (err + output_info) \<times> 'a world_scheme" where
  "describe_output uc j result variants info w =
     (let (_, w1) = UpdateProgress (j_id j) 85 ''Generating previews and thumbnails'' w;
          (previews, w2) = generatePreviews uc (j_id j) (j_input_path j) info w1;
          (_, w3) = UpdateProgress (j_id j) 90 ''Finalizing outputs'' w2;
          inputMeta = buildInputMetadata (j_input_path j) info variants;
          out = buildOutputInfo (j_id j) result;
          outputInfo = (case previews of Inl _ \<Rightarrow> out | Inr p \<Rightarrow> with_previews out p)
      in case SetMetadata (j_id j) (Some inputMeta) (Some outputInfo) w3 of
           (Inl e, w4) \<Rightarrow> (Inl e, w4)
         | (Inr _, w4) \<Rightarrow> (Inr outputInfo, w4))"

definition conclude ::
    "'a world_scheme use_case \<Rightarrow> job \<Rightarrow> job_state \<Rightarrow> output_info \<Rightarrow> 'a world_scheme \<Rightarrow> (err + unit) \<times> 'a world_scheme" where
  "conclude uc j s outputInfo w =
     (let partial = (js_qualities_failed s \<noteq> []);
          w1 = (if partial
                then snd (SetError (j_id j)
                       \<lparr>je_code = ''ERR_PARTIAL_ENCODING'', je_stage = ''encoding'',
                        je_message = ''Some qualities failed to encode: '' @ fmt_strings (js_qualities_failed s),
                        je_logs_path = ''outputs/'' @ j_id j @ ''/logs'', je_failed = js_qualities_failed s\<rparr> w)
                else w);
          (s1, w2) = clean_step_once uc (j_id j) s w1;
          (s2, w3) = finish_status uc (j_id j) partial s1 w2;
          (dead, w4) = store_in_cache uc (j_id j) w3
      in case dead of
           Some e \<Rightarrow> (Inl e, w4)
         | None \<Rightarrow>
             (let (s3, w5) = mark (MarkStepCompleted StepFinalization) s2 w4;
                  (s4, w6) = save uc s3 w5;
                  chunks = fold (\<lambda>q n. wrap64 (n + int (qt_chunk_count q))) (oi_qualities outputInfo) 0;
                  ((_, mm), w7) = EndJobMetrics (uc_cfg uc) (j_id j)
                     (if partial then ''partial_success'' else ''completed'')
                     (int (length (js_qualities_complete s4))) chunks (w_metrics w6) w6
              in (Inr (), w7\<lparr>w_metrics := mm\<rparr>)))"

definition stepFinalization ::
    "'a world_scheme use_case \<Rightarrow> job \<Rightarrow> job_state \<Rightarrow> encode_result \<Rightarrow> quality_variant list \<Rightarrow> video_info
       \<Rightarrow> 'a world_scheme \<Rightarrow> (err + unit) \<times> 'a world_scheme" where
  "stepFinalization uc j s result variants info w =
     (case describe_output uc j result variants info w of
        (Inl e, w1) \<Rightarrow> (Inl e, w1)
      | (Inr outputInfo, w1) \<Rightarrow> conclude uc j s outputInfo w1)"

section \<open>A job\<close>

definition getOrCreateState :: "config \<Rightarrow> job \<Rightarrow> 'a os_scheme \<Rightarrow> (err + job_state) \<times> 'a os_scheme" where
  "getOrCreateState cfg j w =
     (case LoadState cfg (j_id j) w of
        (Inr s, w1) \<Rightarrow> (Inr s, w1)
      | (Inl _, w1) \<Rightarrow> CreateState cfg (j_id j) (j_input_path j) (j_chunk_duration j) w1)"

definition videoInfoFor ::
    "'a world_scheme use_case \<Rightarrow> job \<Rightarrow> job_state \<Rightarrow> 'a world_scheme \<Rightarrow> video_info step_result \<times> 'a world_scheme" where
  "videoInfoFor uc j s w =
     (if \<not> IsStepCompleted s StepAnalysis then stepAnalysis uc j s w
      else case GetVideoInfo (uc_run uc) (j_input_path j) w of
             (Inl e, w1) \<Rightarrow> (Inl (wrap ''failed to reload video info'' e), w1)
           | (Inr info, w1) \<Rightarrow> (Inr (info, s), w1))"

definition executeSteps ::
    "'a world_scheme use_case \<Rightarrow> job \<Rightarrow> job_state \<Rightarrow> 'a world_scheme \<Rightarrow> (err + unit) \<times> 'a world_scheme" where
  "executeSteps uc j s w =
     (case (if \<not> IsStepCompleted s StepHashComputation then stepHashComputation uc j s w else (Inr ((), s), w)) of
        (Inl e, w1) \<Rightarrow> (Inl e, w1)
      | (Inr (_, s1), w1) \<Rightarrow>
     (case (if \<not> IsStepCompleted s1 StepDeduplication then stepDeduplication uc j s1 w1 else (Inr (False, s1), w1)) of
        (Inl e, w2) \<Rightarrow> (Inl e, w2)
      | (Inr (isDuplicate, s2), w2) \<Rightarrow>
          if isDuplicate then (Inr (), w2)
          else (case videoInfoFor uc j s2 w2 of
                  (Inl e, w3) \<Rightarrow> (Inl e, w3)
                | (Inr (info, s3), w3) \<Rightarrow>
          (case stepEncoding uc j s3 info w3 of
             (Inl e, w4) \<Rightarrow> (Inl e, w4)
           | (Inr ((result, variants), s4), w4) \<Rightarrow> stepFinalization uc j s4 result variants info w4))))"

definition process :: "'a world_scheme use_case \<Rightarrow> job \<Rightarrow> 'a world_scheme \<Rightarrow> (err + unit) \<times> 'a world_scheme" where
  "process uc j w =
     (let (mm, w1) = StartJobMetrics (j_id j) (j_input_path j) (w_metrics w) w; w2 = w1\<lparr>w_metrics := mm\<rparr>
      in case getOrCreateState (uc_cfg uc) j w2 of
           (Inl e, w3) \<Rightarrow> (Inl (wrap ''failed to get/create state'' e), w3)
         | (Inr s, w3) \<Rightarrow>
             (case UpdateStatus (j_id j) RUNNING w3 of
                (Inl e, w4) \<Rightarrow> (Inl (wrap ''failed to update status'' e), w4)
              | (Inr _, w4) \<Rightarrow> executeSteps uc j s w4))"

definition sleep :: "duration \<Rightarrow> 'a world_scheme \<Rightarrow> 'a world_scheme" where
  "sleep d w = w\<lparr>w_slept := w_slept w @ [d]\<rparr>"

definition err_text :: "err option \<Rightarrow> string" where
  "err_text e = (case e of None \<Rightarrow> ''<nil>'' | Some x \<Rightarrow> error_text x)"

text \<open>
  The loop over the attempts: \<open>left\<close> attempts are left, \<open>attempt\<close> were made. The value is the
  error that \<open>Execute\<close> returns, \<open>None\<close> for success. \<open>proc\<close> is \<open>process\<close> for the job.
\<close>

fun attempts ::
    "'a world_scheme use_case \<Rightarrow> ('a world_scheme \<Rightarrow> (err + unit) \<times> 'a world_scheme) \<Rightarrow> string
       \<Rightarrow> nat \<Rightarrow> nat \<Rightarrow> err option \<Rightarrow> string \<Rightarrow> 'a world_scheme \<Rightarrow> err option \<times> 'a world_scheme" where
  "attempts uc proc i 0 attempt lastError errorCode w =
     (let w1 = handleError i ''retry'' errorCode (''Max retries exceeded: '' @ err_text lastError) w;
          w2 = (case GetJob i w1 of
                  Inl _ \<Rightarrow> w1
                | Inr r \<Rightarrow> snd (MoveToDLQ (uc_cfg uc) (deref w1 r)
                             (''Max retries exceeded ('' @ show_int (wrap64 (uc_max_retries uc + 1)) @ '' attempts)'') w1))
      in (lastError, w2))"
| "attempts uc proc i (Suc left) attempt lastError errorCode w =
     (let strategy = GetRetryStrategy errorCode
      in if attempt > 0 \<and> \<not> should_retry strategy
         then (lastError, handleError i ''validation'' errorCode (''Non-retryable error: '' @ err_text lastError) w)
         else if attempt > 0 \<and> attempt > length (backoff strategy)
         then (lastError, handleError i ''retry'' errorCode (''Max retries exceeded: '' @ err_text lastError) w)
         else let w1 = (if attempt > 0 then snd (IncrementRetry i (sleep (backoff strategy ! (attempt - 1)) w)) else w)
              in case proc w1 of
                   (Inr _, w2) \<Rightarrow> (None, w2)
                 | (Inl e, w2) \<Rightarrow>
                     if panics e then (Some e, w2)
                     else attempts uc proc i left (Suc attempt) (Some e) (extractErrorCode e) w2)"

definition Execute :: "'a world_scheme use_case \<Rightarrow> job \<Rightarrow> 'a world_scheme \<Rightarrow> err option \<times> 'a world_scheme" where
  "Execute uc j w = attempts uc (process uc j) (j_id j) (nat (uc_max_retries uc + 1)) 0 None [] w"

end
