(* ===== verification/Transcode_Frame.thy ===== *)
theory Transcode_Frame
  imports Transcode
begin

text \<open>
  What the transcoding of a job leaves alone. \<open>os_frame\<close> (\<^emph>\<open>Os\<close>) says that only files and
  ticks changed, \<open>keeps i\<close> that of the jobs only the one with identifier \<open>i\<close> changed, and
  not in the fields that identify its input. The rules have the form \<open>R u w \<Longrightarrow> R u (op w)\<close>, so
  that a composed operation is taken apart from the outside by introduction.
\<close>

named_theorems osf
  \<comment> \<open>operations on files only\<close>

section \<open>Operations on files\<close>

text \<open>The shapes of composed operations.\<close>

lemma osf_struct:
  "os_frame u w \<Longrightarrow> os_frame u (snd (r, w))"
  "(\<And>e. os_frame u (snd (f e))) \<Longrightarrow> (\<And>v. os_frame u (snd (g v))) \<Longrightarrow>
     os_frame u (snd (case x of Inl e \<Rightarrow> f e | Inr v \<Rightarrow> g v))"
  "os_frame u (snd a) \<Longrightarrow> os_frame u (snd b) \<Longrightarrow> os_frame u (snd (if c then a else b))"
  by (auto split: sum.split)

lemma osf_step: "os_frame w w' \<Longrightarrow> os_frame u w \<Longrightarrow> os_frame u w'"
  by (rule os_frame_trans)

lemmas osf_prims [osf] = os_frame_calls [THEN osf_step] os_frame_utils [THEN osf_step]
  os_frame_advance [THEN osf_step] os_frame_time_now [THEN osf_step]
  DeleteJobFiles_frame [THEN osf_step] CheckJobSizeLimit_fs(2) [THEN osf_step] GetJobSize_fs(2) [THEN osf_step]

lemma osf_run:
  assumes "tame run" "os_frame u w"
  shows "os_frame u (snd (run c as w))" "os_frame u (snd (cmd_run run c as w))" "os_frame u (snd (cmd_output run c as w))"
    "os_frame u (snd (GetVideoInfo run p w))" "os_frame u (snd (GeneratePreviews run p d cf w))"
    "os_frame u (snd (GenerateSpriteSheet run p d cf w))" "os_frame u (snd (GeneratePreviewClip run p d x y w))"
  using assms by (auto simp: tame_def intro!: os_frame_trans [OF assms(2)])

lemma osf_services [osf]:
  assumes "os_frame u w"
  shows "os_frame u (snd (EnforceJobSizeLimit cfg i w))" "os_frame u (snd (CleanupIntermediateFiles cfg i w))"
    "os_frame u (snd (SaveState cfg s w))" "os_frame u (snd (LoadState cfg i w))"
    "os_frame u (snd (mark f s w))" "os_frame u (snd (save uc s w))" "os_frame u (snd (MoveToDLQ cfg j r w))"
    "os_frame u (snd (Store d h i m w))" "os_frame u (snd (StartJobMetrics i p mm w))"
    "os_frame u (snd (EndJobMetrics cfg i st q c mm w))"
    "os_frame u (snd (loadExistingQuality cfg i v w))" "os_frame u (saveFFmpegLogs e p w)"
    "os_frame u (snd (ComputeHash sha p w))"
  using assms
  by (auto simp: EnforceJobSizeLimit_def CleanupIntermediateFiles_def SaveState_def LoadState_def mark_def save_def
      MoveToDLQ_def Store_def cache_save_def StartJobMetrics_def GetFileSizeMB_def EndJobMetrics_def saveMetrics_def
      loadExistingQuality_def saveFFmpegLogs_def ComputeHash_def Let_def case_prod_beta
      split: sum.split option.split intro!: osf)

lemma os_frame_create [simp]: "os_frame w (snd (os_create_unchecked p c w))"
proof -
  have "os_frame w ((snd (os_write_file p junk (w\<lparr>io := \<lambda>_. IO_ok\<rparr>)))\<lparr>io := io w\<rparr>)"
  proof -
    obtain m t where "snd (os_write_file p junk (w\<lparr>io := \<lambda>_. IO_ok\<rparr>)) = (w\<lparr>io := \<lambda>_. IO_ok\<rparr>)\<lparr>fs := m, tick := t\<rparr>"
      using os_frame_calls(4) [of "w\<lparr>io := \<lambda>_. IO_ok\<rparr>" p junk] unfolding os_frame_def by blast
    then have "(snd (os_write_file p junk (w\<lparr>io := \<lambda>_. IO_ok\<rparr>)))\<lparr>io := io w\<rparr> = w\<lparr>fs := m, tick := t\<rparr>" by simp
    then show ?thesis unfolding os_frame_def by blast
  qed
  then show ?thesis by (auto simp: os_create_unchecked_def case_prod_beta split: io_outcome.split)
qed

lemma osf_playlists [osf]:
  assumes "os_frame u w"
  shows "os_frame u (snd (os_create_unchecked p c w))" "os_frame u (snd (GenerateMasterPlaylist p vs a w))"
    "os_frame u (snd (GeneratePlaylistFile p vv av w))" "os_frame u (snd (GenerateSeparateAudioVideoMaster p q l w))"
  using assms os_frame_trans [OF assms os_frame_create]
  by (auto simp: GenerateMasterPlaylist_def GeneratePlaylistFile_def GenerateSeparateAudioVideoMaster_def
      case_prod_beta Let_def intro!: osf)

lemma osf_encode_quality:
  assumes "tame run" "os_frame u w"
  shows "os_frame u (snd (EncodeQuality run i p v d out a w))"
  using assms
  by (auto simp: EncodeQuality_def executeFFmpegEncoding_def Watch_def Let_def case_prod_beta
      split: sum.split intro!: osf osf_run)

lemma osf_audio:
  assumes "tame run"
  shows "os_frame u w \<Longrightarrow> os_frame u (snd (ensureDir run d w))" "os_frame u w \<Longrightarrow> os_frame u (snd (ExtractAudio run p q w))"
    "os_frame u w \<Longrightarrow> os_frame u (snd (ProcessAudio run p q b w))"
    "os_frame u w \<Longrightarrow> os_frame u (snd (GenerateAudioHLS run p q b n w))"
    "os_frame u w \<Longrightarrow> os_frame u (snd (EncodeVideoOnly run p q x y b n w))"
  using assms
  by (auto simp: ensureDir_def ExtractAudio_def ProcessAudio_def GenerateAudioHLS_def EncodeVideoOnly_def
      case_prod_beta split: sum.split intro!: osf_run)

lemma osf_audio_loop: "tame run \<Longrightarrow> os_frame u w \<Longrightarrow> os_frame u (snd (audio_loop run p d n qs w))"
proof (induction qs arbitrary: w)
  case (Cons q qs)
  then show ?case
    by (auto simp: Let_def case_prod_beta split: sum.split intro!: osf_audio Cons.IH)
qed simp

lemma osf_video_loop: "tame run \<Longrightarrow> os_frame u w \<Longrightarrow> os_frame u (snd (video_loop run p d n qs w))"
proof (induction qs arbitrary: w)
  case (Cons q qs)
  then show ?case
    by (auto simp: Let_def case_prod_beta split: sum.split intro!: osf_audio Cons.IH)
qed simp

lemma osf_separate:
  assumes "tame run" "os_frame u w"
  shows "os_frame u (snd (EncodeSeparateAV run p d info n w))"
  unfolding EncodeSeparateAV_def GenerateMultiQualityAudio_def Let_def case_prod_beta
  by (intro osf_struct osf osf_audio osf_audio_loop osf_video_loop assms)

lemma osf_previews:
  assumes "tame (uc_run uc)" "os_frame u w"
  shows "os_frame u (snd (generatePreviews uc i p info w))"
  using assms
  by (auto simp: generatePreviews_def Let_def case_prod_beta split: sum.split intro!: osf osf_run)

lemma osf_mark_all [osf]: "os_frame u w \<Longrightarrow> os_frame u (snd (mark_all f qs s w))"
proof (induction qs arbitrary: s w)
  case (Cons q qs)
  show ?case using Cons.IH [OF osf_services(5) [OF Cons.prems]] by (simp add: case_prod_beta)
qed simp

lemma osf_state [osf]: "os_frame u w \<Longrightarrow> os_frame u (snd (getOrCreateState cfg j w))"
  by (auto simp: getOrCreateState_def CreateState_def Let_def case_prod_beta split: sum.split intro!: osf)

section \<open>Operations on one job\<close>

text \<open>The fields that no step changes.\<close>

definition fixed_fields :: "job \<Rightarrow> string \<times> string \<times> int \<times> int" where
  "fixed_fields j = (j_id j, j_input_path j, j_chunk_duration j, j_max_retries j)"

definition keeps :: "string \<Rightarrow> 'a store_scheme \<Rightarrow> 'a store_scheme \<Rightarrow> bool" where
  "keeps i w w' \<longleftrightarrow> (store_wf w \<longrightarrow> store_wf w' \<and> (\<forall>k. k \<noteq> i \<longrightarrow> job_view w' k = job_view w k)
     \<and> map_option fixed_fields (job_view w' i) = map_option fixed_fields (job_view w i))"

lemma keeps_refl [simp]: "keeps i w w"
  by (simp add: keeps_def)

lemma keeps_trans: "keeps i u v \<Longrightarrow> keeps i v w \<Longrightarrow> keeps i u w"
  by (simp add: keeps_def)

lemma keeps_os: "os_frame w w' \<Longrightarrow> keeps i u w \<Longrightarrow> keeps i u w'"
  using os_frame_job_view [of w w'] by (simp add: keeps_def)

lemma keeps_same:
  "st_jobs w' = st_jobs w \<Longrightarrow> st_repo w' = st_repo w \<Longrightarrow> st_next w' = st_next w \<Longrightarrow> keeps i u w \<Longrightarrow> keeps i u w'"
proof -
  assume s: "st_jobs w' = st_jobs w" "st_repo w' = st_repo w" "st_next w' = st_next w" and k: "keeps i u w"
  have "deref w' = deref w" using s by (simp add: deref_def fun_eq_iff)
  then have "job_view w' = job_view w" using s by (intro ext) (simp add: job_view_def)
  moreover have "store_wf w' = store_wf w" using s by (simp add: store_wf_def)
  ultimately show "keeps i u w'" using k by (simp add: keeps_def)
qed

lemma keeps_modify:
  assumes "keeps i u w" "\<And>j. fixed_fields (f j) = fixed_fields j"
  shows "keeps i u (snd (mem.modify i f w))"
proof -
  have id: "j_id (f j) = j_id j" for j using assms(2) [of j] by (simp add: fixed_fields_def)
  have "keeps i w (snd (mem.modify i f w))"
    using mem.modify_None [of w i f] mem.modify_Some [of w i _ f] id assms(2)
    by (cases "job_view w i") (auto simp: keeps_def)
  then show ?thesis using keeps_trans assms(1) by blast
qed

lemma keeps_setters:
  assumes "keeps i u w"
  shows "keeps i u (snd (UpdateProgress i n step w))" "keeps i u (snd (SetMetadata i inp outp w))"
    "keeps i u (snd (SetHash i h w))" "keeps i u (snd (IncrementRetry i w))"
  unfolding setters_modify by (rule keeps_modify [OF assms]; simp add: fixed_fields_def)+

lemma fixed_status: "fixed_fields (status_change st t j) = fixed_fields j"
  "fixed_fields (finish_job t (j\<lparr>j_error := e, j_status := st\<rparr>)) = fixed_fields j"
  by (simp_all add: fixed_fields_def status_change_def finish_job_def)

lemma keeps_status:
  assumes "keeps i u w"
  shows "keeps i u (snd (UpdateStatus i st w))" "keeps i u (snd (SetError i e w))"
proof -
  have "keeps i w (snd (UpdateStatus i st w))"
    using UpdateStatus_None [of w i st] UpdateStatus_Some [of w i _ st] fixed_status
    by (cases "job_view w i") (auto simp: keeps_def)
  then show "keeps i u (snd (UpdateStatus i st w))" using keeps_trans assms by blast
  have "keeps i w (snd (SetError i e w))"
    using mem.get_None [of w i] SetError_Some [of w i _ e] fixed_status
    by (cases "job_view w i") (auto simp: keeps_def SetError_def)
  then show "keeps i u (snd (SetError i e w))" using keeps_trans assms by blast
qed

lemma keeps_fields:
  assumes "keeps i u w"
  shows "keeps i u (w\<lparr>w_sent := x\<rparr>)" "keeps i u (w\<lparr>w_cache := m\<rparr>)" "keeps i u (w\<lparr>w_metrics := mm\<rparr>)"
    "keeps i u (w\<lparr>w_slept := d\<rparr>)"
  by (rule keeps_same [OF _ _ _ assms]; simp)+

section \<open>Relations that the steps respect\<close>

text \<open>
  What all the steps of a job respect, for any relation that their building blocks respect: files,
  the setters of the job service, messages, the cache and the metrics.
\<close>

locale job_frame =
  fixes R :: "string \<Rightarrow> 'a world_scheme \<Rightarrow> 'a world_scheme \<Rightarrow> bool"
  assumes files: "os_frame w w' \<Longrightarrow> R i u w \<Longrightarrow> R i u w'"
    and progress: "R i u w \<Longrightarrow> R i u (snd (UpdateProgress i n step w))"
    and metadata: "R i u w \<Longrightarrow> R i u (snd (SetMetadata i inp outp w))"
    and hash: "R i u w \<Longrightarrow> R i u (snd (SetHash i h w))"
    and status: "R i u w \<Longrightarrow> R i u (snd (UpdateStatus i st w))"
    and failure: "R i u w \<Longrightarrow> R i u (snd (SetError i e w))"
    and message: "R i u w \<Longrightarrow> R i u (broadcastProgress uc i t n step w)"
    and cached: "R i u w \<Longrightarrow> R i u (snd (store_in_cache uc i w))"
    and metrics: "R i u w \<Longrightarrow> R i u (w\<lparr>w_metrics := mm\<rparr>)"
begin

lemmas keep_files = osf [OF os_frame_refl, THEN files]

lemmas keep = progress metadata hash status failure message cached metrics keep_files

lemma keep_struct:
  "R i u w \<Longrightarrow> R i u (snd (r, w))"
  "(\<And>e. R i u (snd (f e))) \<Longrightarrow> (\<And>v. R i u (snd (g v))) \<Longrightarrow> R i u (snd (case x of Inl e \<Rightarrow> f e | Inr v \<Rightarrow> g v))"
  "R i u (snd a) \<Longrightarrow> R i u (snd b) \<Longrightarrow> R i u (snd (if c then a else b))"
  "R i u c0 \<Longrightarrow> R i u c1 \<Longrightarrow> R i u (if c then c0 else c1)"
  "R i u (snd (f1)) \<Longrightarrow> (\<And>v. R i u (snd (g1 v))) \<Longrightarrow> R i u (snd (case y of None \<Rightarrow> f1 | Some v \<Rightarrow> g1 v))"
  by (auto split: sum.split option.split)

lemma keep_small:
  assumes "R i u w"
  shows "R i u (handleError i stage c m w)" "R i u (snd (clean_step_once uc i s w))"
    "R i u (snd (finish_status uc i part s w))" "R i u (snd (checkJobDiskLimit cfg i w))"
  unfolding handleError_def clean_step_once_def finish_status_def checkJobDiskLimit_def Let_def case_prod_beta
  by (intro keep_struct keep assms)+

text \<open>With a runner that only works on files, so do the programs it runs.\<close>

lemma keep_run:
  assumes "tame (uc_run uc)" "R i u w"
  shows "R i u (snd (GetVideoInfo (uc_run uc) p w))" "R i u (snd (EncodeQuality (uc_run uc) k p v d out a w))"
    "R i u (snd (EncodeSeparateAV (uc_run uc) p dir info n w))" "R i u (snd (generatePreviews uc k p info w))"
  by (rule files [OF osf_run(4) [OF assms(1) os_frame_refl] assms(2)]
      files [OF osf_encode_quality [OF assms(1) os_frame_refl] assms(2)]
      files [OF osf_separate [OF assms(1) os_frame_refl] assms(2)]
      files [OF osf_previews [OF assms(1) os_frame_refl] assms(2)])+

lemma keep_resume_loop:
  assumes "tame (uc_run uc)" "R (j_id j) u w"
  shows "R (j_id j) u (snd (resume_loop uc j info vs acc s w))"
  using assms(2)
proof (induction vs arbitrary: acc s w)
  case (Cons v vs)
  obtain outs oks failed where "acc = (outs, oks, failed)" by (cases acc)
  then show ?case
    by (simp only: resume_loop.simps Let_def case_prod_beta)
       (intro keep_struct keep keep_run Cons.IH assms(1) Cons.prems)
qed simp

text \<open>The parts of the steps, then the steps.\<close>

lemma keep_parts:
  assumes "R (j_id j) u w"
  shows "R (j_id j) u (snd (begin_encoding uc j w))" "R (j_id j) u (snd (finish_resume uc j info n acc s w))"
    "R (j_id j) u (snd (conclude uc j s out w))"
  unfolding begin_encoding_def finish_resume_def conclude_def Let_def case_prod_beta by (intro keep_struct keep keep_small assms)+

lemma keep_end:
  assumes "R i u w"
  shows "R i u (snd (end_encoding uc encoded s w))"
proof -
  have p: "R i u (snd (case x of Some (PartialSuccess qs a b) \<Rightarrow> save uc (fst (mark_all g qs t v)) (snd (mark_all g qs t v)) | _ \<Rightarrow> (t, v)))"
    if "R i u v" for x g t v
    using that by (auto split: option.split err.split intro!: keep)
  show ?thesis unfolding end_encoding_def Let_def case_prod_beta by (intro keep_struct p keep assms)
qed

lemma keep_output:
  assumes "tame (uc_run uc)" "R (j_id j) u w"
  shows "R (j_id j) u (snd (describe_output uc j res vs info w))"
  unfolding describe_output_def Let_def case_prod_beta by (intro keep_struct keep keep_run assms)

lemma keep_steps:
  assumes "tame (uc_run uc)" "R (j_id j) u w"
  shows "R (j_id j) u (snd (stepHashComputation uc j s w))" "R (j_id j) u (snd (stepDeduplication uc j s w))"
    "R (j_id j) u (snd (stepAnalysis uc j s w))" "R (j_id j) u (snd (encodeSeparateAV uc j s info w))"
    "R (j_id j) u (snd (encodeWithResume uc j s info w))"
    "R (j_id j) u (snd (stepFinalization uc j s res vs info w))"
  unfolding stepHashComputation_def stepDeduplication_def stepAnalysis_def encodeSeparateAV_def encodeWithResume_def
    stepFinalization_def Let_def case_prod_beta
  by (intro keep_struct keep keep_small keep_run keep_resume_loop keep_parts keep_output assms)+

lemma keep_encoding:
  assumes "tame (uc_run uc)" "R (j_id j) u w"
  shows "R (j_id j) u (snd (stepEncoding uc j s info w))" "R (j_id j) u (snd (videoInfoFor uc j s w))"
  unfolding stepEncoding_def videoInfoFor_def case_prod_beta
  by (intro keep_struct keep keep_run keep_steps keep_parts keep_end assms)+

lemma keep_executeSteps:
  assumes "tame (uc_run uc)" "R (j_id j) u w"
  shows "R (j_id j) u (snd (executeSteps uc j s w))"
  unfolding executeSteps_def case_prod_beta by (intro keep_struct keep keep_steps keep_encoding assms)

lemma keep_process:
  assumes "tame (uc_run uc)" "R (j_id j) u w"
  shows "R (j_id j) u (snd (process uc j w))"
  unfolding process_def Let_def case_prod_beta by (intro keep_struct keep keep_executeSteps assms)

text \<open>The attempts, for a relation that also bears the pauses.\<close>

lemma keep_attempts:
  assumes pause: "\<And>d v. R i u v \<Longrightarrow> R i u (snd (IncrementRetry i (sleep d v)))"
    and proc: "\<And>v. R i u v \<Longrightarrow> R i u (snd (proc v))" and "R i u w"
  shows "R i u (snd (attempts uc proc i n a le code w))"
  using assms(3)
proof (induction n arbitrary: a le code w)
  case 0
  then show ?case unfolding attempts.simps Let_def by (auto split: sum.split intro!: keep keep_small)
next
  case (Suc n)
  show ?case
    unfolding attempts.simps Let_def case_prod_beta
    by (intro keep_struct keep keep_small pause proc Suc.IH Suc.prems)
qed

end

section \<open>One job at a time\<close>

lemma sent_other: "broadcastProgress uc i t n step w = w\<lparr>w_sent := w_sent (broadcastProgress uc i t n step w)\<rparr>"
  by (simp add: broadcastProgress_def)

interpretation one_job: job_frame keeps
proof unfold_locales
  show "keeps i u w \<Longrightarrow> keeps i u (broadcastProgress uc i t n step w)"
    for i and u w :: "'a world_scheme" and uc :: "'a world_scheme use_case" and t n step
    by (simp add: broadcastProgress_def keeps_fields)
  show "keeps i u (snd (store_in_cache uc i w))" if "keeps i u w"
    for i and u w :: "'a world_scheme" and uc :: "'a world_scheme use_case"
    using that keeps_os [OF osf_services(8) [OF os_frame_refl] that]
    by (auto simp: store_in_cache_def Let_def case_prod_beta split: sum.split intro!: keeps_fields)
qed (blast intro: keeps_os keeps_setters keeps_status keeps_fields)+

text \<open>C27. The whole work on a job, with all its attempts, is confined to that job: every other job stays
exactly as it was, the store stays well formed, and the job keeps its identifier, its input, its
chunk length and its number of retries, whatever the programs it runs do to the files.\<close>

theorem execute_confined:
  assumes "tame (uc_run uc)" "store_wf w" "k \<noteq> j_id j"
  shows "store_wf (snd (Execute uc j w)) \<and> job_view (snd (Execute uc j w)) k = job_view w k
    \<and> map_option fixed_fields (job_view (snd (Execute uc j w)) (j_id j)) = map_option fixed_fields (job_view w (j_id j))"
proof -
  have pause: "keeps (j_id j) w (snd (IncrementRetry (j_id j) (sleep d v)))" if "keeps (j_id j) w v" for d v
    using that by (auto simp: sleep_def intro!: keeps_setters keeps_fields)
  have "keeps (j_id j) w (snd (Execute uc j w))"
    unfolding Execute_def
    by (rule one_job.keep_attempts [OF pause one_job.keep_process [OF assms(1)] keeps_refl])
  with assms(2,3) show ?thesis by (simp add: keeps_def)
qed

section \<open>A concrete service\<close>

definition demo_use_case :: "int \<Rightarrow> world use_case" where
  "demo_use_case n = \<lparr>uc_cfg = Load (\<lambda>_. []), uc_run = demo_runner, uc_sha = (\<lambda>_. ''5e884898''), uc_ws = True, uc_max_retries = n\<rparr>"

definition demo_job :: job where
  "demo_job = zero_job\<lparr>j_id := ''job_1'', j_input_path := ''in.mp4'', j_chunk_duration := 6\<rparr>"

definition demo_world :: world where
  "demo_world = \<lparr>fs = [((False, [''in.mp4'']), File (Opaque ''video'' 1000) 0)], clock = (\<lambda>n. int n * second), io = (\<lambda>_. IO_ok),
     statfs = (\<lambda>_. Inl ''''), doclen = (\<lambda>_. 0), tick = 0,
     st_jobs = [(0, demo_job), (1, zero_job\<lparr>j_id := ''job_2''\<rparr>)], st_repo = [(''job_1'', 0), (''job_2'', 1)], st_next = 2,
     w_cache = Some [], w_metrics = [], w_sent = [], w_slept = []\<rparr>"

lemma demo_facts [simp]:
  "tame (uc_run (demo_use_case n))" "uc_max_retries (demo_use_case n) = n" "store_wf demo_world" "j_id demo_job = ''job_1''"
  "job_view demo_world ''job_1'' = Some demo_job" "job_view demo_world ''job_2'' = Some (zero_job\<lparr>j_id := ''job_2''\<rparr>)"
  by (simp_all add: demo_use_case_def tame_def demo_runner_def demo_world_def demo_job_def store_wf_def job_view_def deref_def)

theorem execute_confined_witness:
  "job_view (snd (Execute (demo_use_case 3) demo_job demo_world)) ''job_2'' = Some (zero_job\<lparr>j_id := ''job_2''\<rparr>)"
  using execute_confined [of "demo_use_case 3" demo_world "''job_2''" demo_job] by simp

end
