(* ===== verification/Transcode_Props.thy ===== *)
theory Transcode_Props
  imports Transcode_Frame
begin

text \<open>
  What the work on a job does: the messages, cache entries and pauses it makes, the status it
  ends with, what a resumed encoding repeats, and how errors are classified and retried.
\<close>

section \<open>What a job leaves outside the store of jobs\<close>

definition outer :: "'a world_scheme \<Rightarrow> broadcast list \<times> dedup_map \<times> duration list" where
  "outer w = (w_sent w, w_cache w, w_slept w)"

text \<open>Only messages about the job are sent, only the job itself is entered into the cache, and no
time is slept.\<close>

definition discreet :: "string \<Rightarrow> 'a world_scheme \<Rightarrow> 'a world_scheme \<Rightarrow> bool" where
  "discreet i u w \<longleftrightarrow>
     (\<exists>ms. w_sent w = w_sent u @ ms \<and> (\<forall>m\<in>set ms. bc_job m = i))
     \<and> (\<forall>h k. lookup (hashes (w_cache w)) h = Some k \<longrightarrow> k = i \<or> lookup (hashes (w_cache u)) h = Some k)
     \<and> w_slept w = w_slept u"

lemma discreet_refl [simp]: "discreet i w w"
  by (simp add: discreet_def)

lemma discreet_same: "outer w' = outer w \<Longrightarrow> discreet i u w \<Longrightarrow> discreet i u w'"
  by (simp add: discreet_def outer_def)

lemma outer_os: "os_frame w w' \<Longrightarrow> outer w' = outer w"
  by (auto simp: os_frame_def outer_def)

lemma outer_store [simp]:
  "outer (mutate r f w) = outer w" "outer (snd (repo_Update r w)) = outer w" "outer (w\<lparr>w_metrics := mm\<rparr>) = outer w"
  by (auto simp: outer_def mutate_def repo_Update_def split: option.split)

lemma outer_time [simp]: "outer (snd (time_now w)) = outer w"
  by (simp add: time_now_def outer_def)

lemma outer_setters [simp]:
  "outer (snd (UpdateProgress i n step w)) = outer w" "outer (snd (SetMetadata i inp outp w)) = outer w"
  "outer (snd (SetHash i h w)) = outer w" "outer (snd (UpdateStatus i st w)) = outer w"
  "outer (snd (SetError i e w)) = outer w" "outer (snd (IncrementRetry i w)) = outer w"
  by (auto simp: UpdateProgress_def SetMetadata_def SetHash_def UpdateStatus_def SetError_def IncrementRetry_def
      Let_def case_prod_beta split: sum.split)

lemma discreet_message: "discreet i u w \<Longrightarrow> discreet i u (broadcastProgress uc i t n step w)"
  by (auto simp: broadcastProgress_def discreet_def)

lemma discreet_cached:
  assumes "discreet i u w"
  shows "discreet i u (snd (store_in_cache uc i w))"
proof -
  have "discreet i u (v\<lparr>w_cache := snd (fst (Store d h i (w_cache w) w))\<rparr>)"
    if "os_frame w v" for v d h
    using that assms
    by (auto simp: os_frame_def discreet_def Store_def hashes_def case_prod_beta Let_def split: option.splits if_splits)
  from this [OF osf_services(8) [OF os_frame_refl]] show ?thesis
    using assms by (auto simp: store_in_cache_def Let_def case_prod_beta split: sum.split)
qed

interpretation own_traces: job_frame discreet
  by unfold_locales
    (blast intro: discreet_message discreet_cached discreet_same outer_setters outer_store outer_os)+

section \<open>The retries\<close>

lemma outer_handlers [simp]:
  "outer (handleError i stage c m w) = outer w" "outer (snd (MoveToDLQ cfg j r w)) = outer w"
  by (simp_all add: handleError_def outer_os [OF osf_services(7) [OF os_frame_refl]])

text \<open>
  \<open>again proc i k v v'\<close>: the attempt that began in \<open>v\<close>, with \<open>k\<close> attempts before it, failed with an error whose
  policy allows a further attempt after so many, and that one begins in \<open>v'\<close>, after the pause of
  the policy and with the job's retries counted up.
\<close>

definition again :: "('a world_scheme \<Rightarrow> (err + unit) \<times> 'a world_scheme) \<Rightarrow> string \<Rightarrow> nat \<Rightarrow> 'a world_scheme \<Rightarrow> 'a world_scheme \<Rightarrow> bool" where
  "again proc i k v v' \<longleftrightarrow>
     (case proc v of
        (Inr _, _) \<Rightarrow> False
      | (Inl e, u) \<Rightarrow>
          (let strategy = GetRetryStrategy (extractErrorCode e)
           in \<not> panics e \<and> should_retry strategy \<and> k < length (backoff strategy)
              \<and> v' = snd (IncrementRetry i (sleep (backoff strategy ! k) u))))"

text \<open>The attempts from one on, and what \<open>attempts\<close> makes of the last one.\<close>

definition attempt_from ::
    "'a world_scheme use_case \<Rightarrow> ('a world_scheme \<Rightarrow> (err + unit) \<times> 'a world_scheme) \<Rightarrow> string \<Rightarrow> nat \<Rightarrow> nat \<Rightarrow> 'a world_scheme
      \<Rightarrow> err option \<times> 'a world_scheme" where
  "attempt_from uc proc i n a v =
     (case proc v of
        (Inr _, u) \<Rightarrow> (None, u)
      | (Inl e, u) \<Rightarrow> if panics e then (Some e, u) else attempts uc proc i n (Suc a) (Some e) (extractErrorCode e) u)"

definition decided ::
    "('a world_scheme \<Rightarrow> (err + unit) \<times> 'a world_scheme) \<Rightarrow> bool \<Rightarrow> nat \<Rightarrow> 'a world_scheme \<Rightarrow> err option \<times> 'a world_scheme \<Rightarrow> bool" where
  "decided proc none_left a v x \<longleftrightarrow>
     w_slept (snd x) = w_slept (snd (proc v))
     \<and> (case fst (proc v) of
          Inr _ \<Rightarrow> x = (None, snd (proc v))
        | Inl e \<Rightarrow> fst x = Some e
            \<and> (panics e \<or> none_left \<or> \<not> should_retry (GetRetryStrategy (extractErrorCode e))
               \<or> length (backoff (GetRetryStrategy (extractErrorCode e))) < a))"

lemma attempt_from_trace:
  "\<exists>vs. vs \<noteq> [] \<and> vs ! 0 = v \<and> length vs \<le> Suc n \<and> (\<forall>k. Suc k < length vs \<longrightarrow> again proc i (a + k) (vs ! k) (vs ! Suc k))
    \<and> decided proc (length vs = Suc n) (a + length vs) (last vs) (attempt_from uc proc i n a v)"
proof (induction n arbitrary: a v)
  case 0
  have "w_slept (snd (attempts uc proc i 0 (Suc a) le c u)) = w_slept u" for le c u
    using outer_handlers(1) [of i "''retry''" c "''Max retries exceeded: '' @ err_text le" u]
      outer_handlers(2) [of "uc_cfg uc" _ _ "handleError i ''retry'' c (''Max retries exceeded: '' @ err_text le) u"]
    by (auto simp: outer_def Let_def split: sum.split)
  then show ?case
    by (intro exI [of _ "[v]"]) (auto simp: decided_def attempt_from_def Let_def split: sum.split prod.split)
next
  case (Suc n)
  obtain r u where r: "proc v = (r, u)" by (cases "proc v")
  have h: "w_slept (handleError i stage c m u) = w_slept u" for stage c m
    using outer_handlers(1) [of i stage c m u] by (simp add: outer_def)
  show ?case
  proof (cases "\<exists>v'. again proc i a v v'")
    case True
    then obtain v' where v: "again proc i a v v'" by blast
    then have s: "attempt_from uc proc i (Suc n) a v = attempt_from uc proc i n (Suc a) v'"
      by (auto simp: again_def attempt_from_def r Let_def split: sum.splits)
    from Suc.IH [of v' "Suc a"] obtain vs where vs: "vs \<noteq> []" "vs ! 0 = v'" "length vs \<le> Suc n"
      "\<And>k. Suc k < length vs \<Longrightarrow> again proc i (Suc a + k) (vs ! k) (vs ! Suc k)"
      "decided proc (length vs = Suc n) (Suc a + length vs) (last vs) (attempt_from uc proc i n (Suc a) v')" by blast
    have "again proc i (a + k) ((v # vs) ! k) ((v # vs) ! Suc k)" if "Suc k < length (v # vs)" for k
      using that v vs(2) vs(4) [of "k - 1"] by (cases k) auto
    with vs(1,3,5) s show ?thesis by (intro exI [of _ "v # vs"]) simp
  next
    case False
    with h have "decided proc False (Suc a) v (attempt_from uc proc i (Suc n) a v)"
      by (auto simp: again_def decided_def attempt_from_def r Let_def split: sum.split)
    then show ?thesis by (intro exI [of _ "[v]"]) auto
  qed
qed

text \<open>Each further attempt adds the pause of the policy.\<close>

lemma again_slept:
  assumes "again proc i k v v'" "\<And>v. w_slept (snd (proc v)) = w_slept v"
  shows "k < 3 \<and> (\<exists>d. w_slept v' = w_slept v @ [d] \<and> 2 * second \<le> d \<and> d \<le> 15 * second)"
proof -
  obtain e u where e: "proc v = (Inl e, u)" "k < length (backoff (GetRetryStrategy (extractErrorCode e)))"
    "v' = snd (IncrementRetry i (sleep (backoff (GetRetryStrategy (extractErrorCode e)) ! k) u))"
    using assms(1) by (auto simp: again_def Let_def split: prod.splits sum.splits)
  have "w_slept v' = w_slept v @ [backoff (GetRetryStrategy (extractErrorCode e)) ! k]"
    using outer_setters(6) [of i "sleep _ u"] assms(2) [of v] e(1,3) by (simp add: outer_def sleep_def)
  moreover have "k < 3"
    using e(2) retry_backoff_length [of "extractErrorCode e"] retry_max_attempts [of "extractErrorCode e"] by simp
  ultimately show ?thesis using retry_backoff_bounds [OF nth_mem [OF e(2)]] by blast
qed

lemma trace_slept:
  assumes "\<And>k. Suc k < length vs \<Longrightarrow> \<exists>d. w_slept (vs ! Suc k) = w_slept (vs ! k) @ [d] \<and> P d" "vs \<noteq> []"
  shows "\<exists>ds. w_slept (last vs) = w_slept (vs ! 0) @ ds \<and> length ds = length vs - 1 \<and> (\<forall>d\<in>set ds. P d)"
  using assms
proof (induction vs)
  case (Cons v vs)
  show ?case
  proof (cases vs)
    case (Cons v' us)
    obtain d where d: "w_slept v' = w_slept v @ [d]" "P d" using Cons.prems(1) [of 0] Cons by auto
    have "\<exists>d. w_slept (vs ! Suc k) = w_slept (vs ! k) @ [d] \<and> P d" if "Suc k < length vs" for k
      using Cons.prems(1) [of "Suc k"] that by simp
    then obtain ds where ds: "w_slept (last vs) = w_slept (vs ! 0) @ ds" "length ds = length vs - 1" "\<forall>d\<in>set ds. P d"
      using Cons.IH Cons by auto
    with d Cons show ?thesis by (intro exI [of _ "d # ds"]) simp
  qed simp
qed simp

text \<open>C13. A job is attempted a bounded number of times, however many retries are configured: at most four times, and never
more than once more than configured. The attempts begin in the worlds \<open>vs\<close>: the first where \<open>Execute\<close> does, each
further one only after a failure that is no panic, whose policy allows a retry and has a pause left, after that
pause. The last attempt decides what \<open>Execute\<close> returns, and it is the last because it succeeded or panicked, because the
configured number is reached, or because the policy allows no further one. Nothing else makes the worker pause.\<close>

theorem retries_bounded:
  assumes "tame (uc_run uc)" "0 \<le> uc_max_retries uc"
  shows "\<exists>vs. vs \<noteq> [] \<and> vs ! 0 = w \<and> length vs \<le> 4 \<and> int (length vs) \<le> uc_max_retries uc + 1
    \<and> (\<forall>k. Suc k < length vs \<longrightarrow>
        (\<exists>e d. fst (process uc j (vs ! k)) = Inl e \<and> \<not> panics e \<and> should_retry (GetRetryStrategy (extractErrorCode e))
           \<and> k < length (backoff (GetRetryStrategy (extractErrorCode e))) \<and> d = backoff (GetRetryStrategy (extractErrorCode e)) ! k
           \<and> 2 * second \<le> d \<and> d \<le> 15 * second
           \<and> vs ! Suc k = snd (IncrementRetry (j_id j) (sleep d (snd (process uc j (vs ! k)))))))
    \<and> (case fst (process uc j (last vs)) of
         Inr _ \<Rightarrow> Execute uc j w = (None, snd (process uc j (last vs)))
       | Inl e \<Rightarrow> fst (Execute uc j w) = Some e
           \<and> (panics e \<or> int (length vs) = uc_max_retries uc + 1 \<or> \<not> should_retry (GetRetryStrategy (extractErrorCode e))
              \<or> length (backoff (GetRetryStrategy (extractErrorCode e))) < length vs))
    \<and> (\<exists>ds. w_slept (snd (Execute uc j w)) = w_slept w @ ds \<and> length ds = length vs - 1)"
proof -
  let ?p = "process uc j" and ?n = "nat (uc_max_retries uc)"
  have sl: "w_slept (snd (?p v)) = w_slept v" for v
    using own_traces.keep_process [OF assms(1) discreet_refl, of j v] by (simp add: discreet_def)
  have x: "Execute uc j w = attempt_from uc ?p (j_id j) ?n 0 w"
    using assms(2) by (simp add: Execute_def attempt_from_def nat_add_distrib Let_def)
  obtain vs where vs: "vs \<noteq> []" "vs ! 0 = w" "length vs \<le> Suc ?n"
    "\<And>k. Suc k < length vs \<Longrightarrow> again ?p (j_id j) k (vs ! k) (vs ! Suc k)"
    "decided ?p (length vs = Suc ?n) (length vs) (last vs) (Execute uc j w)"
    using attempt_from_trace [of w ?n ?p "j_id j" 0 uc] unfolding x by auto
  have step: "k < 3 \<and> (\<exists>d. w_slept (vs ! Suc k) = w_slept (vs ! k) @ [d])" if "Suc k < length vs" for k
    using again_slept [OF vs(4) [OF that] sl] by blast
  have l: "length vs \<le> 4" using step [of "length vs - 2"] by linarith
  obtain ds where ds: "w_slept (last vs) = w_slept w @ ds" "length ds = length vs - 1"
    using trace_slept [of vs "\<lambda>_. True"] step vs(1,2) by auto
  have e: "\<exists>e d. fst (?p (vs ! k)) = Inl e \<and> \<not> panics e \<and> should_retry (GetRetryStrategy (extractErrorCode e))
      \<and> k < length (backoff (GetRetryStrategy (extractErrorCode e))) \<and> d = backoff (GetRetryStrategy (extractErrorCode e)) ! k
      \<and> 2 * second \<le> d \<and> d \<le> 15 * second \<and> vs ! Suc k = snd (IncrementRetry (j_id j) (sleep d (snd (?p (vs ! k)))))"
    if "Suc k < length vs" for k
    using vs(4) [OF that] retry_backoff_bounds [OF nth_mem]
    by (fastforce simp: again_def Let_def split: prod.splits sum.splits)
  show ?thesis
  proof (intro exI [of _ vs] conjI allI impI)
    show "int (length vs) \<le> uc_max_retries uc + 1" using vs(3) assms(2) by linarith
    show "case fst (?p (last vs)) of
        Inr _ \<Rightarrow> Execute uc j w = (None, snd (?p (last vs)))
      | Inl e \<Rightarrow> fst (Execute uc j w) = Some e
          \<and> (panics e \<or> int (length vs) = uc_max_retries uc + 1 \<or> \<not> should_retry (GetRetryStrategy (extractErrorCode e))
             \<or> length (backoff (GetRetryStrategy (extractErrorCode e))) < length vs)"
      using vs(5) assms(2) by (auto simp: decided_def split: sum.splits)
    show "\<exists>ds. w_slept (snd (Execute uc j w)) = w_slept w @ ds \<and> length ds = length vs - 1"
      using vs(5) ds sl [of "last vs"] by (auto simp: decided_def)
  qed (use vs(1,2) l e in blast)+
qed

text \<open>The work on a job speaks for no other job: every message it sends to WebSocket clients names
the job, and every entry it adds to the deduplication cache leads to it.\<close>

theorem job_leaves_own_traces:
  assumes "tame (uc_run uc)"
  shows "(\<exists>ms. w_sent (snd (process uc j w)) = w_sent w @ ms \<and> (\<forall>m\<in>set ms. bc_job m = j_id j))
    \<and> (\<forall>h k. CheckDuplicate h (w_cache (snd (process uc j w))) = (k, True) \<longrightarrow>
          k = j_id j \<or> CheckDuplicate h (w_cache w) = (k, True))"
proof -
  have "(CheckDuplicate h m = (k, True)) = (lookup (hashes m) h = Some k)" for h k m
    by (auto simp: CheckDuplicate_def split: option.split)
  with own_traces.keep_process [OF assms discreet_refl, of j w] show ?thesis by (simp add: discreet_def)
qed

section \<open>The status at the end\<close>

definition present :: "string \<Rightarrow> 'a store_scheme \<Rightarrow> bool" where
  "present i w \<longleftrightarrow> store_wf w \<and> job_view w i \<noteq> None"

definition status_at :: "string \<Rightarrow> 'a store_scheme \<Rightarrow> job_status option" where
  "status_at i w = map_option j_status (job_view w i)"

lemma keeps_present: "keeps i u w \<Longrightarrow> present i u \<Longrightarrow> present i w"
  by (auto simp: keeps_def present_def)

lemmas present_ops = one_job.keep [OF keeps_refl, THEN keeps_present] one_job.keep_small [OF keeps_refl, THEN keeps_present]

lemma present_run [simp]:
  fixes uc :: "'a world_scheme use_case"
  assumes "tame (uc_run uc)" "present i w"
  shows "present i (snd (GetVideoInfo (uc_run uc) p w))" "present i (snd (generatePreviews uc k p info w))"
  by (rule one_job.keep_run [OF assms(1) keeps_refl, THEN keeps_present, OF assms(2)])+

lemma status_os: "os_frame w w' \<Longrightarrow> status_at i w' = status_at i w"
  using os_frame_job_view [of w w'] by (simp add: status_at_def)

lemma status_fields [simp]:
  "status_at i (w\<lparr>w_sent := x\<rparr>) = status_at i w" "status_at i (w\<lparr>w_cache := m\<rparr>) = status_at i w"
  "status_at i (w\<lparr>w_metrics := mm\<rparr>) = status_at i w"
  by (simp_all add: status_at_def job_view_def deref_def [abs_def])

lemmas status_files [simp] = osf [OF os_frame_refl, THEN status_os]

lemma status_message [simp]: "status_at i (broadcastProgress uc k t n step w) = status_at i w"
  by (simp add: broadcastProgress_def)

lemma status_cached [simp]: "status_at i (snd (store_in_cache uc k w)) = status_at i w"
  by (simp add: store_in_cache_def Let_def case_prod_beta split: sum.split)

lemma status_updated [simp]: "present i w \<Longrightarrow> status_at i (snd (UpdateStatus i st w)) = Some st"
  using UpdateStatus_Some [of w i _ st]
  by (auto simp: present_def status_at_def status_change_def finish_job_def)

lemma status_failed [simp]: "present i w \<Longrightarrow> status_at i (handleError i stage c m w) = Some FAILED"
  using SetError_Some [of w i]
  by (fastforce simp: handleError_def present_def status_at_def finish_job_def)

lemma status_finish [simp]:
  "present i w \<Longrightarrow> status_at i (snd (finish_status uc i part s w)) = Some (if part then PARTIAL_SUCCESS else COMPLETED)"
  by (simp add: finish_status_def Let_def case_prod_beta present_ops)

lemma finalization_status:
  assumes "tame (uc_run uc)" "present (j_id j) w" "fst (stepFinalization uc j s res vs info w) = Inr ()"
  shows "status_at (j_id j) (snd (stepFinalization uc j s res vs info w))
    = Some (if js_qualities_failed s \<noteq> [] then PARTIAL_SUCCESS else COMPLETED)"
  using assms
  by (auto simp: stepFinalization_def describe_output_def conclude_def Let_def case_prod_beta present_ops split: sum.splits option.splits)

lemma duplicate_status:
  assumes "present (j_id j) w" "fst (stepDeduplication uc j s w) = Inr (True, s')"
  shows "status_at (j_id j) (snd (stepDeduplication uc j s w)) = Some COMPLETED"
  using assms
  by (auto simp: stepDeduplication_def Let_def case_prod_beta present_ops split: sum.splits if_splits)

lemmas present_steps = one_job.keep_steps [OF _ keeps_refl, THEN keeps_present]
  one_job.keep_encoding [OF _ keeps_refl, THEN keeps_present]
  one_job.keep_executeSteps [OF _ keeps_refl, THEN keeps_present]
  one_job.keep_process [OF _ keeps_refl, THEN keeps_present]

definition done_status :: "job_status option \<Rightarrow> bool" where
  "done_status st \<longleftrightarrow> st = Some COMPLETED \<or> st = Some PARTIAL_SUCCESS"

lemma executeSteps_status:
  assumes t: "tame (uc_run uc)" and p: "present (j_id j) w" and ok: "fst (executeSteps uc j s w) = Inr ()"
  shows "done_status (status_at (j_id j) (snd (executeSteps uc j s w)))"
proof -
  define h where "h = (if \<not> IsStepCompleted s StepHashComputation then stepHashComputation uc j s w else (Inr ((), s), w))"
  obtain s1 w1 where 1: "h = (Inr ((), s1), w1)"
    using ok by (cases "fst h") (auto simp: executeSteps_def h_def [symmetric] case_prod_beta prod_eq_iff)
  have p1: "present (j_id j) w1" using present_steps(1) [OF t p, of s] p 1 by (auto simp: h_def split: if_splits)
  define d where "d = (if \<not> IsStepCompleted s1 StepDeduplication then stepDeduplication uc j s1 w1 else (Inr (False, s1), w1))"
  have e1: "executeSteps uc j s w = (case d of (Inl e, w2) \<Rightarrow> (Inl e, w2)
      | (Inr (isDuplicate, s2), w2) \<Rightarrow>
          if isDuplicate then (Inr (), w2)
          else (case videoInfoFor uc j s2 w2 of (Inl e, w3) \<Rightarrow> (Inl e, w3)
                | (Inr (info, s3), w3) \<Rightarrow>
          (case stepEncoding uc j s3 info w3 of (Inl e, w4) \<Rightarrow> (Inl e, w4)
           | (Inr ((result, variants), s4), w4) \<Rightarrow> stepFinalization uc j s4 result variants info w4)))"
    by (simp add: executeSteps_def h_def [symmetric] 1 d_def)
  obtain dup s2 w2 where 2: "d = (Inr (dup, s2), w2)"
    using ok unfolding e1 by (cases "fst d") (auto simp: case_prod_beta prod_eq_iff)
  have p2: "present (j_id j) w2" using present_steps(2) [OF t p1, of s1] p1 2 by (auto simp: d_def split: if_splits)
  show ?thesis
  proof (cases dup)
    case True
    then have "fst (stepDeduplication uc j s1 w1) = Inr (True, s2)" "snd (stepDeduplication uc j s1 w1) = w2"
      using 2 by (auto simp: d_def split: if_splits)
    with duplicate_status [OF p1] have "status_at (j_id j) w2 = Some COMPLETED" by blast
    with True show ?thesis by (simp add: e1 2 done_status_def)
  next
    case False
    obtain info s3 w3 where 3: "videoInfoFor uc j s2 w2 = (Inr (info, s3), w3)"
      using ok False by (cases "fst (videoInfoFor uc j s2 w2)") (auto simp: e1 2 case_prod_beta prod_eq_iff)
    have p3: "present (j_id j) w3" using present_steps(8) [OF t p2, of s2] 3 by simp
    obtain res vs s4 w4 where 4: "stepEncoding uc j s3 info w3 = (Inr ((res, vs), s4), w4)"
      using ok False by (cases "fst (stepEncoding uc j s3 info w3)") (auto simp: e1 2 3 case_prod_beta prod_eq_iff)
    have p4: "present (j_id j) w4" using present_steps(7) [OF t p3, of s3 info] 4 by simp
    from ok False have "fst (stepFinalization uc j s4 res vs info w4) = Inr ()" by (simp add: e1 2 3 4)
    from finalization_status [OF t p4 this] False show ?thesis by (simp add: e1 2 3 4 done_status_def)
  qed
qed

lemma process_status:
  assumes "tame (uc_run uc)" "present (j_id j) w" "fst (process uc j w) = Inr ()"
  shows "done_status (status_at (j_id j) (snd (process uc j w)))"
  using assms executeSteps_status [OF assms(1)]
  by (auto simp: process_def Let_def case_prod_beta present_ops split: sum.splits)

section \<open>No panic\<close>

text \<open>With the job in the store and a cache that is not nil, no step panics: each error has another text.\<close>

definition keeps_cache :: "string \<Rightarrow> 'a world_scheme \<Rightarrow> 'a world_scheme \<Rightarrow> bool" where
  "keeps_cache i u w \<longleftrightarrow> (w_cache u \<noteq> None \<longrightarrow> w_cache w \<noteq> None)"

lemma keeps_cache_same: "outer w' = outer w \<Longrightarrow> keeps_cache i u w \<Longrightarrow> keeps_cache i u w'"
  by (simp add: keeps_cache_def outer_def)

lemma keeps_cache_other: "keeps_cache i u w \<Longrightarrow> keeps_cache i u (broadcastProgress uc k t n step w)"
  "keeps_cache i u w \<Longrightarrow> keeps_cache i u (snd (store_in_cache uc k w))"
proof -
  show "keeps_cache i u w \<Longrightarrow> keeps_cache i u (snd (store_in_cache uc k w))"
    by (auto simp: keeps_cache_def store_in_cache_def Store_def Let_def case_prod_beta split: sum.split)
qed (simp add: keeps_cache_def broadcastProgress_def)

interpretation cache_map: job_frame keeps_cache
  by unfold_locales (blast intro: keeps_cache_other keeps_cache_same outer_setters outer_store outer_os)+

lemma keeps_cache_refl [simp]: "keeps_cache i w w"
  by (simp add: keeps_cache_def)

definition ready :: "string \<Rightarrow> 'a world_scheme \<Rightarrow> bool" where
  "ready i w \<longleftrightarrow> present i w \<and> w_cache w \<noteq> None"

lemma readyI: "keeps i u w \<Longrightarrow> keeps_cache i u w \<Longrightarrow> ready i u \<Longrightarrow> ready i w"
  using keeps_present by (auto simp: ready_def keeps_cache_def)

lemma ready_present: "ready i w \<Longrightarrow> present i w"
  by (simp add: ready_def)

lemma ready_steps:
  assumes "tame (uc_run uc)" "ready (j_id j) w"
  shows "ready (j_id j) (snd (stepHashComputation uc j s w))" "ready (j_id j) (snd (stepDeduplication uc j s w))"
    "ready (j_id j) (snd (stepEncoding uc j s info w))" "ready (j_id j) (snd (videoInfoFor uc j s w))"
    "ready (j_id j) (snd (process uc j w))"
  by (rule readyI [OF one_job.keep_steps(1) [OF _ keeps_refl] cache_map.keep_steps(1) [OF _ keeps_cache_refl]] readyI [OF one_job.keep_steps(2) [OF _ keeps_refl] cache_map.keep_steps(2) [OF _ keeps_cache_refl]]
      readyI [OF one_job.keep_encoding(1) [OF _ keeps_refl] cache_map.keep_encoding(1) [OF _ keeps_cache_refl]] readyI [OF one_job.keep_encoding(2) [OF _ keeps_refl] cache_map.keep_encoding(2) [OF _ keeps_cache_refl]]
      readyI [OF one_job.keep_process [OF _ keeps_refl] cache_map.keep_process [OF _ keeps_cache_refl]]; simp add: assms)+

lemma ready_small:
  assumes "ready i w" 
  shows "ready i (snd (UpdateProgress i n step w))" "ready i (snd (UpdateStatus i st w))" "ready i (snd (SetError i e w))"
    "ready i (snd (SetMetadata i inp outp w))" "ready i (snd (finish_status uc i part s w))" "ready i (snd (clean_step_once uc i s w))"
  by (rule readyI [OF one_job.keep(1) [OF keeps_refl] cache_map.keep(1) [OF keeps_cache_refl]] readyI [OF one_job.keep(4) [OF keeps_refl] cache_map.keep(4) [OF keeps_cache_refl]]
      readyI [OF one_job.keep(5) [OF keeps_refl] cache_map.keep(5) [OF keeps_cache_refl]] readyI [OF one_job.keep(2) [OF keeps_refl] cache_map.keep(2) [OF keeps_cache_refl]]
      readyI [OF one_job.keep_small(3) [OF keeps_refl] cache_map.keep_small(3) [OF keeps_cache_refl]] readyI [OF one_job.keep_small(2) [OF keeps_refl] cache_map.keep_small(2) [OF keeps_cache_refl]]; simp add: assms)+

lemma ready_previews: "tame (uc_run uc) \<Longrightarrow> ready i w \<Longrightarrow> ready i (snd (generatePreviews uc k p info w))"
  by (rule readyI [OF one_job.keep_run(4) [OF _ keeps_refl] cache_map.keep_run(4) [OF _ keeps_cache_refl]]) simp_all

lemma panics_simps [simp]:
  "\<not> panics (PartialSuccess a b c)" "panics nil_deref"
  by (simp_all add: panics_def nil_deref_def nil_map_write_def)

lemma panics_other: "hd msg \<noteq> CHR ''p'' \<Longrightarrow> msg \<noteq> [] \<Longrightarrow> \<not> panics (wrap msg e)" "hd msg \<noteq> CHR ''p'' \<Longrightarrow> \<not> panics (Err msg)"
  by (auto simp: panics_def nil_deref_def nil_map_write_def wrap_def hd_append dest: arg_cong [where f = hd])

definition calm_result :: "err + 'x \<Rightarrow> bool" where
  "calm_result r \<longleftrightarrow> (\<forall>e. r = Inl e \<longrightarrow> \<not> panics e)"

lemma calm_result_simps [simp]: "calm_result (Inr x)" "calm_result (Inl e) \<longleftrightarrow> \<not> panics e"
  by (simp_all add: calm_result_def)

lemma calm_save: "calm_result (fst (fst (SaveState cfg s w)))"
  by (auto simp: SaveState_def Let_def case_prod_beta panics_other split: sum.split)

lemma calm_save_error: "fst (fst (SaveState cfg s w)) = Inl e \<Longrightarrow> \<not> panics e"
  using calm_save [of cfg s w] by simp

lemma setters_ok:
  fixes w :: "'a store_scheme"
  assumes "present i w"
  shows "fst (SetHash i h w) = Inr ()" "fst (SetMetadata i inp outp w) = Inr ()"
  using assms mem.modify_Some [of w i _ "\<lambda>j. j\<lparr>j_input_hash := h\<rparr>"] mem.modify_Some [of w i _ "\<lambda>j. j\<lparr>j_input := inp, j_output := outp\<rparr>"]
  unfolding setters_modify by (auto simp: present_def)

lemma store_in_cache_ok:
  assumes "ready i w"
  shows "fst (store_in_cache uc i w) = None"
proof -
  obtain r hm where "repo_Get i w = Inr r" "w_cache w = Some hm"
    using assms mem.get_Some [of w i] by (auto simp: ready_def present_def)
  then show ?thesis
    by (auto simp: store_in_cache_def GetJob_def Store_def nil_map_write_def cache_save_def wrap_def Let_def case_prod_beta split: sum.split)
qed

lemma finalization_ok:
  assumes "tame (uc_run uc)" "ready (j_id j) w"
  shows "fst (stepFinalization uc j s res vs info w) = Inr ()"
proof -
  have p: "ready i v \<Longrightarrow> present i v" for i and v :: "'a world_scheme" by (simp add: ready_def)
  show ?thesis using assms
    by (simp add: stepFinalization_def describe_output_def conclude_def Let_def case_prod_beta ready_small ready_previews p setters_ok store_in_cache_ok split: sum.split option.split)
qed

lemma calm_steps:
  assumes "tame (uc_run uc)" "present (j_id j) w"
  shows "calm_result (fst (stepHashComputation uc j s w))" "calm_result (fst (stepDeduplication uc j s w))"
    "calm_result (fst (videoInfoFor uc j s w))" "calm_result (fst (stepEncoding uc j s info w))"
proof -
  note p = assms(2)
  show "calm_result (fst (stepHashComputation uc j s w))"
    using p calm_save_error
    by (auto simp: stepHashComputation_def Let_def case_prod_beta panics_other setters_ok present_ops split: sum.split)
  obtain r where "repo_Get (j_id j) (snd (UpdateProgress (j_id j) 10 ''Checking for duplicates'' w)) = Inr r"
    using mem.get_Some [of "snd (UpdateProgress (j_id j) 10 ''Checking for duplicates'' w)" "j_id j"] present_ops(1) [OF p, of 10 "''Checking for duplicates''"]
    by (auto simp: present_def)
  then show "calm_result (fst (stepDeduplication uc j s w))"
    using calm_save_error by (auto simp: stepDeduplication_def GetJob_def Let_def case_prod_beta panics_other split: sum.split)
  show "calm_result (fst (videoInfoFor uc j s w))"
    by (auto simp: videoInfoFor_def stepAnalysis_def Let_def case_prod_beta panics_other split: sum.split)
  have "\<not> panics e" if "fst (checkJobDiskLimit cfg i v) = Inl e" for cfg i e and v :: "'a world_scheme"
    using that by (auto simp: checkJobDiskLimit_def Let_def case_prod_beta panics_other split: sum.splits if_splits)
  moreover have "calm_result (fst (encodeSeparateAV uc j s info v))" for s v
    by (auto simp: encodeSeparateAV_def Let_def case_prod_beta panics_other split: sum.split)
  moreover have "calm_result (case x of Some e \<Rightarrow> Inl e | None \<Rightarrow> Inr y)" if "fst (encodeWithResume uc j s info v) = Inr ((r, k, x), t)" for x y v r k t
    using that by (auto simp: encodeWithResume_def finish_resume_def Let_def case_prod_beta split: sum.splits if_splits)
  ultimately show "calm_result (fst (stepEncoding uc j s info w))"
    by (auto simp: stepEncoding_def begin_encoding_def end_encoding_def Let_def case_prod_beta panics_other prod_eq_iff split: sum.split)
qed

lemma calm_seq:
  "calm_result r \<Longrightarrow> (\<And>v. calm_result (fst (g v))) \<Longrightarrow> calm_result (fst (case r of Inl e \<Rightarrow> (Inl e, w) | Inr v \<Rightarrow> g v))"
  "calm_result (fst a) \<Longrightarrow> calm_result (fst b) \<Longrightarrow> calm_result (fst (if c then a else b))"
  "calm_result r \<Longrightarrow> calm_result (fst (r, w))"
  by (auto split: sum.split)

lemma ready_if: "ready i (snd a) \<Longrightarrow> ready i (snd b) \<Longrightarrow> ready i (snd (if c then a else b))"
  by simp

lemma executeSteps_calm:
  assumes t: "tame (uc_run uc)" and p: "ready (j_id j) w"
  shows "calm_result (fst (executeSteps uc j s w))"
proof -
  have f: "calm_result (fst (stepFinalization uc j s res vs info v))" if "ready (j_id j) v" for s res vs info v
    using finalization_ok [OF t that] by simp
  have r: "ready (j_id j) (snd (Inr x :: err + 'b, w))" if "ready (j_id j) w" for x w using that by simp
  show ?thesis unfolding executeSteps_def case_prod_beta
    by (intro calm_seq calm_result_simps(1) calm_steps ready_present f ready_if ready_steps r t p | simp only: snd_conv)+
qed

lemma process_calm:
  assumes "tame (uc_run uc)" "ready (j_id j) w"
  shows "calm_result (fst (process uc j w))"
proof -
  let ?m = "StartJobMetrics (j_id j) (j_input_path j) (w_metrics w) w"
  let ?g = "getOrCreateState (uc_cfg uc) j ((snd ?m)\<lparr>w_metrics := fst ?m\<rparr>)"
  have "keeps (j_id j) w (snd ?g)" by (intro one_job.keep keeps_refl)
  moreover have "keeps_cache (j_id j) w (snd ?g)" by (intro cache_map.keep keeps_cache_refl)
  ultimately have "ready (j_id j) (snd ?g)" using assms(2) by (rule readyI)
  then have "ready (j_id j) (snd (UpdateStatus (j_id j) RUNNING (snd ?g)))" by (rule ready_small)
  with executeSteps_calm [OF assms(1)] show ?thesis
    by (auto simp: process_def Let_def case_prod_beta panics_other split: sum.split)
qed

definition settled :: "string \<Rightarrow> err option \<times> 'a store_scheme \<Rightarrow> bool" where
  "settled i x \<longleftrightarrow>
     (case fst x of None \<Rightarrow> done_status (status_at i (snd x)) | Some e \<Rightarrow> \<not> panics e \<and> status_at i (snd x) = Some FAILED)"

lemma attempts_status:
  assumes proc: "\<And>v. ready i v \<Longrightarrow> ready i (snd (proc v)) \<and> calm_result (fst (proc v))
      \<and> (fst (proc v) = Inr () \<longrightarrow> done_status (status_at i (snd (proc v))))"
    and "ready i w" "n > 0 \<or> le \<noteq> None" "a > 0 \<longrightarrow> le \<noteq> None" "\<forall>e. le = Some e \<longrightarrow> \<not> panics e"
  shows "settled i (attempts uc proc i n a le code w)"
  using assms(2-)
proof (induction n arbitrary: a le code w)
  case 0
  then show ?case by (auto simp: settled_def ready_def Let_def split: sum.split)
next
  case (Suc n)
  have step: "settled i (case proc v of (Inl e, w2) \<Rightarrow> if panics e then (Some e, w2)
        else attempts uc proc i n (Suc a) (Some e) (extractErrorCode e) w2 | (Inr _, w2) \<Rightarrow> (None, w2))" if "ready i v" for v
  proof -
    obtain r v' where r: "proc v = (r, v')" by (cases "proc v")
    show ?thesis using Suc.IH [of v' "Some _" "Suc a"] proc [OF that] r by (cases r) (auto simp: settled_def)
  qed
  have "ready i (snd (IncrementRetry i (sleep d w)))" for d
    using Suc.prems(1) keeps_present [OF keeps_setters(4) [OF keeps_fields(4) [OF keeps_refl]], of i w] outer_setters(6) [of i "sleep d w"]
    by (auto simp: sleep_def ready_def outer_def)
  then show ?case using step [of w] step [of "snd (IncrementRetry i (sleep _ w))"] Suc.prems
    by (auto simp: Let_def) (auto simp: settled_def ready_def)
qed

text \<open>C1. A job that is in the store ends in a final status that matches what the work reports, after any
errors and retries on the way: COMPLETED or PARTIAL_SUCCESS when no error is returned, FAILED when one is.
As long as nothing else touches the job, and with a deduplication cache that is not nil, the work never panics.\<close>

theorem execute_outcome:
  assumes "tame (uc_run uc)" "store_wf w" "job_view w (j_id j) \<noteq> None" "w_cache w \<noteq> None" "uc_max_retries uc \<ge> 0"
  shows "case Execute uc j w of
      (None, w') \<Rightarrow> map_option j_status (job_view w' (j_id j)) \<in> {Some COMPLETED, Some PARTIAL_SUCCESS}
    | (Some e, w') \<Rightarrow> \<not> panics e \<and> map_option j_status (job_view w' (j_id j)) = Some FAILED"
proof -
  have p: "ready (j_id j) (snd (process uc j v)) \<and> calm_result (fst (process uc j v)) \<and> (fst (process uc j v) = Inr () \<longrightarrow>
      done_status (status_at (j_id j) (snd (process uc j v))))" if "ready (j_id j) v" for v
    using ready_steps(5) [OF assms(1) that] process_calm [OF assms(1) that] process_status [OF assms(1)] that by (simp add: ready_def)
  have "settled (j_id j) (Execute uc j w)"
    unfolding Execute_def by (rule attempts_status [OF p]) (use assms in \<open>auto simp: present_def ready_def\<close>)
  then show ?thesis by (auto simp: settled_def done_status_def status_at_def case_prod_beta split: option.splits)
qed

text \<open>With a negative number of retries, which the environment can set, a job is not attempted at
all: no message about it is sent, it ends FAILED, and the caller is told that all went well.\<close>

theorem negative_retries_report_success:
  assumes "uc_max_retries uc < 0" "store_wf w" "job_view w (j_id j) \<noteq> None"
  shows "fst (Execute uc j w) = None \<and> map_option j_status (job_view (snd (Execute uc j w)) (j_id j)) = Some FAILED
    \<and> w_sent (snd (Execute uc j w)) = w_sent w"
proof -
  have "present (j_id j) w" using assms(2,3) by (simp add: present_def)
  moreover have "nat (uc_max_retries uc + 1) = 0" using assms(1) by simp
  moreover have "outer (snd (Execute uc j w)) = outer w"
    using calculation(2) by (auto simp: Execute_def Let_def split: sum.split)
  ultimately show ?thesis
    by (auto simp: Execute_def Let_def status_at_def [symmetric] outer_def split: sum.split)
qed

section \<open>Concrete runs\<close>

theorem retries_bounded_witness:
  "\<exists>vs ds. vs \<noteq> [] \<and> vs ! 0 = demo_world \<and> length vs \<le> 4
    \<and> w_slept (snd (Execute (demo_use_case 1000) demo_job demo_world)) = w_slept demo_world @ ds \<and> length ds = length vs - 1"
  using retries_bounded [of "demo_use_case 1000" demo_world demo_job] by fastforce

theorem job_leaves_own_traces_witness:
  "\<exists>ms. w_sent (snd (process (demo_use_case 3) demo_job demo_world)) = w_sent demo_world @ ms \<and> (\<forall>m\<in>set ms. bc_job m = ''job_1'')"
  using job_leaves_own_traces [of "demo_use_case 3" demo_job demo_world] by auto

theorem execute_outcome_witness:
  "map_option j_status (job_view (snd (Execute (demo_use_case 3) demo_job demo_world)) ''job_1'')
     \<in> {Some COMPLETED, Some PARTIAL_SUCCESS, Some FAILED} \<and> fst (Execute (demo_use_case 3) demo_job demo_world) \<noteq> Some nil_deref"
proof -
  have "w_cache demo_world \<noteq> None" by (simp add: demo_world_def)
  then show ?thesis using execute_outcome [of "demo_use_case 3" demo_world demo_job] by (auto split: option.splits prod.splits)
qed

theorem negative_retries_witness:
  "fst (Execute (demo_use_case (-1)) demo_job demo_world) = None
   \<and> map_option j_status (job_view (snd (Execute (demo_use_case (-1)) demo_job demo_world)) ''job_1'') = Some FAILED"
  using negative_retries_report_success [of "demo_use_case (-1)" demo_world demo_job] by simp

end
