(* ===== verification/Transcode_Resume.thy ===== *)
theory Transcode_Resume
  imports Transcode_Props
begin

text \<open>
  The encoding that can be resumed (\<open>encodeWithResume\<close> and \<open>stepEncoding\<close> of
  \<open>transcode_usecase.go\<close>): what the state records of each quality, what a second attempt
  repeats, what becomes of a job some of whose qualities failed, and how the errors are read.
\<close>

section \<open>The state after the loop\<close>

lemma save_state [simp]:
  "js_qualities_complete (fst (save uc s w)) = js_qualities_complete s"
  "js_qualities_failed (fst (save uc s w)) = js_qualities_failed s"
  by (auto simp: save_def SaveState_def Let_def case_prod_beta split: sum.split)

lemma mark_state [simp]: "fst (mark f s w) = f (clock w (tick w)) s"
  by (simp add: mark_def time_now_def)

lemma loadExisting_name: "fst (loadExistingQuality cfg i v w) = Some out \<Longrightarrow> qo_quality out = qv_name v"
  by (auto simp: loadExistingQuality_def Let_def case_prod_beta split: if_splits)

text \<open>\<open>accounts vs s s' outs oks failed\<close>: what a pass over the variants \<open>vs\<close> that took the state from
\<open>s\<close> to \<open>s'\<close> adds to the outputs, the successes and the failures.\<close>

definition accounts ::
    "quality_variant list \<Rightarrow> job_state \<Rightarrow> job_state \<Rightarrow> quality_output_info list \<Rightarrow> quality_variant list \<Rightarrow> string list \<Rightarrow> bool" where
  "accounts vs s s' outs oks failed \<longleftrightarrow>
     set (js_qualities_complete s) \<subseteq> set (js_qualities_complete s')
     \<and> js_qualities_failed s' = js_qualities_failed s @ failed
     \<and> map qo_quality outs = map qv_name oks
     \<and> subseq oks vs \<and> (\<forall>v\<in>set oks. IsQualityCompleted s' (qv_name v))
     \<and> (\<forall>v\<in>set vs. IsQualityCompleted s' (qv_name v) \<or> qv_name v \<in> set failed)"

lemma accounts_skip:
  "IsQualityCompleted s (qv_name v) \<Longrightarrow> accounts vs s s' outs oks failed \<Longrightarrow> accounts (v # vs) s s' outs oks failed"
  by (auto simp: accounts_def IsQualityCompleted_iff subseq_Cons')

lemma accounts_done:
  assumes "accounts vs s1 s' outs oks failed" "IsQualityCompleted s1 (qv_name v)"
    "set (js_qualities_complete s) \<subseteq> set (js_qualities_complete s1)" "js_qualities_failed s1 = js_qualities_failed s"
    "qo_quality out = qv_name v"
  shows "accounts (v # vs) s s' (out # outs) (v # oks) failed"
  using assms by (auto simp: accounts_def IsQualityCompleted_iff)

lemma accounts_failed:
  assumes "accounts vs s1 s' outs oks failed"
    "js_qualities_complete s1 = js_qualities_complete s" "js_qualities_failed s1 = js_qualities_failed s @ [qv_name v]"
  shows "accounts (v # vs) s s' outs oks (qv_name v # failed)"
  using assms by (auto simp: accounts_def IsQualityCompleted_iff subseq_Cons')

text \<open>One pass of the loop over a quality that is not yet completed.\<close>

definition resume_encode :: "'a world_scheme use_case \<Rightarrow> job \<Rightarrow> video_info \<Rightarrow> quality_variant \<Rightarrow> job_state \<Rightarrow> 'a world_scheme
    \<Rightarrow> quality_result \<times> 'a world_scheme" where
  "resume_encode uc j info v s w =
     EncodeQuality (uc_run uc) (j_id j) (j_input_path j) v (j_chunk_duration j) (GetOutputsDir (uc_cfg uc)) (vi_has_audio info)
       (snd (save uc (s\<lparr>js_current_step := ''encoding_'' @ qv_name v\<rparr>) w))"

definition after_success :: "'a world_scheme use_case \<Rightarrow> quality_variant \<Rightarrow> job_state \<Rightarrow> 'a world_scheme \<Rightarrow> 'a world_scheme \<Rightarrow> job_state" where
  "after_success uc v s w w2 = MarkQualityCompleted (qv_name v) (clock w2 (tick w2))
     (fst (save uc (s\<lparr>js_current_step := ''encoding_'' @ qv_name v\<rparr>) w))"

definition after_failure :: "'a world_scheme use_case \<Rightarrow> quality_variant \<Rightarrow> job_state \<Rightarrow> 'a world_scheme \<Rightarrow> 'a world_scheme \<Rightarrow> job_state" where
  "after_failure uc v s w w2 = MarkQualityFailed (qv_name v) (clock w2 (tick w2))
     (fst (save uc (s\<lparr>js_current_step := ''encoding_'' @ qv_name v\<rparr>) w))"

lemma after_state [simp]:
  "set (js_qualities_complete (after_success uc v s w w2)) = insert (qv_name v) (set (js_qualities_complete s))"
  "js_qualities_failed (after_success uc v s w w2) = js_qualities_failed s"
  "js_qualities_complete (after_failure uc v s w w2) = js_qualities_complete s"
  "js_qualities_failed (after_failure uc v s w w2) = js_qualities_failed s @ [qv_name v]"
  by (simp_all add: after_success_def after_failure_def)

lemma resume_loop_failure:
  assumes "\<not> IsQualityCompleted s (qv_name v)" "resume_encode uc j info v s w = (r, w2)" "\<not> qr_success r"
  shows "resume_loop uc j info (v # vs) (outs, oks, failed) s w =
     (let (s3, w4) = save uc (after_failure uc v s w w2) (snd (time_now w2))
      in resume_loop uc j info vs (outs, oks, failed @ [qv_name v]) s3 w4)"
  using assms by (simp add: resume_encode_def after_failure_def Let_def case_prod_beta mark_def)

lemma resume_loop_success:
  assumes "\<not> IsQualityCompleted s (qv_name v)" "resume_encode uc j info v s w = (r, w2)" "qr_success r"
  shows "resume_loop uc j info (v # vs) (outs, oks, failed) s w =
     (case EnforceJobSizeLimit (uc_cfg uc) (j_id j) (snd (time_now w2)) of
        (Inl e, w4) \<Rightarrow>
          (let (_, w5) = UpdateStatus (j_id j) FAILED w4;
               (_, w6) = save uc ((after_success uc v s w w2)\<lparr>js_status := ''failed''\<rparr>) w5
           in (Inl (wrap ''ERR_JOB_SIZE_EXCEEDED'' e), w6))
      | (Inr _, w4) \<Rightarrow>
          (let (s3, w5) = save uc (after_success uc v s w w2) w4
           in resume_loop uc j info vs (outs @ [output_of r], oks @ [v], failed) s3 w5))"
  using assms by (simp add: resume_encode_def after_success_def Let_def case_prod_beta mark_def split: sum.split)

lemma resume_loop_skip:
  assumes "IsQualityCompleted s (qv_name v)"
  shows "resume_loop uc j info (v # vs) (outs, oks, failed) s w =
     (case loadExistingQuality (uc_cfg uc) (j_id j) v w of
        (Some out, w1) \<Rightarrow> resume_loop uc j info vs (outs @ [out], oks @ [v], failed) s w1
      | (None, w1) \<Rightarrow> resume_loop uc j info vs (outs, oks, failed) s w1)"
  using assms by simp

lemma resume_loop_accounts:
  assumes "fst (resume_loop uc j info vs (outs, oks, failed) s w) = Inr ((outs', oks', failed'), s')"
  shows "\<exists>os ks ns. outs' = outs @ os \<and> oks' = oks @ ks \<and> failed' = failed @ ns \<and> accounts vs s s' os ks ns"
  using assms
proof (induction vs arbitrary: outs oks failed s w)
  case Nil
  then show ?case by (auto simp: accounts_def)
next
  case (Cons v vs)
  obtain r w2 where r: "resume_encode uc j info v s w = (r, w2)" by fastforce
  then have name: "qr_quality r = qv_name v" using encode_quality_result by (metis resume_encode_def fst_conv)
  consider "IsQualityCompleted s (qv_name v)" "fst (loadExistingQuality (uc_cfg uc) (j_id j) v w) = None"
    | out where "IsQualityCompleted s (qv_name v)" "fst (loadExistingQuality (uc_cfg uc) (j_id j) v w) = Some out"
    | "\<not> IsQualityCompleted s (qv_name v)" "qr_success r" | "\<not> IsQualityCompleted s (qv_name v)" "\<not> qr_success r"
    by fastforce
  then show ?case
  proof cases
    case 1
    then obtain w1 where "fst (resume_loop uc j info vs (outs, oks, failed) s w1) = Inr ((outs', oks', failed'), s')"
      using Cons.prems unfolding resume_loop_skip [OF 1(1)] case_prod_beta by auto
    from Cons.IH [OF this] accounts_skip [OF 1(1)] show ?thesis by blast
  next
    case 2
    then obtain w1 where "fst (resume_loop uc j info vs (outs @ [out], oks @ [v], failed) s w1) = Inr ((outs', oks', failed'), s')"
      using Cons.prems unfolding resume_loop_skip [OF 2(1)] case_prod_beta by auto
    from Cons.IH [OF this] obtain os ks ns where t: "outs' = (outs @ [out]) @ os" "oks' = (oks @ [v]) @ ks" "failed' = failed @ ns"
      and a: "accounts vs s s' os ks ns" by blast
    have "accounts (v # vs) s s' (out # os) (v # ks) ns"
      by (rule accounts_done [OF a 2(1) _ _ loadExisting_name [OF 2(2)]]) simp_all
    with t show ?thesis by (intro exI [of _ "out # os"] exI [of _ "v # ks"] exI [of _ ns]) simp
  next
    case 3
    obtain e w4 where e: "EnforceJobSizeLimit (uc_cfg uc) (j_id j) (snd (time_now w2)) = (e, w4)" by fastforce
    let ?s3 = "fst (save uc (after_success uc v s w w2) w4)"
    have "fst (resume_loop uc j info vs (outs @ [output_of r], oks @ [v], failed) ?s3 (snd (save uc (after_success uc v s w w2) w4)))
        = Inr ((outs', oks', failed'), s')"
      using Cons.prems unfolding resume_loop_success [OF 3(1) r 3(2)] e case_prod_beta Let_def by (cases e) simp_all
    from Cons.IH [OF this] obtain os ks ns where
      t: "outs' = (outs @ [output_of r]) @ os" "oks' = (oks @ [v]) @ ks" "failed' = failed @ ns"
      and a: "accounts vs ?s3 s' os ks ns" by blast
    have "accounts (v # vs) s s' (output_of r # os) (v # ks) ns"
      by (rule accounts_done [OF a]) (auto simp: IsQualityCompleted_iff name output_of_def)
    with t show ?thesis by (intro exI [of _ "output_of r # os"] exI [of _ "v # ks"] exI [of _ ns]) simp
  next
    case 4
    let ?x = "save uc (after_failure uc v s w w2) (snd (time_now w2))"
    have "fst (resume_loop uc j info vs (outs, oks, failed @ [qv_name v]) (fst ?x) (snd ?x)) = Inr ((outs', oks', failed'), s')"
      using Cons.prems unfolding resume_loop_failure [OF 4(1) r 4(2)] case_prod_beta Let_def .
    from Cons.IH [OF this] obtain os ks ns where
      t: "outs' = outs @ os" "oks' = oks @ ks" "failed' = (failed @ [qv_name v]) @ ns"
      and a: "accounts vs (fst ?x) s' os ks ns" by blast
    have "accounts (v # vs) s s' os ks (qv_name v # ns)" by (rule accounts_failed [OF a]) simp_all
    with t show ?thesis by (intro exI [of _ os] exI [of _ ks] exI [of _ "qv_name v # ns"]) simp
  qed
qed

section \<open>Results of the encoding\<close>

lemma encodeWithResume_accounts:
  assumes "fst (encodeWithResume uc j s info w) = Inr ((res, oks, partial), s')"
  shows "\<exists>ns. accounts (SelectVariants (vi_width info) (vi_height info)) s s' (er_outputs res) oks ns \<and> oks \<noteq> []
    \<and> partial = (if ns = [] then None
        else Some (PartialSuccess ns (length oks) (length (SelectVariants (vi_width info) (vi_height info)))))"
proof -
  let ?vs = "SelectVariants (vi_width info) (vi_height info)"
  obtain x w1 where x: "resume_loop uc j info ?vs ([], [], []) s w = (x, w1)" by fastforce
  obtain outs oks' ns s1 where r: "x = Inr ((outs, oks', ns), s1)"
    using assms x by (cases x) (auto simp: encodeWithResume_def finish_resume_def)
  have "oks' = oks" "s1 = s'" "er_outputs res = outs" "oks \<noteq> []"
    "partial = (if ns = [] then None else Some (PartialSuccess ns (length oks) (length ?vs)))"
    using assms unfolding encodeWithResume_def finish_resume_def Let_def x r case_prod_beta
    by (auto split: if_splits sum.splits)
  with resume_loop_accounts [of uc j info ?vs "[]" "[]" "[]" s w outs oks' ns s1] x r show ?thesis by auto
qed


text \<open>With every selected quality recorded, nothing is encoded again.\<close>

lemma resume_loop_all_done:
  "\<forall>v\<in>set vs. IsQualityCompleted s (qv_name v) \<Longrightarrow>
     resume_loop (uc\<lparr>uc_run := run\<rparr>) j info vs (outs, oks, failed) s w = resume_loop uc j info vs (outs, oks, failed) s w
     \<and> (\<exists>outs' oks' w'. resume_loop uc j info vs (outs, oks, failed) s w = (Inr ((outs', oks', failed), s), w'))"
proof (induction vs arbitrary: outs oks w)
  case (Cons v vs)
  obtain r w1 where "loadExistingQuality (uc_cfg uc) (j_id j) v w = (r, w1)" by fastforce
  with Cons.prems Cons.IH show ?case by (cases r) simp_all
qed simp

text \<open>Resuming is idempotent: when all qualities selected for the video are recorded as completed,
an attempt runs no program (its outcome is the same whatever the programs would do), leaves the
recorded state as it is, and reports no failure.\<close>

theorem resume_runs_nothing:
  assumes "\<forall>v\<in>set (SelectVariants (vi_width info) (vi_height info)). IsQualityCompleted s (qv_name v)"
  shows "encodeWithResume (uc\<lparr>uc_run := run\<rparr>) j s info w = encodeWithResume uc j s info w
    \<and> (case fst (encodeWithResume uc j s info w) of Inl e \<Rightarrow> True | Inr ((_, _, partial), s') \<Rightarrow> s' = s \<and> partial = None)"
proof -
  let ?vs = "SelectVariants (vi_width info) (vi_height info)"
  obtain outs oks w1 where "resume_loop uc j info ?vs ([], [], []) s w = (Inr ((outs, oks, []), s), w1)"
    "resume_loop (uc\<lparr>uc_run := run\<rparr>) j info ?vs ([], [], []) s w = (Inr ((outs, oks, []), s), w1)"
    using resume_loop_all_done [OF assms, where uc = uc and run = run and j = j and info = info and outs = "[]" and oks = "[]" and failed = "[]" and w = w] by auto
  then show ?thesis by (auto simp: encodeWithResume_def finish_resume_def Let_def case_prod_beta split: sum.split)
qed

section \<open>Failures and their consequences\<close>

lemma stepEncoding_complete:
  assumes "\<not> vi_has_audio info" "fst (stepEncoding uc j s info w) = Inr ((res, vs), s')"
  shows "set (map qv_name (SelectVariants (vi_width info) (vi_height info))) \<subseteq> set (js_qualities_complete s')
    \<and> js_qualities_failed s' = js_qualities_failed s"
proof -
  let ?v = "broadcastProgress uc (j_id j) ''RUNNING'' 30 ''Starting multi-quality encoding''
    (snd (UpdateProgress (j_id j) 30 ''Starting multi-quality encoding'' w))"
  obtain x w3 where x: "checkJobDiskLimit (uc_cfg uc) (j_id j) ?v = (x, w3)" by fastforce
  obtain y w4 where y: "encodeWithResume uc j s info w3 = (y, w4)" by fastforce
  obtain res' oks partial s1 where r: "x = Inr ()" "y = Inr ((res', oks, partial), s1)"
    using assms unfolding stepEncoding_def begin_encoding_def end_encoding_def Let_def case_prod_beta x
    by (cases x; cases y) (auto simp: x y)
  from encodeWithResume_accounts [of uc j s info w3 res' oks partial s1] y r obtain ns where
    a: "accounts (SelectVariants (vi_width info) (vi_height info)) s s1 (er_outputs res') oks ns"
    and p: "partial = (if ns = [] then None
      else Some (PartialSuccess ns (length oks) (length (SelectVariants (vi_width info) (vi_height info)))))" by auto
  from assms x y r have "partial = None"
    unfolding stepEncoding_def begin_encoding_def end_encoding_def Let_def case_prod_beta by (auto split: option.splits)
  with p have "ns = []" by (auto split: if_splits)
  moreover have "js_qualities_complete s' = js_qualities_complete s1" "js_qualities_failed s' = js_qualities_failed s1"
    using assms x y r \<open>partial = None\<close> unfolding stepEncoding_def begin_encoding_def end_encoding_def Let_def case_prod_beta by auto
  ultimately show ?thesis using a by (auto simp: accounts_def IsQualityCompleted_iff)
qed

text \<open>A failure is never forgiven: when an earlier attempt recorded a failed quality and this one
encodes a video without sound without error, so that every selected quality is now completed,
the job still ends as PARTIAL_SUCCESS.\<close>

theorem recovered_job_stays_partial:
  assumes "tame (uc_run uc)" "\<not> vi_has_audio info" "store_wf w" "job_view w (j_id j) \<noteq> None" "w_cache w \<noteq> None"
    and "js_qualities_failed s \<noteq> []" "stepEncoding uc j s info w = (Inr ((res, vs), s'), w')"
  shows "(\<forall>v\<in>set (SelectVariants (vi_width info) (vi_height info)). IsQualityCompleted s' (qv_name v))
    \<and> fst (stepFinalization uc j s' res vs info w') = Inr ()
    \<and> map_option j_status (job_view (snd (stepFinalization uc j s' res vs info w')) (j_id j)) = Some PARTIAL_SUCCESS"
proof -
  have c: "set (map qv_name (SelectVariants (vi_width info) (vi_height info))) \<subseteq> set (js_qualities_complete s')"
    "js_qualities_failed s' \<noteq> []"
    using stepEncoding_complete [OF assms(2), of uc j s w res vs s'] assms(6,7) by auto
  have "ready (j_id j) w'"
    using ready_steps(3) [OF assms(1), of j w s info] assms(3,4,5,7) by (simp add: ready_def present_def)
  then have "ready (j_id j) w'" "present (j_id j) w'" by (simp_all add: ready_def)
  from finalization_ok [OF assms(1) this(1)] finalization_status [OF assms(1) this(2), of s' res vs info] c show ?thesis
    by (auto simp: status_at_def IsQualityCompleted_iff)
qed

lemma contains_iff:
  "contains s t \<longleftrightarrow> prefix t s \<or> suffix t s \<or> (length s > length t + 1 \<and> prefix t (tl s))"
proof -
  have take: "take (length t) x = t \<longleftrightarrow> prefix t x" for x
    by (metis append_eq_conv_conj prefix_def append_take_drop_id)
  have drop: "length t \<le> length s \<Longrightarrow> drop (length s - length t) s = t \<longleftrightarrow> suffix t s"
    by (metis suffix_drop suffix_def append_eq_conv_conj diff_add_inverse2 length_append)
  have "prefix t x \<Longrightarrow> length t \<le> length x" "suffix t x \<Longrightarrow> length t \<le> length x" for x
    by (auto dest: prefix_length_le suffix_length_le)
  moreover have "prefix t s \<Longrightarrow> length t = length s \<Longrightarrow> s = t" "suffix t s \<Longrightarrow> length t = length s \<Longrightarrow> s = t"
    by (auto simp: prefix_def suffix_def)
  ultimately show ?thesis unfolding contains_def using drop take [of s] take [of "tl s"]
    by (auto simp: drop_Suc le_less)
qed

lemma extractErrorCode_other:
  assumes "\<forall>t\<in>set [''resolution'', ''disk'', ''permission'', ''I/O'', ''io'']. \<not> contains (error_text e) t"
  shows "extractErrorCode e = ''ERR_FFMPEG_FAILED''"
  using assms by (simp add: extractErrorCode_def Let_def)

text \<open>The search for a keyword in the text of an error finds it at the start, at the end and one
character after the start, and nowhere else.\<close>

theorem contains_spec:
  "contains s t \<longleftrightarrow> (\<exists>a b. s = a @ t @ b \<and> (a = [] \<or> b = [] \<or> length a = 1))"
proof -
  have "length s > length t + 1 \<and> prefix t (tl s) \<longleftrightarrow> (\<exists>c b. s = c # t @ b \<and> b \<noteq> [])"
    by (cases s) (auto simp: prefix_def)
  then have "contains s t \<longleftrightarrow> (\<exists>b. s = t @ b) \<or> (\<exists>a. s = a @ t) \<or> (\<exists>c b. s = c # t @ b)"
    unfolding contains_iff prefix_def suffix_def by (metis append.right_neutral append_Cons append_Nil)
  also have "\<dots> \<longleftrightarrow> (\<exists>a b. s = a @ t @ b \<and> (a = [] \<or> b = [] \<or> length a = 1))"
    by (rule iffI) (elim disjE exE, force, force, force simp: exI [of _ "[_]"], auto simp: length_Suc_conv)
  finally show ?thesis .
qed

text \<open>A job that grows beyond the size limit is retried: its files are deleted, but the error,
wherever it is raised, is read as a failure of ffmpeg, which is retried, not as the code of the
limit, which is not.\<close>

theorem size_limit_is_retried:
  assumes "fst (CheckJobSizeLimit cfg i w) = Inr (False, n)"
  shows "(\<exists>e. fst (EnforceJobSizeLimit cfg i w) = Inl e
      \<and> extractErrorCode (wrap ''encoding failed'' (wrap ''ERR_JOB_SIZE_EXCEEDED'' e)) = ''ERR_FFMPEG_FAILED'')
    \<and> (\<exists>e. fst (checkJobDiskLimit cfg i w) = Inl e \<and> extractErrorCode e = ''ERR_FFMPEG_FAILED'')
    \<and> should_retry (GetRetryStrategy ''ERR_FFMPEG_FAILED'') \<and> \<not> should_retry (GetRetryStrategy ''ERR_JOB_SIZE_EXCEEDED'')"
proof -
  obtain w1 where w1: "CheckJobSizeLimit cfg i w = (Inr (False, n), w1)" using assms by (metis prod.collapse)
  have a: "extractErrorCode (wrap ''encoding failed'' (wrap ''ERR_JOB_SIZE_EXCEEDED''
      (Err (''job size limit exceeded: '' @ x @ '' MB / '' @ y @ '' MB'')))) = ''ERR_FFMPEG_FAILED''" for x y
    by (rule extractErrorCode_other) (simp add: contains_iff suffix_to_prefix wrap_def)
  have b: "extractErrorCode (Err (''job size limit exceeded: '' @ x @ '' MB'')) = ''ERR_FFMPEG_FAILED''" for x
    by (rule extractErrorCode_other) (simp add: contains_iff suffix_to_prefix)
  show ?thesis
  proof (intro conjI)
    show "\<exists>e. fst (EnforceJobSizeLimit cfg i w) = Inl e
      \<and> extractErrorCode (wrap ''encoding failed'' (wrap ''ERR_JOB_SIZE_EXCEEDED'' e)) = ''ERR_FFMPEG_FAILED''"
      using a by (simp add: EnforceJobSizeLimit_def w1 case_prod_beta)
    show "\<exists>e. fst (checkJobDiskLimit cfg i w) = Inl e \<and> extractErrorCode e = ''ERR_FFMPEG_FAILED''"
      using b by (simp add: checkJobDiskLimit_def w1 case_prod_beta)
  qed (simp_all add: GetRetryStrategy_def ffmpeg_codes_def invalid_input_codes_def disk_full_codes_def)
qed

section \<open>Concrete runs\<close>

definition resumed_state :: job_state where
  "resumed_state = sample_state\<lparr>js_qualities_complete := map qv_name QualityLadder, js_qualities_failed := [''240p'']\<rparr>"

definition small_video :: video_info where
  "small_video = \<lparr>vi_width = 426, vi_height = 240, vi_duration = Fin 10, vi_has_audio = False\<rparr>"

definition resumed_world :: world where
  "resumed_world = demo_world\<lparr>fs := map (\<lambda>p. ((False, p), Dir 0))
     [[''outputs''], [''outputs'', ''job_1''], [''outputs'', ''job_1'', ''hls''], [''outputs'', ''job_1'', ''hls'', ''240p'']]\<rparr>"

theorem resume_runs_nothing_witness:
  "\<forall>run. encodeWithResume ((demo_use_case 3)\<lparr>uc_run := run\<rparr>) demo_job resumed_state small_video resumed_world
    = encodeWithResume (demo_use_case 3) demo_job resumed_state small_video resumed_world"
proof -
  have "\<forall>v\<in>set (SelectVariants (vi_width small_video) (vi_height small_video)). IsQualityCompleted resumed_state (qv_name v)"
    by code_simp
  from resume_runs_nothing [OF this] show ?thesis by blast
qed

text \<open>The second attempt of a job whose only quality is there.\<close>

lemma playlist_written:
  "io w (tick w) = IO_ok \<Longrightarrow> is_dir_at (fs w) (parent (parse_path p)) \<Longrightarrow> lookup (fs w) (parse_path p) = None \<Longrightarrow>
     fst (GenerateMasterPlaylist p vs a w) = Inr ()"
  by (simp add: GenerateMasterPlaylist_def os_create_unchecked_def os_write_file_def Let_def)

lemma encodeWithResume_ok:
  assumes "SelectVariants (vi_width info) (vi_height info) = vs"
    "resume_loop uc j info vs ([], [], []) s w = (Inr ((outs, oks, []), s1), w1)" "oks \<noteq> []"
    "fst (GenerateMasterPlaylist (join_path [join_path [GetOutputsDir (uc_cfg uc), j_id j, ''hls''], ''master.m3u8'']) oks (vi_has_audio info) w1) = Inr ()"
  shows "\<exists>r. fst (encodeWithResume uc j s info w) = Inr ((r, oks, None), s1)"
  using assms(3,4) unfolding encodeWithResume_def finish_resume_def Let_def assms(1,2) case_prod_beta by simp

definition resumed_check :: "(err + unit) \<times> world" where
  "resumed_check = checkJobDiskLimit (Load (\<lambda>_. [])) ''job_1''
     (broadcastProgress (demo_use_case 3) ''job_1'' ''RUNNING'' 30 ''Starting multi-quality encoding''
       (snd (UpdateProgress ''job_1'' 30 ''Starting multi-quality encoding'' resumed_world)))"

definition resumed_load :: "quality_output_info option \<times> world" where
  "resumed_load = loadExistingQuality (Load (\<lambda>_. [])) ''job_1'' (hd QualityLadder) (snd resumed_check)"

lemma resumed_facts:
  "fst resumed_check = Inr ()" "fst resumed_load \<noteq> None" "io (snd resumed_load) (tick (snd resumed_load)) = IO_ok"
  "is_dir_at (fs (snd resumed_load)) (parent (parse_path ''outputs/job_1/hls/master.m3u8''))"
  "lookup (fs (snd resumed_load)) (parse_path ''outputs/job_1/hls/master.m3u8'') = None"
  "join_path [join_path [GetOutputsDir (Load (\<lambda>_. [])), ''job_1'', ''hls''], ''master.m3u8''] = ''outputs/job_1/hls/master.m3u8''"
  "SelectVariants (vi_width small_video) (vi_height small_video) = [hd QualityLadder]"
  "IsQualityCompleted resumed_state (qv_name (hd QualityLadder))" "vi_has_audio small_video = False"
  by code_simp+

lemma resumed_world_encodes: "\<exists>res vs s' w'. stepEncoding (demo_use_case 3) demo_job resumed_state small_video resumed_world = (Inr ((res, vs), s'), w')"
proof -
  obtain out where out: "fst resumed_load = Some out" using resumed_facts(2) by blast
  have g: "fst (GenerateMasterPlaylist ''outputs/job_1/hls/master.m3u8'' vs b (snd resumed_load)) = Inr ()" for vs b
    by (rule playlist_written [OF resumed_facts(3,4,5)])
  have l: "resume_loop (demo_use_case 3) demo_job small_video [hd QualityLadder] ([], [], []) resumed_state (snd resumed_check)
      = (Inr (([out], [hd QualityLadder], []), resumed_state), snd resumed_load)"
    using out by (simp add: resumed_facts resumed_load_def demo_use_case_def case_prod_beta)
  have c: "uc_cfg (demo_use_case 3) = Load (\<lambda>_. [])" by (simp add: demo_use_case_def)
  obtain r where r: "fst (encodeWithResume (demo_use_case 3) demo_job resumed_state small_video (snd resumed_check)) = Inr ((r, [hd QualityLadder], None), resumed_state)"
    using encodeWithResume_ok [OF resumed_facts(7) l] g by (auto simp: c resumed_facts(6))
  have "is_ok (fst (stepEncoding (demo_use_case 3) demo_job resumed_state small_video resumed_world))"
    using resumed_facts(1) r
    by (simp add: stepEncoding_def begin_encoding_def end_encoding_def Let_def case_prod_beta c resumed_check_def [symmetric] resumed_facts(9))
  then show ?thesis by (cases "stepEncoding (demo_use_case 3) demo_job resumed_state small_video resumed_world") (auto simp: is_ok_def split: sum.splits)
qed

theorem recovered_job_witness:
  "\<exists>res vs s' w'. map_option j_status (job_view (snd (stepFinalization (demo_use_case 3) demo_job s' res vs small_video w')) ''job_1'')
     = Some PARTIAL_SUCCESS"
proof -
  obtain res vs s' w' where e: "stepEncoding (demo_use_case 3) demo_job resumed_state small_video resumed_world = (Inr ((res, vs), s'), w')"
    using resumed_world_encodes by blast
  have "store_wf resumed_world" "job_view resumed_world (j_id demo_job) \<noteq> None" "w_cache resumed_world \<noteq> None" "js_qualities_failed resumed_state \<noteq> []"
    by (simp_all add: resumed_world_def resumed_state_def) (simp_all add: store_wf_def job_view_def demo_world_def demo_job_def)
  then have "map_option j_status (job_view (snd (stepFinalization (demo_use_case 3) demo_job s' res vs small_video w')) ''job_1'')
     = Some PARTIAL_SUCCESS"
    using recovered_job_stays_partial [OF demo_facts(1) _ _ _ _ _ e] resumed_facts(9) unfolding demo_facts(4) by blast
  then show ?thesis by blast
qed

theorem size_limit_is_retried_witness:
  "\<exists>e. fst (checkJobDiskLimit small_limit ''job_1'' (resumed_world\<lparr>fs := ((False, [''outputs'', ''job_1'', ''x'']), File (Opaque [] 5) 0) # fs resumed_world\<rparr>)) = Inl e
     \<and> extractErrorCode e = ''ERR_FFMPEG_FAILED''"
proof -
  have "fst (CheckJobSizeLimit small_limit ''job_1''
      (resumed_world\<lparr>fs := ((False, [''outputs'', ''job_1'', ''x'']), File (Opaque [] 5) 0) # fs resumed_world\<rparr>)) = Inr (False, 0)"
    by code_simp
  from size_limit_is_retried [OF this] show ?thesis by blast
qed

end
