(* ===== verification/Worker_Sync.thy ===== *)
theory Worker_Sync
  imports Transcode_Resume
begin

text \<open>
  The goroutines of one job (\<open>process\<close>, \<open>startHeartbeat\<close> and \<open>checkJobDiskLimitPeriodically\<close> of
  \<open>transcode_usecase.go\<close>, \<open>StartMetricsMonitoring\<close> of \<open>metrics_service.go\<close>). \<open>process\<close> starts
  three companions, each of which waits in a \<open>select\<close> for its ticker or for its stop channel, and
  defers one send on each of these channels. The channels have no buffer: the send of a value
  waits until the companion is back in its \<open>select\<close>.

  The step relation interleaves the worker and its companions. A stage of the work (the hash, the
  search for a duplicate, the analysis, each quality, and so on) is one step of the worker; ticks may
  come before and after each. The readings of the Go runtime that a metrics tick takes are arbitrary.
\<close>

section \<open>The goroutines\<close>

datatype companion = Metrics | Heartbeat | DiskCheck

text \<open>A companion that was not started, waits in its \<open>select\<close>, handles a tick, or has returned.\<close>

datatype goroutine = Unborn | Waiting | Handling | Ended

text \<open>
  What is left of the body of \<open>process\<close>: return a value, act on the world and go on, or start a
  companion and defer the send that stops it.
\<close>

datatype 'w script = Ret "err + unit" | Act "'w \<Rightarrow> 'w \<times> 'w script" | Go companion "'w script"

datatype 'w worker = Run "'w script" | Stop "err + unit" | Done "err + unit"

record 'w sync =
  sy_world :: 'w
  sy_main :: "'w worker"
  sy_defers :: "companion list"
  sy_comp :: "companion \<Rightarrow> goroutine"

text \<open>A stage of the work: its error is returned, as it is or wrapped; its value goes to what follows.\<close>

definition stage :: "(err \<Rightarrow> err) \<Rightarrow> ('w \<Rightarrow> (err + 'x) \<times> 'w) \<Rightarrow> ('x \<Rightarrow> 'w script) \<Rightarrow> 'w script" where
  "stage g f k = Act (\<lambda>w. case f w of (Inl e, w1) \<Rightarrow> (w1, Ret (Inl (g e))) | (Inr x, w1) \<Rightarrow> (w1, k x))"

text \<open>The loop over the qualities, one stage for each.\<close>

fun resume_script ::
    "'a world_scheme use_case \<Rightarrow> job \<Rightarrow> video_info \<Rightarrow> quality_variant list
       \<Rightarrow> quality_output_info list \<times> quality_variant list \<times> string list \<Rightarrow> job_state
       \<Rightarrow> ((quality_output_info list \<times> quality_variant list \<times> string list) \<times> job_state \<Rightarrow> 'a world_scheme script)
       \<Rightarrow> 'a world_scheme script" where
  "resume_script uc j info [] acc s k = k (acc, s)"
| "resume_script uc j info (v # vs) acc s k =
     stage (wrap ''encoding failed'') (resume_loop uc j info [v] acc s) (\<lambda>(acc', s'). resume_script uc j info vs acc' s' k)"

definition finish_script ::
    "'a world_scheme use_case \<Rightarrow> job \<Rightarrow> video_info \<Rightarrow> (encode_result \<times> quality_variant list) \<times> job_state \<Rightarrow> 'a world_scheme script" where
  "finish_script uc j info encoded =
     (let ((result, variants), s) = encoded
      in stage id (describe_output uc j result variants info) (\<lambda>out. stage id (conclude uc j s out) (\<lambda>_. Ret (Inr ()))))"

definition encode_script :: "'a world_scheme use_case \<Rightarrow> job \<Rightarrow> job_state \<Rightarrow> video_info \<Rightarrow> 'a world_scheme script" where
  "encode_script uc j s info =
     stage id (begin_encoding uc j) (\<lambda>_.
       if vi_has_audio info then stage id (encodeSeparateAV uc j s info) (finish_script uc j info)
       else let variants = SelectVariants (vi_width info) (vi_height info)
            in resume_script uc j info variants ([], [], []) s (\<lambda>(acc, s1).
                 stage (wrap ''encoding failed'') (finish_resume uc j info (length variants) acc s1) (\<lambda>(encoded, s2).
                   stage id (end_encoding uc encoded s2) (finish_script uc j info))))"

text \<open>The work after the hash, and all of it.\<close>

definition dedup_script :: "'a world_scheme use_case \<Rightarrow> job \<Rightarrow> job_state \<Rightarrow> 'a world_scheme script" where
  "dedup_script uc j s =
     stage id (\<lambda>w. if \<not> IsStepCompleted s StepDeduplication then stepDeduplication uc j s w else (Inr (False, s), w)) (\<lambda>(isDuplicate, s1).
       if isDuplicate then Ret (Inr ())
       else stage id (videoInfoFor uc j s1) (\<lambda>(info, s2). encode_script uc j s2 info))"

definition steps_script :: "'a world_scheme use_case \<Rightarrow> job \<Rightarrow> job_state \<Rightarrow> 'a world_scheme script" where
  "steps_script uc j s =
     stage id (\<lambda>w. if \<not> IsStepCompleted s StepHashComputation then stepHashComputation uc j s w else (Inr ((), s), w)) (\<lambda>(_, s1).
       dedup_script uc j s1)"

definition process_script :: "'a world_scheme use_case \<Rightarrow> job \<Rightarrow> 'a world_scheme script" where
  "process_script uc j = Act (\<lambda>w.
     let (mm, w1) = StartJobMetrics (j_id j) (j_input_path j) (w_metrics w) w
     in (w1\<lparr>w_metrics := mm\<rparr>, Go Metrics
          (stage (wrap ''failed to get/create state'') (getOrCreateState (uc_cfg uc) j) (\<lambda>s.
             Go Heartbeat (Go DiskCheck
               (stage (wrap ''failed to update status'') (UpdateStatus (j_id j) RUNNING) (\<lambda>_. steps_script uc j s)))))))"

text \<open>
  The work of a tick, and whether the companion goes on: \<open>StartMetricsMonitoring\<close> (with the
  readings of the runtime), \<open>startHeartbeat\<close> and \<open>checkJobDiskLimitPeriodically\<close>.
\<close>

definition metrics_tick :: "job \<Rightarrow> int \<times> int \<times> int \<Rightarrow> 'a world_scheme \<Rightarrow> bool \<times> 'a world_scheme" where
  "metrics_tick j r w =
     (True, w\<lparr>w_metrics := UpdateJobMetrics (fst r) (fst (snd r)) (snd (snd r)) (j_id j) (w_metrics w)\<rparr>)"

definition heartbeat_tick :: "'a world_scheme use_case \<Rightarrow> job \<Rightarrow> 'a world_scheme \<Rightarrow> bool \<times> 'a world_scheme" where
  "heartbeat_tick uc j w = (True, snd (UpdateHeartbeat (uc_cfg uc) (j_id j) w))"

definition disk_tick :: "'a world_scheme use_case \<Rightarrow> job \<Rightarrow> 'a world_scheme \<Rightarrow> bool \<times> 'a world_scheme" where
  "disk_tick uc j w =
     (case checkJobDiskLimit (uc_cfg uc) (j_id j) w of (Inl _, w1) \<Rightarrow> (False, w1) | (Inr _, w1) \<Rightarrow> (True, w1))"

definition companion_work ::
    "'a world_scheme use_case \<Rightarrow> job \<Rightarrow> companion \<Rightarrow> int \<times> int \<times> int \<Rightarrow> 'a world_scheme \<Rightarrow> bool \<times> 'a world_scheme" where
  "companion_work uc j c r w =
     (case c of Metrics \<Rightarrow> metrics_tick j r w | Heartbeat \<Rightarrow> heartbeat_tick uc j w | DiskCheck \<Rightarrow> disk_tick uc j w)"

inductive sync_step :: "'a world_scheme use_case \<Rightarrow> job \<Rightarrow> 'a world_scheme sync \<Rightarrow> 'a world_scheme sync \<Rightarrow> bool"
  for uc j where
  act: "sy_main s = Run (Act f) \<Longrightarrow> f (sy_world s) = (w, k) \<Longrightarrow> sync_step uc j s (s\<lparr>sy_world := w, sy_main := Run k\<rparr>)"
| go: "sy_main s = Run (Go c k) \<Longrightarrow>
    sync_step uc j s (s\<lparr>sy_main := Run k, sy_defers := c # sy_defers s, sy_comp := (sy_comp s)(c := Waiting)\<rparr>)"
| ret: "sy_main s = Run (Ret r) \<Longrightarrow> sync_step uc j s (s\<lparr>sy_main := Stop r\<rparr>)"
| send: "sy_main s = Stop r \<Longrightarrow> sy_defers s = c # cs \<Longrightarrow> sy_comp s c = Waiting \<Longrightarrow>
    sync_step uc j s (s\<lparr>sy_defers := cs, sy_comp := (sy_comp s)(c := Ended)\<rparr>)"
| leave: "sy_main s = Stop r \<Longrightarrow> sy_defers s = [] \<Longrightarrow> sync_step uc j s (s\<lparr>sy_main := Done r\<rparr>)"
| tick: "sy_comp s c = Waiting \<Longrightarrow> sync_step uc j s (s\<lparr>sy_comp := (sy_comp s)(c := Handling)\<rparr>)"
| handled: "sy_comp s c = Handling \<Longrightarrow> companion_work uc j c r (sy_world s) = (stay, w) \<Longrightarrow>
    sync_step uc j s (s\<lparr>sy_world := w, sy_comp := (sy_comp s)(c := (if stay then Waiting else Ended))\<rparr>)"

inductive_cases sync_stepE: "sync_step uc j s s'"

lemma stage_step:
  "sy_main s = Run (stage g f k) \<Longrightarrow> f (sy_world s) = (Inr x, w) \<Longrightarrow> sync_step uc j s (s\<lparr>sy_world := w, sy_main := Run (k x)\<rparr>)"
  "sy_main s = Run (stage g f k) \<Longrightarrow> f (sy_world s) = (Inl e, w) \<Longrightarrow> sync_step uc j s (s\<lparr>sy_world := w, sy_main := Run (Ret (Inl (g e)))\<rparr>)"
  using sync_step.act [of s _ w "k x" uc j] sync_step.act [of s _ w "Ret (Inl (g e))" uc j] by (simp_all add: stage_def)

definition start :: "'a world_scheme use_case \<Rightarrow> job \<Rightarrow> 'a world_scheme \<Rightarrow> 'a world_scheme sync" where
  "start uc j w = \<lparr>sy_world = w, sy_main = Run (process_script uc j), sy_defers = [], sy_comp = (\<lambda>_. Unborn)\<rparr>"

abbreviation sync_steps :: "'a world_scheme use_case \<Rightarrow> job \<Rightarrow> 'a world_scheme sync \<Rightarrow> 'a world_scheme sync \<Rightarrow> bool" where
  "sync_steps uc j \<equiv> (sync_step uc j)\<^sup>*\<^sup>*"

section \<open>What every schedule keeps\<close>

text \<open>A script starts no companion twice.\<close>

inductive script_ok :: "companion set \<Rightarrow> 'w script \<Rightarrow> bool" where
  "script_ok D (Ret r)"
| "(\<And>w. script_ok D (snd (f w))) \<Longrightarrow> script_ok D (Act f)"
| "c \<notin> D \<Longrightarrow> script_ok (insert c D) k \<Longrightarrow> script_ok D (Go c k)"

inductive_simps script_ok_simps [simp]: "script_ok D (Ret r)" "script_ok D (Act f)" "script_ok D (Go c k)"

lemma script_ok_stage: "(\<And>x. script_ok D (k x)) \<Longrightarrow> script_ok D (stage g f k)"
  by (auto simp: stage_def case_prod_beta split: sum.split)

lemma script_ok_resume: "(\<And>x. script_ok D (k x)) \<Longrightarrow> script_ok D (resume_script uc j info vs acc s k)"
  by (induction vs arbitrary: acc s) (auto intro: script_ok_stage)

lemma steps_script_ok: "script_ok D (steps_script uc j s)"
proof -
  have f: "script_ok D (finish_script uc j info e)" for info e
    by (simp add: finish_script_def case_prod_beta script_ok_stage)
  have "script_ok D (encode_script uc j s info)" for s info
    by (auto simp: encode_script_def Let_def intro!: script_ok_stage script_ok_resume f)
  then show ?thesis by (auto simp: steps_script_def dedup_script_def intro!: script_ok_stage)
qed

lemma process_script_ok: "script_ok {} (process_script uc j)"
  by (auto simp: process_script_def case_prod_beta intro!: script_ok_stage steps_script_ok)

text \<open>The pending sends are those of the companions that run; only the size check can have returned early.\<close>

definition sync_inv :: "'a world_scheme sync \<Rightarrow> bool" where
  "sync_inv s \<longleftrightarrow> distinct (sy_defers s)
     \<and> (case sy_main s of Run k \<Rightarrow> script_ok (set (sy_defers s)) k | Stop r \<Rightarrow> True | Done r \<Rightarrow> sy_defers s = [])
     \<and> (\<forall>c. (c \<in> set (sy_defers s) \<longrightarrow> sy_comp s c \<in> {Waiting, Handling} \<or> c = DiskCheck \<and> sy_comp s c = Ended)
          \<and> (c \<notin> set (sy_defers s) \<longrightarrow> sy_comp s c \<in> {Unborn, Ended}))"

lemma sync_inv_start: "sync_inv (start uc j w)"
  by (simp add: sync_inv_def start_def process_script_ok)

lemma companion_stays: "c \<noteq> DiskCheck \<Longrightarrow> fst (companion_work uc j c r w)"
  by (cases c) (simp_all add: companion_work_def metrics_tick_def heartbeat_tick_def)

lemma running_deferred: "sync_inv s \<Longrightarrow> sy_comp s c = Waiting \<or> sy_comp s c = Handling \<Longrightarrow> c \<in> set (sy_defers s)"
  unfolding sync_inv_def by (metis goroutine.distinct insertE singletonD)

lemma sync_inv_step: "sync_step uc j s s' \<Longrightarrow> sync_inv s \<Longrightarrow> sync_inv s'"
proof (induction rule: sync_step.induct)
  case (act s f w k)
  have "snd (f (sy_world s)) = k" using act(2) by simp
  with act(1,3) show ?case by (auto simp: sync_inv_def)
next
  case (handled s c r stay w)
  then show ?case using companion_stays [of c uc j r "sy_world s"] running_deferred [of s c]
    by (auto simp: sync_inv_def split: worker.splits if_splits)
next
  case (tick s c)
  then show ?case using running_deferred [of s c] by (auto simp: sync_inv_def split: worker.splits)
qed (auto simp: sync_inv_def split: worker.splits if_splits)

lemma sync_inv_steps: "sync_steps uc j s s' \<Longrightarrow> sync_inv s \<Longrightarrow> sync_inv s'"
  by (induction rule: rtranclp_induct) (auto intro: sync_inv_step)

section \<open>Schedules without ticks\<close>

primrec exec :: "'w script \<Rightarrow> 'w \<Rightarrow> (err + unit) \<times> 'w" where
  "exec (Ret r) = (\<lambda>w. (r, w))"
| "exec (Act f) = (\<lambda>w. let p = map_prod id exec (f w) in snd p (fst p))"
| "exec (Go c k) = exec k"

lemma exec_stage [simp]:
  "exec (stage g f k) w = (case f w of (Inl e, w1) \<Rightarrow> (Inl (g e), w1) | (Inr x, w1) \<Rightarrow> exec (k x) w1)"
  by (simp add: stage_def Let_def case_prod_beta split: sum.split)

text \<open>The loop over the qualities is a sequence of loops over one quality.\<close>

lemma resume_loop_Cons:
  "resume_loop uc j info (v # vs) acc s w =
     (case resume_loop uc j info [v] acc s w of
        (Inl e, w1) \<Rightarrow> (Inl e, w1)
      | (Inr (acc', s'), w1) \<Rightarrow> resume_loop uc j info vs acc' s' w1)"
  by (cases acc) (simp add: Let_def case_prod_beta split: option.split sum.split)

lemma exec_resume:
  "exec (resume_script uc j info vs acc s k) w =
     (case resume_loop uc j info vs acc s w of (Inl e, w1) \<Rightarrow> (Inl (wrap ''encoding failed'' e), w1) | (Inr x, w1) \<Rightarrow> exec (k x) w1)"
proof (induction vs arbitrary: acc s w)
  case (Cons v vs)
  show ?case unfolding resume_script.simps exec_stage resume_loop_Cons [of uc j info v vs acc s w]
    by (simp add: Cons.IH case_prod_beta split: sum.split)
qed simp

lemma exec_steps: "exec (steps_script uc j s) w = executeSteps uc j s w"
proof -
  have f: "exec (finish_script uc j info ((res, vs), t)) v = stepFinalization uc j t res vs info v" for info res vs t v
    by (simp add: finish_script_def stepFinalization_def case_prod_beta prod_eq_iff split: sum.split)
  have e: "exec (encode_script uc j t info) v =
      (case stepEncoding uc j t info v of (Inl e, w1) \<Rightarrow> (Inl e, w1)
       | (Inr ((res, vs), t'), w1) \<Rightarrow> stepFinalization uc j t' res vs info w1)" for t info v
    by (simp add: encode_script_def stepEncoding_def encodeWithResume_def exec_resume f Let_def case_prod_beta split: sum.split)
  show ?thesis
    by (simp add: steps_script_def dedup_script_def executeSteps_def e case_prod_beta split: sum.split)
qed

lemma exec_process: "exec (process_script uc j) w = process uc j w"
  by (simp add: process_script_def process_def exec_steps Let_def case_prod_beta split: sum.split)

definition quiet :: "'a world_scheme sync \<Rightarrow> bool" where
  "quiet s \<longleftrightarrow> distinct (sy_defers s) \<and> (\<forall>c\<in>set (sy_defers s). sy_comp s c = Waiting)"

lemma stop_all:
  "sy_main s = Stop r \<Longrightarrow> quiet s \<Longrightarrow> \<exists>s'. sync_steps uc j s s' \<and> sy_main s' = Done r \<and> sy_world s' = sy_world s"
proof (induction "sy_defers s" arbitrary: s)
  case Nil
  then show ?case using sync_step.leave [of s r uc j] by (intro exI [of _ "s\<lparr>sy_main := Done r\<rparr>"]) auto
next
  case (Cons c cs)
  let ?s = "s\<lparr>sy_defers := cs, sy_comp := (sy_comp s)(c := Ended)\<rparr>"
  have q: "sy_defers s = c # cs" "sy_comp s c = Waiting"
    using Cons.hyps(2) Cons.prems(2) by (metis, metis list.set_intros(1) quiet_def)
  have "quiet ?s" using q Cons.prems(2) by (auto simp: quiet_def)
  then obtain s' where "sync_steps uc j ?s s' \<and> sy_main s' = Done r \<and> sy_world s' = sy_world s"
    using Cons.hyps(1) [of ?s] Cons.prems(1) by auto
  with sync_step.send [OF Cons.prems(1) q] show ?case by (blast intro: converse_rtranclp_into_rtranclp)
qed

lemma quiet_run:
  "sy_main s = Run k \<Longrightarrow> quiet s \<Longrightarrow> script_ok (set (sy_defers s)) k \<Longrightarrow> exec k (sy_world s) = (r, w) \<Longrightarrow>
     \<exists>s'. sync_steps uc j s s' \<and> sy_main s' = Done r \<and> sy_world s' = w"
proof (induction k arbitrary: s)
  case (Ret q)
  let ?s = "s\<lparr>sy_main := Stop q\<rparr>"
  have "sync_step uc j s ?s" by (rule sync_step.ret [OF Ret.prems(1)])
  moreover obtain s' where "sync_steps uc j ?s s' \<and> sy_main s' = Done q \<and> sy_world s' = sy_world ?s"
    using stop_all [of ?s q uc j] Ret.prems(2) by (auto simp: quiet_def)
  ultimately show ?case using Ret.prems(4) by (auto intro: converse_rtranclp_into_rtranclp)
next
  case (Act f)
  obtain v k where f: "f (sy_world s) = (v, k)" by fastforce
  let ?s = "s\<lparr>sy_world := v, sy_main := Run k\<rparr>"
  have "script_ok (set (sy_defers s)) (snd (f (sy_world s)))" using Act.prems(3) by simp
  then have "\<exists>s'. sync_steps uc j ?s s' \<and> sy_main s' = Done r \<and> sy_world s' = w"
    using Act.prems f rangeI [of f "sy_world s"] by (intro Act.IH [of "f (sy_world s)" k ?s]) (auto simp: quiet_def)
  with sync_step.act [OF Act.prems(1) f, of uc j] show ?case by (blast intro: converse_rtranclp_into_rtranclp)
next
  case (Go c k)
  let ?s = "s\<lparr>sy_main := Run k, sy_defers := c # sy_defers s, sy_comp := (sy_comp s)(c := Waiting)\<rparr>"
  have "\<exists>s'. sync_steps uc j ?s s' \<and> sy_main s' = Done r \<and> sy_world s' = w"
    using Go.prems by (intro Go.IH) (auto simp: quiet_def)
  with sync_step.go [OF Go.prems(1), of uc j] show ?case by (blast intro: converse_rtranclp_into_rtranclp)
qed

text \<open>The sequential model of a job's work is the schedule without ticks: the goroutines can run
from the start of \<open>process\<close> to its end with exactly the result and the effects that \<open>process\<close>
gives.\<close>

theorem process_is_a_schedule:
  "\<exists>s'. sync_steps uc j (start uc j w) s' \<and> sy_main s' = Done (fst (process uc j w)) \<and> sy_world s' = snd (process uc j w)"
  using quiet_run [of "start uc j w" "process_script uc j" "fst (process uc j w)" "snd (process uc j w)" uc j]
  by (simp add: start_def quiet_def process_script_ok exec_process)

section \<open>The end of the goroutines\<close>

text \<open>The worker is blocked for good: it still has to send to the size check, which has returned.\<close>

definition blocked :: "'a world_scheme sync \<Rightarrow> bool" where
  "blocked s \<longleftrightarrow> DiskCheck \<in> set (sy_defers s) \<and> sy_comp s DiskCheck = Ended"

lemma blocked_step: "sync_step uc j s s' \<Longrightarrow> sync_inv s \<Longrightarrow> blocked s \<Longrightarrow> blocked s'"
  by (induction rule: sync_step.induct) (auto simp: blocked_def sync_inv_def)

lemma blocked_steps: "sync_steps uc j s s' \<Longrightarrow> sync_inv s \<Longrightarrow> blocked s \<Longrightarrow> blocked s'"
  by (induction rule: rtranclp_induct) (auto intro: blocked_step sync_inv_steps)

lemma blocked_never_done: "sync_inv s \<Longrightarrow> blocked s \<Longrightarrow> sy_main s \<noteq> Done r"
  by (auto simp: blocked_def sync_inv_def)

text \<open>Ticks in progress can be finished.\<close>

lemma finish_ticks:
  assumes "finite C" "\<forall>c\<in>C. sy_comp s c = Handling \<longrightarrow> c \<noteq> DiskCheck"
  shows "\<exists>s'. sync_steps uc j s s' \<and> sy_main s' = sy_main s \<and> sy_defers s' = sy_defers s
    \<and> (\<forall>c. sy_comp s' c = (if c \<in> C \<and> sy_comp s c = Handling then Waiting else sy_comp s c))"
  using assms
proof (induction C)
  case empty
  then show ?case by (intro exI [of _ s]) auto
next
  case (insert c C)
  then obtain t where t: "sync_steps uc j s t" "sy_main t = sy_main s" "sy_defers t = sy_defers s"
    "\<forall>c. sy_comp t c = (if c \<in> C \<and> sy_comp s c = Handling then Waiting else sy_comp s c)" by auto
  show ?case
  proof (cases "sy_comp s c = Handling")
    case True
    then have h: "sy_comp t c = Handling" using t(4) insert.hyps by simp
    obtain w where w: "companion_work uc j c (0, 0, 1) (sy_world t) = (True, w)"
      using companion_stays [of c uc j "(0, 0, 1)" "sy_world t"] insert.prems True by (metis insertI1 prod.collapse)
    from sync_step.handled [OF h w] t(1) have "sync_steps uc j s (t\<lparr>sy_world := w, sy_comp := (sy_comp t)(c := Waiting)\<rparr>)"
      by (simp add: rtranclp.rtrancl_into_rtrancl)
    then show ?thesis using t True insert.hyps
      by (intro exI [of _ "t\<lparr>sy_world := w, sy_comp := (sy_comp t)(c := Waiting)\<rparr>"]) auto
  next
    case False
    then show ?thesis using t insert.hyps by (intro exI [of _ t]) auto
  qed
qed

lemma can_end:
  assumes "sync_inv s" "\<not> blocked s" "sy_comp s DiskCheck \<noteq> Handling"
  shows "\<exists>s' r. sync_steps uc j s s' \<and> sy_main s' = Done r"
proof -
  have "c \<in> {Metrics, Heartbeat} \<and> sy_comp s c = Handling \<longleftrightarrow> sy_comp s c = Handling" for c
    using assms(3) by (cases c) auto
  with finish_ticks [of "{Metrics, Heartbeat}" s uc j] obtain t where
    t: "sync_steps uc j s t" "sy_main t = sy_main s" "sy_defers t = sy_defers s"
    "\<forall>c. sy_comp t c = (if sy_comp s c = Handling then Waiting else sy_comp s c)" by auto
  have "quiet t" using assms t(3,4) by (auto simp: quiet_def sync_inv_def blocked_def)
  have "\<exists>s' r. sync_steps uc j t s' \<and> sy_main s' = Done r"
  proof (cases "sy_main t")
    case (Run k)
    then have "script_ok (set (sy_defers t)) k" using assms(1) t(2,3) by (simp add: sync_inv_def)
    with quiet_run [OF Run \<open>quiet t\<close> this, of "fst (exec k (sy_world t))" "snd (exec k (sy_world t))" uc j] show ?thesis by auto
  next
    case (Stop r)
    with stop_all [OF Stop \<open>quiet t\<close>, of uc j] show ?thesis by blast
  qed blast
  with t(1) show ?thesis by (meson rtranclp_trans)
qed

text \<open>A size check that is at work and lets the job go on.\<close>

lemma can_end':
  assumes "sync_inv s" "\<not> blocked s" "sy_comp s DiskCheck = Handling \<longrightarrow> fst (disk_tick uc j (sy_world s))"
  shows "\<exists>s' r. sync_steps uc j s s' \<and> sy_main s' = Done r"
proof (cases "sy_comp s DiskCheck = Handling")
  case True
  then obtain w where "companion_work uc j DiskCheck (0, 0, 1) (sy_world s) = (True, w)"
    using assms(3) by (metis companion.simps(9) companion_work_def prod.collapse)
  note h = sync_step.handled [OF True this]
  let ?t = "s\<lparr>sy_world := w, sy_comp := (sy_comp s)(DiskCheck := (if True then Waiting else Ended))\<rparr>"
  have "sync_inv ?t" by (rule sync_inv_step [OF h assms(1)])
  moreover have "\<not> blocked ?t" "sy_comp ?t DiskCheck \<noteq> Handling" by (simp_all add: blocked_def)
  ultimately obtain s' r where "sync_steps uc j ?t s' \<and> sy_main s' = Done r" using can_end by blast
  with h show ?thesis by (blast intro: converse_rtranclp_into_rtranclp)
qed (use assms can_end in blast)

text \<open>C30. When the goroutines of a job can end, in every state they can get into and whatever ticks came before: if the size
check has returned on its own while the worker still has to stop it, then no schedule ends the worker. Otherwise some
schedule does, except perhaps where the size check is just at work and would find the job too large with the files as
they are. When the worker has ended, no companion runs.\<close>

theorem worker_can_end:
  assumes "sync_steps uc j (start uc j w) s"
  shows "(DiskCheck \<in> set (sy_defers s) \<and> sy_comp s DiskCheck = Ended \<longrightarrow> \<not> (\<exists>s' r. sync_steps uc j s s' \<and> sy_main s' = Done r))
    \<and> (\<not> (DiskCheck \<in> set (sy_defers s) \<and> sy_comp s DiskCheck = Ended)
        \<and> (sy_comp s DiskCheck = Handling \<longrightarrow> (\<exists>w'. checkJobDiskLimit (uc_cfg uc) (j_id j) (sy_world s) = (Inr (), w')))
        \<longrightarrow> (\<exists>s' r. sync_steps uc j s s' \<and> sy_main s' = Done r))
    \<and> (\<forall>r c. sy_main s = Done r \<longrightarrow> sy_comp s c \<in> {Unborn, Ended})"
proof -
  have i: "sync_inv s" by (rule sync_inv_steps [OF assms sync_inv_start])
  have "blocked s \<longrightarrow> \<not> (\<exists>s' r. sync_steps uc j s s' \<and> sy_main s' = Done r)"
    using blocked_steps [of uc j s] sync_inv_steps [of uc j s] blocked_never_done i by blast
  moreover have "\<not> blocked s \<and> (sy_comp s DiskCheck = Handling \<longrightarrow> (\<exists>w'. checkJobDiskLimit (uc_cfg uc) (j_id j) (sy_world s) = (Inr (), w')))
      \<longrightarrow> (\<exists>s' r. sync_steps uc j s s' \<and> sy_main s' = Done r)"
    using can_end' [OF i] by (auto simp: disk_tick_def)
  moreover have "sy_main s = Done r \<Longrightarrow> sy_comp s c \<in> {Unborn, Ended}" for r c
    using i by (auto simp: sync_inv_def)
  ultimately show ?thesis unfolding blocked_def by blast
qed

text \<open>C14. Once the periodic check finds a job too large, the worker of the job never ends: the check
deletes the files, returns, and leaves nobody to receive the stop signal that the worker has
promised to send. So the job is neither retried nor moved to the dead letter queue.\<close>

theorem size_check_blocks_worker:
  assumes "sync_steps uc j (start uc j w) s" "sy_comp s DiskCheck = Handling"
    and "checkJobDiskLimit (uc_cfg uc) (j_id j) (sy_world s) = (Inl e, w')"
  defines "s' \<equiv> s\<lparr>sy_world := w', sy_comp := (sy_comp s)(DiskCheck := Ended)\<rparr>"
  shows "sync_step uc j s s' \<and> (\<forall>t r. sync_steps uc j s' t \<longrightarrow> sy_main t \<noteq> Done r)"
proof -
  have i: "sync_inv s" by (rule sync_inv_steps [OF assms(1) sync_inv_start])
  have "companion_work uc j DiskCheck (0, 0, 1) (sy_world s) = (False, w')" by (simp add: companion_work_def disk_tick_def assms(3))
  from sync_step.handled [OF assms(2) this] have st: "sync_step uc j s s'" by (simp add: s'_def)
  have "blocked s'" using running_deferred [OF i, of DiskCheck] assms(2) by (simp add: blocked_def s'_def)
  with st i blocked_steps sync_inv_steps sync_inv_step blocked_never_done show ?thesis by blast
qed

section \<open>Concrete schedules\<close>

theorem worker_can_end_witness:
  "\<exists>s' r. sync_steps (demo_use_case 3) demo_job (start (demo_use_case 3) demo_job demo_world) s' \<and> sy_main s' = Done r"
proof -
  let ?s = "start (demo_use_case 3) demo_job demo_world"
  have "sy_comp ?s DiskCheck \<noteq> Handling" "DiskCheck \<notin> set (sy_defers ?s)" by (simp_all add: start_def)
  with worker_can_end [of "demo_use_case 3" demo_job demo_world ?s] show ?thesis by blast
qed

text \<open>A job whose files exceed the limit of zero megabytes at the first tick.\<close>

definition tight_use_case :: "world use_case" where
  "tight_use_case = (demo_use_case 3)\<lparr>uc_cfg := small_limit\<rparr>"

definition large_world :: world where
  "large_world = demo_world\<lparr>fs := [((False, [''outputs'']), Dir 0), ((False, [''outputs'', ''job_1'']), Dir 0),
     ((False, [''outputs'', ''job_1'', ''state.json'']), File (Doc (state_json sample_state)) 0),
     ((False, [''outputs'', ''job_1'', ''chunk.ts'']), File (Opaque ''chunk'' 1000) 0)]\<rparr>"

abbreviation measured :: "nat \<Rightarrow> metrics_map \<Rightarrow> world" where
  "measured n mm \<equiv> large_world\<lparr>tick := n, w_metrics := mm\<rparr>"

lemma large_world_runs:
  "is_ok (fst (LoadState small_limit ''job_1'' (measured n mm)))"
  "fst (CheckJobSizeLimit small_limit ''job_1'' (measured n mm)) = Inr (False, 0)"
  by code_simp+

lemma ticks_only:
  "snd (LoadState cfg i w) = w\<lparr>tick := tick (snd (LoadState cfg i w))\<rparr>"
  "snd (StartJobMetrics i p mm w) = w\<lparr>tick := tick (snd (StartJobMetrics i p mm w))\<rparr>"
  by (simp_all add: LoadState_def FileExists_def os_stat_def os_read_file_def advance_def StartJobMetrics_def
      GetFileSizeMB_def GetFileSize_def time_now_def Let_def case_prod_beta)

text \<open>The schedule in which the size check ticks as soon as it is started.\<close>

lemma early_tick:
  assumes "StartJobMetrics (j_id j) (j_input_path j) (w_metrics w) w = (mm, w1)"
    "getOrCreateState (uc_cfg uc) j (w1\<lparr>w_metrics := mm\<rparr>) = (Inr st, w2)"
  shows "\<exists>s. sync_steps uc j (start uc j w) s \<and> sy_comp s DiskCheck = Handling \<and> sy_world s = w2"
proof -
  let ?run = "\<lambda>s. stage (wrap ''failed to update status'') (UpdateStatus (j_id j) RUNNING) (\<lambda>_. steps_script uc j s)"
  let ?fin = "?run st"
  let ?load = "stage (wrap ''failed to get/create state'') (getOrCreateState (uc_cfg uc) j) (\<lambda>s. Go Heartbeat (Go DiskCheck (?run s)))"
  let ?c1 = "(\<lambda>_. Unborn)(Metrics := Waiting)"
  let ?c2 = "?c1(Heartbeat := Waiting, DiskCheck := Waiting)"
  let ?s = "\<lambda>v m d c. \<lparr>sy_world = v, sy_main = Run m, sy_defers = d, sy_comp = c\<rparr>"
  have a: "sync_step uc j (start uc j w) (?s (w1\<lparr>w_metrics := mm\<rparr>) (Go Metrics ?load) [] (\<lambda>_. Unborn))"
    using sync_step.act [of "start uc j w" _ "w1\<lparr>w_metrics := mm\<rparr>" "Go Metrics ?load" uc j] assms(1)
    by (simp add: start_def process_script_def)
  have b: "sync_step uc j (?s (w1\<lparr>w_metrics := mm\<rparr>) (Go Metrics ?load) [] (\<lambda>_. Unborn)) (?s (w1\<lparr>w_metrics := mm\<rparr>) ?load [Metrics] ?c1)"
    using sync_step.go [of "?s (w1\<lparr>w_metrics := mm\<rparr>) (Go Metrics ?load) [] (\<lambda>_. Unborn)" Metrics ?load uc j] by simp
  have c: "sync_step uc j (?s (w1\<lparr>w_metrics := mm\<rparr>) ?load [Metrics] ?c1) (?s w2 (Go Heartbeat (Go DiskCheck ?fin)) [Metrics] ?c1)"
    using sync_step.act [of "?s (w1\<lparr>w_metrics := mm\<rparr>) ?load [Metrics] ?c1" _ w2 "Go Heartbeat (Go DiskCheck ?fin)" uc j] assms(2) by (simp add: stage_def)
  have d: "sync_step uc j (?s w2 (Go Heartbeat (Go DiskCheck ?fin)) [Metrics] ?c1) (?s w2 (Go DiskCheck ?fin) [Heartbeat, Metrics] (?c1(Heartbeat := Waiting)))"
    using sync_step.go [of "?s w2 (Go Heartbeat (Go DiskCheck ?fin)) [Metrics] ?c1" Heartbeat "Go DiskCheck ?fin" uc j] by simp
  have e: "sync_step uc j (?s w2 (Go DiskCheck ?fin) [Heartbeat, Metrics] (?c1(Heartbeat := Waiting))) (?s w2 ?fin [DiskCheck, Heartbeat, Metrics] ?c2)"
    using sync_step.go [of "?s w2 (Go DiskCheck ?fin) [Heartbeat, Metrics] (?c1(Heartbeat := Waiting))" DiskCheck ?fin uc j] by simp
  have f: "sync_step uc j (?s w2 ?fin [DiskCheck, Heartbeat, Metrics] ?c2) (?s w2 ?fin [DiskCheck, Heartbeat, Metrics] (?c2(DiskCheck := Handling)))"
    using sync_step.tick [of "?s w2 ?fin [DiskCheck, Heartbeat, Metrics] ?c2" DiskCheck uc j] by simp
  from a b c d e f have "sync_steps uc j (start uc j w) (?s w2 ?fin [DiskCheck, Heartbeat, Metrics] (?c2(DiskCheck := Handling)))"
    by (meson converse_rtranclp_into_rtranclp rtranclp.rtrancl_refl)
  then show ?thesis by (intro exI conjI) (assumption | simp only: sync.select_convs fun_upd_same)+
qed

theorem size_check_blocks_worker_witness:
  "\<exists>s s'. sync_steps tight_use_case demo_job (start tight_use_case demo_job large_world) s \<and> sync_step tight_use_case demo_job s s'
     \<and> (\<forall>t r. sync_steps tight_use_case demo_job s' t \<longrightarrow> sy_main t \<noteq> Done r)"
proof -
  obtain mm n where m: "StartJobMetrics (j_id demo_job) (j_input_path demo_job) (w_metrics large_world) large_world = (mm, large_world\<lparr>tick := n\<rparr>)"
    using ticks_only(2) by (metis prod.collapse)
  obtain st n' where g: "LoadState small_limit ''job_1'' (measured n mm) = (Inr st, measured n' mm)"
  proof -
    have "snd (LoadState small_limit ''job_1'' (measured n mm)) = measured (tick (snd (LoadState small_limit ''job_1'' (measured n mm)))) mm"
      by (subst ticks_only(1)) simp
    moreover obtain st where "fst (LoadState small_limit ''job_1'' (measured n mm)) = Inr st"
      using large_world_runs(1) [of mm n] by (auto simp: is_ok_def split: sum.splits)
    ultimately show thesis using that by (metis prod.collapse)
  qed
  have c: "uc_cfg tight_use_case = small_limit" by (simp add: tight_use_case_def)
  have "getOrCreateState (uc_cfg tight_use_case) demo_job (measured n mm) = (Inr st, measured n' mm)"
    by (simp add: getOrCreateState_def c g)
  from early_tick [OF m this] obtain s where
    s: "sync_steps tight_use_case demo_job (start tight_use_case demo_job large_world) s" "sy_comp s DiskCheck = Handling"
      "sy_world s = measured n' mm" by blast
  obtain e w3 where "checkJobDiskLimit (uc_cfg tight_use_case) (j_id demo_job) (sy_world s) = (Inl e, w3)"
    using large_world_runs(2) [of mm n'] unfolding s(3) c
    by (cases "CheckJobSizeLimit small_limit ''job_1'' (measured n' mm)") (auto simp: checkJobDiskLimit_def case_prod_beta)
  from size_check_blocks_worker [OF s(1,2) this] s(1) show ?thesis by blast
qed

end
