(* ===== verification/Delivery.thy ===== *)
theory Delivery
  imports Encoder Job_Store
begin

text \<open>
  Where the outputs go: \<open>internal/infrastructure/storage/storage.go\<close> (the adapters for storage,
  placeholders but for their addresses) and \<open>internal/application/services/cdn_service.go\<close>.
\<close>

section \<open>Storage\<close>

text \<open>
  An interface of the code is a record of its methods, and a constructor of an adapter gives the
  record of that adapter's methods over its fields.
\<close>

record storage_adapter =
  sa_Upload :: "string \<Rightarrow> string \<Rightarrow> err + string"
  sa_Download :: "string \<Rightarrow> string \<Rightarrow> err + unit"
  sa_Delete :: "string \<Rightarrow> err + unit"
  sa_GetURL :: "string \<Rightarrow> err + string"
  sa_List :: "string \<Rightarrow> err + string list"

definition NewLocalAdapter :: "storage_config \<Rightarrow> storage_adapter" where
  "NewLocalAdapter config =
     \<lparr>sa_Upload = (\<lambda>localPath remotePath. Inr localPath),
      sa_Download = (\<lambda>remotePath localPath. Inr ()),
      sa_Delete = (\<lambda>remotePath. Inr ()),
      sa_GetURL = (\<lambda>remotePath. Inr remotePath),
      sa_List = (\<lambda>pre. Inr [])\<rparr>"

definition NewS3Adapter :: "storage_config \<Rightarrow> storage_adapter" where
  "NewS3Adapter config =
     (let url = (\<lambda>remotePath. ''https://'' @ sg_bucket config @ ''.s3.'' @ sg_region config @ ''.amazonaws.com/'' @ remotePath)
      in \<lparr>sa_Upload = (\<lambda>localPath remotePath. Inr (url remotePath)),
          sa_Download = (\<lambda>remotePath localPath. Inl (Err ''S3 download not implemented'')),
          sa_Delete = (\<lambda>remotePath. Inl (Err ''S3 delete not implemented'')),
          sa_GetURL = (\<lambda>remotePath. Inr (url remotePath)),
          sa_List = (\<lambda>pre. Inr [])\<rparr>)"

definition NewGCSAdapter :: "storage_config \<Rightarrow> storage_adapter" where
  "NewGCSAdapter config =
     (let url = (\<lambda>remotePath. ''https://storage.googleapis.com/'' @ sg_bucket config @ ''/'' @ remotePath)
      in \<lparr>sa_Upload = (\<lambda>localPath remotePath. Inr (url remotePath)),
          sa_Download = (\<lambda>remotePath localPath. Inl (Err ''GCS download not implemented'')),
          sa_Delete = (\<lambda>remotePath. Inl (Err ''GCS delete not implemented'')),
          sa_GetURL = (\<lambda>remotePath. Inr (url remotePath)),
          sa_List = (\<lambda>pre. Inr [])\<rparr>)"

definition NewAzureAdapter :: "storage_config \<Rightarrow> storage_adapter" where
  "NewAzureAdapter config =
     (let url = (\<lambda>remotePath. ''https://'' @ sg_bucket config @ ''.blob.core.windows.net/'' @ remotePath)
      in \<lparr>sa_Upload = (\<lambda>localPath remotePath. Inr (url remotePath)),
          sa_Download = (\<lambda>remotePath localPath. Inl (Err ''Azure download not implemented'')),
          sa_Delete = (\<lambda>remotePath. Inl (Err ''Azure delete not implemented'')),
          sa_GetURL = (\<lambda>remotePath. Inr (url remotePath)),
          sa_List = (\<lambda>pre. Inr [])\<rparr>)"

definition CreateAdapter :: "storage_config \<Rightarrow> err + storage_adapter" where
  "CreateAdapter config =
     (if sg_type config = ''s3'' then Inr (NewS3Adapter config)
      else if sg_type config = ''gcs'' then Inr (NewGCSAdapter config)
      else if sg_type config = ''azure'' then Inr (NewAzureAdapter config)
      else if sg_type config = ''local'' \<or> sg_type config = [] then Inr (NewLocalAdapter config)
      else Inl (Err (''unsupported storage type: '' @ sg_type config)))"

section \<open>Content delivery\<close>

record cdn_provider =
  cp_PushContent :: "string \<Rightarrow> string \<Rightarrow> err + string"
  cp_InvalidateCache :: "string list \<Rightarrow> err + unit"
  cp_GetURL :: "string \<Rightarrow> string"

definition NewGenericCDNProvider :: "cdn_config \<Rightarrow> cdn_provider" where
  "NewGenericCDNProvider config =
     (let url = (\<lambda>path. cd_base_url config @ ''/'' @ path)
      in \<lparr>cp_PushContent = (\<lambda>localPath remotePath. Inr (url remotePath)),
          cp_InvalidateCache = (\<lambda>paths. Inr ()), cp_GetURL = url\<rparr>)"

definition NewCloudflareProvider :: "cdn_config \<Rightarrow> cdn_provider" where
  "NewCloudflareProvider config =
     (let url = (\<lambda>path. cd_base_url config @ ''/'' @ path)
      in \<lparr>cp_PushContent = (\<lambda>localPath remotePath. Inr (url remotePath)),
          cp_InvalidateCache = (\<lambda>paths. Inr ()), cp_GetURL = url\<rparr>)"

definition NewCloudFrontProvider :: "cdn_config \<Rightarrow> cdn_provider" where
  "NewCloudFrontProvider config =
     (let url = (\<lambda>path. cd_base_url config @ ''/'' @ path)
      in \<lparr>cp_PushContent = (\<lambda>localPath remotePath. Inr (url remotePath)),
          cp_InvalidateCache = (\<lambda>paths. Inr ()), cp_GetURL = url\<rparr>)"

definition getProvider :: "cdn_config \<Rightarrow> err + cdn_provider" where
  "getProvider c =
     (let name = to_lower (cd_provider c)
      in if name = ''cloudflare'' then Inr (NewCloudflareProvider c)
         else if name = ''cloudfront'' then Inr (NewCloudFrontProvider c)
         else Inr (NewGenericCDNProvider c))"

definition getCDNPath :: "string \<Rightarrow> string \<Rightarrow> string" where
  "getCDNPath jobID file = join_path [''videos'', jobID, file]"

text \<open>The map of addresses; \<open>None\<close> is the nil map of a disabled CDN.\<close>

definition GetCDNURLs :: "job \<Rightarrow> cdn_config \<Rightarrow> (string, string) gomap option" where
  "GetCDNURLs j c =
     (if \<not> cd_enabled c then None
      else let url = (\<lambda>file. cd_base_url c @ ''/'' @ getCDNPath (j_id j) file);
               master = (case j_output j of
                   Some out \<Rightarrow> if oi_master out \<noteq> [] then put ''master'' (url ''master.m3u8'') [] else []
                 | None \<Rightarrow> [])
           in Some (case j_output j of
                Some out \<Rightarrow> fold (\<lambda>q. put (qt_quality q) (url (qt_quality q @ ''/index.m3u8''))) (oi_qualities out) master
              | None \<Rightarrow> master))"

text \<open>A push gives the remote paths it has pushed to, in order, or the error that ended it.\<close>

fun push_qualities :: "cdn_provider \<Rightarrow> string \<Rightarrow> quality_output list \<Rightarrow> string list \<Rightarrow> err + string list" where
  "push_qualities p jobID [] pushed = Inr pushed"
| "push_qualities p jobID (q # qs) pushed =
     (let playlist = getCDNPath jobID (qt_quality q @ ''/index.m3u8'')
      in case cp_PushContent p (qt_playlist q) playlist of
           Inl e \<Rightarrow> Inl (wrap (''failed to push '' @ qt_quality q @ '' playlist'') e)
         | Inr _ \<Rightarrow>
             (let chunks = getCDNPath jobID (qt_quality q @ ''/chunks/'')
              in case cp_PushContent p (qt_chunks_dir q) chunks of
                   Inl e \<Rightarrow> Inl (wrap (''failed to push '' @ qt_quality q @ '' chunks'') e)
                 | Inr _ \<Rightarrow> push_qualities p jobID qs (pushed @ [playlist, chunks])))"

definition PushToCDN :: "job \<Rightarrow> cdn_config \<Rightarrow> err + string list" where
  "PushToCDN j c =
     (if \<not> cd_enabled c then Inr []
      else case getProvider c of
             Inl e \<Rightarrow> Inl (wrap ''failed to get CDN provider'' e)
           | Inr p \<Rightarrow>
               (case j_output j of
                  None \<Rightarrow> Inr []
                | Some out \<Rightarrow>
                    if oi_master out \<noteq> []
                    then (let master = getCDNPath (j_id j) ''master.m3u8''
                          in case cp_PushContent p (oi_master out) master of
                               Inl e \<Rightarrow> Inl (wrap ''failed to push master playlist'' e)
                             | Inr _ \<Rightarrow> push_qualities p (j_id j) (oi_qualities out) [master])
                    else push_qualities p (j_id j) (oi_qualities out) []))"

definition InvalidateCache :: "job \<Rightarrow> cdn_config \<Rightarrow> err + unit" where
  "InvalidateCache j c =
     (if \<not> cd_enabled c then Inr ()
      else case getProvider c of
             Inl e \<Rightarrow> Inl (wrap ''failed to get CDN provider'' e)
           | Inr p \<Rightarrow> cp_InvalidateCache p [getCDNPath (j_id j) ''*''])"

section \<open>Where the playlists end up\<close>

text \<open>The elements of the paths on the CDN.\<close>

lemma comps_trailing_slash: "comps (p @ ''/'') = comps p"
  using rooted_append [of p "''/''"]
  by (cases "p = []") (simp_all add: comps_def rooted_def split_on_append_sep [of _ p "[]", simplified] clean_step.simps)

lemma cdn_path_elements:
  assumes "plain i" "plain q" "plain f"
  shows "comps (getCDNPath i f) = [''videos'', i, f]" "comps (getCDNPath i (q @ ''/'' @ f)) = [''videos'', i, q, f]"
    "comps (getCDNPath i (q @ ''/'' @ f @ ''/'')) = [''videos'', i, q, f]"
proof -
  have v: "comps ''videos'' = [''videos'']" "plain ''videos''" by code_simp+
  have d: "comps (''videos'' @ ''/'' @ i) = [''videos'', i]" using comps_append_plain [of "''videos''" i] assms v by simp
  have e: "comps (''videos'' @ ''/'' @ i @ ''/'' @ q) = [''videos'', i, q]"
    using comps_append_plain [of "''videos'' @ ''/'' @ i" q] assms d by simp
  have p: "comps (join_path [x, w]) = comps x @ [w]" if "x \<noteq> []" "plain w" for x w
    using parse_join_plain [OF that] by (simp add: parse_path_def)
  have i: "i \<noteq> []" "q \<noteq> []" using assms by (auto simp: plain_def)
  have one: "getCDNPath i g = join_path [''videos'' @ ''/'' @ i, g]" if "g \<noteq> []" for g
    using that i by (simp add: getCDNPath_def join_path_def)
  have two: "join_path [''videos'' @ ''/'' @ i, q @ ''/'' @ g] = join_path [''videos'' @ ''/'' @ i @ ''/'' @ q, g]" if "g \<noteq> []" for g
    using that by (simp add: join_path_def)
  have f: "f \<noteq> []" using assms by (auto simp: plain_def)
  show "comps (getCDNPath i f) = [''videos'', i, f]" using one p [of "''videos'' @ ''/'' @ i" f] d f assms by simp
  show q: "comps (getCDNPath i (q @ ''/'' @ f)) = [''videos'', i, q, f]"
    using one [of "q @ ''/'' @ f"] two p [of "''videos'' @ ''/'' @ i @ ''/'' @ q" f] e f assms by simp
  have "join_path [x, f @ ''/''] = join_path [x, f]" if "x \<noteq> []" for x
    using that f comps_trailing_slash [of "x @ ''/'' @ f"] rooted_append [of "x @ ''/'' @ f" "''/''"]
    by (simp add: join_path_def clean_def)
  then show "comps (getCDNPath i (q @ ''/'' @ f @ ''/'')) = [''videos'', i, q, f]"
    using one [of "q @ ''/'' @ f @ ''/''"] two [of "f @ ''/''"] p [of "''videos'' @ ''/'' @ i @ ''/'' @ q" f] e f assms by simp
qed

lemma provider_pushes:
  assumes "getProvider c = Inr p"
  shows "cp_PushContent p l r = Inr (cp_GetURL p r)"
  using assms
  by (auto simp: getProvider_def Let_def NewCloudflareProvider_def NewCloudFrontProvider_def NewGenericCDNProvider_def
      split: if_splits)

lemma push_qualities_paths:
  assumes "getProvider c = Inr p"
  shows "\<exists>new. push_qualities p i qs pushed = Inr (pushed @ new)
     \<and> set new = (\<Union>q\<in>set qs. {getCDNPath i (qt_quality q @ ''/index.m3u8''), getCDNPath i (qt_quality q @ ''/chunks/'')})"
proof (induction qs arbitrary: pushed)
  case (Cons q qs)
  from Cons.IH [of "pushed @ [getCDNPath i (qt_quality q @ ''/index.m3u8''), getCDNPath i (qt_quality q @ ''/chunks/'')]"]
  show ?case by (auto simp: provider_pushes [OF assms])
qed simp

lemma ladder_names: "\<forall>v\<in>set QualityLadder. plain (qv_name v)"
  by code_simp

lemma ladder_uris:
  "playlist_uris (master_text (filter P QualityLadder) a) = map (\<lambda>v. qv_name v @ ''/main.m3u8'') (filter P QualityLadder)"
proof (rule playlist_uris_master)
  have "\<forall>v\<in>set QualityLadder. one_line (qv_name v) \<and> (qv_name v = [] \<or> hd (qv_name v) \<noteq> CHR ''#'')" by code_simp
  then show "\<forall>v\<in>set (filter P QualityLadder). one_line (qv_name v) \<and> (qv_name v = [] \<or> hd (qv_name v) \<noteq> CHR ''#'')"
    by simp
qed

lemma PushToCDN_enabled:
  assumes "cd_enabled c" "j_output j = Some out" "oi_master out \<noteq> []"
  shows "\<exists>new. PushToCDN j c = Inr (getCDNPath (j_id j) ''master.m3u8'' # new)
     \<and> set new = (\<Union>q\<in>set (oi_qualities out). {getCDNPath (j_id j) (qt_quality q @ ''/index.m3u8''), getCDNPath (j_id j) (qt_quality q @ ''/chunks/'')})"
proof -
  obtain p where p: "getProvider c = Inr p" by (cases "getProvider c") (auto simp: getProvider_def Let_def split: if_splits)
  from push_qualities_paths [OF p, of "j_id j" "oi_qualities out" "[getCDNPath (j_id j) ''master.m3u8'']"] show ?thesis
    using assms by (simp add: PushToCDN_def p provider_pushes [OF p] Let_def del: push_qualities.simps)
qed

text \<open>A published stream cannot be played: the master playlist, pushed as it is, refers to each
quality's playlist as \<open>main.m3u8\<close>, and nothing is pushed to that place, as the playlists are
published under the name \<open>index.m3u8\<close>.\<close>

theorem cdn_variant_playlists_missing:
  assumes "plain (j_id j)" "j_output j = Some out" "\<forall>q\<in>set (oi_qualities out). plain (qt_quality q)"
    and "cd_enabled c" "oi_master out \<noteq> []" "u \<in> set (playlist_uris (master_text (filter P QualityLadder) a))"
  shows "\<exists>pushed. PushToCDN j c = Inr pushed \<and> getCDNPath (j_id j) ''master.m3u8'' \<in> set pushed
    \<and> getCDNPath (j_id j) u \<notin> set pushed"
proof -
  let ?i = "j_id j"
  obtain v where "v \<in> set QualityLadder" "u = qv_name v @ ''/main.m3u8''" using assms(6) by (auto simp: ladder_uris)
  with ladder_names have v: "plain (qv_name v)" "u = qv_name v @ ''/main.m3u8''" by blast+
  have n: "plain ''main.m3u8''" "plain ''index.m3u8''" "plain ''chunks''" "plain ''master.m3u8''" by code_simp+
  have u: "comps (getCDNPath ?i u) = [''videos'', ?i, qv_name v, ''main.m3u8'']"
    using cdn_path_elements(2) [OF assms(1) v(1) n(1)] v(2) by simp
  have m: "getCDNPath ?i u \<noteq> getCDNPath ?i ''master.m3u8''"
    using u cdn_path_elements(1) [OF assms(1) n(4) n(4)] by auto
  have q: "getCDNPath ?i u \<noteq> getCDNPath ?i (qt_quality q @ ''/index.m3u8'')"
    "getCDNPath ?i u \<noteq> getCDNPath ?i (qt_quality q @ ''/chunks/'')" if "q \<in> set (oi_qualities out)" for q
  proof -
    have "plain (qt_quality q)" using assms(3) that by blast
    from cdn_path_elements(2) [OF assms(1) this n(2)] cdn_path_elements(3) [OF assms(1) this n(3)] u
    show "getCDNPath ?i u \<noteq> getCDNPath ?i (qt_quality q @ ''/index.m3u8'')"
      "getCDNPath ?i u \<noteq> getCDNPath ?i (qt_quality q @ ''/chunks/'')" by auto
  qed
  from PushToCDN_enabled [OF assms(4,2,5)] m q show ?thesis by auto
qed

definition encoded_job :: job where
  "encoded_job = zero_job\<lparr>j_id := ''job_1'', j_output := Some
     \<lparr>oi_output_dir = ''outputs/job_1/hls'', oi_master = ''outputs/job_1/hls/master.m3u8'',
      oi_qualities = [\<lparr>qt_quality = ''240p'', qt_playlist = ''outputs/job_1/hls/240p/main.m3u8'',
                       qt_chunks_dir = ''outputs/job_1/hls/240p'', qt_chunk_count = 2\<rparr>],
      oi_thumbnails = [], oi_sprite = [], oi_clip = [], oi_gif = [], oi_audio = None\<rparr>\<rparr>"

theorem cdn_variant_playlists_missing_witness:
  "\<exists>pushed. PushToCDN encoded_job \<lparr>cd_enabled = True, cd_provider = ''cloudflare'', cd_base_url = ''https://cdn''\<rparr> = Inr pushed
     \<and> getCDNPath ''job_1'' ''240p/main.m3u8'' \<notin> set pushed"
proof -
  have u: "''240p/main.m3u8'' \<in> set (playlist_uris (master_text (filter (\<lambda>v. qv_name v = ''240p'') QualityLadder) False))"
    unfolding ladder_uris by code_simp
  let ?out = "the (j_output encoded_job)"
  have e: "plain (j_id encoded_job)" "j_output encoded_job = Some ?out" "\<forall>q\<in>set (oi_qualities ?out). plain (qt_quality q)"
    "oi_master ?out \<noteq> []" "j_id encoded_job = ''job_1''"
    by (simp_all add: encoded_job_def plain_def)
  let ?c = "\<lparr>cd_enabled = True, cd_provider = ''cloudflare'', cd_base_url = ''https://cdn''\<rparr>"
  have "cd_enabled ?c" by simp
  from cdn_variant_playlists_missing [OF e(1,2,3) this e(4) u] show ?thesis unfolding e(5) by blast
qed

end
