(* ===== verification/Api_Types.thy ===== *)
theory Api_Types
  imports Validator Transcode
begin

text \<open>
  What the API sends and receives: \<open>pkg/types/response.go\<close>, \<open>pkg/utils/response.go\<close>, and the request body of \<open>job_handler.go\<close>. A body is the JSON
  tree of \<^emph>\<open>Json\<close>. A value that is sent is \<open>None\<close> when it cannot be encoded: \<open>json.Encoder\<close> then
  writes nothing, its error is dropped, and the client gets an empty body under the status of a success.
\<close>

section \<open>Responses\<close>

text \<open>A \<open>map[string]interface{}\<close>: encoding writes its members in the order of their names.\<close>

type_synonym any_map = "(string, json option) gomap"

fun insert_member :: "string \<times> 'v \<Rightarrow> (string \<times> 'v) list \<Rightarrow> (string \<times> 'v) list" where
  "insert_member x [] = [x]"
| "insert_member x (y # ys) = (if fst x \<le> fst y then x # y # ys else y # insert_member x ys)"

definition any_map_json :: "any_map \<Rightarrow> json option" where
  "any_map_json m = map_option JObj (members (foldr insert_member m []))"

record error_info =
  er_code :: string
  er_message :: string
  er_details :: any_map
  er_timestamp :: go_time
  er_stage :: string
  er_logs_path :: string

record api_response =
  ap_success :: bool
  ap_status :: int
  ap_timestamp :: go_time
  ap_request_id :: string
  ap_message :: string
  ap_data :: "json option option"
  ap_error :: "error_info option"

text \<open>The format RFC 3339 has no fraction of a second.\<close>

definition format_now :: "'a os_scheme \<Rightarrow> go_time \<times> 'a os_scheme" where
  "format_now w = (let (t, w1) = time_now w in (t - t mod second, w1))"

definition NewSuccessResponse :: "int \<Rightarrow> string \<Rightarrow> json option \<Rightarrow> 'a os_scheme \<Rightarrow> api_response \<times> 'a os_scheme" where
  "NewSuccessResponse statusCode requestID data w =
     (let (t, w1) = format_now w
      in (\<lparr>ap_success = True, ap_status = statusCode, ap_timestamp = t, ap_request_id = requestID, ap_message = [],
           ap_data = Some data, ap_error = None\<rparr>, w1))"

definition NewSuccessResponseWithMessage ::
    "int \<Rightarrow> string \<Rightarrow> string \<Rightarrow> json option \<Rightarrow> 'a os_scheme \<Rightarrow> api_response \<times> 'a os_scheme" where
  "NewSuccessResponseWithMessage statusCode requestID message data w =
     (let (t, w1) = format_now w
      in (\<lparr>ap_success = True, ap_status = statusCode, ap_timestamp = t, ap_request_id = requestID, ap_message = message,
           ap_data = Some data, ap_error = None\<rparr>, w1))"

definition NewErrorResponse ::
    "int \<Rightarrow> string \<Rightarrow> string \<Rightarrow> string \<Rightarrow> any_map \<Rightarrow> 'a os_scheme \<Rightarrow> api_response \<times> 'a os_scheme" where
  "NewErrorResponse statusCode requestID code message details w =
     (let (t, w1) = format_now w; (u, w2) = format_now w1
      in (\<lparr>ap_success = False, ap_status = statusCode, ap_timestamp = t, ap_request_id = requestID, ap_message = [],
           ap_data = None,
           ap_error = Some \<lparr>er_code = code, er_message = message, er_details = details, er_timestamp = u,
             er_stage = [], er_logs_path = []\<rparr>\<rparr>, w2))"

definition error_info_members :: "error_info \<Rightarrow> (string \<times> json option) list" where
  "error_info_members e =
     [(''code'', Some (JStr (er_code e))), (''message'', Some (JStr (er_message e)))]
     @ opt_member (er_details e \<noteq> []) ''details'' (any_map_json (er_details e))
     @ [(''timestamp'', Some (JTime (er_timestamp e)))]
     @ opt_member (er_stage e \<noteq> []) ''stage'' (Some (JStr (er_stage e)))
     @ opt_member (er_logs_path e \<noteq> []) ''logsPath'' (Some (JStr (er_logs_path e)))"

definition response_json :: "api_response \<Rightarrow> json option" where
  "response_json r = map_option JObj (members (
     [(''success'', Some (JBool (ap_success r))), (''status'', Some (JInt (ap_status r))),
      (''timestamp'', Some (JTime (ap_timestamp r))), (''requestId'', Some (JStr (ap_request_id r)))]
     @ opt_member (ap_message r \<noteq> []) ''message'' (Some (JStr (ap_message r)))
     @ (case ap_data r of None \<Rightarrow> [] | Some d \<Rightarrow> [(''data'', d)])
     @ ptr_member error_info_members ''error'' (ap_error r)))"

text \<open>What a client gets: a status and a body.\<close>

datatype body = Json_Body json | Text_Body string | No_Body

record reply =
  rp_status :: int
  rp_body :: body

definition SendJSON :: "int \<Rightarrow> api_response \<Rightarrow> reply" where
  "SendJSON statusCode response =
     \<lparr>rp_status = statusCode, rp_body = (case response_json response of None \<Rightarrow> No_Body | Some j \<Rightarrow> Json_Body j)\<rparr>"

definition SendSuccess :: "int \<Rightarrow> string \<Rightarrow> json option \<Rightarrow> 'a os_scheme \<Rightarrow> reply \<times> 'a os_scheme" where
  "SendSuccess statusCode requestID data w =
     (let (response, w1) = NewSuccessResponse statusCode requestID data w in (SendJSON statusCode response, w1))"

definition SendSuccessWithMessage ::
    "int \<Rightarrow> string \<Rightarrow> string \<Rightarrow> json option \<Rightarrow> 'a os_scheme \<Rightarrow> reply \<times> 'a os_scheme" where
  "SendSuccessWithMessage statusCode requestID message data w =
     (let (response, w1) = NewSuccessResponseWithMessage statusCode requestID message data w
      in (SendJSON statusCode response, w1))"

definition SendError ::
    "int \<Rightarrow> string \<Rightarrow> string \<Rightarrow> string \<Rightarrow> any_map \<Rightarrow> 'a os_scheme \<Rightarrow> reply \<times> 'a os_scheme" where
  "SendError statusCode requestID code message details w =
     (let (response, w1) = NewErrorResponse statusCode requestID code message details w
      in (SendJSON statusCode response, w1))"

section \<open>Requests\<close>

record preview_options =
  po_generate :: bool
  po_thumbnail_count :: int
  po_gif_duration :: float64
  po_gif_start :: float64

record transcode_request =
  tr_input_path :: string
  tr_chunk_duration :: int
  tr_webhook_url :: string
  tr_webhook_config :: "webhook_config option"
  tr_scheduled_at :: "go_time option"
  tr_output_formats :: "string list"
  tr_preview_config :: "preview_options option"
  tr_storage_config :: "storage_config option"
  tr_cdn_config :: "cdn_config option"
  tr_priority :: int

record batch_request =
  br_files :: "string list"
  br_batch_id :: string
  br_chunk_duration :: int
  br_webhook_url :: string
  br_metadata :: "(string, json) gomap option"

text \<open>Maps: the members are added to the map that is there.\<close>

definition dec_string_map :: "json \<Rightarrow> (string, string) gomap \<Rightarrow> (string, string) gomap option" where
  "dec_string_map j old =
     (case j of
        JNull \<Rightarrow> Some []
      | JObj ms \<Rightarrow> (let (h, ok) = dec_map_members ms old True in if ok then Some h else None)
      | _ \<Rightarrow> None)"

definition dec_any_map :: "json \<Rightarrow> (string, json) gomap option \<Rightarrow> (string, json) gomap option option" where
  "dec_any_map j old =
     (case j of
        JNull \<Rightarrow> Some None
      | JObj ms \<Rightarrow> Some (Some (fold (\<lambda>(k, v). put k v) ms (case old of None \<Rightarrow> [] | Some m \<Rightarrow> m)))
      | _ \<Rightarrow> None)"

definition set_webhook :: "string \<Rightarrow> json \<Rightarrow> webhook_config \<Rightarrow> webhook_config option" where
  "set_webhook k j v =
    (if k = ''url'' then map_option (\<lambda>x. v\<lparr>wh_url := x\<rparr>) (dec_string j (wh_url v))
     else if k = ''headers'' then map_option (\<lambda>x. v\<lparr>wh_headers := x\<rparr>) (dec_string_map j (wh_headers v))
     else if k = ''secret'' then map_option (\<lambda>x. v\<lparr>wh_secret := x\<rparr>) (dec_string j (wh_secret v))
     else if k = ''retries'' then map_option (\<lambda>x. v\<lparr>wh_retries := x\<rparr>) (dec_int j (wh_retries v))
     else Some v)"

definition set_preview_options :: "string \<Rightarrow> json \<Rightarrow> preview_options \<Rightarrow> preview_options option" where
  "set_preview_options k j v =
    (if k = ''generate'' then map_option (\<lambda>x. v\<lparr>po_generate := x\<rparr>) (dec_bool j (po_generate v))
     else if k = ''thumbnailcount'' then map_option (\<lambda>x. v\<lparr>po_thumbnail_count := x\<rparr>) (dec_int j (po_thumbnail_count v))
     else if k = ''gifduration'' then map_option (\<lambda>x. v\<lparr>po_gif_duration := x\<rparr>) (dec_float j (po_gif_duration v))
     else if k = ''gifstarttime'' then map_option (\<lambda>x. v\<lparr>po_gif_start := x\<rparr>) (dec_float j (po_gif_start v))
     else Some v)"

definition set_storage :: "string \<Rightarrow> json \<Rightarrow> storage_config \<Rightarrow> storage_config option" where
  "set_storage k j v =
    (if k = ''type'' then map_option (\<lambda>x. v\<lparr>sg_type := x\<rparr>) (dec_string j (sg_type v))
     else if k = ''bucket'' then map_option (\<lambda>x. v\<lparr>sg_bucket := x\<rparr>) (dec_string j (sg_bucket v))
     else if k = ''region'' then map_option (\<lambda>x. v\<lparr>sg_region := x\<rparr>) (dec_string j (sg_region v))
     else if k = ''path'' then map_option (\<lambda>x. v\<lparr>sg_path := x\<rparr>) (dec_string j (sg_path v))
     else Some v)"

definition set_cdn :: "string \<Rightarrow> json \<Rightarrow> cdn_config \<Rightarrow> cdn_config option" where
  "set_cdn k j v =
    (if k = ''enabled'' then map_option (\<lambda>x. v\<lparr>cd_enabled := x\<rparr>) (dec_bool j (cd_enabled v))
     else if k = ''provider'' then map_option (\<lambda>x. v\<lparr>cd_provider := x\<rparr>) (dec_string j (cd_provider v))
     else if k = ''baseurl'' then map_option (\<lambda>x. v\<lparr>cd_base_url := x\<rparr>) (dec_string j (cd_base_url v))
     else Some v)"

definition set_transcode_request :: "string \<Rightarrow> json \<Rightarrow> transcode_request \<Rightarrow> transcode_request option" where
  "set_transcode_request k j v =
    (if k = ''inputpath'' then map_option (\<lambda>x. v\<lparr>tr_input_path := x\<rparr>) (dec_string j (tr_input_path v))
     else if k = ''chunkduration'' then map_option (\<lambda>x. v\<lparr>tr_chunk_duration := x\<rparr>) (dec_int j (tr_chunk_duration v))
     else if k = ''webhookurl'' then map_option (\<lambda>x. v\<lparr>tr_webhook_url := x\<rparr>) (dec_string j (tr_webhook_url v))
     else if k = ''webhookconfig'' then map_option (\<lambda>x. v\<lparr>tr_webhook_config := x\<rparr>)
            (dec_ptr set_webhook \<lparr>wh_url = [], wh_headers = [], wh_secret = [], wh_retries = 0\<rparr> j (tr_webhook_config v))
     else if k = ''scheduledat''
       then (if j = JNull then Some (v\<lparr>tr_scheduled_at := None\<rparr>)
             else map_option (\<lambda>x. v\<lparr>tr_scheduled_at := Some x\<rparr>) (dec_time j 0))
     else if k = ''outputformats'' then map_option (\<lambda>x. v\<lparr>tr_output_formats := x\<rparr>) (dec_strings j)
     else if k = ''previewconfig'' then map_option (\<lambda>x. v\<lparr>tr_preview_config := x\<rparr>)
            (dec_ptr set_preview_options
              \<lparr>po_generate = False, po_thumbnail_count = 0, po_gif_duration = Fin 0, po_gif_start = Fin 0\<rparr> j (tr_preview_config v))
     else if k = ''storageconfig'' then map_option (\<lambda>x. v\<lparr>tr_storage_config := x\<rparr>)
            (dec_ptr set_storage \<lparr>sg_type = [], sg_bucket = [], sg_region = [], sg_path = []\<rparr> j (tr_storage_config v))
     else if k = ''cdnconfig'' then map_option (\<lambda>x. v\<lparr>tr_cdn_config := x\<rparr>)
            (dec_ptr set_cdn \<lparr>cd_enabled = False, cd_provider = [], cd_base_url = []\<rparr> j (tr_cdn_config v))
     else if k = ''priority'' then map_option (\<lambda>x. v\<lparr>tr_priority := x\<rparr>) (dec_int j (tr_priority v))
     else Some v)"

definition zero_transcode_request :: transcode_request where
  "zero_transcode_request = \<lparr>tr_input_path = [], tr_chunk_duration = 0, tr_webhook_url = [], tr_webhook_config = None,
     tr_scheduled_at = None, tr_output_formats = [], tr_preview_config = None, tr_storage_config = None,
     tr_cdn_config = None, tr_priority = 0\<rparr>"

definition set_batch_request :: "string \<Rightarrow> json \<Rightarrow> batch_request \<Rightarrow> batch_request option" where
  "set_batch_request k j v =
    (if k = ''files'' then map_option (\<lambda>x. v\<lparr>br_files := x\<rparr>) (dec_strings j)
     else if k = ''batchid'' then map_option (\<lambda>x. v\<lparr>br_batch_id := x\<rparr>) (dec_string j (br_batch_id v))
     else if k = ''chunkduration'' then map_option (\<lambda>x. v\<lparr>br_chunk_duration := x\<rparr>) (dec_int j (br_chunk_duration v))
     else if k = ''webhookurl'' then map_option (\<lambda>x. v\<lparr>br_webhook_url := x\<rparr>) (dec_string j (br_webhook_url v))
     else if k = ''metadata'' then map_option (\<lambda>x. v\<lparr>br_metadata := x\<rparr>) (dec_any_map j (br_metadata v))
     else Some v)"

definition zero_batch_request :: batch_request where
  "zero_batch_request = \<lparr>br_files = [], br_batch_id = [], br_chunk_duration = 0, br_webhook_url = [], br_metadata = None\<rparr>"

text \<open>
  A text that is decoded: its JSON tree or the error of a text that has none, and the text of the
  error for a document that does not fit the struct, which belongs to \<open>encoding/json\<close>.
\<close>

record json_text =
  jt_tree :: "string + json"
  jt_mismatch :: string

definition decode_body :: "(string \<Rightarrow> json \<Rightarrow> 's \<Rightarrow> 's option) \<Rightarrow> 's \<Rightarrow> json_text \<Rightarrow> string + 's" where
  "decode_body f zero b =
     (case jt_tree b of
        Inl msg \<Rightarrow> Inl msg
      | Inr j \<Rightarrow> (case dec_struct f j zero of None \<Rightarrow> Inl (jt_mismatch b) | Some s \<Rightarrow> Inr s))"

end
