(* ===== verification/Analysis.thy ===== *)
theory Analysis
  imports Api_Types
begin

text \<open>
  \<open>Probe.GetDetailedVideoInfo\<close> of \<open>internal/infrastructure/ffmpeg/probe.go\<close>: what ffprobe prints as JSON
  about the streams and the format of a file. Reading the JSON text is a parameter.
\<close>

section \<open>The output of ffprobe\<close>

record probe_stream =
  ps_codec_type :: string
  ps_codec_name :: string
  ps_width :: int
  ps_height :: int
  ps_bit_rate :: string
  ps_frame_rate :: string
  ps_channels :: int
  ps_sample_rate :: string
  ps_duration :: string

record probe_format =
  pf_duration :: string
  pf_bit_rate :: string
  pf_size :: string

record probe_data =
  pd_streams :: "probe_stream list"
  pd_format :: probe_format

definition set_stream :: "string \<Rightarrow> json \<Rightarrow> probe_stream \<Rightarrow> probe_stream option" where
  "set_stream k j v =
    (if k = ''codec_type'' then map_option (\<lambda>x. v\<lparr>ps_codec_type := x\<rparr>) (dec_string j (ps_codec_type v))
     else if k = ''codec_name'' then map_option (\<lambda>x. v\<lparr>ps_codec_name := x\<rparr>) (dec_string j (ps_codec_name v))
     else if k = ''width'' then map_option (\<lambda>x. v\<lparr>ps_width := x\<rparr>) (dec_int j (ps_width v))
     else if k = ''height'' then map_option (\<lambda>x. v\<lparr>ps_height := x\<rparr>) (dec_int j (ps_height v))
     else if k = ''bit_rate'' then map_option (\<lambda>x. v\<lparr>ps_bit_rate := x\<rparr>) (dec_string j (ps_bit_rate v))
     else if k = ''r_frame_rate'' then map_option (\<lambda>x. v\<lparr>ps_frame_rate := x\<rparr>) (dec_string j (ps_frame_rate v))
     else if k = ''channels'' then map_option (\<lambda>x. v\<lparr>ps_channels := x\<rparr>) (dec_int j (ps_channels v))
     else if k = ''sample_rate'' then map_option (\<lambda>x. v\<lparr>ps_sample_rate := x\<rparr>) (dec_string j (ps_sample_rate v))
     else if k = ''duration'' then map_option (\<lambda>x. v\<lparr>ps_duration := x\<rparr>) (dec_string j (ps_duration v))
     else Some v)"

definition zero_stream :: probe_stream where
  "zero_stream = \<lparr>ps_codec_type = [], ps_codec_name = [], ps_width = 0, ps_height = 0, ps_bit_rate = [],
     ps_frame_rate = [], ps_channels = 0, ps_sample_rate = [], ps_duration = []\<rparr>"

definition set_format :: "string \<Rightarrow> json \<Rightarrow> probe_format \<Rightarrow> probe_format option" where
  "set_format k j v =
    (if k = ''duration'' then map_option (\<lambda>x. v\<lparr>pf_duration := x\<rparr>) (dec_string j (pf_duration v))
     else if k = ''bit_rate'' then map_option (\<lambda>x. v\<lparr>pf_bit_rate := x\<rparr>) (dec_string j (pf_bit_rate v))
     else if k = ''size'' then map_option (\<lambda>x. v\<lparr>pf_size := x\<rparr>) (dec_string j (pf_size v))
     else Some v)"

definition set_probe_data :: "string \<Rightarrow> json \<Rightarrow> probe_data \<Rightarrow> probe_data option" where
  "set_probe_data k j v =
    (if k = ''streams'' then map_option (\<lambda>x. v\<lparr>pd_streams := x\<rparr>) (dec_list (\<lambda>j. dec_struct set_stream j zero_stream) j)
     else if k = ''format'' then map_option (\<lambda>x. v\<lparr>pd_format := x\<rparr>) (dec_struct set_format j (pd_format v))
     else Some v)"

definition zero_probe_data :: probe_data where
  "zero_probe_data = \<lparr>pd_streams = [], pd_format = \<lparr>pf_duration = [], pf_bit_rate = [], pf_size = []\<rparr>\<rparr>"

section \<open>What is made of it\<close>

text \<open>One round of the loop over the streams: the last stream of each kind counts.\<close>

definition add_stream :: "probe_stream \<Rightarrow> detailed_video_info \<Rightarrow> detailed_video_info" where
  "add_stream s info =
     (if ps_codec_type s = ''video''
      then info\<lparr>dv_width := ps_width s, dv_height := ps_height s, dv_video_codec := ps_codec_name s,
                dv_video_bitrate := ps_bit_rate s, dv_frame_rate := ps_frame_rate s\<rparr>
      else if ps_codec_type s = ''audio''
      then info\<lparr>dv_has_audio := True, dv_audio_codec := ps_codec_name s, dv_audio_channels := ps_channels s,
                dv_audio_sample_rate := ps_sample_rate s\<rparr>
      else info)"

definition zero_detailed :: detailed_video_info where
  "zero_detailed = \<lparr>dv_width = 0, dv_height = 0, dv_duration = Fin 0, dv_video_codec = [], dv_audio_codec = [],
     dv_bitrate = [], dv_video_bitrate = [], dv_frame_rate = [], dv_has_audio = False, dv_audio_channels = 0,
     dv_audio_sample_rate = [], dv_file_size = []\<rparr>"

definition GetDetailedVideoInfo ::
    "'w runner \<Rightarrow> (string \<Rightarrow> json_text) \<Rightarrow> string \<Rightarrow> 'w \<Rightarrow> (err + detailed_video_info) \<times> 'w" where
  "GetDetailedVideoInfo run parse inputPath w =
     (case cmd_output run ''ffprobe''
             [''-v'', ''quiet'', ''-print_format'', ''json'', ''-show_format'', ''-show_streams'', inputPath] w of
        (Inl e, w1) \<Rightarrow> (Inl (wrap ''failed to get detailed video info'' e), w1)
      | (Inr out, w1) \<Rightarrow>
          (case decode_body set_probe_data zero_probe_data (parse out) of
             Inl msg \<Rightarrow> Inl (wrap ''failed to parse probe data'' (Err msg))
           | Inr d \<Rightarrow>
               (let info = fold add_stream (pd_streams d) zero_detailed;
                    t = (case scan_f (pf_duration (pd_format d)) of None \<Rightarrow> Fin 0 | Some (x, _) \<Rightarrow> x)
                in Inr (info\<lparr>dv_duration := t, dv_bitrate := pf_bit_rate (pd_format d),
                             dv_file_size := pf_size (pd_format d)\<rparr>)), w1))"

section \<open>Decoded values have the types of the program\<close>

lemma dec_struct_inv:
  assumes "\<And>k j s s'. P s \<Longrightarrow> f k j s = Some s' \<Longrightarrow> P s'" "P s" "dec_struct f j s = Some s'"
  shows "P s'"
proof -
  have m: "P s \<Longrightarrow> dec_members f ms s = Some s' \<Longrightarrow> P s'" for ms s s'
  proof (induction ms arbitrary: s)
    case (Cons m ms)
    obtain k j where m: "m = (k, j)" by fastforce
    with Cons.prems(2) obtain t where t: "f (to_lower k) j s = Some t" "dec_members f ms t = Some s'" by (auto split: option.splits)
    from Cons.IH [OF assms(1) [OF Cons.prems(1) t(1)] t(2)] show ?case .
  qed simp
  from assms(2,3) show ?thesis by (cases j) (auto intro: m)
qed

lemma dec_int_fits: "dec_int j old = Some n \<Longrightarrow> fits64 old \<Longrightarrow> fits64 n"
  by (cases j) (auto split: if_splits)

lemma fits64_0 [simp]: "fits64 0"
  by (simp add: fits64_def)

lemma state_field_fits: "state_ints_fit s \<Longrightarrow> set_state_field k j s = Some s' \<Longrightarrow> state_ints_fit s'"
  unfolding set_state_field_def state_ints_fit_def by (auto split: if_splits dest: dec_int_fits)

lemma loaded_state_fits:
  assumes "fst (LoadState cfg i w) = Inr s"
  shows "state_ints_fit s"
proof -
  obtain j where "dec_state j = Some s"
    using assms by (auto simp: LoadState_def Let_def case_prod_beta unmarshal_state_def split: if_splits sum.splits option.splits content.splits)
  from dec_struct_inv [of state_ints_fit set_state_field, OF state_field_fits _ this [unfolded dec_state_def]] show ?thesis
    by (simp add: zero_state_def state_ints_fit_def)
qed

definition request_fits :: "transcode_request \<Rightarrow> bool" where
  "request_fits r \<longleftrightarrow> fits64 (tr_chunk_duration r) \<and> fits64 (tr_priority r)
     \<and> (case tr_webhook_config r of None \<Rightarrow> True | Some c \<Rightarrow> fits64 (wh_retries c))
     \<and> (case tr_preview_config r of None \<Rightarrow> True | Some c \<Rightarrow> fits64 (po_thumbnail_count c))"

lemma dec_ptr_inv:
  assumes "\<And>k j s s'. P s \<Longrightarrow> f k j s = Some s' \<Longrightarrow> P s'" "P zero" "case old of None \<Rightarrow> True | Some x \<Rightarrow> P x"
    "dec_ptr f zero j old = Some new"
  shows "case new of None \<Rightarrow> True | Some x \<Rightarrow> P x"
proof (cases new)
  case (Some x)
  have "P (case old of None \<Rightarrow> zero | Some x \<Rightarrow> x)" using assms(2,3) by (cases old) simp_all
  with Some assms(4) dec_struct_inv [of P f "case old of None \<Rightarrow> zero | Some x \<Rightarrow> x" j x, OF assms(1)] show ?thesis
    by (auto simp: dec_ptr_def split: if_splits)
qed simp

lemma webhook_field_fits: "fits64 (wh_retries c) \<Longrightarrow> set_webhook k j c = Some c' \<Longrightarrow> fits64 (wh_retries c')"
  by (auto simp: set_webhook_def split: if_splits dest: dec_int_fits)

lemma preview_field_fits: "fits64 (po_thumbnail_count c) \<Longrightarrow> set_preview_options k j c = Some c' \<Longrightarrow> fits64 (po_thumbnail_count c')"
  by (auto simp: set_preview_options_def split: if_splits dest: dec_int_fits)

lemma request_field_fits:
  assumes "request_fits r" "set_transcode_request k j r = Some r'"
  shows "request_fits r'"
proof -
  consider z where "k = ''webhookconfig''" "r' = r\<lparr>tr_webhook_config := z\<rparr>"
      "dec_ptr set_webhook \<lparr>wh_url = [], wh_headers = [], wh_secret = [], wh_retries = 0\<rparr> j (tr_webhook_config r) = Some z"
    | z where "k = ''previewconfig''" "r' = r\<lparr>tr_preview_config := z\<rparr>"
      "dec_ptr set_preview_options \<lparr>po_generate = False, po_thumbnail_count = 0, po_gif_duration = Fin 0, po_gif_start = Fin 0\<rparr>
         j (tr_preview_config r) = Some z"
    | "k \<noteq> ''webhookconfig''" "k \<noteq> ''previewconfig''"
    using assms(2) unfolding set_transcode_request_def by (cases "k = ''webhookconfig''"; cases "k = ''previewconfig''") auto
  then show ?thesis
  proof cases
    case (1 z)
    with assms(1) dec_ptr_inv [of "\<lambda>c. fits64 (wh_retries c)", OF webhook_field_fits _ _ 1(3)] show ?thesis
      by (simp add: request_fits_def)
  next
    case (2 z)
    with assms(1) dec_ptr_inv [of "\<lambda>c. fits64 (po_thumbnail_count c)", OF preview_field_fits _ _ 2(3)] show ?thesis
      by (simp add: request_fits_def)
  next
    case 3
    with assms show ?thesis
      unfolding set_transcode_request_def by (auto simp: request_fits_def split: if_splits dest: dec_int_fits)
  qed
qed

lemma decoded_request_fits:
  assumes "decode_body set_transcode_request zero_transcode_request b = Inr r"
  shows "request_fits r"
proof -
  from assms obtain j where "dec_struct set_transcode_request j zero_transcode_request = Some r"
    by (auto simp: decode_body_def split: sum.splits option.splits)
  from dec_struct_inv [of request_fits set_transcode_request, OF request_field_fits _ this] show ?thesis
    by (simp add: zero_transcode_request_def request_fits_def)
qed

lemma decoded_batch_fits:
  assumes "decode_body set_batch_request zero_batch_request b = Inr r"
  shows "fits64 (br_chunk_duration r)"
proof -
  from assms obtain j where d: "dec_struct set_batch_request j zero_batch_request = Some r"
    by (auto simp: decode_body_def split: sum.splits option.splits)
  have "fits64 (br_chunk_duration s) \<Longrightarrow> set_batch_request k j s = Some s' \<Longrightarrow> fits64 (br_chunk_duration s')" for k j s s'
    by (auto simp: set_batch_request_def split: if_splits dest: dec_int_fits)
  from dec_struct_inv [of "\<lambda>r. fits64 (br_chunk_duration r)" set_batch_request, OF this _ d] show ?thesis
    by (simp add: zero_batch_request_def)
qed

definition stream_fits :: "probe_stream \<Rightarrow> bool" where
  "stream_fits s \<longleftrightarrow> fits64 (ps_width s) \<and> fits64 (ps_height s) \<and> fits64 (ps_channels s)"

definition detailed_fits :: "detailed_video_info \<Rightarrow> bool" where
  "detailed_fits d \<longleftrightarrow> fits64 (dv_width d) \<and> fits64 (dv_height d) \<and> fits64 (dv_audio_channels d)"

lemma stream_field_fits: "stream_fits s \<Longrightarrow> set_stream k j s = Some s' \<Longrightarrow> stream_fits s'"
  unfolding set_stream_def stream_fits_def by (auto split: if_splits dest: dec_int_fits)

lemma dec_all_inv: "(\<And>j x. f j = Some x \<Longrightarrow> P x) \<Longrightarrow> dec_all f js = Some xs \<Longrightarrow> list_all P xs"
  by (induction js arbitrary: xs) (auto split: option.splits)

lemma stream_decoded_fits: "dec_struct set_stream j zero_stream = Some s \<Longrightarrow> stream_fits s"
  using dec_struct_inv [of stream_fits set_stream zero_stream j s, OF stream_field_fits]
  by (simp add: zero_stream_def stream_fits_def)

lemma stream_list_fits:
  assumes "dec_list (\<lambda>j. dec_struct set_stream j zero_stream) j = Some xs"
  shows "list_all stream_fits xs"
proof (cases j)
  case (JArr js)
  with assms have "dec_all (\<lambda>j. dec_struct set_stream j zero_stream) js = Some xs" by simp
  from dec_all_inv [OF stream_decoded_fits this] show ?thesis .
qed (use assms in simp_all)

lemma probe_field_fits:
  assumes "list_all stream_fits (pd_streams v)" "set_probe_data k j v = Some v'"
  shows "list_all stream_fits (pd_streams v')"
proof (cases "k = ''streams''")
  case True
  with assms(2) have "map_option (\<lambda>x. v\<lparr>pd_streams := x\<rparr>) (dec_list (\<lambda>j. dec_struct set_stream j zero_stream) j) = Some v'"
    by (simp only: set_probe_data_def if_P)
  then obtain x where "dec_list (\<lambda>j. dec_struct set_stream j zero_stream) j = Some x" "v' = v\<lparr>pd_streams := x\<rparr>"
    unfolding map_option_eq_Some by blast
  with stream_list_fits show ?thesis by simp
next
  case False
  show ?thesis
  proof (cases "k = ''format''")
    case True
    then have "map_option (\<lambda>x. v\<lparr>pd_format := x\<rparr>) (dec_struct set_format j (pd_format v)) = Some v'"
      using assms(2) unfolding set_probe_data_def if_not_P [OF False] if_P [OF True] by blast
    then obtain x where "v' = v\<lparr>pd_format := x\<rparr>" unfolding map_option_eq_Some by blast
    with assms(1) show ?thesis by simp
  next
    case f: False
    with assms False show ?thesis by (simp only: set_probe_data_def if_False option.inject)
  qed
qed

lemma decoded_streams_fit:
  assumes "decode_body set_probe_data zero_probe_data b = Inr d"
  shows "list_all stream_fits (pd_streams d)"
proof -
  from assms obtain j where d: "dec_struct set_probe_data j zero_probe_data = Some d"
    by (auto simp only: decode_body_def split: sum.splits option.splits)
  from dec_struct_inv [of "\<lambda>d. list_all stream_fits (pd_streams d)" set_probe_data, OF probe_field_fits _ d] show ?thesis
    by (simp add: zero_probe_data_def)
qed

lemma add_streams_fit: "list_all stream_fits ss \<Longrightarrow> detailed_fits d \<Longrightarrow> detailed_fits (fold add_stream ss d)"
  by (induction ss arbitrary: d) (auto simp: add_stream_def stream_fits_def detailed_fits_def)

text \<open>What comes in from outside has the types of the program: the numbers of a state that is loaded, of a
request that is accepted and of a video that is analysed are 64-bit integers, whatever the file, the
body or the output of ffprobe holds; anything else is refused as an error.\<close>

theorem decoded_values_typed:
  "(case fst (LoadState cfg i w) of Inl _ \<Rightarrow> True | Inr s \<Rightarrow> state_ints_fit s)
   \<and> (case decode_body set_transcode_request zero_transcode_request b of Inl _ \<Rightarrow> True
      | Inr r \<Rightarrow> fits64 (tr_chunk_duration r) \<and> fits64 (tr_priority r))
   \<and> (case decode_body set_batch_request zero_batch_request b of Inl _ \<Rightarrow> True | Inr r \<Rightarrow> fits64 (br_chunk_duration r))
   \<and> (case fst (GetDetailedVideoInfo run parse p v) of Inl _ \<Rightarrow> True
      | Inr d \<Rightarrow> fits64 (dv_width d) \<and> fits64 (dv_height d) \<and> fits64 (dv_audio_channels d))"
proof -
  have d: "detailed_fits zero_detailed" by (simp add: detailed_fits_def zero_detailed_def)
  have v: "detailed_fits d" if "fst (GetDetailedVideoInfo run parse p v) = Inr d" for d
    using that add_streams_fit [OF decoded_streams_fit d]
    by (auto simp: GetDetailedVideoInfo_def case_prod_beta Let_def detailed_fits_def split: sum.splits)
  show ?thesis
    using loaded_state_fits [of cfg i w] decoded_request_fits [of b] decoded_batch_fits [of b] v
    by (auto simp: request_fits_def detailed_fits_def split: sum.split)
qed

end
