(* ===== verification/Batch_Service.thy ===== *)
theory Batch_Service
  imports Job_Store Json
begin

text \<open>
  \<open>internal/application/services/batch_service.go\<close>: the batches in memory. A batch holds pointers
  to its jobs, so its statistics follow the jobs. The service hands out a pointer to the batch;
  as nothing but \<open>UpdateBatchStatus\<close> changes a batch, the model gives out its contents and
  looks it up again after an update. The lock makes each method one step.
\<close>

section \<open>Batches\<close>

datatype batch_status = BatchPending | BatchProcessing | BatchCompleted | BatchFailed | BatchPartial

fun batch_status_text :: "batch_status \<Rightarrow> string" where
  "batch_status_text BatchPending = ''PENDING''"
| "batch_status_text BatchProcessing = ''PROCESSING''"
| "batch_status_text BatchCompleted = ''COMPLETED''"
| "batch_status_text BatchFailed = ''FAILED''"
| "batch_status_text BatchPartial = ''PARTIAL''"

record batch =
  b_id :: string
  b_jobs :: "jref list"
  b_status :: batch_status
  b_created :: go_time
  b_completed :: "go_time option"
  b_metadata :: "(string, json) gomap option"

record batch_stats =
  bs_total :: int
  bs_pending :: int
  bs_running :: int
  bs_completed :: int
  bs_failed :: int

type_synonym batches = "(string, batch) gomap"

definition NewBatchService :: batches where
  "NewBatchService = []"

definition CreateBatch ::
    "string \<Rightarrow> jref list \<Rightarrow> (string, json) gomap option \<Rightarrow> batches \<Rightarrow> 'a os_scheme \<Rightarrow> ((err + batch) \<times> batches) \<times> 'a os_scheme" where
  "CreateBatch batchID jobs metadata bs w =
     (if lookup bs batchID \<noteq> None then ((Inl (Err (''batch '' @ batchID @ '' already exists'')), bs), w)
      else let (now, w1) = time_now w;
               b = \<lparr>b_id = batchID, b_jobs = jobs, b_status = BatchPending, b_created = now, b_completed = None,
                    b_metadata = metadata\<rparr>
           in ((Inr b, put batchID b bs), w1))"

definition batch_not_found :: "string \<Rightarrow> err" where
  "batch_not_found batchID = Err (''batch '' @ batchID @ '' not found'')"

definition GetBatch :: "string \<Rightarrow> batches \<Rightarrow> err + batch" where
  "GetBatch batchID bs = (case lookup bs batchID of None \<Rightarrow> Inl (batch_not_found batchID) | Some b \<Rightarrow> Inr b)"

text \<open>The loop over the jobs; a status that the switch does not name is not counted.\<close>

definition count_job :: "job_status \<Rightarrow> batch_stats \<Rightarrow> batch_stats" where
  "count_job st s =
     (if st = QUEUED \<or> st = SCHEDULED then s\<lparr>bs_pending := bs_pending s + 1\<rparr>
      else if st = RUNNING then s\<lparr>bs_running := bs_running s + 1\<rparr>
      else if st = COMPLETED then s\<lparr>bs_completed := bs_completed s + 1\<rparr>
      else if st = FAILED then s\<lparr>bs_failed := bs_failed s + 1\<rparr>
      else s)"

definition calculateBatchStats :: "batch \<Rightarrow> 'a store_scheme \<Rightarrow> batch_stats" where
  "calculateBatchStats b w =
     fold (\<lambda>r. count_job (j_status (deref w r))) (b_jobs b)
       \<lparr>bs_total = int (length (b_jobs b)), bs_pending = 0, bs_running = 0, bs_completed = 0, bs_failed = 0\<rparr>"

definition UpdateBatchStatus :: "string \<Rightarrow> batches \<Rightarrow> 'a store_scheme \<Rightarrow> ((err + unit) \<times> batches) \<times> 'a store_scheme" where
  "UpdateBatchStatus batchID bs w =
     (case lookup bs batchID of
        None \<Rightarrow> ((Inl (batch_not_found batchID), bs), w)
      | Some b \<Rightarrow>
          (let stats = calculateBatchStats b w;
               ended = (\<lambda>st. let (now, w1) = time_now w
                             in ((Inr (), put batchID (b\<lparr>b_status := st, b_completed := Some now\<rparr>) bs), w1));
               going = (\<lambda>st. ((Inr (), put batchID (b\<lparr>b_status := st\<rparr>) bs), w))
           in if bs_completed stats = bs_total stats then ended BatchCompleted
              else if bs_failed stats = bs_total stats then ended BatchFailed
              else if bs_completed stats > 0 \<and> bs_completed stats + bs_failed stats = bs_total stats then ended BatchPartial
              else if bs_running stats > 0 then going BatchProcessing
              else going BatchPending))"

definition GetBatchStats :: "string \<Rightarrow> batches \<Rightarrow> 'a store_scheme \<Rightarrow> err + batch_stats" where
  "GetBatchStats batchID bs w =
     (case lookup bs batchID of None \<Rightarrow> Inl (batch_not_found batchID) | Some b \<Rightarrow> Inr (calculateBatchStats b w))"

definition ListBatches :: "batches \<Rightarrow> batch list" where
  "ListBatches bs = vals bs"

definition DeleteBatch :: "string \<Rightarrow> batches \<Rightarrow> (err + unit) \<times> batches" where
  "DeleteBatch batchID bs =
     (if lookup bs batchID = None then (Inl (batch_not_found batchID), bs) else (Inr (), del batchID bs))"

section \<open>What the statistics count\<close>

definition jobs_with :: "job_status list \<Rightarrow> batch \<Rightarrow> 'a store_scheme \<Rightarrow> nat" where
  "jobs_with sts b w = length (filter (\<lambda>r. j_status (deref w r) \<in> set sts) (b_jobs b))"

lemma stats_are_counts:
  "calculateBatchStats b w = \<lparr>bs_total = int (length (b_jobs b)), bs_pending = int (jobs_with [QUEUED, SCHEDULED] b w),
     bs_running = int (jobs_with [RUNNING] b w), bs_completed = int (jobs_with [COMPLETED] b w),
     bs_failed = int (jobs_with [FAILED] b w)\<rparr>"
proof -
  have "fold (\<lambda>r. count_job (j_status (deref w r))) rs \<lparr>bs_total = t, bs_pending = p, bs_running = u, bs_completed = c, bs_failed = f\<rparr>
    = \<lparr>bs_total = t, bs_pending = p + int (length (filter (\<lambda>r. j_status (deref w r) \<in> {QUEUED, SCHEDULED}) rs)),
       bs_running = u + int (length (filter (\<lambda>r. j_status (deref w r) \<in> {RUNNING}) rs)),
       bs_completed = c + int (length (filter (\<lambda>r. j_status (deref w r) \<in> {COMPLETED}) rs)),
       bs_failed = f + int (length (filter (\<lambda>r. j_status (deref w r) \<in> {FAILED}) rs))\<rparr>" for rs t p u c f
    by (induction rs arbitrary: p u c f) (auto simp: count_job_def)
  then show ?thesis by (simp add: calculateBatchStats_def jobs_with_def)
qed

lemma jobs_with_sum:
  assumes "set sts \<inter> set ts = {}"
  shows "jobs_with sts b w + jobs_with ts b w = jobs_with (sts @ ts) b w"
proof -
  have "\<not> (st \<in> set sts \<and> st \<in> set ts)" for st using assms by blast
  then have "\<And>x. x \<in> set (b_jobs b) \<Longrightarrow> \<not> (j_status (deref w x) \<in> set sts \<and> j_status (deref w x) \<in> set ts)" by blast
  from filter_disjoint_length [of "b_jobs b" "\<lambda>r. j_status (deref w r) \<in> set sts" "\<lambda>r. j_status (deref w r) \<in> set ts", OF this]
  show ?thesis by (simp add: jobs_with_def)
qed

lemma jobs_with_all: "jobs_with sts b w = length (b_jobs b) \<longleftrightarrow> (\<forall>r\<in>set (b_jobs b). j_status (deref w r) \<in> set sts)"
  unfolding jobs_with_def by (metis filter_True length_filter_less nat_less_le)

lemma jobs_with_some: "jobs_with sts b w > 0 \<longleftrightarrow> (\<exists>r\<in>set (b_jobs b). j_status (deref w r) \<in> set sts)"
  by (auto simp: jobs_with_def filter_empty_conv)

text \<open>C39. The status of a batch after an update: COMPLETED when all its jobs are, FAILED when all failed,
PARTIAL when all completed or failed, both kinds occurring; otherwise PROCESSING or PENDING, as
some job runs or none. So PENDING does not mean that no job has started, which the documentation says it
does (\<open>docs/ADVANCED_FEATURES.md\<close>): a batch with a job that completed and one that is queued is PENDING. Only the first three stamp the end, each time anew, so the time of the
end is that of the last look at the batch.\<close>

theorem batch_status_spec:
  assumes "lookup bs i = Some b"
  shows "let all = (\<lambda>sts. \<forall>r\<in>set (b_jobs b). j_status (deref w r) \<in> sts); b' = (case lookup (snd (fst (UpdateBatchStatus i bs w))) i of Some x \<Rightarrow> x | None \<Rightarrow> b);
      final = (all {COMPLETED} \<or> all {FAILED} \<or> all {COMPLETED, FAILED})
    in fst (fst (UpdateBatchStatus i bs w)) = Inr ()
      \<and> b_status b' = (if all {COMPLETED} then BatchCompleted else if all {FAILED} then BatchFailed
          else if all {COMPLETED, FAILED} then BatchPartial else if \<not> all (- {RUNNING}) then BatchProcessing else BatchPending)
      \<and> b_completed b' = (if final then Some (clock w (tick w)) else b_completed b)
      \<and> b_jobs b' = b_jobs b"
proof -
  let ?all = "\<lambda>sts. \<forall>r\<in>set (b_jobs b). j_status (deref w r) \<in> sts"
  let ?n = "length (b_jobs b)"
  have c: "jobs_with [COMPLETED] b w = ?n \<longleftrightarrow> ?all {COMPLETED}" "jobs_with [FAILED] b w = ?n \<longleftrightarrow> ?all {FAILED}"
    and r: "jobs_with [RUNNING] b w > 0 \<longleftrightarrow> \<not> ?all (- {RUNNING})"
    unfolding jobs_with_all jobs_with_some by auto
  have s: "jobs_with [COMPLETED] b w + jobs_with [FAILED] b w = ?n \<longleftrightarrow> ?all {COMPLETED, FAILED}"
    using jobs_with_sum [of "[COMPLETED]" "[FAILED]" b w] jobs_with_all [of "[COMPLETED] @ [FAILED]" b w] by simp
  have p: "jobs_with [COMPLETED] b w > 0" if "?all {COMPLETED, FAILED}" "\<not> ?all {FAILED}"
    using that unfolding jobs_with_some by auto
  show ?thesis
    using c r s p by (auto simp: UpdateBatchStatus_def assms stats_are_counts Let_def time_now_def)
qed

text \<open>A batch never ends when one of its jobs ends as PARTIAL_SUCCESS or INTERRUPTED: as long as it
has such a job, its status is PENDING or PROCESSING and no end is stamped.\<close>

theorem partial_job_blocks_batch:
  assumes "lookup bs i = Some b" "r \<in> set (b_jobs b)" "j_status (deref w r) \<in> {PARTIAL_SUCCESS, INTERRUPTED}"
  shows "\<exists>b'. lookup (snd (fst (UpdateBatchStatus i bs w))) i = Some b' \<and> b_status b' \<in> {BatchPending, BatchProcessing}
    \<and> b_completed b' = b_completed b"
proof -
  have "jobs_with [COMPLETED, FAILED] b w \<noteq> length (b_jobs b)" using assms(2,3) unfolding jobs_with_all by fastforce
  moreover have "jobs_with [COMPLETED] b w + jobs_with [FAILED] b w = jobs_with [COMPLETED, FAILED] b w"
    using jobs_with_sum [of "[COMPLETED]" "[FAILED]" b w] by simp
  moreover have "jobs_with [COMPLETED] b w \<noteq> length (b_jobs b)" "jobs_with [FAILED] b w \<noteq> length (b_jobs b)"
    using assms(2,3) unfolding jobs_with_all by fastforce+
  ultimately show ?thesis using assms(1) by (auto simp: UpdateBatchStatus_def stats_are_counts Let_def)
qed

definition two_batches :: batches where
  "two_batches = [(''batch_1'', \<lparr>b_id = ''batch_1'', b_jobs = [0], b_status = BatchPending, b_created = 0, b_completed = None, b_metadata = None\<rparr>)]"

text \<open>A batch of a job that completed and one that is queued.\<close>

definition half_done :: store where
  "half_done = one_job_store\<lparr>st_jobs := [(0, zero_job\<lparr>j_status := COMPLETED\<rparr>), (1, zero_job\<lparr>j_status := QUEUED\<rparr>)]\<rparr>"

theorem batch_status_spec_witness:
  "map_option b_status (lookup (snd (fst (UpdateBatchStatus ''batch_1''
     [(''batch_1'', \<lparr>b_id = ''batch_1'', b_jobs = [0, 1], b_status = BatchProcessing, b_created = 0, b_completed = None, b_metadata = None\<rparr>)]
     half_done))) ''batch_1'') = Some BatchPending"
proof -
  let ?b = "\<lparr>b_id = ''batch_1'', b_jobs = [0, 1], b_status = BatchProcessing, b_created = 0, b_completed = None, b_metadata = None\<rparr>"
  have j: "j_status (deref half_done 0) = COMPLETED" "j_status (deref half_done 1) = QUEUED"
    by (simp_all add: half_done_def deref_def)
  have "lookup (snd (fst (UpdateBatchStatus ''batch_1'' [(''batch_1'', ?b)] half_done))) ''batch_1'' \<noteq> None"
    by (simp add: UpdateBatchStatus_def Let_def time_now_def)
  with batch_status_spec [of "[(''batch_1'', ?b)]" "''batch_1''" ?b half_done] j show ?thesis
    by (auto simp: Let_def split: option.splits)
qed

theorem partial_job_blocks_batch_witness:
  "\<exists>b'. lookup (snd (fst (UpdateBatchStatus ''batch_1'' two_batches (snd (UpdateStatus ''job_1'' PARTIAL_SUCCESS one_job_store))))) ''batch_1'' = Some b'
     \<and> b_status b' \<in> {BatchPending, BatchProcessing}"
proof -
  have "j_status (deref (snd (UpdateStatus ''job_1'' PARTIAL_SUCCESS one_job_store)) 0) = PARTIAL_SUCCESS"
    by (simp add: one_job_store_def empty_store_def deref_def UpdateStatus_def repo_Get_def repo_Update_def mutate_def)
  then show ?thesis
    using partial_job_blocks_batch [of two_batches "''batch_1''" _ 0 "snd (UpdateStatus ''job_1'' PARTIAL_SUCCESS one_job_store)"]
    by (fastforce simp: two_batches_def)
qed

end
