(* ===== verification/Scheduler.thy ===== *)
theory Scheduler
  imports Job_Store "HOL-Library.Multiset"
begin

text \<open>
  \<open>internal/application/services/scheduler_service.go\<close>: jobs that wait for their time. A timer of
  \<open>time.AfterFunc\<close> is a number with the identifier its callback was made for; firing it runs
  the callback. An operation gives the job it sends to the job queue, if it sends one: the send
  itself waits while the queue is full (\<open>ScheduleJob\<close> with the scheduler's lock held).
\<close>

section \<open>The scheduler\<close>

record scheduled_job =
  sc_job :: jref
  sc_at :: go_time
  sc_timer :: nat

record scheduler =
  sch_jobs :: "(string, scheduled_job) gomap"
  sch_timers :: "(nat, string) gomap"
  sch_next :: nat
  sch_closed :: bool
  sch_wg :: nat

definition NewSchedulerService :: scheduler where
  "NewSchedulerService = \<lparr>sch_jobs = [], sch_timers = [], sch_next = 0, sch_closed = False, sch_wg = 0\<rparr>"

definition ScheduleJob ::
    "jref \<Rightarrow> go_time \<Rightarrow> scheduler \<Rightarrow> 'a store_scheme \<Rightarrow> (jref option \<times> scheduler) \<times> 'a store_scheme" where
  "ScheduleJob r scheduledAt s w =
     (let (now, w1) = time_now w; delay = time_sub scheduledAt now; i = j_id (deref w r)
      in if delay < 0 then ((Some r, s), w1)
         else ((None, s\<lparr>sch_jobs := put i \<lparr>sc_job = r, sc_at = scheduledAt, sc_timer = sch_next s\<rparr> (sch_jobs s),
                        sch_timers := put (sch_next s) i (sch_timers s), sch_next := Suc (sch_next s)\<rparr>), w1))"

definition CancelScheduledJob :: "string \<Rightarrow> scheduler \<Rightarrow> scheduler" where
  "CancelScheduledJob jobID s =
     (case lookup (sch_jobs s) jobID of
        None \<Rightarrow> s
      | Some sj \<Rightarrow> s\<lparr>sch_timers := del (sc_timer sj) (sch_timers s), sch_jobs := del jobID (sch_jobs s)\<rparr>)"

definition GetScheduledJob :: "string \<Rightarrow> scheduler \<Rightarrow> scheduled_job option" where
  "GetScheduledJob jobID s = lookup (sch_jobs s) jobID"

definition ListScheduledJobs :: "scheduler \<Rightarrow> scheduled_job list" where
  "ListScheduledJobs s = vals (sch_jobs s)"

definition executeScheduledJob ::
    "string \<Rightarrow> scheduler \<Rightarrow> 'a store_scheme \<Rightarrow> (jref option \<times> scheduler) \<times> 'a store_scheme" where
  "executeScheduledJob jobID s w =
     (case lookup (sch_jobs s) jobID of
        None \<Rightarrow> ((None, s), w)
      | Some sj \<Rightarrow>
          ((Some (sc_job sj), s\<lparr>sch_jobs := del jobID (sch_jobs s)\<rparr>),
           mutate (sc_job sj) (\<lambda>j. j\<lparr>j_status := QUEUED\<rparr>) w))"

text \<open>A timer fires once; one that was stopped does not fire.\<close>

definition fire_timer :: "nat \<Rightarrow> scheduler \<Rightarrow> 'a store_scheme \<Rightarrow> (jref option \<times> scheduler) \<times> 'a store_scheme" where
  "fire_timer t s w =
     (case lookup (sch_timers s) t of
        None \<Rightarrow> ((None, s), w)
      | Some i \<Rightarrow> executeScheduledJob i (s\<lparr>sch_timers := del t (sch_timers s)\<rparr>) w)"

section \<open>Starting and stopping\<close>

text \<open>
  \<open>Start\<close> adds its goroutine to the wait group; when the context ends the goroutine calls \<open>Stop\<close>,
  and leaves the group after that. \<open>Stop\<close> panics when the channel is closed already, and
  waits at its end for the group to be empty.
\<close>

datatype stop_outcome = Stopped | Panics | Waits

definition Start :: "scheduler \<Rightarrow> scheduler" where
  "Start s = s\<lparr>sch_wg := Suc (sch_wg s)\<rparr>"

definition scheduler_Stop :: "scheduler \<Rightarrow> stop_outcome \<times> scheduler" where
  "scheduler_Stop s =
     (if sch_closed s then (Panics, s)
      else (if sch_wg s = 0 then Stopped else Waits,
            s\<lparr>sch_closed := True, sch_timers := fold (\<lambda>sj. del (sc_timer sj)) (vals (sch_jobs s)) (sch_timers s), sch_jobs := []\<rparr>))"

lemma Stop_after_Start: "fst (scheduler_Stop (Start s)) \<noteq> Stopped"
  by (simp add: scheduler_Stop_def Start_def)

section \<open>Every job at most once\<close>

datatype sched_event = Cancel string | Fire nat

fun sched_run :: "sched_event list \<Rightarrow> scheduler \<Rightarrow> 'a store_scheme \<Rightarrow> jref list \<times> scheduler \<times> 'a store_scheme" where
  "sched_run [] s w = ([], s, w)"
| "sched_run (Cancel i # es) s w = sched_run es (CancelScheduledJob i s) w"
| "sched_run (Fire t # es) s w =
     (let ((sent, s1), w1) = fire_timer t s w; (rs, s2, w2) = sched_run es s1 w1
      in ((case sent of None \<Rightarrow> rs | Some r \<Rightarrow> r # rs), s2, w2))"

definition waiting_jobs :: "scheduler \<Rightarrow> jref multiset" where
  "waiting_jobs s = mset (map sc_job (vals (sch_jobs s)))"

lemma mset_vals_del:
  "wf_map m \<Longrightarrow> lookup m k = Some v \<Longrightarrow> mset (map f (vals m)) = add_mset (f v) (mset (map f (vals (del k m))))"
  by (induction m) (auto simp: delete_id lookup_eq_None [symmetric] split: if_splits)

lemma waiting_after:
  assumes "wf_map (sch_jobs s)"
  shows "waiting_jobs (CancelScheduledJob i s) \<subseteq># waiting_jobs s" "wf_map (sch_jobs (CancelScheduledJob i s))"
    "case fst (fst (fire_timer t s w)) of
       None \<Rightarrow> waiting_jobs (snd (fst (fire_timer t s w))) = waiting_jobs s
     | Some r \<Rightarrow> waiting_jobs s = add_mset r (waiting_jobs (snd (fst (fire_timer t s w))))"
    "wf_map (sch_jobs (snd (fst (fire_timer t s w))))"
proof -
  show "waiting_jobs (CancelScheduledJob i s) \<subseteq># waiting_jobs s"
    using mset_vals_del [OF assms, of i _ sc_job]
    by (auto simp: CancelScheduledJob_def waiting_jobs_def split: option.split)
  show "wf_map (sch_jobs (CancelScheduledJob i s))" "wf_map (sch_jobs (snd (fst (fire_timer t s w))))"
    using assms by (auto simp: CancelScheduledJob_def fire_timer_def executeScheduledJob_def split: option.split)
  show "case fst (fst (fire_timer t s w)) of
       None \<Rightarrow> waiting_jobs (snd (fst (fire_timer t s w))) = waiting_jobs s
     | Some r \<Rightarrow> waiting_jobs s = add_mset r (waiting_jobs (snd (fst (fire_timer t s w))))"
    using mset_vals_del [OF assms, of _ _ sc_job]
    by (auto simp: fire_timer_def executeScheduledJob_def waiting_jobs_def split: option.split)
qed

lemma sched_run_conserves:
  "wf_map (sch_jobs s) \<Longrightarrow> mset (fst (sched_run es s w)) + waiting_jobs (fst (snd (sched_run es s w))) \<subseteq># waiting_jobs s"
proof (induction es arbitrary: s w)
  case (Cons e es)
  show ?case
  proof (cases e)
    case (Cancel i)
    with Cons.IH [OF waiting_after(2) [OF Cons.prems, of i]] waiting_after(1) [OF Cons.prems, of i] show ?thesis
      by (auto intro: subset_mset.order_trans)
  next
    case (Fire t)
    with Cons.IH [OF waiting_after(4) [OF Cons.prems, of t w], of "snd (fire_timer t s w)"]
      waiting_after(3) [OF Cons.prems, of t w] show ?thesis
      by (auto simp: case_prod_beta split: option.splits)
  qed
qed simp

text \<open>C17. Whatever is cancelled and whichever timers fire, in whatever order, every scheduled job is sent
to the queue at most once, and none that is still waiting has been sent; a job that was
cancelled before its timer fired is never sent.\<close>

theorem scheduled_at_most_once:
  assumes "wf_map (sch_jobs s)"
  shows "mset (fst (sched_run es s w)) + waiting_jobs (fst (snd (sched_run es s w))) \<subseteq># waiting_jobs s
    \<and> (case lookup (sch_jobs s) i of None \<Rightarrow> True
       | Some sj \<Rightarrow> add_mset (sc_job sj) (mset (fst (sched_run (Cancel i # es) s w))) \<subseteq># waiting_jobs s)"
proof (intro conjI)
  show "mset (fst (sched_run es s w)) + waiting_jobs (fst (snd (sched_run es s w))) \<subseteq># waiting_jobs s"
    by (rule sched_run_conserves [OF assms])
  show "case lookup (sch_jobs s) i of None \<Rightarrow> True
       | Some sj \<Rightarrow> add_mset (sc_job sj) (mset (fst (sched_run (Cancel i # es) s w))) \<subseteq># waiting_jobs s"
  proof (cases "lookup (sch_jobs s) i")
    case (Some sj)
    have "mset (fst (sched_run es (CancelScheduledJob i s) w)) \<subseteq># waiting_jobs (CancelScheduledJob i s)"
      using sched_run_conserves [OF waiting_after(2) [OF assms, of i], of es w] subset_mset.dual_order.trans mset_subset_eq_add_left by blast
    moreover have "waiting_jobs s = add_mset (sc_job sj) (waiting_jobs (CancelScheduledJob i s))"
      using mset_vals_del [OF assms Some, of sc_job] Some by (simp add: CancelScheduledJob_def waiting_jobs_def)
    ultimately show ?thesis using Some by simp
  qed simp
qed

text \<open>A job scheduled for the future runs when its timer fires: exactly that job is sent, as QUEUED,
and it is scheduled no more; for a time that has passed it is sent at once.\<close>

theorem scheduled_job_runs:
  "let ((sent, s1), w1) = ScheduleJob r due s w; ((fired, s2), w2) = fire_timer (sch_next s) s1 w1
   in if time_sub due (clock w (tick w)) < 0 then sent = Some r \<and> s1 = s
      else sent = None \<and> GetScheduledJob (j_id (deref w r)) s1 = Some \<lparr>sc_job = r, sc_at = due, sc_timer = sch_next s\<rparr>
        \<and> fired = Some r \<and> j_status (deref w2 r) = QUEUED \<and> GetScheduledJob (j_id (deref w r)) s2 = None
        \<and> fst (fst (fire_timer (sch_next s) s2 w2)) = None"
  by (simp add: ScheduleJob_def fire_timer_def executeScheduledJob_def GetScheduledJob_def time_now_def Let_def case_prod_beta)

theorem scheduled_at_most_once_witness:
  "mset (fst (sched_run [Fire 0, Cancel ''job_1'', Fire 0]
      (snd (fst (ScheduleJob 0 5 NewSchedulerService one_job_store))) one_job_store)) \<subseteq># {#0#}"
proof -
  let ?s = "snd (fst (ScheduleJob 0 5 NewSchedulerService one_job_store))"
  have "wf_map (sch_jobs ?s)" "waiting_jobs ?s = {#0#}"
    by (simp_all add: ScheduleJob_def NewSchedulerService_def waiting_jobs_def one_job_store_def empty_store_def deref_def
        time_now_def time_sub_def Let_def)
  then have "mset (fst (sched_run [Fire 0, Cancel ''job_1'', Fire 0] ?s one_job_store))
      + waiting_jobs (fst (snd (sched_run [Fire 0, Cancel ''job_1'', Fire 0] ?s one_job_store))) \<subseteq># {#0#}"
    using scheduled_at_most_once [of ?s "[Fire 0, Cancel ''job_1'', Fire 0]" one_job_store] by (simp only: simp_thms)
  then show ?thesis by (rule subset_mset.order_trans [OF mset_subset_eq_add_left])
qed

end
