(* ===== verification/Ws_Manager.thy ===== *)
theory Ws_Manager
  imports Os
begin

text \<open>
  \<open>internal/infrastructure/websocket/manager.go\<close>: the connections that follow a job. A connection
  is a number; upgrading a request, reading and writing messages are the parameters of the model,
  as they belong to the library \<open>gorilla/websocket\<close>. The lock makes each change of the map one
  step; \<open>HandleConnection\<close> is the step that opens a connection and the step that closes it when
  reading fails, as the messages of a client are dropped.
\<close>

section \<open>Messages\<close>

type_synonym conn = nat
type_synonym conns = "(string, (conn, bool) gomap) gomap"
type_synonym 'w writer = "conn \<Rightarrow> json \<Rightarrow> 'w \<Rightarrow> (err + unit) \<times> 'w"

record progress_update =
  pu_job :: string
  pu_status :: string
  pu_progress :: int
  pu_step :: string
  pu_eta :: string
  pu_time :: go_time
  pu_message :: string

definition update_json :: "progress_update \<Rightarrow> json" where
  "update_json u = JObj (
     [(''jobId'', JStr (pu_job u)), (''status'', JStr (pu_status u)), (''progress'', JInt (pu_progress u)),
      (''currentStep'', JStr (pu_step u))]
     @ (if pu_eta u \<noteq> [] then [(''eta'', JStr (pu_eta u))] else [])
     @ [(''timestamp'', JTime (pu_time u))]
     @ (if pu_message u \<noteq> [] then [(''message'', JStr (pu_message u))] else []))"

section \<open>The connections\<close>

definition NewManager :: conns where
  "NewManager = []"

definition addConnection :: "string \<Rightarrow> conn \<Rightarrow> conns \<Rightarrow> conns" where
  "addConnection jobID c m =
     (let m1 = (if lookup m jobID = None then put jobID [] m else m)
      in put jobID (put c True (case lookup m1 jobID of Some cs \<Rightarrow> cs | None \<Rightarrow> [])) m1)"

definition removeConnection :: "string \<Rightarrow> conn \<Rightarrow> conns \<Rightarrow> conns" where
  "removeConnection jobID c m =
     (case lookup m jobID of
        None \<Rightarrow> m
      | Some cs \<Rightarrow> (let cs' = del c cs in if cs' = [] then del jobID m else put jobID cs' m))"

definition GetConnectionCount :: "string \<Rightarrow> conns \<Rightarrow> int" where
  "GetConnectionCount jobID m = (case lookup m jobID of Some cs \<Rightarrow> int (length cs) | None \<Rightarrow> 0)"

definition GetTotalConnections :: "conns \<Rightarrow> int" where
  "GetTotalConnections m = fold (\<lambda>cs total. total + int (length cs)) (vals m) 0"

definition recipients :: "string \<Rightarrow> conns \<Rightarrow> conn list" where
  "recipients jobID m = (case lookup m jobID of Some cs \<Rightarrow> keys cs | None \<Rightarrow> [])"

text \<open>
  A broadcast takes the lock twice: it looks up the connections of the job, and later goes through the same inner
  map, as it then is. \<open>later\<close> are the connections in it at the second lock: clients may have joined or left in between.
\<close>

definition BroadcastProgress ::
    "'a os_scheme writer \<Rightarrow> progress_update \<Rightarrow> conns \<Rightarrow> conn list \<Rightarrow> 'a os_scheme \<Rightarrow> 'a os_scheme" where
  "BroadcastProgress write u m later w =
     (if recipients (pu_job u) m = [] then w
      else let (now, w1) = time_now w; message = update_json (u\<lparr>pu_time := now\<rparr>)
           in fold (\<lambda>c v. snd (write c message v)) later w1)"

definition BroadcastProgressFromPorts ::
    "'a os_scheme writer \<Rightarrow> string \<Rightarrow> string \<Rightarrow> int \<Rightarrow> string \<Rightarrow> string \<Rightarrow> string \<Rightarrow> conns \<Rightarrow> conn list \<Rightarrow> 'a os_scheme \<Rightarrow> 'a os_scheme" where
  "BroadcastProgressFromPorts write jobID status progress currentStep eta message =
     BroadcastProgress write \<lparr>pu_job = jobID, pu_status = status, pu_progress = progress, pu_step = currentStep,
       pu_eta = eta, pu_time = 0, pu_message = message\<rparr>"

definition sendWelcomeMessage :: "'a os_scheme writer \<Rightarrow> conn \<Rightarrow> string \<Rightarrow> 'a os_scheme \<Rightarrow> 'a os_scheme" where
  "sendWelcomeMessage write c jobID w =
     (let (now, w1) = time_now w
      in snd (write c (update_json \<lparr>pu_job = jobID, pu_status = ''CONNECTED'', pu_progress = 0, pu_step = [], pu_eta = [],
                pu_time = now, pu_message = ''WebSocket connection established''\<rparr>) w1))"

definition open_connection ::
    "'a os_scheme writer \<Rightarrow> conn option \<Rightarrow> string \<Rightarrow> conns \<Rightarrow> 'a os_scheme \<Rightarrow> conns \<times> 'a os_scheme" where
  "open_connection write upgraded jobID m w =
     (case upgraded of
        None \<Rightarrow> (m, w)
      | Some c \<Rightarrow> (addConnection jobID c m, sendWelcomeMessage write c jobID w))"

definition close_connection :: "conn \<Rightarrow> string \<Rightarrow> conns \<Rightarrow> conns" where
  "close_connection c jobID m = removeConnection jobID c m"

section \<open>The specification: who follows what\<close>

definition ws_wf :: "conns \<Rightarrow> bool" where
  "ws_wf m \<longleftrightarrow> wf_map m \<and> (\<forall>(i, cs) \<in> set m. wf_map cs \<and> cs \<noteq> [])"

definition follows :: "conns \<Rightarrow> (string \<times> conn) set" where
  "follows m = {(i, c). \<exists>cs. lookup m i = Some cs \<and> lookup cs c \<noteq> None}"

lemma ws_wf_inner: "ws_wf m \<Longrightarrow> lookup m i = Some cs \<Longrightarrow> wf_map cs \<and> cs \<noteq> []"
  by (auto simp: ws_wf_def dest!: map_of_SomeD)

lemma ws_wfI:
  assumes "wf_map m" "\<And>i cs. lookup m i = Some cs \<Longrightarrow> wf_map cs \<and> cs \<noteq> []"
  shows "ws_wf m"
  unfolding ws_wf_def using assms by (auto simp: lookup_iff_mem)

lemma ws_wf_add: "ws_wf m \<Longrightarrow> ws_wf (addConnection i c m)"
proof (rule ws_wfI)
  assume wf: "ws_wf m"
  show "wf_map (addConnection i c m)" using wf by (auto simp: addConnection_def Let_def ws_wf_def)
  have "put c True cs \<noteq> []" for cs by (cases cs) auto
  then show "wf_map cs \<and> cs \<noteq> []" if "lookup (addConnection i c m) k = Some cs" for k cs
    using that ws_wf_inner [OF wf] by (auto simp: addConnection_def Let_def split: if_splits option.splits)
qed

lemma ws_wf_remove: "ws_wf m \<Longrightarrow> ws_wf (removeConnection i c m)"
proof (rule ws_wfI)
  assume wf: "ws_wf m"
  show "wf_map (removeConnection i c m)"
    using wf by (auto simp: removeConnection_def Let_def ws_wf_def split: option.splits)
  show "wf_map cs \<and> cs \<noteq> []" if "lookup (removeConnection i c m) k = Some cs" for k cs
    using that ws_wf_inner [OF wf] by (auto simp: removeConnection_def Let_def split: if_splits option.splits)
qed

lemma follows_add: "follows (addConnection i c m) = insert (i, c) (follows m)"
  by (auto simp: follows_def addConnection_def Let_def split: option.splits if_splits)

lemma no_entries: "cs = [] \<longleftrightarrow> (\<forall>k. lookup cs k = None)"
  by (cases cs) auto

lemma follows_remove: "follows (removeConnection i c m) = follows m - {(i, c)}"
proof -
  have "del c cs = [] \<longleftrightarrow> (\<forall>k. k \<noteq> c \<longrightarrow> lookup cs k = None)" for cs :: "(conn, bool) gomap"
    unfolding no_entries by simp
  then show ?thesis
    by (auto simp: follows_def removeConnection_def Let_def split: option.splits if_splits)
qed

lemma recipients_follow: "ws_wf m \<Longrightarrow> set (recipients i m) = {c. (i, c) \<in> follows m} \<and> distinct (recipients i m)"
  using ws_wf_inner [of m i] by (auto simp: recipients_def follows_def lookup_in_keys image_iff split: option.splits) force

lemma count_recipients: "GetConnectionCount i m = int (length (recipients i m))"
  by (simp add: GetConnectionCount_def recipients_def split: option.split)

lemma total_sum: "GetTotalConnections m = int (\<Sum>cs\<leftarrow>vals m. length cs)"
proof -
  have "fold (\<lambda>cs total. total + int (length cs)) xs n = n + int (\<Sum>cs\<leftarrow>xs. length cs)" for xs :: "(conn, bool) gomap list" and n
    by (induction xs arbitrary: n) auto
  then show ?thesis by (simp add: GetTotalConnections_def)
qed

lemma card_follows: "ws_wf m \<Longrightarrow> card (follows m) = (\<Sum>cs\<leftarrow>vals m. length cs) \<and> finite (follows m)"
proof (induction m)
  case Nil
  then show ?case by (simp add: follows_def)
next
  case (Cons x m)
  obtain i cs where x: "x = (i, cs)" by (cases x)
  have wf: "ws_wf m" "wf_map cs" "lookup m i = None"
    using Cons.prems x by (auto simp: ws_wf_def lookup_eq_None)
  have f: "follows (x # m) = Pair i ` set (keys cs) \<union> follows m"
    using wf(2,3) by (auto simp: follows_def x image_iff lookup_iff_mem split: if_splits) force
  have "Pair i ` set (keys cs) \<inter> follows m = {}" using wf(3) by (auto simp: follows_def)
  moreover have "card (Pair i ` set (keys cs)) = length cs"
    using distinct_card [OF wf(2)] by (simp add: card_image inj_on_def)
  ultimately show ?case using Cons.IH [OF wf(1)] by (simp add: x f [unfolded x] card_Un_disjoint)
qed

text \<open>C15. The map of maps is a set of pairs of a job and a connection: opening and closing a connection
add and remove one pair, the counts are the sizes of the set and of the part for a job, a
message about a job is written once to each connection that follows it and to no other, and
no empty entries are left behind.\<close>

theorem connections_refine_relation:
  assumes "ws_wf m"
  shows "follows (addConnection i c m) = insert (i, c) (follows m) \<and> ws_wf (addConnection i c m)
    \<and> follows (removeConnection i c m) = follows m - {(i, c)} \<and> ws_wf (removeConnection i c m)
    \<and> GetConnectionCount i m = int (card {k. (i, k) \<in> follows m})
    \<and> GetTotalConnections m = int (card (follows m))
    \<and> set (recipients i m) = {k. (i, k) \<in> follows m} \<and> distinct (recipients i m)"
  using ws_wf_add [OF assms] ws_wf_remove [OF assms] recipients_follow [OF assms, of i] card_follows [OF assms]
  by (auto simp: follows_add follows_remove count_recipients total_sum distinct_card [symmetric])

theorem connections_refine_relation_witness:
  "follows (removeConnection ''job_1'' 7 [(''job_1'', [(3, True), (7, True)])]) = follows [(''job_1'', [(3, True), (7, True)])] - {(''job_1'', 7)}"
proof -
  have "ws_wf [(''job_1'', [(3, True), (7, True)])]" by (simp add: ws_wf_def)
  from connections_refine_relation [OF this] show ?thesis by blast
qed

end
