(* ===== verification/Attempts.thy ===== *)
theory Attempts
  imports Transcode_Resume
begin

text \<open>
  The attempts of \<open>Execute\<close> one by one (\<open>transcode_usecase.go\<close>): between two of them the worker
  sleeps, for up to fifteen seconds, and everything else in the server goes on. One round of
  the loop takes what it keeps between rounds and ends the loop or gives the next round.
\<close>

section \<open>One round of the loop\<close>

record round =
  rd_left :: nat
  rd_attempt :: nat
  rd_error :: "err option"
  rd_code :: string

definition first_round :: "'w use_case \<Rightarrow> round" where
  "first_round uc = \<lparr>rd_left = nat (uc_max_retries uc + 1), rd_attempt = 0, rd_error = None, rd_code = []\<rparr>"

definition one_round ::
    "'a world_scheme use_case \<Rightarrow> ('a world_scheme \<Rightarrow> (err + unit) \<times> 'a world_scheme) \<Rightarrow> string \<Rightarrow> round \<Rightarrow> 'a world_scheme
      \<Rightarrow> (err option + round) \<times> 'a world_scheme" where
  "one_round uc proc i t w =
     (case rd_left t of
        0 \<Rightarrow>
          (let w1 = handleError i ''retry'' (rd_code t) (''Max retries exceeded: '' @ err_text (rd_error t)) w;
               w2 = (case GetJob i w1 of
                       Inl _ \<Rightarrow> w1
                     | Inr r \<Rightarrow> snd (MoveToDLQ (uc_cfg uc) (deref w1 r)
                                  (''Max retries exceeded ('' @ show_int (wrap64 (uc_max_retries uc + 1)) @ '' attempts)'') w1))
           in (Inl (rd_error t), w2))
      | Suc left \<Rightarrow>
          (let strategy = GetRetryStrategy (rd_code t)
           in if rd_attempt t > 0 \<and> \<not> should_retry strategy
              then (Inl (rd_error t), handleError i ''validation'' (rd_code t) (''Non-retryable error: '' @ err_text (rd_error t)) w)
              else if rd_attempt t > 0 \<and> rd_attempt t > length (backoff strategy)
              then (Inl (rd_error t), handleError i ''retry'' (rd_code t) (''Max retries exceeded: '' @ err_text (rd_error t)) w)
              else let w1 = (if rd_attempt t > 0
                             then snd (IncrementRetry i (sleep (backoff strategy ! (rd_attempt t - 1)) w)) else w)
                   in case proc w1 of
                        (Inr _, w2) \<Rightarrow> (Inl None, w2)
                      | (Inl e, w2) \<Rightarrow>
                          if panics e then (Inl (Some e), w2)
                          else (Inr \<lparr>rd_left = left, rd_attempt = Suc (rd_attempt t), rd_error = Some e,
                                     rd_code = extractErrorCode e\<rparr>, w2)))"

lemma attempts_round:
  "attempts uc proc i (rd_left t) (rd_attempt t) (rd_error t) (rd_code t) w =
     (case one_round uc proc i t w of
        (Inl e, w1) \<Rightarrow> (e, w1)
      | (Inr t', w1) \<Rightarrow> attempts uc proc i (rd_left t') (rd_attempt t') (rd_error t') (rd_code t') w1)"
  by (cases "rd_left t") (auto simp: one_round_def Let_def split: prod.split sum.split)

section \<open>All rounds\<close>

fun rounds ::
    "'a world_scheme use_case \<Rightarrow> ('a world_scheme \<Rightarrow> (err + unit) \<times> 'a world_scheme) \<Rightarrow> string \<Rightarrow> nat \<Rightarrow> round \<Rightarrow> 'a world_scheme
      \<Rightarrow> (err option \<times> 'a world_scheme) option" where
  "rounds uc proc i 0 t w = None"
| "rounds uc proc i (Suc n) t w =
     (case one_round uc proc i t w of
        (Inl e, w1) \<Rightarrow> Some (e, w1)
      | (Inr t', w1) \<Rightarrow> rounds uc proc i n t' w1)"

lemma one_round_left: "one_round uc proc i t w = (Inr t', w1) \<Longrightarrow> rd_left t = Suc (rd_left t')"
  by (auto simp: one_round_def Let_def split: nat.splits if_splits prod.splits sum.splits)

lemma rounds_attempts:
  "rounds uc proc i (Suc (rd_left t)) t w = Some (attempts uc proc i (rd_left t) (rd_attempt t) (rd_error t) (rd_code t) w)"
proof (induction "rd_left t" arbitrary: t w)
  case 0
  then show ?case using attempts_round [of uc proc i t w] one_round_left [of uc proc i t w]
    by (auto split: prod.split sum.split)
next
  case (Suc n)
  obtain x w1 where x: "one_round uc proc i t w = (x, w1)" by fastforce
  show ?case
  proof (cases x)
    case (Inl e)
    then show ?thesis using x attempts_round [of uc proc i t w] by simp
  next
    case (Inr t')
    with one_round_left [of uc proc i t w t' w1] x have l: "rd_left t = Suc (rd_left t')" by simp
    with Suc(2) have "rounds uc proc i (Suc (rd_left t')) t' w1
        = Some (attempts uc proc i (rd_left t') (rd_attempt t') (rd_error t') (rd_code t') w1)" by (intro Suc(1)) simp
    then show ?thesis using x Inr l attempts_round [of uc proc i t w] by simp
  qed
qed

text \<open>The work on a job is the sequence of its rounds, one more than the attempts at most; run one after
the other without anything in between they are \<open>Execute\<close>.\<close>

theorem execute_is_its_rounds:
  "rounds uc (process uc j) (j_id j) (nat (uc_max_retries uc + 1) + 1) (first_round uc) w = Some (Execute uc j w)"
  using rounds_attempts [of uc "process uc j" "j_id j" "first_round uc" w] by (simp add: first_round_def Execute_def)

section \<open>What a round leaves alone\<close>

context job_frame
begin

lemma keep_round:
  assumes pause: "\<And>d v. R i u v \<Longrightarrow> R i u (snd (IncrementRetry i (sleep d v)))"
    and proc: "\<And>v. R i u v \<Longrightarrow> R i u (snd (proc v))" and "R i u w"
  shows "R i u (snd (one_round uc proc i t w))"
proof (cases "rd_left t")
  case 0
  then show ?thesis using assms(3) by (auto simp: one_round_def Let_def split: sum.split intro!: keep keep_small)
next
  case (Suc n)
  then show ?thesis
    unfolding one_round_def by (simp only: nat.case Let_def case_prod_beta) (intro keep_struct keep keep_small pause proc assms(3))
qed

end

end
