(* ===== verification/Handlers.thy ===== *)
theory Handlers
  imports Analysis Batch_Service Scheduler Ws_Manager Attempts
begin

text \<open>
  \<open>internal/api/handlers/job_handler.go\<close>: the handlers of the API, over the state of the whole
  server. The job queue is the buffered channel that \<open>main\<close> makes: sending to it waits while it
  holds 100 jobs. So a handler is a program: it ends with a reply, or it stands before a send
  with the rest of its work. Between two sends a handler runs in one step.

  A request carries what the router and the middleware give a handler: the request identifier,
  the variable \<open>id\<close> of the path, the body, and the connection when it can be upgraded to a WebSocket.
\<close>

section \<open>The state of the server\<close>

record server = world +
  sv_queue :: "jref list"
  sv_scheduler :: scheduler
  sv_batches :: batches
  sv_conns :: conns
  sv_active :: int
  sv_started :: "(jref \<times> round option) list"

definition queue_capacity :: nat where
  "queue_capacity = 100"

datatype 'w prog =
    Reply reply
  | Return
  | Send jref "'w \<Rightarrow> 'w prog \<times> 'w"

text \<open>What the handler is made with, and the parts of the libraries it needs: writing to a
WebSocket, the calendar of \<open>time.Format\<close>, and reading a JSON text.\<close>

record 'w handler =
  hd_use_case :: "'w use_case"
  hd_max_workers :: int
  hd_start :: go_time
  hd_write :: "'w writer"
  hd_stamp :: "go_time \<Rightarrow> string"
  hd_parse :: "string \<Rightarrow> json_text"

record request =
  rq_id :: string
  rq_var :: string
  rq_body :: json_text
  rq_upgrade :: "conn option"

definition hd_cfg :: "'w handler \<Rightarrow> config" where
  "hd_cfg h = uc_cfg (hd_use_case h)"

text \<open>Ending with a reply.\<close>

definition replies :: "reply \<times> 'w \<Rightarrow> 'w prog \<times> 'w" where
  "replies rw = (Reply (fst rw), snd rw)"

definition reason :: "string \<Rightarrow> any_map" where
  "reason msg = [(''error'', Some (JStr msg))]"

definition reject :: "int \<Rightarrow> request \<Rightarrow> string \<Rightarrow> string \<Rightarrow> any_map \<Rightarrow> 'a server_scheme \<Rightarrow> 'a server_scheme prog \<times> 'a server_scheme" where
  "reject status rq code message details w = replies (SendError status (rq_id rq) code message details w)"

definition answer_with :: "request \<Rightarrow> string \<Rightarrow> any_map \<Rightarrow> 'a server_scheme \<Rightarrow> 'a server_scheme prog \<times> 'a server_scheme" where
  "answer_with rq message data w = replies (SendSuccessWithMessage 200 (rq_id rq) message (any_map_json data) w)"

fun detail_json :: "detail \<Rightarrow> json option" where
  "detail_json (DStr s) = Some (JStr s)"
| "detail_json (DInt n) = Some (JInt n)"
| "detail_json (DFloat x) = f_json x"
| "detail_json (DStrs xs) = Some (JStrs xs)"

text \<open>\<open>ValidationError.Error\<close> is the message; jobs are encoded as they are when the reply is sent.\<close>

definition jobs_json :: "jref list \<Rightarrow> 'a store_scheme \<Rightarrow> json option" where
  "jobs_json rs w = map_option JArr (seq_all (\<lambda>r. job_json (deref w r)) rs)"

section \<open>Jobs\<close>

definition CreateJob_http :: "'a server_scheme handler \<Rightarrow> request \<Rightarrow> 'a server_scheme \<Rightarrow> 'a server_scheme prog \<times> 'a server_scheme" where
  "CreateJob_http h rq w =
     (let ((canAccept, why), w1) = CanAcceptNewJob (hd_cfg h) w
      in if \<not> canAccept then reject 503 rq CodeDiskFull why [] w1
         else case decode_body set_transcode_request zero_transcode_request (rq_body rq) of
                Inl msg \<Rightarrow> reject 400 rq CodeInvalidRequest ''Invalid request body'' (reason msg) w1
              | Inr req \<Rightarrow>
                  if tr_input_path req = [] then reject 400 rq CodeMissingField ''inputPath is required'' [] w1
                  else case ValidateFile (uc_run (hd_use_case h)) (tr_input_path req) w1 of
                         (Inl e, w2) \<Rightarrow>
                           reject 400 rq (ve_code e) (ve_message e) (map (\<lambda>(k, d). (k, detail_json d)) (ve_details e)) w2
                       | (Inr _, w2) \<Rightarrow>
                           (case CreateJob (hd_cfg h) (tr_input_path req) (tr_chunk_duration req) w2 of
                              (Inl e, w3) \<Rightarrow> reject 500 rq CodeInternalError ''Failed to create job'' (reason (error_text e)) w3
                            | (Inr r, w3) \<Rightarrow>
                                (Send r (\<lambda>w. answer_with rq ''Transcoding job created and queued successfully''
                                   [(''jobId'', Some (JStr (j_id (deref w r)))),
                                    (''status'', Some (JStr (status_text (j_status (deref w r)))))] w), w3)))"

definition not_found :: "request \<Rightarrow> 'a server_scheme \<Rightarrow> 'a server_scheme prog \<times> 'a server_scheme" where
  "not_found rq w = reject 404 rq CodeJobNotFound ''Job not found'' [(''jobId'', Some (JStr (rq_var rq)))] w"

definition GetJob_http :: "request \<Rightarrow> 'a server_scheme \<Rightarrow> 'a server_scheme prog \<times> 'a server_scheme" where
  "GetJob_http rq w =
     (case GetJob (rq_var rq) w of
        Inl _ \<Rightarrow> not_found rq w
      | Inr r \<Rightarrow> replies (SendSuccess 200 (rq_id rq) (job_json (deref w r)) w))"

definition ListJobs_http :: "request \<Rightarrow> 'a server_scheme \<Rightarrow> 'a server_scheme prog \<times> 'a server_scheme" where
  "ListJobs_http rq w =
     (let jobs = ListJobs w
      in replies (SendSuccess 200 (rq_id rq)
           (any_map_json [(''jobs'', jobs_json jobs w), (''count'', Some (JInt (int (length jobs))))]) w))"

definition DeleteJob_http :: "'a server_scheme handler \<Rightarrow> request \<Rightarrow> 'a server_scheme \<Rightarrow> 'a server_scheme prog \<times> 'a server_scheme" where
  "DeleteJob_http h rq w =
     (case GetJob (rq_var rq) w of
        Inl _ \<Rightarrow> not_found rq w
      | Inr _ \<Rightarrow>
          (case DeleteJobFiles (hd_cfg h) (rq_var rq) w of
             (Inl e, w1) \<Rightarrow> reject 500 rq CodeDeleteFailed ''Failed to delete output files'' (reason (error_text e)) w1
           | (Inr _, w1) \<Rightarrow>
               (case DeleteJob (rq_var rq) w1 of
                  (Inl e, w2) \<Rightarrow> reject 500 rq CodeDeleteFailed ''Failed to delete job'' (reason (error_text e)) w2
                | (Inr _, w2) \<Rightarrow> answer_with rq ''Job and all associated files deleted successfully''
                    [(''jobId'', Some (JStr (rq_var rq))), (''deleted'', Some (JBool True))] w2)))"

definition ResumeJob_http :: "request \<Rightarrow> 'a server_scheme \<Rightarrow> 'a server_scheme prog \<times> 'a server_scheme" where
  "ResumeJob_http rq w =
     (case GetJob (rq_var rq) w of
        Inl _ \<Rightarrow> not_found rq w
      | Inr r \<Rightarrow>
          if j_status (deref w r) \<noteq> FAILED \<and> j_status (deref w r) \<noteq> INTERRUPTED
          then reject 400 rq CodeInvalidRequest ''Job cannot be resumed. Only FAILED or INTERRUPTED jobs can be resumed.''
                 [(''currentStatus'', Some (JStr (status_text (j_status (deref w r)))))] w
          else (let (_, w1) = UpdateStatus (rq_var rq) QUEUED w
                in (Send r (answer_with rq ''Job resumed successfully''
                      [(''jobId'', Some (JStr (rq_var rq))), (''resumed'', Some (JBool True)),
                       (''status'', Some (JStr ''QUEUED''))]), w1)))"

section \<open>Health\<close>

text \<open>\<open>Duration.String\<close>: the fraction without its last zeros.\<close>

definition fraction_text :: "nat \<Rightarrow> nat \<Rightarrow> string" where
  "fraction_text u prec =
     (let s = show_nat (u mod 10 ^ prec);
          ds = strip_zeros (replicate (prec - length s) (CHR ''0'') @ s)
      in if ds = [] then [] else ''.'' @ ds)"

definition duration_text :: "duration \<Rightarrow> string" where
  "duration_text d =
     (let u = nat \<bar>d\<bar>; sgn = (if d < 0 then ''-'' else []);
          s = u div 10 ^ 9; m = s div 60; h = m div 60
      in if u = 0 then ''0s''
         else if u < 1000 then sgn @ show_nat u @ ''ns''
         else if u < 10 ^ 6 then sgn @ show_nat (u div 1000) @ fraction_text u 3 @ [CHR 0xC2, CHR 0xB5] @ ''s''
         else if u < 10 ^ 9 then sgn @ show_nat (u div 10 ^ 6) @ fraction_text u 6 @ ''ms''
         else sgn @ (if h > 0 then show_nat h @ ''h'' else []) @ (if m > 0 then show_nat (m mod 60) @ ''m'' else [])
              @ show_nat (s mod 60) @ fraction_text u 9 @ ''s'')"

definition count_status :: "job_status \<Rightarrow> jref list \<Rightarrow> 'a store_scheme \<Rightarrow> json option" where
  "count_status st rs w = Some (JInt (int (length (filter (\<lambda>r. j_status (deref w r) = st) rs))))"

definition gigabytes :: "64 word \<Rightarrow> json option" where
  "gigabytes n = f_json (fdiv (f_of_uint64 n) (Fin 1073741824))"

definition Health :: "'a server_scheme handler \<Rightarrow> request \<Rightarrow> 'a server_scheme \<Rightarrow> 'a server_scheme prog \<times> 'a server_scheme" where
  "Health h rq w =
     (let ((diskUsage, _), w1) = GetDiskUsagePercent ''.'' w;
          (space, w2) = GetDiskSpace ''.'' w1;
          (total, used, free) = (case space of Inl _ \<Rightarrow> (0, 0, 0) | Inr s \<Rightarrow> s);
          jobs = ListJobs w2;
          (now, w3) = time_now w2
      in answer_with rq ''Service is healthy and running''
           [(''status'', Some (JStr ''ok'')), (''service'', Some (JStr ''video-encoder'')), (''version'', Some (JStr ''2.0.0'')),
            (''uptime'', Some (JStr (duration_text (time_sub now (hd_start h))))),
            (''workers'', any_map_json [(''active'', Some (JInt (sv_active w))), (''max'', Some (JInt (hd_max_workers h)))]),
            (''queue'', any_map_json [(''size'', Some (JInt (int (length (sv_queue w))))),
                                      (''capacity'', Some (JInt (int queue_capacity)))]),
            (''jobs'', any_map_json [(''total'', Some (JInt (int (length jobs)))), (''queued'', count_status QUEUED jobs w),
                                     (''running'', count_status RUNNING jobs w), (''completed'', count_status COMPLETED jobs w),
                                     (''failed'', count_status FAILED jobs w)]),
            (''disk'', any_map_json
               [(''usagePercent'', f_json (fdiv (f_of_int (f_to_int (fmul diskUsage (Fin 100)))) (Fin 100))),
                (''totalGB'', gigabytes total), (''usedGB'', gigabytes used), (''freeGB'', gigabytes free)])] w3)"

section \<open>Following a job\<close>

definition HandleWebSocket :: "'a server_scheme handler \<Rightarrow> request \<Rightarrow> 'a server_scheme \<Rightarrow> 'a server_scheme prog \<times> 'a server_scheme" where
  "HandleWebSocket h rq w =
     (case GetJob (rq_var rq) w of
        Inl _ \<Rightarrow> (Reply \<lparr>rp_status = 404, rp_body = Text_Body (''Job not found'' @ newline)\<rparr>, w)
      | Inr _ \<Rightarrow>
          (let (m, w1) = open_connection (hd_write h) (rq_upgrade rq) (rq_var rq) (sv_conns w) w
           in (Return, w1\<lparr>sv_conns := m\<rparr>)))"

section \<open>Batches\<close>

text \<open>The loop over the files; a file that is refused ends the request, the jobs before it are queued.\<close>

fun batch_loop :: "'a server_scheme handler \<Rightarrow> request \<Rightarrow> int \<Rightarrow> (jref list \<Rightarrow> 'a server_scheme \<Rightarrow> 'a server_scheme prog \<times> 'a server_scheme)
    \<Rightarrow> string list \<Rightarrow> jref list \<Rightarrow> 'a server_scheme \<Rightarrow> 'a server_scheme prog \<times> 'a server_scheme" where
  "batch_loop h rq chunk fin [] jobs w = fin jobs w"
| "batch_loop h rq chunk fin (f # files) jobs w =
     (case ValidateFile (uc_run (hd_use_case h)) f w of
        (Inl e, w1) \<Rightarrow> reject 400 rq CodeInvalidVideo (''File validation failed for '' @ f) (reason (ve_message e)) w1
      | (Inr _, w1) \<Rightarrow>
          (case CreateJob (hd_cfg h) f chunk w1 of
             (Inl e, w2) \<Rightarrow> reject 500 rq CodeInternalError (''Failed to create job for '' @ f) (reason (error_text e)) w2
           | (Inr r, w2) \<Rightarrow> (Send r (batch_loop h rq chunk fin files (jobs @ [r])), w2)))"

definition store_batch :: "request \<Rightarrow> string \<Rightarrow> (string, json) gomap option \<Rightarrow> jref list \<Rightarrow> 'a server_scheme \<Rightarrow> 'a server_scheme prog \<times> 'a server_scheme" where
  "store_batch rq batchID metadata jobs w =
     (let ((res, bs), w1) = CreateBatch batchID jobs metadata (sv_batches w) w; w2 = w1\<lparr>sv_batches := bs\<rparr>
      in case res of
           Inl e \<Rightarrow> reject 500 rq CodeInternalError ''Failed to create batch'' (reason (error_text e)) w2
         | Inr b \<Rightarrow> answer_with rq ''Batch job created successfully''
             [(''batchId'', Some (JStr (b_id b))), (''jobs'', jobs_json jobs w2),
              (''status'', Some (JStr (batch_status_text (b_status b))))] w2)"

definition CreateBatchJob :: "'a server_scheme handler \<Rightarrow> request \<Rightarrow> 'a server_scheme \<Rightarrow> 'a server_scheme prog \<times> 'a server_scheme" where
  "CreateBatchJob h rq w =
     (case decode_body set_batch_request zero_batch_request (rq_body rq) of
        Inl msg \<Rightarrow> reject 400 rq CodeInvalidRequest ''Invalid request body'' (reason msg) w
      | Inr req \<Rightarrow>
          if br_files req = [] then reject 400 rq CodeMissingField ''files array is required'' [] w
          else (let (batchID, w1) =
                      (if br_batch_id req = [] then (let (now, v) = time_now w in (''batch_'' @ hd_stamp h now, v))
                       else (br_batch_id req, w))
                in batch_loop h rq (br_chunk_duration req) (store_batch rq batchID (br_metadata req)) (br_files req) [] w1))"

definition stats_json :: "batch_stats \<Rightarrow> json" where
  "stats_json s = JObj [(''total'', JInt (bs_total s)), (''pending'', JInt (bs_pending s)), (''running'', JInt (bs_running s)),
     (''completed'', JInt (bs_completed s)), (''failed'', JInt (bs_failed s))]"

text \<open>The batch is a pointer, so the reply shows it after the update.\<close>

definition GetBatchStatus :: "request \<Rightarrow> 'a server_scheme \<Rightarrow> 'a server_scheme prog \<times> 'a server_scheme" where
  "GetBatchStatus rq w =
     (case GetBatch (rq_var rq) (sv_batches w) of
        Inl _ \<Rightarrow> reject 404 rq CodeJobNotFound ''Batch not found'' [] w
      | Inr _ \<Rightarrow>
          (let ((_, bs), w1) = UpdateBatchStatus (rq_var rq) (sv_batches w) w; w2 = w1\<lparr>sv_batches := bs\<rparr>
           in case GetBatch (rq_var rq) bs of
                Inl _ \<Rightarrow> (Return, w2)
              | Inr b \<Rightarrow> answer_with rq ''Batch status retrieved successfully''
                  [(''batchId'', Some (JStr (b_id b))), (''status'', Some (JStr (batch_status_text (b_status b)))),
                   (''createdAt'', Some (JTime (b_created b))),
                   (''completedAt'', Some (case b_completed b of None \<Rightarrow> JNull | Some t \<Rightarrow> JTime t)),
                   (''stats'', Some (case GetBatchStats (rq_var rq) bs w2 of Inl _ \<Rightarrow> JNull | Inr s \<Rightarrow> stats_json s)),
                   (''jobs'', jobs_json (b_jobs b) w2)] w2))"

section \<open>Scheduling\<close>

definition ScheduleJob_http :: "'a server_scheme handler \<Rightarrow> request \<Rightarrow> 'a server_scheme \<Rightarrow> 'a server_scheme prog \<times> 'a server_scheme" where
  "ScheduleJob_http h rq w =
     (case decode_body set_transcode_request zero_transcode_request (rq_body rq) of
        Inl msg \<Rightarrow> reject 400 rq CodeInvalidRequest ''Invalid request body'' (reason msg) w
      | Inr req \<Rightarrow>
          if tr_input_path req = [] then reject 400 rq CodeMissingField ''inputPath is required'' [] w
          else case tr_scheduled_at req of
                 None \<Rightarrow> reject 400 rq CodeMissingField ''scheduledAt is required'' [] w
               | Some scheduledAt \<Rightarrow>
                   (case ValidateFile (uc_run (hd_use_case h)) (tr_input_path req) w of
                      (Inl e, w1) \<Rightarrow> reject 400 rq CodeInvalidVideo ''File validation failed'' (reason (ve_message e)) w1
                    | (Inr _, w1) \<Rightarrow>
                        (case CreateJob (hd_cfg h) (tr_input_path req) (tr_chunk_duration req) w1 of
                           (Inl e, w2) \<Rightarrow> reject 500 rq CodeInternalError ''Failed to create job'' (reason (error_text e)) w2
                         | (Inr r, w2) \<Rightarrow>
                             (let w3 = mutate r (\<lambda>j. j\<lparr>j_status := SCHEDULED\<rparr>) w2;
                                  ((now, s), w4) = ScheduleJob r scheduledAt (sv_scheduler w3) w3;
                                  w5 = w4\<lparr>sv_scheduler := s\<rparr>;
                                  fin = (\<lambda>w. answer_with rq ''Job scheduled successfully''
                                    [(''jobId'', Some (JStr (j_id (deref w r)))),
                                     (''status'', Some (JStr (status_text (j_status (deref w r))))),
                                     (''scheduledAt'', Some (JTime scheduledAt))] w)
                              in case now of None \<Rightarrow> fin w5 | Some r' \<Rightarrow> (Send r' fin, w5)))))"

section \<open>Analysis\<close>

definition set_input_path :: "string \<Rightarrow> json \<Rightarrow> string \<Rightarrow> string option" where
  "set_input_path k j v = (if k = ''inputpath'' then dec_string j v else Some v)"

definition GetDetailedVideoInfo_http :: "'a server_scheme handler \<Rightarrow> request \<Rightarrow> 'a server_scheme \<Rightarrow> 'a server_scheme prog \<times> 'a server_scheme" where
  "GetDetailedVideoInfo_http h rq w =
     (case decode_body set_input_path [] (rq_body rq) of
        Inl msg \<Rightarrow> reject 400 rq CodeInvalidRequest ''Invalid request body'' (reason msg) w
      | Inr inputPath \<Rightarrow>
          if inputPath = [] then reject 400 rq CodeMissingField ''inputPath is required'' [] w
          else case ValidateFile (uc_run (hd_use_case h)) inputPath w of
                 (Inl e, w1) \<Rightarrow> reject 400 rq CodeInvalidVideo ''File validation failed'' (reason (ve_message e)) w1
               | (Inr _, w1) \<Rightarrow>
                   (case GetDetailedVideoInfo (uc_run (hd_use_case h)) (hd_parse h) inputPath w1 of
                      (Inl e, w2) \<Rightarrow> reject 500 rq CodeInvalidVideo ''Failed to analyze video'' (reason (error_text e)) w2
                    | (Inr d, w2) \<Rightarrow> answer_with rq ''Video analysis completed''
                        [(''inputPath'', Some (JStr inputPath)), (''width'', Some (JInt (dv_width d))),
                         (''height'', Some (JInt (dv_height d))), (''duration'', f_json (dv_duration d)),
                         (''videoCodec'', Some (JStr (dv_video_codec d))), (''audioCodec'', Some (JStr (dv_audio_codec d))),
                         (''bitrate'', Some (JStr (dv_bitrate d))), (''videoBitrate'', Some (JStr (dv_video_bitrate d))),
                         (''frameRate'', Some (JStr (dv_frame_rate d))), (''hasAudio'', Some (JBool (dv_has_audio d))),
                         (''audioChannels'', Some (JInt (dv_audio_channels d))),
                         (''audioSampleRate'', Some (JStr (dv_audio_sample_rate d))),
                         (''fileSize'', Some (JStr (dv_file_size d)))] w2))"

section \<open>The workers\<close>

text \<open>
  A worker takes a job and starts a goroutine for it, and goes on to the next job at once. The
  goroutine runs the rounds of \<^emph>\<open>Attempts\<close> one by one; for each job at work the server keeps the
  round that comes next. A panic of the goroutine ends the server: then there is no next state.
\<close>

definition take_job :: "'a server_scheme \<Rightarrow> 'a server_scheme option" where
  "take_job w =
     (case sv_queue w of
        [] \<Rightarrow> None
      | r # q \<Rightarrow> Some (w\<lparr>sv_queue := q, sv_active := sv_active w + 1, sv_started := sv_started w @ [(r, None)]\<rparr>))"

definition drop_at :: "nat \<Rightarrow> 'b list \<Rightarrow> 'b list" where
  "drop_at n xs = take n xs @ drop (Suc n) xs"

definition run_job :: "'a server_scheme handler \<Rightarrow> nat \<Rightarrow> 'a server_scheme \<Rightarrow> 'a server_scheme option" where
  "run_job h n w =
     (let uc = hd_use_case h; (r, begun) = sv_started w ! n; j = deref w r;
          (res, w1) = one_round uc (process uc j) (j_id j) (case begun of None \<Rightarrow> first_round uc | Some t \<Rightarrow> t) w
      in case res of
           Inl e \<Rightarrow>
             if (case e of None \<Rightarrow> False | Some x \<Rightarrow> panics x) then None
             else Some (w1\<lparr>sv_started := drop_at n (sv_started w1), sv_active := sv_active w1 - 1\<rparr>)
         | Inr t \<Rightarrow> Some (w1\<lparr>sv_started := (sv_started w1)[n := (r, Some t)]\<rparr>))"

section \<open>The start of the server\<close>

text \<open>\<open>main.resumeOrphanedJobs\<close>, which runs beside the server.\<close>

fun requeue :: "job_state list \<Rightarrow> 'a server_scheme \<Rightarrow> 'a server_scheme prog \<times> 'a server_scheme" where
  "requeue [] w = (Return, w)"
| "requeue (s # ss) w =
     (case GetJob (js_job_id s) w of
        Inl _ \<Rightarrow> requeue ss w
      | Inr r \<Rightarrow> (let (_, w1) = UpdateStatus (js_job_id s) QUEUED w in (Send r (requeue ss), w1)))"

definition resumeOrphanedJobs :: "config \<Rightarrow> 'a server_scheme \<Rightarrow> 'a server_scheme prog \<times> 'a server_scheme" where
  "resumeOrphanedJobs cfg w =
     (case FindOrphanedJobs cfg w of
        (Inl _, w1) \<Rightarrow> (Return, w1)
      | (Inr orphaned, w1) \<Rightarrow> requeue orphaned w1)"

end

