(* ===== verification/Server.thy ===== *)
theory Server
  imports Handlers Rate_Limiter
begin

text \<open>
  The server as a whole: the routes (\<open>internal/api/routes/routes.go\<close>), the middleware before them
  (\<open>request_id.go\<close> and \<open>logging.go\<close> of \<open>internal/api/middleware\<close>, and \<^emph>\<open>Rate_Limiter\<close>), and what \<open>cmd/api/main.go\<close>
  sets going: the handlers of the requests, the workers, the timers and the clean-up.

  The steps of the server interleave in any order; a job is taken by any of the \<open>hd_max_workers\<close>
  workers, if there is one. A handler runs to its next send of a job in
  one step, and so does each attempt at a job with the pause before it. The router itself belongs to the library
  \<open>gorilla/mux\<close>: of the routes in their order the first one counts whose template and method
  both match, a path whose template matches with other methods only is answered with 405, any
  other path with 404, and the middleware runs for matched requests only.
\<close>

section \<open>Routes\<close>

datatype endpoint = E_Health | E_CreateJob | E_ListJobs | E_GetJob | E_DeleteJob | E_ResumeJob | E_WebSocket
  | E_CreateBatch | E_BatchStatus | E_Schedule | E_Analyze

definition SetupRoutes :: "(string list \<times> string \<times> endpoint) list" where
  "SetupRoutes =
     [([''health''], ''GET'', E_Health),
      ([''transcode''], ''POST'', E_CreateJob),
      ([''jobs''], ''GET'', E_ListJobs),
      ([''jobs'', ''{id}''], ''GET'', E_GetJob),
      ([''jobs'', ''{id}''], ''DELETE'', E_DeleteJob),
      ([''jobs'', ''{id}'', ''resume''], ''POST'', E_ResumeJob),
      ([''jobs'', ''{id}'', ''progress''], ''GET'', E_WebSocket),
      ([''batch''], ''POST'', E_CreateBatch),
      ([''batch'', ''{id}''], ''GET'', E_BatchStatus),
      ([''schedule''], ''POST'', E_Schedule),
      ([''analyze''], ''POST'', E_Analyze)]"

text \<open>Matching a path with a template gives the variable.\<close>

fun match_path :: "string list \<Rightarrow> string list \<Rightarrow> string option \<Rightarrow> string option option" where
  "match_path [] [] v = Some v"
| "match_path (t # ts) (s # ss) v =
     (if t = ''{id}'' then (if s = [] then None else match_path ts ss (Some s))
      else if t = s then match_path ts ss v else None)"
| "match_path _ _ v = None"

datatype routed = Handler endpoint string | Not_Allowed | No_Route

fun find_route :: "(string list \<times> string \<times> endpoint) list \<Rightarrow> string \<Rightarrow> string list \<Rightarrow> bool \<Rightarrow> routed" where
  "find_route [] meth segs seen = (if seen then Not_Allowed else No_Route)"
| "find_route ((t, m, e) # rs) meth segs seen =
     (case match_path t segs None of
        None \<Rightarrow> find_route rs meth segs seen
      | Some v \<Rightarrow> if m = meth then Handler e (case v of None \<Rightarrow> [] | Some x \<Rightarrow> x) else find_route rs meth segs True)"

section \<open>Middleware\<close>

text \<open>The identifier of a request is its header, or a new one, which is an argument.\<close>

definition RequestID :: "string \<Rightarrow> string \<Rightarrow> string" where
  "RequestID uuid given = (if given = [] then uuid else given)"

record service = server +
  sv_limiter :: rate_limiter

record web_request =
  wr_method :: string
  wr_http :: http_request
  wr_id :: string
  wr_uuid :: string
  wr_body :: json_text
  wr_upgrade :: "conn option"

fun dispatch :: "'a server_scheme handler \<Rightarrow> endpoint \<Rightarrow> request \<Rightarrow> 'a server_scheme \<Rightarrow> 'a server_scheme prog \<times> 'a server_scheme" where
  "dispatch h E_Health rq = Health h rq"
| "dispatch h E_CreateJob rq = CreateJob_http h rq"
| "dispatch h E_ListJobs rq = ListJobs_http rq"
| "dispatch h E_GetJob rq = GetJob_http rq"
| "dispatch h E_DeleteJob rq = DeleteJob_http h rq"
| "dispatch h E_ResumeJob rq = ResumeJob_http rq"
| "dispatch h E_WebSocket rq = HandleWebSocket h rq"
| "dispatch h E_CreateBatch rq = CreateBatchJob h rq"
| "dispatch h E_BatchStatus rq = GetBatchStatus rq"
| "dispatch h E_Schedule rq = ScheduleJob_http h rq"
| "dispatch h E_Analyze rq = GetDetailedVideoInfo_http h rq"

text \<open>
  The two messages of a request in the log, before and after its handler; \<open>fmt\<close> is the text of a duration. The log
  is not part of the state: no code reads it.
\<close>

definition Logging :: "(duration \<Rightarrow> string) \<Rightarrow> web_request \<Rightarrow> go_time \<Rightarrow> go_time \<Rightarrow> string list" where
  "Logging fmt q start finished =
     (let requestID = RequestID (wr_uuid q) (wr_id q)
      in [''['' @ requestID @ ''] '' @ wr_method q @ '' '' @ rq_path (wr_http q) @ '' | IP: '' @ rq_remoteAddr (wr_http q),
          ''['' @ requestID @ ''] Completed in '' @ fmt (finished - start)])"

text \<open>The path is logged as it was decoded, so a line feed in it begins a line of the client's choice.\<close>

lemma log_line_forged:
  assumes "rq_path (wr_http q) = p @ newline @ forged"
  shows "\<exists>front. hd (Logging fmt q start finished) = front @ newline @ forged @ '' | IP: '' @ rq_remoteAddr (wr_http q)"
  using assms by (simp add: Logging_def Let_def)

text \<open>The limiter reads the clock when it makes a bucket and when it fills one.\<close>

definition serve :: "'a service_scheme handler \<Rightarrow> web_request \<Rightarrow> 'a service_scheme \<Rightarrow> 'a service_scheme prog \<times> 'a service_scheme" where
  "serve h q w =
     (case find_route SetupRoutes (wr_method q) (tl (split_on CHR ''/'' (rq_path (wr_http q)))) False of
        No_Route \<Rightarrow> (Reply \<lparr>rp_status = 404, rp_body = Text_Body (''404 page not found'' @ newline)\<rparr>, w)
      | Not_Allowed \<Rightarrow> (Reply \<lparr>rp_status = 405, rp_body = No_Body\<rparr>, w)
      | Handler e v \<Rightarrow>
          (let (created, w1) = time_now w; (now, w2) = time_now w1;
               (verdict, rl) = Middleware created now (wr_http q) (sv_limiter w2);
               w3 = w2\<lparr>sv_limiter := rl\<rparr>
           in case verdict of
                Reject msg status \<Rightarrow> (Reply \<lparr>rp_status = status, rp_body = Text_Body (msg @ newline)\<rparr>, w3)
              | Next \<Rightarrow> dispatch h e \<lparr>rq_id = RequestID (wr_uuid q) (wr_id q), rq_var = v, rq_body = wr_body q,
                                    rq_upgrade = wr_upgrade q\<rparr> w3))"

section \<open>Steps\<close>

text \<open>The programs that run (handlers that are not done, and their replies), and the state.\<close>

type_synonym 'w server_conf = "'w prog list \<times> 'w"

inductive server_step :: "'a service_scheme handler \<Rightarrow> 'a service_scheme server_conf \<Rightarrow> 'a service_scheme server_conf \<Rightarrow> bool"
  for h where
  arrive: "serve h q w = (p, w') \<Longrightarrow> server_step h (ps, w) (ps @ [p], w')"
| send: "i < length ps \<Longrightarrow> ps ! i = Send r k \<Longrightarrow> length (sv_queue w) < queue_capacity \<Longrightarrow>
    k (w\<lparr>sv_queue := sv_queue w @ [r]\<rparr>) = (p, w') \<Longrightarrow> server_step h (ps, w) (ps[i := p], w')"
| take: "0 < hd_max_workers h \<Longrightarrow> take_job w = Some w' \<Longrightarrow> server_step h (ps, w) (ps, w')"
| run: "n < length (sv_started w) \<Longrightarrow> run_job h n w = Some w' \<Longrightarrow> server_step h (ps, w) (ps, w')"
| timer: "fire_timer t (sv_scheduler w) w = ((None, s), w') \<Longrightarrow> server_step h (ps, w) (ps, w'\<lparr>sv_scheduler := s\<rparr>)"
| timer_send: "fire_timer t (sv_scheduler w) w = ((Some r, s), w') \<Longrightarrow>
    server_step h (ps, w) (ps @ [Send r (Pair Return)], w'\<lparr>sv_scheduler := s\<rparr>)"
| hang_up: "server_step h (ps, w) (ps, w\<lparr>sv_conns := close_connection c i (sv_conns w)\<rparr>)"
| cleanup: "server_step h (ps, w) (ps, snd (AutoCleanup (hd_cfg h) w))"
| limiter_cleanup: "server_step h (ps, w) (ps, w\<lparr>sv_limiter := cleanupVisitors now (sv_limiter w)\<rparr>)"

text \<open>
  \<open>main\<close> makes the services without any job, the queue, and the limiter, and starts
  \<open>resumeOrphanedJobs\<close>. The caches that services read from files at their start are not empty.
\<close>

definition new_server :: "'a service_scheme \<Rightarrow> bool" where
  "new_server w \<longleftrightarrow> st_jobs w = [] \<and> st_repo w = [] \<and> st_next w = 0 \<and> w_metrics w = []
     \<and> sv_queue w = [] \<and> sv_scheduler w = Start NewSchedulerService \<and> sv_batches w = NewBatchService
     \<and> sv_conns w = NewManager \<and> sv_active w = 0 \<and> sv_started w = [] \<and> sv_limiter w = NewRateLimiter 100 20"

definition boot :: "'a service_scheme handler \<Rightarrow> 'a service_scheme \<Rightarrow> 'a service_scheme server_conf" where
  "boot h w = (let (p, w1) = resumeOrphanedJobs (hd_cfg h) w in ([p], w1))"

end
