(* ===== verification/Server_Props.thy ===== *)
theory Server_Props
  imports Server Transcode_Props
begin

text \<open>
  What the server guarantees: what a submission, a resumption and a batch do, that a refused request
  leaves nothing behind, that the job queue stays within its capacity and the count of active jobs
  is right, whatever interleaving of requests, workers and timers.
\<close>

section \<open>Operations on files and the clock\<close>

lemma osf_media:
  assumes "tame run" "os_frame u w"
  shows "os_frame u (snd (ValidateMimeType run p w))" "os_frame u (snd (check_video_stream run p w))"
    "os_frame u (snd (ValidateResolution run p w))" "os_frame u (snd (ValidateDuration run p w))"
    "os_frame u (snd (check_decode run p w))" "os_frame u (snd (GetDetailedVideoInfo run parse p w))"
  using assms
  by (auto simp: ValidateMimeType_def check_video_stream_def ValidateResolution_def ValidateDuration_def check_decode_def
      GetFileFormat_def ValidateVideoStream_def TestDecode_def GetDetailedVideoInfo_def case_prod_beta Let_def
      split: sum.split intro!: osf_run)

lemma osf_checks:
  "(\<And>c u w. c \<in> set cs \<Longrightarrow> os_frame u w \<Longrightarrow> os_frame u (snd (c w))) \<Longrightarrow> os_frame u w \<Longrightarrow> os_frame u (snd (all_checks cs w))"
  by (induction cs arbitrary: w) (auto simp: case_prod_beta split: sum.split)

lemma osf_size [osf]: "os_frame u w \<Longrightarrow> os_frame u (snd (GetFileSizeMB p w))"
  by (auto simp: GetFileSizeMB_def case_prod_beta intro!: osf)

lemma osf_validate:
  assumes "tame run" "os_frame u w"
  shows "os_frame u (snd (ValidateFile run p w))"
proof -
  have m: "os_frame v (snd (all_checks (media_checks run p) x))" if "os_frame v x" for v x :: "'a os_scheme"
    using assms(1) that by (intro osf_checks) (auto simp: media_checks_def intro: osf_media)
  obtain ex w1 where w1: "FileExists p w = (ex, w1)" by fastforce
  obtain mb e w2 where w2: "GetFileSizeMB p w1 = ((mb, e), w2)" by (metis prod.collapse)
  have "os_frame u w1" "os_frame u w2"
    using osf_size [of u w1 p] osf_prims assms(2) w1 w2 os_frame_utils(1) [of w p] os_frame_trans by (metis snd_conv)+
  then show ?thesis using w1 w2 m by (auto simp: ValidateFile_def Let_def split: option.split)
qed

lemma osf_orphans [osf]: "os_frame u w \<Longrightarrow> os_frame u (snd (orphans_among cfg es w))"
proof (induction es arbitrary: w)
  case (Cons e es)
  obtain i d where e: "e = (i, d)" by fastforce
  let ?p = "getStatePath cfg i" and ?w1 = "snd (FileExists (getStatePath cfg i) w)"
  have f: "os_frame u ?w1" "os_frame u (snd (os_read_file ?p ?w1))" "os_frame u (snd (time_now (snd (os_read_file ?p ?w1))))"
    using Cons.prems by (auto intro!: osf)
  show ?case using Cons.prems f [THEN Cons.IH] Cons.IH
    by (auto simp: e Let_def case_prod_beta split: sum.split option.split)
qed simp

lemma osf_disk [osf]:
  assumes "os_frame u w"
  shows "os_frame u (snd (os_statfs p w))" "os_frame u (snd (GetDiskUsagePercent p w))" "os_frame u (snd (collect_jobs cfg ns w))"
  using assms os_frame_trans statfs_frame usage_frame collect_jobs_fs by blast+

lemma osf_cleanup_loop [osf]: "os_frame u w \<Longrightarrow> os_frame u (snd (cleanup_loop cfg t jobs acc w))"
proof (induction jobs arbitrary: acc w)
  case (Cons job jobs)
  obtain c f where a: "acc = (c, f)" by fastforce
  let ?w1 = "snd (GetDiskUsagePercent ''.'' w)"
  have f: "os_frame u ?w1" "os_frame u (snd (DeleteJobFiles cfg (ji_id job) (snd (time_now ?w1))))"
    using Cons.prems by (auto intro!: osf)
  show ?case using f (1) f [THEN Cons.IH] by (auto simp: a Let_def case_prod_beta split: sum.split)
qed simp

lemma osf_api [osf]:
  assumes "os_frame u w"
  shows "os_frame u (snd (CanAcceptNewJob cfg w))" "os_frame u (snd (format_now w))" "os_frame u (snd (FindOrphanedJobs cfg w))"
    "os_frame u (snd (CreateBatch i js md bs w))" "os_frame u (snd (GetDiskSpace p w))" "os_frame u (snd (AutoCleanup cfg w))"
  using assms
  by (auto simp: CanAcceptNewJob_def format_now_def FindOrphanedJobs_def CreateBatch_def GetDiskSpace_def AutoCleanup_def
      getJobsForCleanup_def case_prod_beta Let_def split: sum.split option.split intro!: osf)

section \<open>The queue and the workers\<close>

text \<open>What only sends, workers and the start of jobs change.\<close>

definition core :: "'a server_scheme \<Rightarrow> jref list \<times> int \<times> (jref \<times> round option) list" where
  "core w = (sv_queue w, sv_active w, sv_started w)"

lemma core_os: "os_frame w w' \<Longrightarrow> core w' = core w"
  by (auto simp: os_frame_def core_def)

lemma core_fields [simp]:
  "core (w\<lparr>sv_batches := bs\<rparr>) = core w" "core (w\<lparr>sv_conns := m\<rparr>) = core w" "core (w\<lparr>sv_scheduler := s\<rparr>) = core w"
  "core (w\<lparr>st_repo := rp\<rparr>) = core w" "core (mutate r f w) = core w"
  by (simp_all add: core_def mutate_def)

lemma core_store [simp]:
  "core (snd (time_now w)) = core w"
  "core (snd (CreateJob cfg p c w)) = core w" "core (snd (DeleteJob i w)) = core w" "core (snd (UpdateStatus i st w)) = core w"
  "core (snd (ScheduleJob r t s w)) = core w" "core (snd (executeScheduledJob i s w)) = core w"
  "core (snd (fire_timer n s w)) = core w"
  by (auto simp: CreateJob_eq alloc_def repo_Create_def DeleteJob_def repo_Delete_def UpdateStatus_def repo_Update_def
      ScheduleJob_def executeScheduledJob_def fire_timer_def core_def time_now_def mutate_def case_prod_beta Let_def
      split: option.split sum.split)

text \<open>Every part of a program leaves the queue and the workers alone, but for the sends.\<close>

inductive calm :: "'a server_scheme prog \<Rightarrow> bool" where
  calm_reply: "calm (Reply rp)"
| calm_return: "calm Return"
| calm_send: "(\<And>w. core (snd (k w)) = core w) \<Longrightarrow> (\<And>w. calm (fst (k w))) \<Longrightarrow> calm (Send r k)"

inductive_cases calm_sendE: "calm (Send r k)"

definition calm_from :: "'a server_scheme \<Rightarrow> 'a server_scheme prog \<times> 'a server_scheme \<Rightarrow> bool" where
  "calm_from u pw \<longleftrightarrow> core (snd pw) = core u \<and> calm (fst pw)"

named_theorems calm_rules

lemma calm_replies [calm_rules]:
  "core w = core u \<Longrightarrow> calm_from u (replies (SendError n i c m d w))"
  "core w = core u \<Longrightarrow> calm_from u (replies (SendSuccess n i dt w))"
  "core w = core u \<Longrightarrow> calm_from u (reject n rq c m d w)"
  "core w = core u \<Longrightarrow> calm_from u (answer_with rq m a w)"
  "core w = core u \<Longrightarrow> calm_from u (not_found rq w)"
  "core w = core u \<Longrightarrow> calm_from u (Return, w)"
  "core w = core u \<Longrightarrow> calm_from u (Reply rp, w)"
  by (auto simp: calm_from_def replies_def SendError_def SendSuccess_def SendSuccessWithMessage_def reject_def answer_with_def
      not_found_def NewErrorResponse_def NewSuccessResponse_def NewSuccessResponseWithMessage_def format_now_def
      case_prod_beta Let_def intro: calm_reply calm_return)

lemma calm_struct [calm_rules]:
  "core w = core u \<Longrightarrow> (\<And>v. calm_from v (k v)) \<Longrightarrow> calm_from u (Send r k, w)"
  "(\<And>e. calm_from u (f e)) \<Longrightarrow> (\<And>v. calm_from u (g v)) \<Longrightarrow> calm_from u (case x of Inl e \<Rightarrow> f e | Inr v \<Rightarrow> g v)"
  "calm_from u f0 \<Longrightarrow> (\<And>v. calm_from u (g0 v)) \<Longrightarrow> calm_from u (case y of None \<Rightarrow> f0 | Some v \<Rightarrow> g0 v)"
  "calm_from u a \<Longrightarrow> calm_from u b \<Longrightarrow> calm_from u (if c then a else b)"
  by (auto simp: calm_from_def intro: calm_send split: sum.split option.split)

lemma core_steps:
  assumes "tame run" "core w = core u"
  shows "core (snd (ValidateFile run p w)) = core u" "core (snd (GetDetailedVideoInfo run parse p w)) = core u"
  using core_os [OF osf_validate [OF assms(1) os_frame_refl]] core_os [OF osf_media(6) [OF assms(1) os_frame_refl]] assms(2)
  by simp_all

lemma core_steps':
  "core w = core u \<Longrightarrow> core (snd (CanAcceptNewJob cfg w)) = core u"
  "core w = core u \<Longrightarrow> core (snd (DeleteJobFiles cfg i w)) = core u"
  "core w = core u \<Longrightarrow> core (snd (CreateJob cfg p c w)) = core u"
  "core w = core u \<Longrightarrow> core (snd (DeleteJob i w)) = core u"
  "core w = core u \<Longrightarrow> core (snd (UpdateStatus i st w)) = core u"
  "core w = core u \<Longrightarrow> core (snd (ScheduleJob r t s w)) = core u"
  "core w = core u \<Longrightarrow> core (snd (FindOrphanedJobs cfg w)) = core u"
  "core w = core u \<Longrightarrow> core (snd (CreateBatch i js md bs w)) = core u"
  "core w = core u \<Longrightarrow> core (snd (GetDiskUsagePercent p w)) = core u"
  "core w = core u \<Longrightarrow> core (snd (GetDiskSpace p w)) = core u"
  "core w = core u \<Longrightarrow> core (snd (time_now w)) = core u"
  "core w = core u \<Longrightarrow> core (mutate q f w) = core u"
  "core w = core u \<Longrightarrow> core (w\<lparr>sv_scheduler := sc\<rparr>) = core u"
  "core w = core u \<Longrightarrow> core (w\<lparr>sv_batches := bb\<rparr>) = core u"
  by (simp_all add: core_os [OF osf_api(1) [OF os_frame_refl]] core_os [OF osf_api(3) [OF os_frame_refl]]
      core_os [OF osf_api(4) [OF os_frame_refl]] core_os [OF osf_api(5) [OF os_frame_refl]]
      core_os [OF DeleteJobFiles_frame] core_os [OF usage_frame(1)])

lemma calm_batch_loop:
  assumes "tame (uc_run (hd_use_case h))" "\<And>js v. calm_from v (fin js v)" "core w = core u"
  shows "calm_from u (batch_loop h rq c fin files js w)"
  using assms(3)
proof (induction files arbitrary: js u w)
  case Nil
  then show ?case using assms(2) by (simp add: calm_from_def)
next
  case (Cons f files)
  show ?case unfolding batch_loop.simps case_prod_beta
    by (intro calm_rules core_steps assms core_steps' Cons.prems Cons.IH) simp
qed

lemma calm_store_batch: "calm_from v (store_batch rq i md js v)"
  unfolding store_batch_def Let_def case_prod_beta by (intro calm_rules core_steps') simp_all

lemma calm_jobs:
  assumes "tame (uc_run (hd_use_case h))"
  shows "calm_from w (CreateJob_http h rq w)" "calm_from w (GetJob_http rq w)" "calm_from w (ListJobs_http rq w)"
    "calm_from w (DeleteJob_http h rq w)" "calm_from w (ResumeJob_http rq w)"
  unfolding CreateJob_http_def GetJob_http_def ListJobs_http_def DeleteJob_http_def ResumeJob_http_def Let_def case_prod_beta
  by (intro calm_rules core_steps core_steps' assms refl)+

lemma calm_health: "calm_from w (Health h rq w)"
  unfolding Health_def Let_def case_prod_beta by (intro calm_rules core_steps' refl)

lemma calm_socket:
  assumes "\<And>c m v. os_frame v (snd (hd_write h c m v))"
  shows "calm_from w (HandleWebSocket h rq w)"
proof -
  have "os_frame w (snd (open_connection (hd_write h) x i m w))" for x i m
    using os_frame_trans [OF os_frame_time_now assms]
    by (auto simp: open_connection_def sendWelcomeMessage_def case_prod_beta Let_def split: option.split)
  then have c: "core ((snd (open_connection (hd_write h) x i m w))\<lparr>sv_conns := m'\<rparr>) = core w" for x i m m'
    by (simp add: core_os)
  show ?thesis unfolding HandleWebSocket_def Let_def case_prod_beta by (intro calm_rules c refl)
qed

lemma calm_batches:
  assumes "tame (uc_run (hd_use_case h))"
  shows "calm_from w (CreateBatchJob h rq w)" "calm_from w (GetBatchStatus rq w)"
proof -
  have t: "core (snd (if b then (x, w) else (y, snd (time_now w)))) = core w" for b x y by simp
  show "calm_from w (CreateBatchJob h rq w)"
    unfolding CreateBatchJob_def Let_def case_prod_beta
    by (intro calm_rules calm_batch_loop calm_store_batch assms) (simp_all)
  have u: "core (snd (UpdateBatchStatus i bs w)) = core w" for i bs
    by (auto simp: UpdateBatchStatus_def Let_def case_prod_beta split: option.split)
  show "calm_from w (GetBatchStatus rq w)"
    unfolding GetBatchStatus_def Let_def case_prod_beta by (intro calm_rules core_steps' u refl)
qed

lemma calm_schedule:
  assumes "tame (uc_run (hd_use_case h))"
  shows "calm_from w (ScheduleJob_http h rq w)" "calm_from w (GetDetailedVideoInfo_http h rq w)"
  unfolding ScheduleJob_http_def GetDetailedVideoInfo_http_def Let_def case_prod_beta
  by (intro calm_rules core_steps core_steps' assms refl)+

lemma calm_requeue: "core w = core u \<Longrightarrow> calm_from u (requeue ss w)"
proof (induction ss arbitrary: u w)
  case (Cons s ss)
  show ?case unfolding requeue.simps Let_def case_prod_beta by (intro calm_rules core_steps' Cons.prems Cons.IH refl)
qed (simp add: calm_rules)

lemma calm_boot: "calm_from w (resumeOrphanedJobs cfg w)"
  unfolding resumeOrphanedJobs_def case_prod_beta by (intro calm_rules core_steps' calm_requeue refl)

text \<open>The parts of the server that are not its own: programs that work on files, and connections.\<close>

definition tame_server :: "'a server_scheme handler \<Rightarrow> bool" where
  "tame_server h \<longleftrightarrow> tame (uc_run (hd_use_case h)) \<and> (\<forall>c m w. os_frame w (snd (hd_write h c m w)))"

lemma calm_dispatch: "tame_server h \<Longrightarrow> calm_from w (dispatch h e rq w)"
  by (cases e) (auto simp: tame_server_def intro: calm_jobs calm_health calm_socket calm_batches calm_schedule)

text \<open>Transcoding a job changes nothing of the server beyond what the use case works on.\<close>

definition same_rest :: "string \<Rightarrow> 'a world_scheme \<Rightarrow> 'a world_scheme \<Rightarrow> bool" where
  "same_rest i u w \<longleftrightarrow> world.more w = world.more u"

lemma rest_os: "os_frame w w' \<Longrightarrow> same_rest i u w \<Longrightarrow> same_rest i u w'"
  by (auto simp: os_frame_def same_rest_def)

lemma rest_setters:
  assumes "same_rest i u w"
  shows "same_rest i u (snd (UpdateProgress i n step w))" "same_rest i u (snd (SetMetadata i inp outp w))"
    "same_rest i u (snd (SetHash i h w))" "same_rest i u (snd (UpdateStatus i st w))" "same_rest i u (snd (SetError i e w))"
    "same_rest i u (snd (IncrementRetry i (sleep d w)))"
  using assms
  by (auto simp: same_rest_def UpdateProgress_def SetMetadata_def SetHash_def UpdateStatus_def SetError_def IncrementRetry_def
      sleep_def mutate_def repo_Update_def time_now_def Let_def case_prod_beta split: sum.split option.split)

interpretation server_rest: job_frame same_rest
proof unfold_locales
  show "same_rest i u w \<Longrightarrow> same_rest i u (broadcastProgress uc i t n step w)"
    for i and u w :: "'a world_scheme" and uc :: "'a world_scheme use_case" and t n step
    by (simp add: broadcastProgress_def same_rest_def)
  show "same_rest i u (snd (store_in_cache uc i w))" if "same_rest i u w"
    for i and u w :: "'a world_scheme" and uc :: "'a world_scheme use_case"
    using that rest_os [OF osf_services(8) [OF os_frame_refl] that]
    by (auto simp: store_in_cache_def same_rest_def Let_def case_prod_beta split: sum.split)
qed (blast intro: rest_os rest_setters | simp add: same_rest_def)+

lemma core_round:
  assumes "tame_server h"
  shows "core (snd (one_round (hd_use_case h) (process (hd_use_case h) j) (j_id j) t w)) = core w"
proof -
  have "same_rest (j_id j) w (snd (one_round (hd_use_case h) (process (hd_use_case h) j) (j_id j) t w))"
    using assms by (intro server_rest.keep_round rest_setters server_rest.keep_process) (simp_all add: tame_server_def same_rest_def)
  then show ?thesis
    by (cases w; cases "snd (one_round (hd_use_case h) (process (hd_use_case h) j) (j_id j) t w)") (simp add: same_rest_def core_def)
qed

section \<open>A concrete server\<close>

definition demo_service :: service where
  "demo_service = \<lparr>fs = fs demo_world, clock = clock demo_world, io = io demo_world, statfs = (\<lambda>_. Inr
       \<lparr>st_blocks = 100, st_bfree = 50, st_bsize = 1\<rparr>), doclen = doclen demo_world, tick = 0,
     st_jobs = [], st_repo = [], st_next = 0, w_cache = Some [], w_metrics = [], w_sent = [], w_slept = [],
     sv_queue = [], sv_scheduler = Start NewSchedulerService, sv_batches = NewBatchService, sv_conns = NewManager,
     sv_active = 0, sv_started = [], sv_limiter = NewRateLimiter 100 20\<rparr>"

definition demo_handler :: "int \<Rightarrow> service handler" where
  "demo_handler n = \<lparr>hd_use_case = \<lparr>uc_cfg = Load (\<lambda>_. []), uc_run = demo_runner, uc_sha = (\<lambda>_. ''5e884898''), uc_ws = True,
       uc_max_retries = 3\<rparr>, hd_max_workers = n, hd_start = 0, hd_write = (\<lambda>c m w. (Inr (), w)),
     hd_stamp = (\<lambda>_. ''20240101000000''), hd_parse = (\<lambda>_. \<lparr>jt_tree = Inl ''unexpected end of JSON input'', jt_mismatch = []\<rparr>)\<rparr>"

lemma demo_server [simp]:
  "new_server demo_service" "tame_server (demo_handler n)" "hd_max_workers (demo_handler n) = n" "store_wf demo_service"
  by (simp_all add: new_server_def demo_service_def tame_server_def demo_handler_def tame_def demo_runner_def store_wf_def)

section \<open>The invariant of the server\<close>

definition server_ok :: "'a server_scheme server_conf \<Rightarrow> bool" where
  "server_ok c \<longleftrightarrow> (let (ps, w) = c in
     length (sv_queue w) \<le> queue_capacity \<and> sv_active w = int (length (sv_started w)) \<and> list_all calm ps)"

lemma server_ok_core:
  "core w' = core w \<Longrightarrow> server_ok (ps, w) \<Longrightarrow> list_all calm qs \<Longrightarrow> server_ok (qs, w')"
  by (simp add: server_ok_def core_def)

lemma calm_serve:
  assumes "tame_server h"
  shows "calm_from w (serve h q w)"
proof -
  have m: "core (w\<lparr>sv_limiter := rl\<rparr>) = core w" for rl and w :: "'a service_scheme" by (simp add: core_def)
  have d: "calm_from w (dispatch h e rq w')" if "core w' = core w" for e rq w'
    using calm_dispatch [OF assms, of w' e rq] that by (simp add: calm_from_def)
  show ?thesis
    unfolding serve_def Let_def case_prod_beta by (auto simp: m split: routed.split verdict.split intro!: calm_rules d)
qed

lemma drop_at_length: "n < length xs \<Longrightarrow> int (length (drop_at n xs)) = int (length xs) - 1"
  by (simp add: drop_at_def)

lemma server_ok_step:
  assumes "server_step h c c'" "tame_server h" "server_ok c"
  shows "server_ok c'"
  using assms(1,3)
proof cases
  case (arrive q w p w' ps)
  with assms(3) calm_serve [OF assms(2), of w q] show ?thesis by (auto simp: calm_from_def server_ok_def core_def)
next
  case (send i ps r k w p w')
  have "calm (Send r k)" using send assms(3) by (auto simp: server_ok_def list_all_length)
  then have k: "core (snd (k v)) = core v" "calm (fst (k v))" for v by (auto elim: calm_sendE)
  let ?v = "w\<lparr>sv_queue := sv_queue w @ [r]\<rparr>"
  have "core w' = core ?v" "calm p" using k [of ?v] send(6) by simp_all
  then show ?thesis using send(1,2,3,5) assms(3) by (auto simp: server_ok_def core_def list_all_length nth_list_update)
next
  case (take w w' ps)
  with assms(3) show ?thesis by (auto simp: take_job_def server_ok_def split: list.splits)
next
  case (run n w w' ps)
  obtain r b where r: "sv_started w ! n = (r, b)" by fastforce
  let ?j = "deref w r" and ?t = "case b of None \<Rightarrow> first_round (hd_use_case h) | Some t \<Rightarrow> t"
  show ?thesis using run assms(3) core_round [OF assms(2), of ?j ?t w]
    by (auto simp: run_job_def r case_prod_beta Let_def server_ok_def core_def drop_at_length split: sum.splits if_splits)
next
  case (timer t w s w' ps)
  with core_store(7) [of t "sv_scheduler w" w] have "core (w'\<lparr>sv_scheduler := s\<rparr>) = core w" by simp
  with timer(1,2) assms(3) server_ok_core [of _ w ps ps] show ?thesis by (simp add: server_ok_def [of "(ps, w)"])
next
  case (timer_send t w r s w' ps)
  with core_store(7) [of t "sv_scheduler w" w] have "core (w'\<lparr>sv_scheduler := s\<rparr>) = core w" by simp
  moreover have "list_all calm (ps @ [Send r (Pair Return)])"
    using timer_send(1) assms(3) calm_send [of "Pair Return" r] calm_return by (simp add: server_ok_def)
  ultimately show ?thesis using timer_send(1,2) assms(3) server_ok_core by blast
next
  case (hang_up ps w c i)
  with assms(3) server_ok_core [of _ w ps ps] show ?thesis by (simp add: server_ok_def [of "(ps, w)"])
next
  case (cleanup ps w)
  with assms(3) server_ok_core [OF core_os [OF osf_api(6) [OF os_frame_refl]], of ps w ps] show ?thesis
    by (simp add: server_ok_def [of "(ps, w)"])
next
  case (limiter_cleanup ps w now)
  moreover have "core (w\<lparr>sv_limiter := cleanupVisitors now (sv_limiter w)\<rparr>) = core w" by (simp add: core_def)
  ultimately show ?thesis using assms(3) server_ok_core [of _ w ps ps] by (simp add: server_ok_def [of "(ps, w)"])
qed

definition reachable :: "'a service_scheme handler \<Rightarrow> 'a service_scheme server_conf \<Rightarrow> bool" where
  "reachable h c \<longleftrightarrow> (\<exists>w. new_server w \<and> (server_step h)\<^sup>*\<^sup>* (boot h w) c)"

lemma server_ok_boot: "new_server w \<Longrightarrow> server_ok (boot h w)"
  using calm_boot [of w "hd_cfg h"]
  by (auto simp: boot_def case_prod_beta Let_def calm_from_def server_ok_def core_def new_server_def)

lemma server_ok_reachable:
  assumes "reachable h c" "tame_server h"
  shows "server_ok c"
proof -
  from assms(1) obtain w where "new_server w" "(server_step h)\<^sup>*\<^sup>* (boot h w) c" by (auto simp: reachable_def)
  from this(2) server_ok_boot [OF this(1)] show ?thesis
    by (induction rule: rtranclp_induct) (auto intro: server_ok_step assms(2))
qed

text \<open>C3. Whatever requests come and however handlers, workers, timers and clean-up interleave, the job
queue never holds more than its 100 jobs, and the number of active jobs that the health page shows is
exactly the number of jobs being transcoded.\<close>

theorem queue_within_capacity:
  assumes "reachable h (ps, w)" "tame_server h"
  shows "length (sv_queue w) \<le> 100 \<and> sv_active w = int (length (sv_started w))"
  using server_ok_reachable [OF assms] by (simp add: server_ok_def queue_capacity_def)

theorem queue_within_capacity_witness:
  "length (sv_queue (snd (boot (demo_handler 1) demo_service))) \<le> 100"
proof -
  have "reachable (demo_handler 1) (boot (demo_handler 1) demo_service)" by (auto simp: reachable_def intro: exI [of _ demo_service])
  then show ?thesis
    using queue_within_capacity [of "demo_handler 1" "fst (boot (demo_handler 1) demo_service)" "snd (boot (demo_handler 1) demo_service)"]
    by simp
qed

section \<open>Requests and workers go on\<close>

lemma take_all:
  assumes "0 < hd_max_workers h"
  shows "\<exists>w'. (server_step h)\<^sup>*\<^sup>* (ps, w) (ps, w') \<and> sv_queue w' = [] \<and> sv_active w' = sv_active w + int (length (sv_queue w))
     \<and> sv_started w' = sv_started w @ map (\<lambda>r. (r, None)) (sv_queue w)"
proof (induction "sv_queue w" arbitrary: w)
  case Nil
  then show ?case by (intro exI [of _ w]) simp
next
  case (Cons r q)
  let ?w = "w\<lparr>sv_queue := q, sv_active := sv_active w + 1, sv_started := sv_started w @ [(r, None)]\<rparr>"
  have "server_step h (ps, w) (ps, ?w)" using assms by (intro server_step.take) (simp_all add: take_job_def flip: Cons(2))
  moreover from Cons(1) [of ?w] obtain w' where
    "(server_step h)\<^sup>*\<^sup>* (ps, ?w) (ps, w')" "sv_queue w' = []" "sv_active w' = sv_active w + 1 + int (length q)"
    "sv_started w' = sv_started w @ [(r, None)] @ map (\<lambda>r. (r, None)) q" by auto
  ultimately show ?case using Cons(2) [symmetric] by (intro exI [of _ w']) (auto intro: converse_rtranclp_into_rtranclp)
qed

text \<open>The number of workers does not bound the work: from any state all queued jobs, up to a hundred,
can be started at once, for a worker goes on to the next job without waiting for the one before.\<close>

theorem workers_do_not_limit:
  assumes "0 < hd_max_workers h"
  shows "\<exists>w'. (server_step h)\<^sup>*\<^sup>* (ps, w) (ps, w') \<and> sv_active w' = sv_active w + int (length (sv_queue w)) \<and> sv_queue w' = []"
  using take_all [OF assms, of ps w] by blast

theorem workers_do_not_limit_witness:
  "\<exists>w'. (server_step (demo_handler 1))\<^sup>*\<^sup>* ([], demo_service\<lparr>sv_queue := [0, 1, 2]\<rparr>) ([], w') \<and> sv_active w' = 3"
proof -
  have "sv_active (demo_service\<lparr>sv_queue := [0, 1, 2]\<rparr>) = 0" by (simp add: demo_service_def)
  with workers_do_not_limit [of "demo_handler 1" "[]" "demo_service\<lparr>sv_queue := [0, 1, 2]\<rparr>"] show ?thesis by auto
qed

text \<open>No request is stuck: a handler that waits to queue its job, because the queue is full, can always
go on, and its job enters the queue.\<close>

theorem waiting_request_proceeds:
  assumes "i < length ps" "ps ! i = Send r k" "0 < hd_max_workers h"
  shows "\<exists>p w1 w'. (server_step h)\<^sup>*\<^sup>* (ps, w) (ps[i := p], w') \<and> k w1 = (p, w') \<and> r \<in> set (sv_queue w1)"
proof -
  obtain w0 where w0: "(server_step h)\<^sup>*\<^sup>* (ps, w) (ps, w0)" "sv_queue w0 = []" using take_all [OF assms(3), of ps w] by blast
  let ?w1 = "w0\<lparr>sv_queue := sv_queue w0 @ [r]\<rparr>"
  obtain p w' where k: "k ?w1 = (p, w')" by fastforce
  have "server_step h (ps, w0) (ps[i := p], w')"
    using k w0(2) assms by (intro server_step.send [of i ps r k]) (simp_all add: queue_capacity_def)
  with w0(1) k show ?thesis by (intro exI [of _ p] exI [of _ ?w1] exI [of _ w']) (auto intro: rtranclp.rtrancl_into_rtrancl)
qed

theorem waiting_request_proceeds_witness:
  "\<exists>p w'. (server_step (demo_handler 1))\<^sup>*\<^sup>* ([Send 7 (Pair Return)], demo_service\<lparr>sv_queue := replicate 100 0\<rparr>) ([p], w')
     \<and> 7 \<in> set (sv_queue w')"
  using waiting_request_proceeds [of 0 "[Send 7 (Pair Return)]" 7 "Pair Return" "demo_handler 1" "demo_service\<lparr>sv_queue := replicate 100 0\<rparr>"]
  by auto

section \<open>Restart\<close>

lemma requeue_nothing: "st_repo w = [] \<Longrightarrow> requeue ss w = (Return, w)"
  by (induction ss) (simp_all add: GetJob_def repo_Get_def)

text \<open>No job survives a restart: whatever states of unfinished jobs lie in the output directory, a server
that starts finds them and queues none of them, since the jobs themselves are kept in memory only.\<close>

theorem restart_resumes_nothing:
  assumes "new_server w"
  shows "\<exists>w1. boot h w = ([Return], w1) \<and> st_repo w1 = [] \<and> sv_queue w1 = []"
proof -
  have f: "os_frame w (snd (FindOrphanedJobs (hd_cfg h) w))" by (rule osf_api(3) [OF os_frame_refl])
  then have "st_repo (snd (FindOrphanedJobs (hd_cfg h) w)) = []" "sv_queue (snd (FindOrphanedJobs (hd_cfg h) w)) = []"
    using os_frame_store [OF f] core_os [OF f] assms by (simp_all add: new_server_def core_def)
  then show ?thesis
    by (auto simp: boot_def resumeOrphanedJobs_def case_prod_beta Let_def requeue_nothing split: sum.split)
qed

theorem restart_resumes_nothing_witness:
  "\<exists>w1. boot (demo_handler 1) demo_service = ([Return], w1) \<and> sv_queue w1 = []"
  using restart_resumes_nothing [of demo_service "demo_handler 1"] by auto

end
