(* ===== verification/Submission.thy ===== *)
theory Submission
  imports Server_Props
begin

text \<open>
  What the handlers do to the jobs: a submission, a resumption, and a batch; and what the limiter
  does to a request.
\<close>

section \<open>Replies and jobs\<close>

lemma answer_with_spec:
  "\<exists>rp. fst (answer_with rq m d w) = Reply rp \<and> rp_status rp = 200 \<and> job_view (snd (answer_with rq m d w)) = job_view w"
  by (simp_all add: answer_with_def replies_def SendSuccessWithMessage_def NewSuccessResponseWithMessage_def format_now_def
      SendJSON_def Let_def case_prod_beta)

lemma reject_spec:
  "\<exists>rp w'. reject n rq c m d w = (Reply rp, w') \<and> rp_status rp = n \<and> job_view w' = job_view w \<and> core w' = core w
     \<and> sv_batches w' = sv_batches w"
  by (auto simp: reject_def replies_def SendError_def NewErrorResponse_def format_now_def SendJSON_def Let_def case_prod_beta
      time_now_def core_def)

lemma CreateJob_view:
  assumes "store_wf w"
  shows "case fst (CreateJob cfg p c w) of
      Inl e \<Rightarrow> job_view (snd (CreateJob cfg p c w)) = job_view w
    | Inr r \<Rightarrow> \<exists>i. job_view w i = None \<and> lookup (st_repo (snd (CreateJob cfg p c w))) i = Some r
        \<and> job_view (snd (CreateJob cfg p c w)) = (job_view w)(i \<mapsto> new_job cfg p c (clock w (tick w)))"
proof (cases "job_view w (job_id_at (clock w (tick w)))")
  case None
  from CreateJob_fresh [OF assms this, of cfg p c] show ?thesis
    using None by (auto simp: GetJob_def repo_Get_def split: option.splits)
next
  case (Some j)
  let ?w2 = "snd (alloc (new_job cfg p c (clock w (tick w))) (snd (time_now w)))"
  have a: "store_wf ?w2" "job_view ?w2 = job_view w"
    using alloc_store [of "snd (time_now w)" "new_job cfg p c (clock w (tick w))"] assms by simp_all
  have d: "deref ?w2 (st_next w) = new_job cfg p c (clock w (tick w))"
    using alloc_simps(3) [of "new_job cfg p c (clock w (tick w))" "snd (time_now w)"] by simp
  have "repo_Create (st_next w) ?w2 = (Inl ErrJobAlreadyExists, ?w2)"
    using mem.create_dup [OF a(1), of "st_next w"] Some a(2) d by (simp add: new_job_def)
  then show ?thesis using alloc_simps(1) [of "new_job cfg p c (clock w (tick w))" "snd (time_now w)"] a
    by (simp add: CreateJob_eq case_prod_beta Let_def)
qed

section \<open>Submission\<close>

definition refused_or_queued :: "request \<Rightarrow> 'a server_scheme \<Rightarrow> 'a server_scheme prog \<times> 'a server_scheme \<Rightarrow> bool" where
  "refused_or_queued rq w pw \<longleftrightarrow> (case pw of
      (Reply rp, w') \<Rightarrow> rp_status rp \<in> {400, 500, 503} \<and> job_view w' = job_view w \<and> core w' = core w
    | (Return, w') \<Rightarrow> False
    | (Send r k, w') \<Rightarrow> \<exists>i req j. decode_body set_transcode_request zero_transcode_request (rq_body rq) = Inr req
        \<and> tr_input_path req \<noteq> [] \<and> job_view w i = None \<and> lookup (st_repo w') i = Some r \<and> job_view w' = (job_view w)(i \<mapsto> j)
        \<and> j_id j = i \<and> j_status j = QUEUED \<and> j_input_path j = tr_input_path req \<and> core w' = core w
        \<and> (\<forall>v. \<exists>rp. fst (k v) = Reply rp \<and> rp_status rp = 200 \<and> job_view (snd (k v)) = job_view v))"

lemma refused:
  assumes "n \<in> {400, 500, 503}" "job_view w1 = job_view w" "core w1 = core w"
  shows "refused_or_queued rq w (reject n rq c m d w1)"
  using reject_spec [of n rq c m d w1] assms by (auto simp: refused_or_queued_def)

lemma roq_struct:
  "(\<And>e. x = Inl e \<Longrightarrow> refused_or_queued rq w (f e)) \<Longrightarrow> (\<And>v. x = Inr v \<Longrightarrow> refused_or_queued rq w (g v)) \<Longrightarrow>
     refused_or_queued rq w (case x of Inl e \<Rightarrow> f e | Inr v \<Rightarrow> g v)"
  "(c \<Longrightarrow> refused_or_queued rq w a) \<Longrightarrow> (\<not> c \<Longrightarrow> refused_or_queued rq w b) \<Longrightarrow> refused_or_queued rq w (if c then a else b)"
  by (auto split: sum.split)

lemma CreateJob_http_spec:
  assumes "tame_server h" "store_wf w"
  shows "refused_or_queued rq w (CreateJob_http h rq w)"
proof -
  let ?run = "uc_run (hd_use_case h)" and ?w1 = "snd (CanAcceptNewJob (hd_cfg h) w)"
  have run: "tame ?run" using assms(1) by (simp add: tame_server_def)
  have f1: "os_frame w ?w1" by (rule osf_api(1) [OF os_frame_refl])
  have f2: "os_frame w (snd (ValidateFile ?run p ?w1))" for p by (rule osf_validate [OF run f1])
  note v1 = os_frame_job_view [OF f1] core_os [OF f1] and v2 = os_frame_job_view [OF f2] core_os [OF f2]
  have created: "refused_or_queued rq w (case CreateJob (hd_cfg h) (tr_input_path req) (tr_chunk_duration req) w2 of
      (Inl e, w3) \<Rightarrow> reject 500 rq c m (d e) w3 | (Inr r, w3) \<Rightarrow> (Send r (\<lambda>w. answer_with rq m' (x r w) w), w3))"
    if w2: "job_view w2 = job_view w" "store_wf w2" "core w2 = core w" and req: "tr_input_path req \<noteq> []"
      "decode_body set_transcode_request zero_transcode_request (rq_body rq) = Inr req" for req w2 c m m' d x
  proof -
    let ?n = "new_job (hd_cfg h) (tr_input_path req) (tr_chunk_duration req) (clock w2 (tick w2))"
    obtain y w3 where y: "CreateJob (hd_cfg h) (tr_input_path req) (tr_chunk_duration req) w2 = (y, w3)" by fastforce
    have c3: "core w3 = core w" using core_store(2) [of "hd_cfg h" "tr_input_path req" "tr_chunk_duration req" w2] y w2(3) by simp
    show ?thesis
    proof (cases y)
      case (Inl e)
      then have "job_view w3 = job_view w" using CreateJob_view [OF w2(2), of "hd_cfg h" "tr_input_path req" "tr_chunk_duration req"] y w2(1) by simp
      with Inl c3 show ?thesis by (simp add: y refused)
    next
      case (Inr r)
      then obtain i where i: "job_view w i = None" "lookup (st_repo w3) i = Some r" "job_view w3 = (job_view w)(i \<mapsto> ?n)"
        using CreateJob_view [OF w2(2), of "hd_cfg h" "tr_input_path req" "tr_chunk_duration req"] y w2(1) by auto
      have "store_wf w3" using store_wf_service [OF w2(2), of "hd_cfg h" "tr_input_path req" "tr_chunk_duration req"] y by simp
      from store_wf_repo [OF this i(2)] i(2,3) have "j_id ?n = i" by (auto simp: job_view_def fun_eq_iff split: if_splits)
      moreover have "j_status ?n = QUEUED" "j_input_path ?n = tr_input_path req" by (simp_all add: new_job_def)
      ultimately show ?thesis using Inr i c3 req answer_with_spec unfolding y refused_or_queued_def by simp blast
    qed
  qed
  show ?thesis unfolding CreateJob_http_def Let_def case_prod_beta
    by (intro roq_struct refused created [unfolded case_prod_beta]) (simp_all add: v1 v2 assms(2))
qed

text \<open>C2. A submission is refused with 400, 500 or 503 and leaves no job and nothing in the queue, or it has
a body with an input path, stores one new job for this path under a new identifier, as QUEUED, and
stands before the queue with exactly this job, to be answered with 200 once the job is in the queue.\<close>

theorem submission_spec:
  assumes "tame_server h" "store_wf w"
  shows "case CreateJob_http h rq w of
      (Reply rp, w') \<Rightarrow> rp_status rp \<in> {400, 500, 503} \<and> job_view w' = job_view w \<and> core w' = core w
    | (Return, w') \<Rightarrow> False
    | (Send r k, w') \<Rightarrow> \<exists>i req j. decode_body set_transcode_request zero_transcode_request (rq_body rq) = Inr req
        \<and> tr_input_path req \<noteq> [] \<and> job_view w i = None \<and> lookup (st_repo w') i = Some r \<and> job_view w' = (job_view w)(i \<mapsto> j)
        \<and> j_id j = i \<and> j_status j = QUEUED \<and> j_input_path j = tr_input_path req \<and> core w' = core w
        \<and> (\<forall>v. \<exists>rp. fst (k v) = Reply rp \<and> rp_status rp = 200 \<and> job_view (snd (k v)) = job_view v)"
  using CreateJob_http_spec [OF assms, of rq] unfolding refused_or_queued_def .

section \<open>Resumption\<close>

text \<open>C18. Only a job that is FAILED or INTERRUPTED can be resumed: it is set to QUEUED and stands before the
queue, with everything else of it as it was, its old error and end time included; any other job is
refused with 400, an unknown one with 404, and no job is changed.\<close>

theorem resumption_spec:
  assumes "store_wf w"
  shows "case job_view w (rq_var rq) of
      None \<Rightarrow> (\<exists>rp w'. ResumeJob_http rq w = (Reply rp, w') \<and> rp_status rp = 404 \<and> job_view w' = job_view w)
    | Some j \<Rightarrow>
        if j_status j = FAILED \<or> j_status j = INTERRUPTED
        then \<exists>r k w'. ResumeJob_http rq w = (Send r k, w') \<and> lookup (st_repo w) (rq_var rq) = Some r
               \<and> job_view w' = (job_view w)(rq_var rq \<mapsto> j\<lparr>j_status := QUEUED\<rparr>)
        else \<exists>rp w'. ResumeJob_http rq w = (Reply rp, w') \<and> rp_status rp = 400 \<and> job_view w' = job_view w"
proof (cases "lookup (st_repo w) (rq_var rq)")
  case None
  with reject_spec [of 404 rq CodeJobNotFound "''Job not found''" "[(''jobId'', Some (JStr (rq_var rq)))]" w] show ?thesis
    by (auto simp: ResumeJob_http_def GetJob_def repo_Get_def job_view_def not_found_def)
next
  case (Some r)
  then have v: "job_view w (rq_var rq) = Some (deref w r)" by (simp add: job_view_def)
  have "job_view (snd (UpdateStatus (rq_var rq) QUEUED w)) = (job_view w)(rq_var rq \<mapsto> (deref w r)\<lparr>j_status := QUEUED\<rparr>)"
    using UpdateStatus_Some [OF assms v, of QUEUED] by (simp add: status_change_def)
  moreover have "\<exists>rp w'. reject 400 rq c m d w = (Reply rp, w') \<and> rp_status rp = 400 \<and> job_view w' = job_view w" for c m d
    using reject_spec [of 400 rq c m d w] by blast
  ultimately show ?thesis using Some v by (auto simp: ResumeJob_http_def GetJob_def repo_Get_def Let_def case_prod_beta)
qed

section \<open>Batches\<close>

text \<open>A program and up to \<open>n\<close> of its sends, one after the other with nothing in between, while there is room.\<close>

fun deliver :: "nat \<Rightarrow> 'a server_scheme prog \<times> 'a server_scheme \<Rightarrow> 'a server_scheme prog \<times> 'a server_scheme" where
  "deliver (Suc n) (Send r k, w) =
     (if length (sv_queue w) < queue_capacity then deliver n (k (w\<lparr>sv_queue := sv_queue w @ [r]\<rparr>)) else (Send r k, w))"
| "deliver _ x = x"

lemma deliver_reply [simp]: "deliver n (Reply rp, w) = (Reply rp, w)"
  by (cases n) simp_all

lemma deliver_send:
  assumes "deliver n (Send r k, w) = (Reply rp, w')"
  shows "\<exists>m. n = Suc m \<and> deliver m (k (w\<lparr>sv_queue := sv_queue w @ [r]\<rparr>)) = (Reply rp, w')"
  using assms by (cases n) (auto split: if_splits)

text \<open>This is a run of the server.\<close>

lemma deliver_steps: "(server_step h)\<^sup>*\<^sup>* ([fst x], snd x) ([fst (deliver n x)], snd (deliver n x))"
proof (induction n x rule: deliver.induct)
  case (1 n r k w)
  show ?case
  proof (cases "length (sv_queue w) < queue_capacity")
    case True
    let ?y = "k (w\<lparr>sv_queue := sv_queue w @ [r]\<rparr>)"
    have "server_step h ([Send r k], w) ([Send r k][0 := fst ?y], snd ?y)"
      by (rule server_step.send) (use True in simp_all)
    then have "server_step h ([Send r k], w) ([fst ?y], snd ?y)" by simp
    with 1 [OF True] True show ?thesis by (auto intro: converse_rtranclp_into_rtranclp)
  qed simp
qed simp_all

text \<open>What a world keeps of the jobs of another one.\<close>

definition keeps_jobs :: "'a server_scheme \<Rightarrow> 'a server_scheme \<Rightarrow> bool" where
  "keeps_jobs w w' \<longleftrightarrow> (\<forall>i j. job_view w i = Some j \<longrightarrow> job_view w' i = Some j \<and> lookup (st_repo w') i = lookup (st_repo w) i)"

lemma keeps_jobs_same: "job_view w' = job_view w \<Longrightarrow> st_repo w' = st_repo w \<Longrightarrow> keeps_jobs w w'"
  by (simp add: keeps_jobs_def)

lemma keeps_jobs_trans: "keeps_jobs u v \<Longrightarrow> keeps_jobs v w \<Longrightarrow> keeps_jobs u w"
  by (auto simp: keeps_jobs_def)

lemma CreateJob_repo: "lookup (st_repo w) i = Some r \<Longrightarrow> lookup (st_repo (snd (CreateJob cfg p c w))) i = Some r"
  by (auto simp: CreateJob_eq alloc_def repo_Create_def case_prod_beta Let_def split: option.split)

lemma CreateJob_queued:
  assumes "store_wf w" "CreateJob cfg p c w = (Inr r, w')"
  shows "keeps_jobs w w' \<and> store_wf w' \<and> core w' = core w \<and> sv_batches w' = sv_batches w
    \<and> (\<exists>i j. job_view w i = None \<and> lookup (st_repo w') i = Some r \<and> job_view w' i = Some j \<and> j_status j = QUEUED \<and> j_input_path j = p)"
proof -
  from CreateJob_view [OF assms(1), of cfg p c] assms(2) obtain i where
    i: "job_view w i = None" "lookup (st_repo w') i = Some r" "job_view w' = (job_view w)(i \<mapsto> new_job cfg p c (clock w (tick w)))" by auto
  have "keeps_jobs w w'"
    unfolding keeps_jobs_def using i CreateJob_repo [of w _ _ cfg p c] assms(2)
    by (auto simp: job_view_def [of w])
  moreover have "store_wf w'" "core w' = core w" using store_wf_service [OF assms(1), of cfg p c] core_store(2) [of cfg p c w] assms(2) by simp_all
  moreover have "sv_batches w' = sv_batches w"
    using assms(2) by (auto simp: CreateJob_eq alloc_def repo_Create_def time_now_def case_prod_beta Let_def split: option.splits)
  moreover have "j_status (new_job cfg p c t) = QUEUED" "j_input_path (new_job cfg p c t) = p" for t by (simp_all add: new_job_def)
  ultimately show ?thesis using i by auto
qed

text \<open>What a request that is refused leaves behind: the jobs of its first files, queued, and nothing else.\<close>

definition leaves_queued :: "string list \<Rightarrow> jref list \<Rightarrow> 'a server_scheme \<Rightarrow> 'a server_scheme \<Rightarrow> bool" where
  "leaves_queued files js w w' \<longleftrightarrow> length js \<le> length files \<and> sv_queue w' = sv_queue w @ js \<and> sv_batches w' = sv_batches w
     \<and> keeps_jobs w w'
     \<and> (\<forall>n<length js. \<exists>i j. job_view w i = None \<and> lookup (st_repo w') i = Some (js ! n) \<and> job_view w' i = Some j
          \<and> j_status j = QUEUED \<and> j_input_path j = files ! n)"

lemma leaves_queued_Cons:
  assumes "CreateJob cfg f c w1 = (Inr r, w2)" "store_wf w" "os_frame w w1"
    and "leaves_queued files js (w2\<lparr>sv_queue := sv_queue w2 @ [r]\<rparr>) w'"
  shows "leaves_queued (f # files) (r # js) w w'"
proof -
  let ?u = "w2\<lparr>sv_queue := sv_queue w2 @ [r]\<rparr>"
  note f = os_frame_job_view [OF assms(3)] os_frame_store [OF assms(3)] core_os [OF assms(3)]
  have "sv_batches w1 = sv_batches w" using assms(3) by (auto simp: os_frame_def)
  with CreateJob_queued [OF _ assms(1)] f assms(2) obtain i j where c: "keeps_jobs w1 w2" "core w2 = core w" "sv_batches w2 = sv_batches w"
    "job_view w i = None" "lookup (st_repo w2) i = Some r" "job_view w2 i = Some j" "j_status j = QUEUED" "j_input_path j = f" by auto
  have d: "deref (w2\<lparr>sv_queue := q\<rparr>) = deref w2" for q by (simp add: deref_def fun_eq_iff)
  have u: "job_view ?u = job_view w2" "st_repo ?u = st_repo w2" by (simp_all add: job_view_def fun_eq_iff d)
  have k: "keeps_jobs w ?u" using c(1) f u by (simp add: keeps_jobs_def)
  have 0: "lookup (st_repo w') i = Some r \<and> job_view w' i = Some j" using assms(4) c(5,6) u by (simp add: leaves_queued_def keeps_jobs_def)
  have "\<exists>i j. job_view w i = None \<and> lookup (st_repo w') i = Some ((r # js) ! n) \<and> job_view w' i = Some j
      \<and> j_status j = QUEUED \<and> j_input_path j = (f # files) ! n" if "n < length (r # js)" for n
  proof (cases n)
    case 0
    then show ?thesis using \<open>lookup (st_repo w') i = Some r \<and> job_view w' i = Some j\<close> c(4,7,8) by auto
  next
    case (Suc m)
    with that have "m < length js" by simp
    with assms(4) obtain l x where "job_view ?u l = None" "lookup (st_repo w') l = Some (js ! m)" "job_view w' l = Some x" "j_status x = QUEUED" "j_input_path x = files ! m"
      unfolding leaves_queued_def by blast
    moreover from this(1) k have "job_view w l = None" by (cases "job_view w l") (auto simp: keeps_jobs_def)
    ultimately show ?thesis using Suc by auto
  qed
  moreover have "keeps_jobs w w'" using k assms(4) by (auto simp: leaves_queued_def intro: keeps_jobs_trans)
  ultimately show ?thesis using assms(4) c(2,3) by (simp add: leaves_queued_def core_def)
qed

lemma reject_left:
  assumes "reject n rq c m d v = (Reply rp, w')" "job_view v = job_view w" "st_repo v = st_repo w" "core v = core w" "sv_batches v = sv_batches w"
  shows "rp_status rp = n \<and> leaves_queued files [] w w'"
proof -
  have "st_repo w' = st_repo v"
    using assms(1) by (auto simp: reject_def replies_def SendError_def NewErrorResponse_def format_now_def SendJSON_def time_now_def Let_def case_prod_beta)
  with reject_spec [of n rq c m d v] assms show ?thesis
    by (auto simp: leaves_queued_def core_def intro: keeps_jobs_same)
qed

lemma store_batch_left:
  assumes "store_batch rq i md js w = (Reply rp, w')" "rp_status rp \<noteq> 200"
  shows "rp_status rp = 500 \<and> leaves_queued files [] w w'"
proof -
  obtain x bs w1 where x: "CreateBatch i js md (sv_batches w) w = ((x, bs), w1)" by (metis prod.collapse)
  let ?w2 = "w1\<lparr>sv_batches := bs\<rparr>"
  show ?thesis
  proof (cases x)
    case (Inl e)
    with x have "?w2 = w" by (auto simp: CreateBatch_def Let_def case_prod_beta split: if_splits)
    with assms(1) Inl have "reject 500 rq CodeInternalError ''Failed to create batch'' (reason (error_text e)) w = (Reply rp, w')"
      by (simp add: store_batch_def x)
    from reject_left [OF this] show ?thesis by simp
  next
    case (Inr b)
    then obtain d where "store_batch rq i md js w = answer_with rq ''Batch job created successfully'' d ?w2"
      by (simp add: store_batch_def x Let_def)
    with assms answer_with_spec [of rq "''Batch job created successfully''" d ?w2] show ?thesis by auto
  qed
qed

lemma store_batch_replies: "\<exists>rp. fst (store_batch rq i md js w) = Reply rp"
proof -
  obtain x bs w1 where x: "CreateBatch i js md (sv_batches w) w = ((x, bs), w1)" by (metis prod.collapse)
  show ?thesis
  proof (cases x)
    case (Inl e)
    from reject_spec [of 500 rq CodeInternalError "''Failed to create batch''" "reason (error_text e)" "w1\<lparr>sv_batches := bs\<rparr>"] Inl
    show ?thesis by (auto simp: store_batch_def x)
  next
    case (Inr b)
    then obtain d where "store_batch rq i md js w = answer_with rq ''Batch job created successfully'' d (w1\<lparr>sv_batches := bs\<rparr>)"
      by (simp add: store_batch_def x Let_def)
    with answer_with_spec [of rq "''Batch job created successfully''" d "w1\<lparr>sv_batches := bs\<rparr>"] show ?thesis by metis
  qed
qed

lemma batch_loop_left:
  assumes "tame (uc_run (hd_use_case h))"
    and "deliver n (batch_loop h rq c (store_batch rq b md) files acc w) = (Reply rp, w')" "rp_status rp \<noteq> 200" "store_wf w"
  shows "\<exists>js. leaves_queued files js w w'
    \<and> (rp_status rp = 400 \<longrightarrow> length js < length files \<and> (\<exists>v e. fst (ValidateFile (uc_run (hd_use_case h)) (files ! length js) v) = Inl e))"
  using assms(2-)
proof (induction files arbitrary: n acc w)
  case Nil
  from store_batch_replies [of rq b md acc w] obtain rp0 u where p: "store_batch rq b md acc w = (Reply rp0, u)" by (metis prod.collapse)
  with Nil.prems(1) have "store_batch rq b md acc w = (Reply rp, w')" by simp
  from store_batch_left [OF this Nil.prems(2), of "[]"] show ?case by (intro exI [of _ "[]"]) simp
next
  case (Cons f files)
  obtain x w1 where x: "ValidateFile (uc_run (hd_use_case h)) f w = (x, w1)" by fastforce
  have fr: "os_frame w w1" using osf_validate [OF assms(1) os_frame_refl, of w f] x by simp
  note same = os_frame_job_view [OF fr] os_frame_store [OF fr] core_os [OF fr]
  have bt: "sv_batches w1 = sv_batches w" using fr by (auto simp: os_frame_def)
  show ?case
  proof (cases x)
    case (Inl e)
    from reject_spec [of 400 rq CodeInvalidVideo "''File validation failed for '' @ f" "reason (ve_message e)" w1] obtain rp0 u where
      r: "reject 400 rq CodeInvalidVideo (''File validation failed for '' @ f) (reason (ve_message e)) w1 = (Reply rp0, u)" by blast
    with Cons.prems(1) x Inl have "rp0 = rp" "u = w'" by simp_all
    with reject_left [OF r, of w "f # files"] same bt have "leaves_queued (f # files) [] w w'" by simp
    moreover have "fst (ValidateFile (uc_run (hd_use_case h)) ((f # files) ! length []) w) = Inl e" using x Inl by simp
    ultimately show ?thesis by (intro exI [of _ "[]"]) auto
  next
    case (Inr u)
    obtain y w2 where y: "CreateJob (hd_cfg h) f c w1 = (y, w2)" by fastforce
    show ?thesis
    proof (cases y)
      case (Inl e)
      then have v2: "job_view w2 = job_view w1" using CreateJob_view [of w1 "hd_cfg h" f c] y same Cons.prems(3) by simp
      have "st_repo w2 = st_repo w1" "core w2 = core w1" "sv_batches w2 = sv_batches w1"
        using y Inl by (auto simp: CreateJob_eq alloc_def repo_Create_def time_now_def core_def case_prod_beta Let_def split: option.splits)
      moreover from reject_spec [of 500 rq CodeInternalError "''Failed to create job for '' @ f" "reason (error_text e)" w2] obtain rp0 u where
        r: "reject 500 rq CodeInternalError (''Failed to create job for '' @ f) (reason (error_text e)) w2 = (Reply rp0, u)" by blast
      moreover from Cons.prems(1) x y Inr Inl r have "rp0 = rp" "u = w'" by simp_all
      ultimately have "rp_status rp = 500 \<and> leaves_queued (f # files) [] w w'" using reject_left [OF r, of w "f # files"] same bt v2 by simp
      then show ?thesis by (intro exI [of _ "[]"]) simp
    next
      case (Inr r)
      let ?u = "w2\<lparr>sv_queue := sv_queue w2 @ [r]\<rparr>"
      have "deliver n (Send r (batch_loop h rq c (store_batch rq b md) files (acc @ [r])), w2) = (Reply rp, w')"
        using Cons.prems(1) x y \<open>x = Inr u\<close> Inr by simp
      from deliver_send [OF this] obtain m where m: "deliver m (batch_loop h rq c (store_batch rq b md) files (acc @ [r]) ?u) = (Reply rp, w')" by blast
      have "store_wf ?u" using CreateJob_queued [of w1 "hd_cfg h" f c r w2] y Inr same Cons.prems(3) by (simp add: store_wf_def)
      from Cons.IH [OF m Cons.prems(2) this] obtain js where js: "leaves_queued files js ?u w'"
        "rp_status rp = 400 \<longrightarrow> length js < length files \<and> (\<exists>v e. fst (ValidateFile (uc_run (hd_use_case h)) (files ! length js) v) = Inl e)" by blast
      have "leaves_queued (f # files) (r # js) w w'"
        by (rule leaves_queued_Cons [OF _ Cons.prems(3) fr js(1)]) (use y Inr in simp)
      with js(2) show ?thesis by (intro exI [of _ "r # js"]) simp
    qed
  qed
qed


section \<open>The limiter\<close>

text \<open>No route escapes the limiter, the health page included: a request of a client whose bucket is empty
is answered with 429 before its handler runs, and no job, queue or batch changes.\<close>

theorem every_route_is_limited:
  assumes "find_route SetupRoutes (wr_method q) (tl (split_on CHR ''/'' (rq_path (wr_http q)))) False = Handler e x"
    and "\<not> fst (allow (clock w (tick w)) (clock w (Suc (tick w))) (getClientIP (wr_http q)) (sv_limiter w))"
  shows "\<exists>rp w'. serve h q w = (Reply rp, w') \<and> rp_status rp = 429 \<and> job_view w' = job_view w \<and> core w' = core w
    \<and> sv_batches w' = sv_batches w"
proof -
  let ?w2 = "snd (time_now (snd (time_now w)))"
  have t: "fst (time_now (snd (time_now w))) = clock w (Suc (tick w))" "sv_limiter ?w2 = sv_limiter w" "job_view ?w2 = job_view w"
    "core ?w2 = core w" "sv_batches ?w2 = sv_batches w"
    by (simp_all add: time_now_def core_def)
  obtain rl where "allow (clock w (tick w)) (clock w (Suc (tick w))) (getClientIP (wr_http q)) (sv_limiter w) = (False, rl)"
    using assms(2) by (metis prod.collapse)
  then have m: "Middleware (clock w (tick w)) (clock w (Suc (tick w))) (wr_http q) (sv_limiter w)
      = (Reject ''Rate limit exceeded. Please try again later.'' 429, rl)"
    by (simp add: Middleware_def)
  have lim: "job_view (v\<lparr>sv_limiter := rl\<rparr>) = job_view v" for v :: "'a service_scheme"
  proof -
    have "deref (v\<lparr>sv_limiter := rl\<rparr>) = deref v" by (simp add: deref_def fun_eq_iff)
    then show ?thesis by (intro ext) (simp add: job_view_def)
  qed
  have j: "job_view (?w2\<lparr>sv_limiter := rl\<rparr>) = job_view w" "core (?w2\<lparr>sv_limiter := rl\<rparr>) = core w"
    using t by (simp_all add: lim core_def)
  have c: "clock (snd (time_now w)) = clock w" "tick (snd (time_now w)) = Suc (tick w)" by (simp_all add: time_now_def)
  show ?thesis unfolding serve_def assms(1) case_prod_beta Let_def fst_time_now c t m using j t by simp
qed

section \<open>Witnesses\<close>

text \<open>A prober for which every file is a valid video.\<close>

definition media_runner :: "'w runner" where
  "media_runner c as w =
     (if ''format=format_name'' \<in> set as
      then (\<lparr>cr_started = True, cr_error = None, cr_stdout = ''avi'', cr_stderr = []\<rparr>, w)
      else if ''json'' \<in> set as
      then (\<lparr>cr_started = True, cr_error = None,
              cr_stdout = quote @ ''codec_type'' @ quote @ '': '' @ quote @ ''video'' @ quote, cr_stderr = []\<rparr>, w)
      else demo_runner c as w)"

definition media_handler :: "service handler" where
  "media_handler = (demo_handler 1)\<lparr>hd_use_case := (hd_use_case (demo_handler 1))\<lparr>uc_run := media_runner\<rparr>\<rparr>"

definition text_request :: "string \<Rightarrow> json \<Rightarrow> request" where
  "text_request i j = \<lparr>rq_id = ''r1'', rq_var = i, rq_body = \<lparr>jt_tree = Inr j, jt_mismatch = []\<rparr>, rq_upgrade = None\<rparr>"

lemma media_tame [simp]: "tame_server media_handler"
  by (simp add: tame_server_def media_handler_def demo_handler_def tame_def media_runner_def demo_runner_def)

lemma media_output:
  "''format=format_name'' \<notin> set as \<Longrightarrow> ''json'' \<notin> set as \<Longrightarrow> media_runner c as = demo_runner c as"
  by (rule ext) (simp add: media_runner_def)

lemma media_info:
  fixes w :: 'w
  shows "\<exists>i. GetVideoInfo media_runner ''in.mp4'' w = (Inr i, w) \<and> vi_width i = 640 \<and> vi_height i = 480 \<and> vi_duration i = Fin 10"
proof -
  have "HasAudioStream media_runner ''in.mp4'' = (HasAudioStream demo_runner ''in.mp4'' :: 'w \<Rightarrow> _)"
    by (rule ext) (simp add: HasAudioStream_def cmd_output_def media_output)
  moreover have "cmd_output media_runner ''ffprobe'' [''-v'', ''quiet'', ''-select_streams'', ''v:0'', ''-show_entries'',
       ''stream=width,height:format=duration'', ''-of'', ''default=noprint_wrappers=1:nokey=1'', ''in.mp4''] w
    = cmd_output demo_runner ''ffprobe'' [''-v'', ''quiet'', ''-select_streams'', ''v:0'', ''-show_entries'',
       ''stream=width,height:format=duration'', ''-of'', ''default=noprint_wrappers=1:nokey=1'', ''in.mp4''] w"
    by (simp add: cmd_output_def media_output)
  ultimately have "GetVideoInfo media_runner ''in.mp4'' w = GetVideoInfo demo_runner ''in.mp4'' w"
    by (simp only: GetVideoInfo_def)
  with demo_info [of "''in.mp4''" w] show ?thesis by simp
qed

lemma media_checks_pass: "all_checks (media_checks media_runner ''in.mp4'') w = (Inr (), w)"
proof -
  have f: "trim_space ''avi'' = ''avi''" by code_simp
  have v: "str_contains (quote @ ''codec_type'' @ quote @ '': '' @ quote @ ''video'' @ quote) (quote @ ''codec_type'' @ quote @ '': '' @ quote @ ''video'' @ quote)"
    by code_simp
  have d: "\<not> flt (Fin 10) MinDuration" using fl_le_int [of "1 / 10" 1] by (simp add: MinDuration_def round64_Fin)
  have "ValidateMimeType media_runner ''in.mp4'' w = (Inr (), w)"
    by (simp add: ValidateMimeType_def GetFileFormat_def cmd_output_def media_runner_def f allowedFormats_def)
  moreover have "check_video_stream media_runner ''in.mp4'' w = (Inr (), w)"
    using v by (simp add: check_video_stream_def ValidateVideoStream_def cmd_output_def media_runner_def)
  moreover have "ValidateResolution media_runner ''in.mp4'' w = (Inr (), w)" "ValidateDuration media_runner ''in.mp4'' w = (Inr (), w)"
    using media_info [of w] d by (auto simp: ValidateResolution_def ValidateDuration_def MaxWidth_default_def MaxHeight_default_def)
  moreover have "check_decode media_runner ''in.mp4'' w = (Inr (), w)"
    by (simp add: check_decode_def TestDecode_def cmd_run_def media_output demo_runner_def)
  ultimately show ?thesis by (simp add: media_checks_def)
qed

theorem submission_spec_witness: "fst (CreateJob_http (demo_handler 1) (text_request [] JNull) demo_service) \<noteq> Return"
  using submission_spec [of "demo_handler 1" demo_service "text_request [] JNull"] by (auto split: prod.splits)

definition failed_service :: service where
  "failed_service = demo_service\<lparr>st_jobs := [(0, zero_job\<lparr>j_id := ''job_1'', j_status := FAILED\<rparr>)], st_repo := [(''job_1'', 0)],
     st_next := 1\<rparr>"

theorem resumption_spec_witness:
  "\<exists>k w'. ResumeJob_http (text_request ''job_1'' JNull) failed_service = (Send 0 k, w')
     \<and> job_view w' ''job_1'' = Some (zero_job\<lparr>j_id := ''job_1'', j_status := QUEUED\<rparr>)"
proof -
  have "store_wf failed_service" "lookup (st_repo failed_service) ''job_1'' = Some 0"
    "job_view failed_service ''job_1'' = Some (zero_job\<lparr>j_id := ''job_1'', j_status := FAILED\<rparr>)"
    by (simp_all add: failed_service_def demo_service_def store_wf_def job_view_def deref_def)
  with resumption_spec [of failed_service "text_request ''job_1'' JNull"] show ?thesis by (auto simp: text_request_def)
qed

abbreviation served :: "nat \<Rightarrow> rate_limiter \<Rightarrow> service" where
  "served n l \<equiv> demo_service\<lparr>tick := n, sv_limiter := l\<rparr>"

lemma valid_file: "\<exists>v. ValidateFile media_runner ''in.mp4'' (served n l) = (Inr (), v) \<and> os_frame (served n l) v"
proof -
  have e: "to_lower (path_ext ''in.mp4'') \<in> set allowedExtensions" "parse_path ''in.mp4'' = (False, [''in.mp4''])" by code_simp+
  have "fst (ValidateFile media_runner ''in.mp4'' (served n l)) = Inr ()"
    using e fl_le_int [of "1000 / 1048576" 1]
    by (simp add: ValidateFile_def FileExists_def GetFileSizeMB_def GetFileSize_def os_stat_def demo_service_def demo_world_def
        media_checks_pass case_prod_beta Let_def advance_def node_size_def content_size_def f_of_int_exact round64_Fin MaxFileSizeMB_default_def)
  moreover have "os_frame (served n l) (snd (ValidateFile media_runner ''in.mp4'' (served n l)))"
    using media_tame by (intro osf_validate) (simp_all add: tame_server_def media_handler_def demo_handler_def)
  ultimately show ?thesis by (metis prod.collapse)
qed

text \<open>The first file of a batch becomes a job.\<close>

definition two_files :: json where
  "two_files = JObj [(''files'', JArr [JStr ''in.mp4'', JStr ''notes.txt'']), (''batchId'', JStr ''b1'')]"

lemma batch_begins:
  assumes "rq_body rq = rq_body (text_request [] two_files)"
  shows "\<exists>r w'. CreateBatchJob media_handler rq (served n l)
      = (Send r (batch_loop media_handler rq 0 (store_batch rq ''b1'' None) [''notes.txt''] [r]), w')
    \<and> (\<exists>i. job_view w' i \<noteq> None) \<and> sv_queue w' = []"
proof -
  let ?req = "\<lparr>br_files = [''in.mp4'', ''notes.txt''], br_batch_id = ''b1'', br_chunk_duration = 0, br_webhook_url = [], br_metadata = None\<rparr>"
  have d: "decode_body set_batch_request zero_batch_request (rq_body (text_request [] two_files)) = Inr ?req" by code_simp
  have m: "uc_run (hd_use_case media_handler) = media_runner" by (simp add: media_handler_def)
  obtain v where v: "ValidateFile media_runner ''in.mp4'' (served n l) = (Inr (), v)" "os_frame (served n l) v" using valid_file by blast
  have wf: "job_view v = Map.empty" "store_wf v"
    using os_frame_job_view [OF v(2)] by (simp_all add: demo_service_def store_wf_def job_view_def fun_eq_iff)
  with CreateJob_fresh [of v "hd_cfg media_handler" "''in.mp4''" 0]
  obtain r w' where c: "CreateJob (hd_cfg media_handler) ''in.mp4'' 0 v = (Inr r, w')" "\<exists>i. job_view w' i \<noteq> None"
    by (metis (no_types, lifting) fun_upd_same option.distinct(1) prod.collapse)
  have b: "CreateBatchJob media_handler rq (served n l)
      = (Send r (batch_loop media_handler rq 0 (store_batch rq ''b1'' None) [''notes.txt''] ([] @ [r])), w')"
    unfolding CreateBatchJob_def assms d sum.case batch_request.simps Let_def by (simp add: m v c del: batch_loop.simps(1))
  have "sv_queue w' = []"
    using core_store(2) [of "hd_cfg media_handler" "''in.mp4''" 0 v] core_os [OF v(2)] c(1) by (simp add: core_def demo_service_def)
  with b c(2) show ?thesis by auto
qed

theorem every_route_is_limited_witness:
  "\<exists>rp w'. serve (demo_handler 1) \<lparr>wr_method = ''GET'', wr_http = \<lparr>rq_forwardedFor = [], rq_realIP = [], rq_remoteAddr = ''10.0.0.1'',
       rq_path = ''/health''\<rparr>, wr_id = ''r1'', wr_uuid = [], wr_body = \<lparr>jt_tree = Inl [], jt_mismatch = []\<rparr>, wr_upgrade = None\<rparr>
     (demo_service\<lparr>sv_limiter := (NewRateLimiter 100 20)\<lparr>rl_visitors := [(''10.0.0.1'', \<lparr>vs_tokens = 0, vs_lastSeen = second\<rparr>)]\<rparr>\<rparr>)
     = (Reply rp, w') \<and> rp_status rp = 429"
proof -
  let ?q = "\<lparr>wr_method = ''GET'', wr_http = \<lparr>rq_forwardedFor = [], rq_realIP = [], rq_remoteAddr = ''10.0.0.1'', rq_path = ''/health''\<rparr>,
    wr_id = ''r1'', wr_uuid = [], wr_body = \<lparr>jt_tree = Inl [], jt_mismatch = []\<rparr>, wr_upgrade = None\<rparr>"
  let ?w = "demo_service\<lparr>sv_limiter := (NewRateLimiter 100 20)\<lparr>rl_visitors := [(''10.0.0.1'', \<lparr>vs_tokens = 0, vs_lastSeen = second\<rparr>)]\<rparr>\<rparr>"
  have "find_route SetupRoutes ''GET'' (tl (split_on CHR ''/'' ''/health'')) False = Handler E_Health []" by code_simp
  moreover have "\<not> fst (allow 0 second ''10.0.0.1'' ((NewRateLimiter 100 20)\<lparr>rl_visitors := [(''10.0.0.1'', \<lparr>vs_tokens = 0, vs_lastSeen = second\<rparr>)]\<rparr>))"
    by (simp add: allow_eq bucket_of_def refill_def tokens_to_add_0 NewRateLimiter_def time_sub_def)
  ultimately show ?thesis
    using every_route_is_limited [of ?q E_Health "[]" ?w "demo_handler 1"] by (auto simp: getClientIP_def demo_service_def demo_world_def)
qed


end
