(* ===== verification/Races.thy ===== *)
theory Races
  imports Submission
begin

text \<open>
  Where the attempts at a job and the requests of clients meet. Between two attempts the worker
  sleeps with the job in its hands; a job whose last attempt ended at the size limit is FAILED
  in this time, and a job that is FAILED can be resumed.
\<close>

section \<open>An attempt that ends at the size limit\<close>

lemma size_check_fails:
  fixes w :: "'a world_scheme"
  assumes "CheckJobSizeLimit cfg i w = (Inr (False, n), w1)" "present i w1"
  shows "fst (checkJobDiskLimit cfg i w) = Inl (Err (''job size limit exceeded: '' @ show_int n @ '' MB''))"
    "status_at i (snd (checkJobDiskLimit cfg i w)) = Some FAILED"
proof -
  let ?e = "\<lparr>je_code = ''ERR_JOB_SIZE_EXCEEDED'', je_stage = ''encoding'',
    je_message = ''Job size exceeded maximum allowed: '' @ show_int n @ '' MB'', je_logs_path = [], je_failed = []\<rparr>"
  let ?w2 = "snd (UpdateStatus i FAILED w1)" and ?w3 = "snd (SetError i ?e (snd (UpdateStatus i FAILED w1)))"
  have p: "present i ?w2" using assms(2) by (simp add: present_ops)
  then obtain j where "store_wf ?w2" "job_view ?w2 i = Some j" by (auto simp: present_def)
  from SetError_Some [OF this, of ?e] have "status_at i ?w3 = Some FAILED" by (auto simp: status_at_def finish_job_def)
  moreover have "status_at i (snd (DeleteJobFiles cfg i ?w3)) = status_at i ?w3" by (rule status_os [OF DeleteJobFiles_frame])
  ultimately show "status_at i (snd (checkJobDiskLimit cfg i w)) = Some FAILED"
    by (simp add: checkJobDiskLimit_def assms(1) case_prod_beta Let_def)
  show "fst (checkJobDiskLimit cfg i w) = Inl (Err (''job size limit exceeded: '' @ show_int n @ '' MB''))"
    by (simp add: checkJobDiskLimit_def assms(1) case_prod_beta Let_def)
qed

text \<open>The state in which an attempt that has nothing to do before the encoding looks at the size.\<close>

definition metrics_started :: "job \<Rightarrow> 'a world_scheme \<Rightarrow> 'a world_scheme" where
  "metrics_started j w = (let (mm, w1) = StartJobMetrics (j_id j) (j_input_path j) (w_metrics w) w in w1\<lparr>w_metrics := mm\<rparr>)"

definition before_size_check :: "'a world_scheme use_case \<Rightarrow> job \<Rightarrow> 'a world_scheme \<Rightarrow> 'a world_scheme" where
  "before_size_check uc j w =
     (let w3 = snd (UpdateStatus (j_id j) RUNNING (snd (LoadState (uc_cfg uc) (j_id j) (metrics_started j w))));
          w4 = snd (GetVideoInfo (uc_run uc) (j_input_path j) w3)
      in broadcastProgress uc (j_id j) ''RUNNING'' 30 ''Starting multi-quality encoding''
           (snd (UpdateProgress (j_id j) 30 ''Starting multi-quality encoding'' w4)))"


lemma process_size_limit:
  assumes "tame (uc_run uc)" "present (j_id j) w"
    and loaded: "fst (LoadState (uc_cfg uc) (j_id j) (metrics_started j w)) = Inr s"
    and steps: "IsStepCompleted s StepHashComputation" "IsStepCompleted s StepDeduplication" "IsStepCompleted s StepAnalysis"
    and info: "fst (GetVideoInfo (uc_run uc) (j_input_path j)
      (snd (UpdateStatus (j_id j) RUNNING (snd (LoadState (uc_cfg uc) (j_id j) (metrics_started j w)))))) = Inr info"
    and limit: "fst (CheckJobSizeLimit (uc_cfg uc) (j_id j) (before_size_check uc j w)) = Inr (False, n)"
  shows "fst (process uc j w) = Inl (Err (''job size limit exceeded: '' @ show_int n @ '' MB''))
    \<and> status_at (j_id j) (snd (process uc j w)) = Some FAILED"
proof -
  let ?i = "j_id j" and ?w1 = "metrics_started j w" and ?v = "before_size_check uc j w"
  let ?w2 = "snd (LoadState (uc_cfg uc) ?i ?w1)"
  let ?w3 = "snd (UpdateStatus ?i RUNNING ?w2)"
  have p2: "present ?i ?w2" using assms(2) by (simp add: metrics_started_def case_prod_beta present_ops)
  then have u: "fst (UpdateStatus ?i RUNNING ?w2) = Inr ()" using UpdateStatus_Some [of ?w2 ?i _ RUNNING] by (auto simp: present_def)
  have pv: "present ?i ?v" unfolding before_size_check_def case_prod_beta Let_def
    by (intro present_ops present_run assms(1) p2)
  then have "present ?i (snd (CheckJobSizeLimit (uc_cfg uc) ?i ?v))" by (rule present_ops)
  with limit obtain v1 where v1: "CheckJobSizeLimit (uc_cfg uc) ?i ?v = (Inr (False, n), v1)" "present ?i v1" by (metis prod.collapse)
  note c = size_check_fails [OF v1]
  have e: "stepEncoding uc j s info (snd (GetVideoInfo (uc_run uc) (j_input_path j) ?w3))
      = (Inl (Err (''job size limit exceeded: '' @ show_int n @ '' MB'')), snd (checkJobDiskLimit (uc_cfg uc) ?i ?v))"
    using c(1) by (simp add: stepEncoding_def begin_encoding_def end_encoding_def case_prod_beta Let_def before_size_check_def)
  have "process uc j w = executeSteps uc j s ?w3"
    using loaded u by (simp add: process_def getOrCreateState_def metrics_started_def case_prod_beta Let_def)
  also have "\<dots> = (Inl (Err (''job size limit exceeded: '' @ show_int n @ '' MB'')), snd (checkJobDiskLimit (uc_cfg uc) ?i ?v))"
    using steps info e by (simp add: executeSteps_def videoInfoFor_def case_prod_beta)
  finally show ?thesis using c(2) by simp
qed

text \<open>The next round is not the last one: the error is retried, after a pause.\<close>

lemma size_limit_round:
  assumes "fst (process uc j w) = Inl (Err (''job size limit exceeded: '' @ x @ '' MB''))" "rd_attempt t = 0" "rd_left t = Suc l"
  shows "\<exists>e. one_round uc (process uc j) i t w =
    (Inr \<lparr>rd_left = l, rd_attempt = 1, rd_error = Some e, rd_code = ''ERR_FFMPEG_FAILED''\<rparr>, snd (process uc j w))"
proof -
  let ?e = "Err (''job size limit exceeded: '' @ x @ '' MB'')"
  have c: "extractErrorCode ?e = ''ERR_FFMPEG_FAILED''"
    by (rule extractErrorCode_other) (simp add: contains_iff suffix_to_prefix)
  have "\<not> panics ?e" by (simp add: panics_other)
  with assms c show ?thesis by (simp add: one_round_def case_prod_beta)
qed

section \<open>Resumed while its worker sleeps\<close>

lemma resume_failed:
  assumes "lookup (st_repo w) (rq_var rq) = Some r" "j_status (deref w r) = FAILED"
  shows "\<exists>c. ResumeJob_http rq w = (Send r c, snd (UpdateStatus (rq_var rq) QUEUED w))"
  using assms by (simp add: ResumeJob_http_def GetJob_def repo_Get_def case_prod_beta Let_def)

text \<open>A request that the limiter lets pass.\<close>

definition request_of :: "web_request \<Rightarrow> string \<Rightarrow> request" where
  "request_of q v = \<lparr>rq_id = RequestID (wr_uuid q) (wr_id q), rq_var = v, rq_body = wr_body q, rq_upgrade = wr_upgrade q\<rparr>"

lemma request_of_simps [simp]: "rq_var (request_of q v) = v" "rq_body (request_of q v) = wr_body q"
  by (simp_all add: request_of_def)

lemma serve_admitted:
  fixes w :: "'a service_scheme"
  assumes "find_route SetupRoutes (wr_method q) (tl (split_on CHR ''/'' (rq_path (wr_http q)))) False = Handler e v"
    "fst (Middleware (fst (time_now w)) (fst (time_now (snd (time_now w)))) (wr_http q) (sv_limiter w)) = Next"
  shows "\<exists>l. serve h q w = dispatch h e (request_of q v) (w\<lparr>tick := tick w + 2, sv_limiter := l\<rparr>)"
proof -
  have "sv_limiter (snd (time_now (snd (time_now w)))) = sv_limiter w" by (simp add: time_now_def)
  with assms show ?thesis unfolding serve_def request_of_def
    by (intro exI [of _ "snd (Middleware (fst (time_now w)) (fst (time_now (snd (time_now w)))) (wr_http q) (sv_limiter w))"])
      (simp add: time_now_def case_prod_beta Let_def)
qed

lemma serve_resume:
  assumes "find_route SetupRoutes (wr_method q) (tl (split_on CHR ''/'' (rq_path (wr_http q)))) False = Handler E_ResumeJob k"
    "fst (Middleware (fst (time_now w)) (fst (time_now (snd (time_now w)))) (wr_http q) (sv_limiter w)) = Next"
    "lookup (st_repo w) k = Some r" "j_status (deref w r) = FAILED"
  shows "\<exists>c w1. serve h q w = (Send r c, w1) \<and> core w1 = core w"
proof -
  from serve_admitted [OF assms(1,2), of h] obtain l where
    s: "serve h q w = ResumeJob_http (request_of q k) (w\<lparr>tick := tick w + 2, sv_limiter := l\<rparr>)" (is "_ = ResumeJob_http ?rq ?v") by auto
  have v: "lookup (st_repo ?v) (rq_var ?rq) = Some r" "j_status (deref ?v r) = FAILED" "core ?v = core w"
    using assms(3,4) by (simp_all add: deref_def core_def)
  from resume_failed [OF v(1,2)] obtain c where "ResumeJob_http ?rq ?v = (Send r c, snd (UpdateStatus k QUEUED ?v))" by auto
  moreover have "core (snd (UpdateStatus k QUEUED ?v)) = core w" using v(3) by simp
  ultimately show ?thesis using s by auto
qed

text \<open>C21. One job can have two workers at once: when a client resumes a job whose last attempt left it FAILED
while its worker still sleeps before the next attempt, the server can reach a state in which this
worker is where it was and a second goroutine has begun with the same job.\<close>

theorem resumed_job_has_two_workers:
  fixes q :: web_request
  assumes "tame_server h" "0 < hd_max_workers h" "n < length (sv_started w)" "sv_started w ! n = (r, Some t)"
    "lookup (st_repo w) k = Some r" "j_status (deref w r) = FAILED"
    "find_route SetupRoutes (wr_method q) (tl (split_on CHR ''/'' (rq_path (wr_http q)))) False = Handler E_ResumeJob k"
    "fst (Middleware (fst (time_now w)) (fst (time_now (snd (time_now w)))) (wr_http q) (sv_limiter w)) = Next"
  shows "\<exists>qs w'. (server_step h)\<^sup>*\<^sup>* (ps, w) (qs, w') \<and> sv_started w' ! n = (r, Some t)
    \<and> (\<exists>m < length (sv_started w'). m \<noteq> n \<and> sv_started w' ! m = (r, None))"
proof -
  from serve_resume [OF assms(7,8,5,6), of h] obtain c w1 where w1: "serve h q w = (Send r c, w1)" "core w1 = core w" by blast
  let ?qs = "ps @ [Send r c]"
  have 1: "server_step h (ps, w) (?qs, w1)" using w1(1) by (rule server_step.arrive)
  from take_all [OF assms(2), of ?qs w1] obtain w2 where
    w2: "(server_step h)\<^sup>*\<^sup>* (?qs, w1) (?qs, w2)" "sv_queue w2 = []" "sv_started w2 = sv_started w @ map (\<lambda>r. (r, None)) (sv_queue w)"
    using w1(2) by (auto simp: core_def)
  have "calm (Send r c)" using calm_serve [OF assms(1), of w q] w1(1) by (simp add: calm_from_def)
  then have c: "core (snd (c v)) = core v" for v by (auto elim: calm_sendE)
  obtain p w3 where p: "c (w2\<lparr>sv_queue := sv_queue w2 @ [r]\<rparr>) = (p, w3)" by fastforce
  then have w3: "sv_queue w3 = [r]" "sv_started w3 = sv_started w2"
    using c [of "w2\<lparr>sv_queue := sv_queue w2 @ [r]\<rparr>"] w2(2) by (simp_all add: core_def)
  have 2: "server_step h (?qs, w2) (?qs[length ps := p], w3)"
    using p w2(2) by (intro server_step.send [of "length ps" ?qs r c]) (simp_all add: queue_capacity_def)
  let ?w4 = "w3\<lparr>sv_queue := [], sv_active := sv_active w3 + 1, sv_started := sv_started w3 @ [(r, None)]\<rparr>"
  have 3: "server_step h (?qs[length ps := p], w3) (?qs[length ps := p], ?w4)"
    using w3(1) assms(2) by (intro server_step.take) (simp_all add: take_job_def)
  have "(server_step h)\<^sup>*\<^sup>* (ps, w) (?qs[length ps := p], ?w4)"
    using 1 w2(1) 2 3 by (meson converse_rtranclp_into_rtranclp rtranclp.rtrancl_into_rtrancl)
  moreover have "sv_started ?w4 ! n = (r, Some t)" "length (sv_started w3) < length (sv_started ?w4)"
    "length (sv_started w3) \<noteq> n" "sv_started ?w4 ! length (sv_started w3) = (r, None)"
    using assms(3,4) w3(2) w2(3) by (simp_all add: nth_append)
  ultimately show ?thesis by blast
qed

section \<open>The references stay\<close>

text \<open>The work on a job keeps which object an identifier refers to, and takes its times from the same clock.\<close>

definition same_refs :: "string \<Rightarrow> 'a store_scheme \<Rightarrow> 'a store_scheme \<Rightarrow> bool" where
  "same_refs i u w \<longleftrightarrow> clock w = clock u \<and> (store_wf u \<longrightarrow> store_wf w \<and> lookup (st_repo w) = lookup (st_repo u))"

lemma refs_setters:
  fixes w :: "'a store_scheme"
  assumes "store_wf w"
  shows "lookup (st_repo (snd (UpdateProgress i n step w))) = lookup (st_repo w)
    \<and> lookup (st_repo (snd (SetMetadata i inp outp w))) = lookup (st_repo w)
    \<and> lookup (st_repo (snd (SetHash i h w))) = lookup (st_repo w)
    \<and> lookup (st_repo (snd (IncrementRetry i w))) = lookup (st_repo w)
    \<and> lookup (st_repo (snd (UpdateStatus i st w))) = lookup (st_repo w)
    \<and> lookup (st_repo (snd (SetError i e w))) = lookup (st_repo w)"
proof (cases "lookup (st_repo w) i")
  case None
  then show ?thesis
    by (simp add: UpdateProgress_def SetMetadata_def SetHash_def IncrementRetry_def UpdateStatus_def SetError_def repo_Get_def)
next
  case (Some r)
  note r = Some store_wf_repo [OF assms Some]
  have put: "lookup (put i r (st_repo w)) = lookup (st_repo w)" by (rule put_same_lookup [OF Some])
  show ?thesis
    by (simp add: UpdateProgress_def SetMetadata_def SetHash_def IncrementRetry_def UpdateStatus_def SetError_def repo_Get_def
        repo_Update_def time_now_def finish_job_def Let_def r put)
qed

lemma clock_setters:
  "clock (snd (UpdateProgress i n step w)) = clock w" "clock (snd (SetMetadata i inp outp w)) = clock w"
  "clock (snd (SetHash i h w)) = clock w" "clock (snd (IncrementRetry i w)) = clock w"
  "clock (snd (UpdateStatus i st w)) = clock w" "clock (snd (SetError i e w)) = clock w"
  by (simp_all add: UpdateProgress_def SetMetadata_def SetHash_def IncrementRetry_def UpdateStatus_def SetError_def
      repo_Update_def time_now_def Let_def case_prod_beta split: sum.split option.split)

lemma refs_os: "os_frame w w' \<Longrightarrow> same_refs i u w \<Longrightarrow> same_refs i u w'"
  by (auto simp: same_refs_def store_wf_def os_frame_def)

lemma refs_keeps: "keeps i w w' \<Longrightarrow> clock w' = clock w \<Longrightarrow> (store_wf w \<Longrightarrow> lookup (st_repo w') = lookup (st_repo w)) \<Longrightarrow> same_refs i u w \<Longrightarrow> same_refs i u w'"
  by (simp add: same_refs_def keeps_def)

lemma refs_same: "st_repo w' = st_repo w \<Longrightarrow> clock w' = clock w \<Longrightarrow> keeps i w w' \<Longrightarrow> same_refs i u w \<Longrightarrow> same_refs i u w'"
  by (simp add: same_refs_def keeps_def)

lemma refs_service:
  assumes "same_refs i u w"
  shows "same_refs i u (snd (UpdateProgress i n step w))" "same_refs i u (snd (SetMetadata i inp outp w))"
    "same_refs i u (snd (SetHash i h w))" "same_refs i u (snd (IncrementRetry i w))"
    "same_refs i u (snd (UpdateStatus i st w))" "same_refs i u (snd (SetError i e w))"
  by (rule refs_keeps [OF keeps_setters(1) [OF keeps_refl] _ _ assms] refs_keeps [OF keeps_setters(2) [OF keeps_refl] _ _ assms]
      refs_keeps [OF keeps_setters(3) [OF keeps_refl] _ _ assms] refs_keeps [OF keeps_setters(4) [OF keeps_refl] _ _ assms]
      refs_keeps [OF keeps_status(1) [OF keeps_refl] _ _ assms] refs_keeps [OF keeps_status(2) [OF keeps_refl] _ _ assms];
      simp add: refs_setters clock_setters)+

lemma refs_fields:
  assumes "same_refs i u w"
  shows "same_refs i u (w\<lparr>w_sent := x\<rparr>)" "same_refs i u (w\<lparr>w_cache := m\<rparr>)" "same_refs i u (w\<lparr>w_metrics := mm\<rparr>)"
    "same_refs i u (w\<lparr>w_slept := d\<rparr>)"
  by (rule refs_same [OF _ _ _ assms]; simp add: keeps_fields)+

interpretation references: job_frame same_refs
proof unfold_locales
  show "same_refs i u w \<Longrightarrow> same_refs i u (broadcastProgress uc i t n step w)"
    for i and u w :: "'a world_scheme" and uc :: "'a world_scheme use_case" and t n step
    by (simp add: broadcastProgress_def refs_fields)
  show "same_refs i u (snd (store_in_cache uc i w))" if "same_refs i u w"
    for i and u w :: "'a world_scheme" and uc :: "'a world_scheme use_case"
    using that refs_os [OF osf_services(8) [OF os_frame_refl] that]
    by (auto simp: store_in_cache_def Let_def case_prod_beta split: sum.split intro!: refs_fields)
qed (blast intro: refs_os refs_service refs_fields)+

section \<open>A concrete run\<close>

text \<open>A service that has begun with a job of more than the 3000 MB allowed, analysed before.\<close>

definition analysed_state :: job_state where
  "analysed_state = sample_state\<lparr>js_job_id := ''job_1'', js_steps_completed := [StepHashComputation, StepDeduplication, StepAnalysis]\<rparr>"

definition large_job :: job where
  "large_job = zero_job\<lparr>j_id := ''job_1'', j_input_path := ''gone.mp4''\<rparr>"

definition large_service :: service where
  "large_service = demo_service\<lparr>
     fs := [((False, [''outputs'']), Dir 0), ((False, [''outputs'', ''job_1'']), Dir 0),
            (parse_path (getStatePath (Load (\<lambda>_. [])) ''job_1''), File (Doc (state_json analysed_state)) 0),
            ((False, [''outputs'', ''job_1'', ''x.ts'']), File (Opaque [] 4000000000) 0)],
     st_jobs := [(0, large_job)], st_repo := [(''job_1'', 0)], st_next := 1,
     sv_active := 1, sv_started := [(0, None)]\<rparr>"

definition resume_request :: web_request where
  "resume_request = \<lparr>wr_method = ''POST'', wr_http = \<lparr>rq_forwardedFor = [], rq_realIP = [], rq_remoteAddr = ''10.0.0.1'',
     rq_path = ''/jobs/job_1/resume''\<rparr>, wr_id = ''r1'', wr_uuid = [], wr_body = \<lparr>jt_tree = Inl [], jt_mismatch = []\<rparr>, wr_upgrade = None\<rparr>"

lemma large_facts:
  "fst (LoadState (Load (\<lambda>_. [])) ''job_1'' (metrics_started large_job large_service)) = Inr analysed_state"
  "IsStepCompleted analysed_state StepHashComputation" "IsStepCompleted analysed_state StepDeduplication"
  "IsStepCompleted analysed_state StepAnalysis"
  "fst (CheckJobSizeLimit (Load (\<lambda>_. [])) ''job_1'' (broadcastProgress (hd_use_case (demo_handler 1)) ''job_1'' ''RUNNING'' 30 ''Starting multi-quality encoding''
     (snd (UpdateProgress ''job_1'' 30 ''Starting multi-quality encoding'' (snd (UpdateStatus ''job_1'' RUNNING
       (snd (LoadState (Load (\<lambda>_. [])) ''job_1'' (metrics_started large_job large_service))))))))) = Inr (False, 3814)"
  "find_route SetupRoutes (wr_method resume_request) (tl (split_on CHR ''/'' (rq_path (wr_http resume_request)))) False = Handler E_ResumeJob ''job_1''"
  by code_simp+

lemma large_simps:
  "uc_cfg (hd_use_case (demo_handler n)) = Load (\<lambda>_. [])" "uc_run (hd_use_case (demo_handler n)) = demo_runner"
  "uc_max_retries (hd_use_case (demo_handler n)) = 3"
  "j_id large_job = ''job_1''" "j_input_path large_job = ''gone.mp4''" "deref large_service 0 = large_job"
  "sv_started large_service = [(0, None)]" "present ''job_1'' large_service"
  by (simp_all add: demo_handler_def large_job_def large_service_def deref_def present_def demo_service_def store_wf_def job_view_def)

definition large_running :: service where
  "large_running = snd (UpdateStatus ''job_1'' RUNNING (snd (LoadState (Load (\<lambda>_. [])) ''job_1'' (metrics_started large_job large_service))))"

lemma large_info: "\<exists>i. GetVideoInfo demo_runner ''gone.mp4'' large_running = (Inr i, large_running)"
  using demo_info [of "''gone.mp4''" large_running] by blast

lemma large_before: "before_size_check (hd_use_case (demo_handler 1)) large_job large_service
      = broadcastProgress (hd_use_case (demo_handler 1)) ''job_1'' ''RUNNING'' 30 ''Starting multi-quality encoding''
          (snd (UpdateProgress ''job_1'' 30 ''Starting multi-quality encoding'' large_running))"
proof -
  obtain i where "GetVideoInfo demo_runner ''gone.mp4'' large_running = (Inr i, large_running)" using large_info ..
  then show ?thesis unfolding before_size_check_def large_simps Let_def large_running_def [symmetric] by (simp only: snd_conv)
qed

lemma large_tame: "tame (demo_runner :: service runner)"
  by (simp add: tame_def demo_runner_def)

lemma large_limit: "fst (CheckJobSizeLimit (Load (\<lambda>_. [])) ''job_1'' (before_size_check (hd_use_case (demo_handler 1)) large_job large_service))
    = Inr (False, 3814)"
  unfolding large_before large_running_def by (rule large_facts(5))

lemma large_process:
  "fst (process (hd_use_case (demo_handler 1)) large_job large_service) = Inl (Err (''job size limit exceeded: '' @ show_int 3814 @ '' MB''))
   \<and> status_at ''job_1'' (snd (process (hd_use_case (demo_handler 1)) large_job large_service)) = Some FAILED"
proof -
  obtain i where i: "fst (GetVideoInfo demo_runner ''gone.mp4'' large_running) = Inr i" using large_info by (metis fst_conv)
  note p = process_size_limit [of "hd_use_case (demo_handler 1)" large_job large_service analysed_state i 3814,
      unfolded large_simps(1-7), folded large_running_def]
  show ?thesis by (rule p [OF large_tame large_simps(8) large_facts(1-4) i large_limit])
qed

lemma rest_fields:
  fixes w u :: "'a service_scheme"
  shows "same_rest i u w \<Longrightarrow> sv_limiter w = sv_limiter u \<and> sv_started w = sv_started u"
  by (cases w; cases u) (simp add: same_rest_def)

lemma large_after:
  fixes w1 :: service
  defines "w1 \<equiv> snd (process (hd_use_case (demo_handler 1)) large_job large_service)"
  shows "lookup (st_repo w1) ''job_1'' = Some 0" "j_status (deref w1 0) = FAILED" "sv_limiter w1 = NewRateLimiter 100 20"
    "sv_started w1 = [(0, None)]" "clock w1 = (\<lambda>n. int n * second)"
proof -
  let ?uc = "hd_use_case (demo_handler 1)"
  have t: "tame (uc_run ?uc)" by (simp add: large_simps large_tame)
  have "same_refs (j_id large_job) large_service w1" unfolding w1_def
    by (rule references.keep_process [OF t]) (simp add: same_refs_def)
  moreover have "store_wf large_service" using large_simps(8) by (simp add: present_def)
  ultimately have r: "lookup (st_repo w1) = lookup (st_repo large_service)" "clock w1 = clock large_service"
    by (simp_all add: same_refs_def)
  from r(2) show "clock w1 = (\<lambda>n. int n * second)" by (simp add: large_service_def demo_service_def demo_world_def)
  from r(1) show l: "lookup (st_repo w1) ''job_1'' = Some 0" by (simp add: large_service_def)
  from large_process have "status_at ''job_1'' w1 = Some FAILED" by (simp add: w1_def)
  with l show "j_status (deref w1 0) = FAILED" by (simp add: status_at_def job_view_def)
  have "same_rest (j_id large_job) large_service w1" unfolding w1_def
    by (rule server_rest.keep_process [OF t]) (simp add: same_rest_def)
  from rest_fields [OF this] show "sv_limiter w1 = NewRateLimiter 100 20" "sv_started w1 = [(0, None)]"
    by (simp_all add: large_service_def demo_service_def)
qed

lemma large_round:
  "\<exists>t w1. run_job (demo_handler 1) 0 large_service = Some w1 \<and> sv_started w1 = [(0, Some t)] \<and> lookup (st_repo w1) ''job_1'' = Some 0
     \<and> j_status (deref w1 0) = FAILED \<and> sv_limiter w1 = NewRateLimiter 100 20 \<and> clock w1 = (\<lambda>n. int n * second)"
proof -
  let ?uc = "hd_use_case (demo_handler 1)" and ?t = "first_round (hd_use_case (demo_handler 1))"
  let ?v = "snd (process ?uc large_job large_service)"
  have "rd_attempt ?t = 0" "rd_left ?t = Suc 3" by (simp_all add: first_round_def large_simps)
  with size_limit_round [of ?uc large_job large_service "show_int 3814" ?t 3 "''job_1''"] large_process obtain e where
    e: "one_round ?uc (process ?uc large_job) ''job_1'' ?t large_service =
      (Inr \<lparr>rd_left = 3, rd_attempt = 1, rd_error = Some e, rd_code = ''ERR_FFMPEG_FAILED''\<rparr>, ?v)" by blast
  let ?r = "\<lparr>rd_left = 3, rd_attempt = 1, rd_error = Some e, rd_code = ''ERR_FFMPEG_FAILED''\<rparr>"
  have "run_job (demo_handler 1) 0 large_service = Some (?v\<lparr>sv_started := [(0, Some ?r)]\<rparr>)"
    by (simp add: run_job_def large_simps e large_after Let_def)
  moreover have "deref (?v\<lparr>sv_started := [(0, Some ?r)]\<rparr>) 0 = deref ?v 0" by (simp add: deref_def)
  ultimately show ?thesis using large_after by (intro exI [of _ ?r] exI [of _ "?v\<lparr>sv_started := [(0, Some ?r)]\<rparr>"]) simp
qed

text \<open>A new limiter lets a client pass whose two readings of the clock are a second apart.\<close>

lemma fresh_client_passes:
  assumes "sv_limiter w = NewRateLimiter 100 20" "clock w = (\<lambda>n. int n * second)"
  shows "fst (Middleware (fst (time_now w)) (fst (time_now (snd (time_now w)))) q (sv_limiter w)) = Next"
proof -
  have "0 < 20 + tokens_to_add second 100" "fits64 (20 + tokens_to_add second 100)" if "0 < tokens_to_add second 100"
    using that tokens_to_add_le(2) [of second 100] by (simp_all add: fits64_def)
  moreover have "time_sub (int (Suc n) * second) (int n * second) = second" for n
    by (simp add: time_sub_def algebra_simps)
  ultimately show ?thesis
    by (simp add: assms time_now_def Middleware_def allow_eq bucket_of_def refill_def NewRateLimiter_def case_prod_beta Let_def)
qed

theorem resumed_job_has_two_workers_witness:
  "\<exists>qs w' t. (server_step (demo_handler 1))\<^sup>*\<^sup>* ([], large_service) (qs, w') \<and> sv_started w' ! 0 = (0, Some t)
    \<and> (\<exists>m < length (sv_started w'). m \<noteq> 0 \<and> sv_started w' ! m = (0, None))"
proof -
  obtain t w1 where w1: "run_job (demo_handler 1) 0 large_service = Some w1" "sv_started w1 = [(0, Some t)]"
    "lookup (st_repo w1) ''job_1'' = Some 0" "j_status (deref w1 0) = FAILED" "sv_limiter w1 = NewRateLimiter 100 20"
    "clock w1 = (\<lambda>n. int n * second)" using large_round by blast
  have run: "server_step (demo_handler 1) ([], large_service) ([], w1)" by (rule server_step.run [OF _ w1(1)]) (simp add: large_simps)
  have "fst (Middleware (fst (time_now w1)) (fst (time_now (snd (time_now w1)))) (wr_http resume_request) (sv_limiter w1)) = Next"
    by (rule fresh_client_passes [OF w1(5,6)])
  then have "\<exists>qs w'. (server_step (demo_handler 1))\<^sup>*\<^sup>* ([], w1) (qs, w') \<and> sv_started w' ! 0 = (0, Some t)
    \<and> (\<exists>m < length (sv_started w'). m \<noteq> 0 \<and> sv_started w' ! m = (0, None))"
    using w1 large_facts(6) by (intro resumed_job_has_two_workers) simp_all
  with run show ?thesis by (meson converse_rtranclp_into_rtranclp)
qed

end
