(* ===== verification/Pointers.thy ===== *)
theory Pointers
  imports Submission
begin

text \<open>
  The pointers the server holds: in its queue, in the hands of its workers, in the scheduler, in
  the batches, and in handlers that wait to send. In every reachable state all of them point to
  jobs, and the store of jobs is well formed.
\<close>

section \<open>Held pointers\<close>

definition refs :: "'a store_scheme \<Rightarrow> jref set" where
  "refs w = {r. live_ref w r}"

definition held :: "'a server_scheme \<Rightarrow> jref set" where
  "held w = set (sv_queue w) \<union> fst ` set (sv_started w) \<union> sc_job ` set (vals (sch_jobs (sv_scheduler w)))
     \<union> (\<Union>b\<in>set (vals (sv_batches w)). set (b_jobs b))"

definition sane :: "'a server_scheme \<Rightarrow> bool" where
  "sane w \<longleftrightarrow> store_wf w \<and> held w \<subseteq> refs w"

definition ext :: "'a server_scheme \<Rightarrow> 'a server_scheme \<Rightarrow> bool" where
  "ext u w \<longleftrightarrow> (sane u \<longrightarrow> sane w \<and> refs u \<subseteq> refs w)"

lemma ext_refl [simp]: "ext u u"
  by (simp add: ext_def)

lemma ext_trans: "ext u v \<Longrightarrow> ext v w \<Longrightarrow> ext u w"
  by (auto simp: ext_def)

lemma ext_step:
  "(store_wf w \<Longrightarrow> store_wf w') \<Longrightarrow> refs w \<subseteq> refs w' \<Longrightarrow> held w' = held w \<Longrightarrow> ext u w \<Longrightarrow> ext u w'"
  by (auto simp: ext_def sane_def)

lemma refs_mutate [simp]: "refs (mutate r f w) = insert r (refs w)"
  by (auto simp: refs_def live_ref_def mutate_def)

lemma live_fields [simp]:
  "refs (w\<lparr>st_repo := m\<rparr>) = refs w" "refs (snd (time_now w)) = refs w" "refs (snd (alloc j w)) = insert (st_next w) (refs w)"
  by (auto simp: refs_def live_ref_def time_now_def alloc_def)

lemma live_os: "os_frame w w' \<Longrightarrow> refs w' = refs w"
  by (auto simp: os_frame_def refs_def live_ref_def)

lemma held_os: "os_frame w w' \<Longrightarrow> held w' = held w"
  unfolding os_frame_def by (elim exE) (simp add: held_def)

lemma held_fields [simp]:
  "held (w\<lparr>st_repo := m\<rparr>) = held w" "held (snd (time_now w)) = held w" "held (snd (alloc j w)) = held w"
  "held (mutate r f w) = held w"
  by (simp_all add: held_def time_now_def alloc_def mutate_def)

lemma held_store [simp]:
  "held (snd (CreateJob cfg p c w)) = held w" "held (snd (DeleteJob i w)) = held w" "held (snd (UpdateStatus i st w)) = held w"
  "held (snd (ScheduleJob r t s w)) = held w"
  by (auto simp: CreateJob_eq repo_Create_def DeleteJob_def repo_Delete_def UpdateStatus_def repo_Update_def
      ScheduleJob_def case_prod_beta Let_def split: option.split sum.split)

lemma refs_store [simp]:
  "refs w \<subseteq> refs (snd (CreateJob cfg p c w))" "refs (snd (DeleteJob i w)) = refs w" "refs w \<subseteq> refs (snd (UpdateStatus i st w))"
  "refs (snd (ScheduleJob r t s w)) = refs w"
  by (auto simp: CreateJob_eq repo_Create_def DeleteJob_def repo_Delete_def UpdateStatus_def repo_Update_def
      ScheduleJob_def case_prod_beta Let_def split: option.split sum.split)

lemma ext_os: "os_frame w w' \<Longrightarrow> ext u w \<Longrightarrow> ext u w'"
  using os_frame_job_view [of w w'] by (intro ext_step [of w w']) (simp_all add: live_os held_os)

lemma ext_store:
  assumes "ext u w"
  shows "ext u (snd (CreateJob cfg p c w))" "ext u (snd (DeleteJob i w))" "ext u (snd (UpdateStatus i st w))"
    "ext u (snd (time_now w))" "ext u (snd (ScheduleJob r t s w))"
proof -
  show t: "ext u (snd (time_now w))" by (rule ext_os [OF os_frame_time_now assms])
  then show "ext u (snd (ScheduleJob r t s w))" by (simp add: ScheduleJob_def case_prod_beta Let_def)
qed (rule ext_step [OF _ _ _ assms]; simp add: store_wf_service)+

lemma ext_files:
  assumes "ext u w"
  shows "ext u (snd (CanAcceptNewJob cfg w))" "ext u (snd (DeleteJobFiles cfg i w))" "ext u (snd (FindOrphanedJobs cfg w))"
    "ext u (snd (GetDiskUsagePercent p w))" "ext u (snd (GetDiskSpace p w))" "ext u (snd (CreateBatch i js md bs w))"
    "ext u (snd (AutoCleanup cfg w))"
  by (rule ext_os [OF osf_api(1) [OF os_frame_refl] assms] ext_os [OF DeleteJobFiles_frame assms] ext_os [OF osf_api(3) [OF os_frame_refl] assms]
      ext_os [OF usage_frame(1) assms] ext_os [OF osf_api(5) [OF os_frame_refl] assms] ext_os [OF osf_api(4) [OF os_frame_refl] assms]
      ext_os [OF osf_api(6) [OF os_frame_refl] assms])+

lemma ext_media:
  assumes "tame run" "ext u w"
  shows "ext u (snd (ValidateFile run p w))" "ext u (snd (GetDetailedVideoInfo run parse p w))"
  by (rule ext_os [OF osf_validate [OF assms(1) os_frame_refl] assms(2)] ext_os [OF osf_media(6) [OF assms(1) os_frame_refl] assms(2)])+

text \<open>What is written into the fields of the server must point to jobs.\<close>

lemma ext_mutate:
  assumes "ext u w" "sane u \<Longrightarrow> sane w \<Longrightarrow> r \<in> refs w" "\<And>j. j_id (f j) = j_id j"
  shows "ext u (mutate r f w)"
proof -
  have "store_wf (mutate r f w)" if "sane u" "sane w"
    using store_wf_mutate [of w r f] assms(2) [OF that] assms(3) that(2) by (simp add: sane_def refs_def)
  with assms(1) show ?thesis by (auto simp: ext_def sane_def)
qed

lemma server_fields [simp]:
  "refs (w\<lparr>sv_scheduler := s\<rparr>) = refs w" "store_wf (w\<lparr>sv_scheduler := s\<rparr>) = store_wf w"
  "refs (w\<lparr>sv_batches := bs\<rparr>) = refs w" "store_wf (w\<lparr>sv_batches := bs\<rparr>) = store_wf w"
  "refs (w\<lparr>sv_conns := m\<rparr>) = refs w" "store_wf (w\<lparr>sv_conns := m\<rparr>) = store_wf w"
  "refs (w\<lparr>sv_queue := q\<rparr>) = refs w" "store_wf (w\<lparr>sv_queue := q\<rparr>) = store_wf w"
  "refs (w\<lparr>sv_started := st\<rparr>) = refs w" "store_wf (w\<lparr>sv_started := st\<rparr>) = store_wf w"
  "refs (w\<lparr>sv_active := n\<rparr>) = refs w" "store_wf (w\<lparr>sv_active := n\<rparr>) = store_wf w"
  by (simp_all add: refs_def live_ref_def store_wf_def)

lemma sane_iff:
  "sane w \<longleftrightarrow> store_wf w \<and> set (sv_queue w) \<subseteq> refs w \<and> fst ` set (sv_started w) \<subseteq> refs w
     \<and> sc_job ` set (vals (sch_jobs (sv_scheduler w))) \<subseteq> refs w \<and> (\<Union>b\<in>set (vals (sv_batches w)). set (b_jobs b)) \<subseteq> refs w"
  by (simp only: sane_def held_def Un_subset_iff conj_assoc)

lemma ext_scheduler:
  assumes "ext u w" "sane u \<Longrightarrow> sane w \<Longrightarrow> sc_job ` set (vals (sch_jobs s)) \<subseteq> refs w"
  shows "ext u (w\<lparr>sv_scheduler := s\<rparr>)"
proof -
  have "sane (w\<lparr>sv_scheduler := s\<rparr>)" if "sane u" "sane w"
    using assms(2) [OF that] that(2) unfolding sane_iff by simp
  with assms(1) show ?thesis by (simp add: ext_def)
qed

lemma ext_batches:
  assumes "ext u w" "sane u \<Longrightarrow> sane w \<Longrightarrow> (\<Union>b\<in>set (vals bs). set (b_jobs b)) \<subseteq> refs w"
  shows "ext u (w\<lparr>sv_batches := bs\<rparr>)"
proof -
  have "sane (w\<lparr>sv_batches := bs\<rparr>)" if "sane u" "sane w"
    using assms(2) [OF that] that(2) unfolding sane_iff by simp
  with assms(1) show ?thesis by (simp add: ext_def)
qed

lemma ext_conns: "ext u w \<Longrightarrow> ext u (w\<lparr>sv_conns := m\<rparr>)"
  by (simp add: ext_def sane_iff)

lemma created_ref: "fst (CreateJob cfg p c w) = Inr r \<Longrightarrow> r \<in> refs (snd (CreateJob cfg p c w))"
  by (simp add: refs_def CreateJob_live)

lemma found_ref: "sane w \<Longrightarrow> GetJob i w = Inr r \<Longrightarrow> r \<in> refs w"
  using store_wf_repo [of w i r] by (auto simp: sane_def GetJob_def repo_Get_def refs_def live_ref_def split: option.splits)


section \<open>Programs\<close>

text \<open>A program that starts where the pointers in \<open>D\<close> point to jobs: it sends such pointers only, and every
part of it keeps what holds.\<close>

inductive sound :: "jref set \<Rightarrow> 'a server_scheme prog \<Rightarrow> bool" where
  sound_reply: "sound D (Reply rp)"
| sound_return: "sound D Return"
| sound_send: "r \<in> D \<Longrightarrow> (\<And>w. sane w \<Longrightarrow> D \<subseteq> refs w \<Longrightarrow> ext w (snd (k w))) \<Longrightarrow>
    (\<And>w. sane w \<Longrightarrow> D \<subseteq> refs w \<Longrightarrow> sound (refs (snd (k w))) (fst (k w))) \<Longrightarrow> sound D (Send r k)"

inductive_cases sound_sendE: "sound D (Send r k)"

lemma sound_mono: "sound D p \<Longrightarrow> D \<subseteq> E \<Longrightarrow> sound E p"
  by (induction rule: sound.induct) (auto intro: sound.intros dest: subset_trans)

definition sound_from :: "'a server_scheme \<Rightarrow> 'a server_scheme prog \<times> 'a server_scheme \<Rightarrow> bool" where
  "sound_from u pw \<longleftrightarrow> ext u (snd pw) \<and> (sane u \<longrightarrow> sound (refs (snd pw)) (fst pw))"

lemma sound_from_trans: "ext u w \<Longrightarrow> sound_from w pw \<Longrightarrow> sound_from u pw"
  using ext_trans by (auto simp: sound_from_def ext_def)

named_theorems sound_rules

lemma sound_replies [sound_rules]:
  "ext u w \<Longrightarrow> sound_from u (replies (SendError n i c m d w))"
  "ext u w \<Longrightarrow> sound_from u (replies (SendSuccess n i dt w))"
  "ext u w \<Longrightarrow> sound_from u (reject n rq c m d w)"
  "ext u w \<Longrightarrow> sound_from u (answer_with rq m a w)"
  "ext u w \<Longrightarrow> sound_from u (not_found rq w)"
  "ext u w \<Longrightarrow> sound_from u (Return, w)"
  "ext u w \<Longrightarrow> sound_from u (Reply rp, w)"
  by (auto simp: sound_from_def replies_def SendError_def SendSuccess_def SendSuccessWithMessage_def reject_def answer_with_def
      not_found_def NewErrorResponse_def NewSuccessResponse_def NewSuccessResponseWithMessage_def format_now_def
      case_prod_beta Let_def intro: sound_reply sound_return ext_store)

lemma sound_struct [sound_rules]:
  "(\<And>e. sound_from u (f e)) \<Longrightarrow> (\<And>v. sound_from u (g v)) \<Longrightarrow> sound_from u (case x of Inl e \<Rightarrow> f e | Inr v \<Rightarrow> g v)"
  "sound_from u f0 \<Longrightarrow> (\<And>v. sound_from u (g0 v)) \<Longrightarrow> sound_from u (case y of None \<Rightarrow> f0 | Some v \<Rightarrow> g0 v)"
  "sound_from u a \<Longrightarrow> sound_from u b \<Longrightarrow> sound_from u (if c then a else b)"
  by (auto split: sum.split option.split)

lemma sound_Send:
  assumes "ext u w" "sane u \<Longrightarrow> sane w \<Longrightarrow> r \<in> refs w" "\<And>v. sane v \<Longrightarrow> refs w \<subseteq> refs v \<Longrightarrow> sound_from v (k v)"
  shows "sound_from u (Send r k, w)"
proof -
  have "sound (refs w) (Send r k)" if "sane u"
  proof (rule sound_send)
    show "r \<in> refs w" using assms(1,2) that by (simp add: ext_def)
    show "ext v (snd (k v))" "sound (refs (snd (k v))) (fst (k v))" if "sane v" "refs w \<subseteq> refs v" for v
      using assms(3) [OF that] that(1) by (simp_all add: sound_from_def)
  qed
  with assms(1) show ?thesis by (simp add: sound_from_def)
qed

lemma sound_created:
  assumes "\<And>e. sound_from u (f e)" "\<And>r. (r \<in> refs (snd (CreateJob cfg p c w))) \<Longrightarrow> sound_from u (g r)"
  shows "sound_from u (case fst (CreateJob cfg p c w) of Inl e \<Rightarrow> f e | Inr r \<Rightarrow> g r)"
  using assms created_ref [of cfg p c w] by (auto split: sum.split)

lemma sound_batch_loop:
  assumes "tame (uc_run (hd_use_case h))" "\<And>js v. sane v \<Longrightarrow> set js \<subseteq> refs v \<Longrightarrow> sound_from v (fin js v)"
    and "sane w" "set js \<subseteq> refs w"
  shows "sound_from w (batch_loop h rq c fin files js w)"
  using assms(3,4)
proof (induction files arbitrary: js w)
  case (Cons f files)
  let ?w1 = "snd (ValidateFile (uc_run (hd_use_case h)) f w)"
  let ?w2 = "snd (CreateJob (hd_cfg h) f c ?w1)"
  have e: "ext w ?w1" "ext w ?w2" by (intro ext_store ext_media assms(1) ext_refl)+
  have s: "set js \<subseteq> refs ?w2" using e(2) Cons.prems by (auto simp: ext_def)
  show ?case unfolding batch_loop.simps case_prod_beta
  proof (rule sound_struct(1), intro sound_rules e, rule sound_created, intro sound_rules e)
    fix r assume "r \<in> refs ?w2"
    with s show "sound_from w (Send r (batch_loop h rq c fin files (js @ [r])), ?w2)"
      by (intro sound_Send e Cons.IH) auto
  qed
qed (simp add: assms(2))


section \<open>The handlers\<close>

lemma vals_put_subset: "set (vals (put k v m)) \<subseteq> insert v (set (vals m))"
  by (induction m) auto

lemma vals_del_subset: "set (vals (del k m)) \<subseteq> set (vals m)"
  by (induction m) auto

lemma vals_lookup: "lookup m k = Some v \<Longrightarrow> v \<in> set (vals m)"
  by (induction m) (auto split: if_splits)

lemma sound_jobs:
  assumes t: "tame (uc_run (hd_use_case h))"
  shows "sound_from w (CreateJob_http h rq w)" "sound_from w (GetJob_http rq w)" "sound_from w (ListJobs_http rq w)"
    "sound_from w (DeleteJob_http h rq w)"
proof -
  let ?w1 = "snd (CanAcceptNewJob (hd_cfg h) w)"
  let ?w2 = "\<lambda>p. snd (ValidateFile (uc_run (hd_use_case h)) p ?w1)"
  have e: "ext w ?w1" "ext w (?w2 p)" "ext w (snd (CreateJob (hd_cfg h) q c (?w2 p)))" for p q c
    by (intro ext_store ext_media ext_files t ext_refl)+
  show "sound_from w (CreateJob_http h rq w)" unfolding CreateJob_http_def Let_def case_prod_beta
    by (intro sound_struct sound_created sound_Send sound_replies e ext_refl) simp_all
  show "sound_from w (GetJob_http rq w)" "sound_from w (ListJobs_http rq w)" "sound_from w (DeleteJob_http h rq w)"
    unfolding GetJob_http_def ListJobs_http_def DeleteJob_http_def Let_def case_prod_beta
    by (intro sound_rules ext_store ext_files ext_refl)+
qed

lemma sound_resume: "sound_from w (ResumeJob_http rq w)"
proof (cases "GetJob (rq_var rq) w")
  case (Inl e)
  then show ?thesis by (simp add: ResumeJob_http_def sound_rules)
next
  case (Inr r)
  have "sound_from w (Send r (answer_with rq m a), snd (UpdateStatus (rq_var rq) QUEUED w))" for m a
    using found_ref [OF _ Inr] by (intro sound_Send ext_store ext_refl sound_replies) (auto intro: subsetD [OF refs_store(3)])
  then show ?thesis unfolding ResumeJob_http_def Let_def case_prod_beta Inr sum.case by (intro sound_rules ext_refl)
qed

lemma sound_health: "sound_from w (Health h rq w)"
  unfolding Health_def Let_def case_prod_beta by (intro sound_rules ext_files ext_store ext_refl)

lemma sound_socket:
  assumes "\<And>c m v. os_frame v (snd (hd_write h c m v))"
  shows "sound_from w (HandleWebSocket h rq w)"
proof -
  have "os_frame w (snd (open_connection (hd_write h) x i m w))" for x i m
    using os_frame_trans [OF os_frame_time_now assms]
    by (auto simp: open_connection_def sendWelcomeMessage_def case_prod_beta Let_def split: option.split)
  then show ?thesis unfolding HandleWebSocket_def Let_def case_prod_beta by (intro sound_rules ext_conns ext_os [OF _ ext_refl] ext_refl)
qed

definition batch_refs :: "batches \<Rightarrow> jref set" where
  "batch_refs bs = (\<Union>b\<in>set (vals bs). set (b_jobs b))"

lemma batch_refs_put: "batch_refs (put i b bs) \<subseteq> set (b_jobs b) \<union> batch_refs bs"
  using vals_put_subset [of i b bs] by (fastforce simp: batch_refs_def)

lemma batch_refs_lookup: "lookup bs i = Some b \<Longrightarrow> set (b_jobs b) \<subseteq> batch_refs bs"
  using vals_lookup [of bs i b] by (auto simp: batch_refs_def)

lemma batch_refs_sane: "sane w \<Longrightarrow> batch_refs (sv_batches w) \<subseteq> refs w"
  by (simp only: sane_iff batch_refs_def)

lemma batch_refs_steps:
  "batch_refs (snd (fst (CreateBatch i js md bs w))) \<subseteq> set js \<union> batch_refs bs"
  "batch_refs (snd (fst (UpdateBatchStatus i bs w))) \<subseteq> batch_refs bs"
  using batch_refs_put [of i _ bs] batch_refs_lookup [of bs i]
  by (auto simp: CreateBatch_def UpdateBatchStatus_def Let_def case_prod_beta split: option.split) fastforce+

lemma sound_store_batch:
  assumes "sane w" "set js \<subseteq> refs w"
  shows "sound_from w (store_batch rq i md js w)"
proof -
  let ?c = "CreateBatch i js md (sv_batches w) w"
  have f: "os_frame w (snd ?c)" by (rule osf_api(4) [OF os_frame_refl])
  have "batch_refs (snd (fst ?c)) \<subseteq> refs (snd ?c)"
    using batch_refs_steps(1) [of i js md "sv_batches w" w] batch_refs_sane [OF assms(1)] assms(2) live_os [OF f] by auto
  then have "ext w ((snd ?c)\<lparr>sv_batches := snd (fst ?c)\<rparr>)"
    by (intro ext_batches ext_os [OF f ext_refl]) (simp add: batch_refs_def)
  then show ?thesis unfolding store_batch_def Let_def case_prod_beta by (intro sound_rules)
qed

lemma sound_batches:
  assumes "tame (uc_run (hd_use_case h))" "sane w"
  shows "sound_from w (CreateBatchJob h rq w)" "sound_from w (GetBatchStatus rq w)"
proof -
  have l: "sound_from w (batch_loop h rq c (store_batch rq i md) files [] v)" if "ext w v" for c i md files v
    using that assms(2) by (intro sound_from_trans [OF that] sound_batch_loop sound_store_batch assms(1)) (simp_all add: ext_def)
  show "sound_from w (CreateBatchJob h rq w)"
    unfolding CreateBatchJob_def Let_def case_prod_beta by (intro sound_rules l ext_refl) (auto intro: ext_store)
  let ?u = "UpdateBatchStatus (rq_var rq) (sv_batches w) w"
  have f: "os_frame w (snd ?u)" by (auto simp: UpdateBatchStatus_def Let_def case_prod_beta split: option.split)
  have "batch_refs (snd (fst ?u)) \<subseteq> refs (snd ?u)"
    using batch_refs_steps(2) [of "rq_var rq" "sv_batches w" w] batch_refs_sane [OF assms(2)] live_os [OF f] by auto
  then have "ext w ((snd ?u)\<lparr>sv_batches := snd (fst ?u)\<rparr>)"
    by (intro ext_batches ext_os [OF f ext_refl]) (simp add: batch_refs_def)
  then show "sound_from w (GetBatchStatus rq w)" unfolding GetBatchStatus_def Let_def case_prod_beta by (intro sound_rules ext_refl)
qed

section \<open>The scheduler\<close>

definition sched_refs :: "scheduler \<Rightarrow> jref set" where
  "sched_refs s = sc_job ` set (vals (sch_jobs s))"

lemma sched_refs_sane: "sane w \<Longrightarrow> sched_refs (sv_scheduler w) \<subseteq> refs w"
  by (simp only: sane_iff sched_refs_def)

lemma sched_refs_steps:
  "sched_refs (snd (fst (ScheduleJob r t s w))) \<subseteq> insert r (sched_refs s)"
  "sched_refs (snd (fst (executeScheduledJob i s w))) \<subseteq> sched_refs s"
  "sched_refs (snd (fst (fire_timer n s w))) \<subseteq> sched_refs s"
proof -
  have p: "sc_job ` set (vals (put i x m)) \<subseteq> insert (sc_job x) (sc_job ` set (vals m))" for i x m
    using vals_put_subset [of i x m] by auto
  have d: "sc_job ` set (vals (del i m)) \<subseteq> sc_job ` set (vals m)" for i and m :: "(string, scheduled_job) gomap"
    using vals_del_subset [of i m] by (rule image_mono)
  show "sched_refs (snd (fst (ScheduleJob r t s w))) \<subseteq> insert r (sched_refs s)"
    using p [of _ "\<lparr>sc_job = r, sc_at = t, sc_timer = sch_next s\<rparr>" "sch_jobs s"]
    by (simp add: ScheduleJob_def sched_refs_def Let_def case_prod_beta subset_insertI)
  show e: "sched_refs (snd (fst (executeScheduledJob i s w))) \<subseteq> sched_refs s" for i s
    using d [of i "sch_jobs s"] by (cases "lookup (sch_jobs s) i") (simp_all add: executeScheduledJob_def sched_refs_def)
  show "sched_refs (snd (fst (fire_timer n s w))) \<subseteq> sched_refs s"
    using e [of _ "s\<lparr>sch_timers := del n (sch_timers s)\<rparr>"]
    by (cases "lookup (sch_timers s) n") (simp_all add: fire_timer_def sched_refs_def)
qed

text \<open>The job that a timer sends is one the scheduler held.\<close>

lemma fired_job:
  assumes "fire_timer n s w = ((sent, s'), w')"
  shows "(case sent of None \<Rightarrow> w' = w | Some r \<Rightarrow> r \<in> sched_refs s \<and> w' = mutate r (\<lambda>j. j\<lparr>j_status := QUEUED\<rparr>) w)"
proof (cases "lookup (sch_timers s) n")
  case (Some i)
  show ?thesis
  proof (cases "lookup (sch_jobs s) i")
    case s: (Some sj)
    then have "sc_job sj \<in> sched_refs s" using vals_lookup [OF s] by (simp add: sched_refs_def)
    with assms Some s show ?thesis by (auto simp: fire_timer_def executeScheduledJob_def)
  qed (use assms Some in \<open>auto simp: fire_timer_def executeScheduledJob_def\<close>)
qed (use assms in \<open>auto simp: fire_timer_def\<close>)

lemma ext_sched:
  "ext u w \<Longrightarrow> (sane u \<Longrightarrow> sane w \<Longrightarrow> sched_refs s \<subseteq> refs w) \<Longrightarrow> ext u (w\<lparr>sv_scheduler := s\<rparr>)"
  by (rule ext_scheduler) (simp_all add: sched_refs_def)

lemma fire_timer_ext:
  assumes "fire_timer n (sv_scheduler w) w = ((sent, s), w')" "sane w"
  shows "ext w (w'\<lparr>sv_scheduler := s\<rparr>)" "sent = Some r \<Longrightarrow> r \<in> refs w"
proof -
  note f = fired_job [OF assms(1)] and h = sched_refs_sane [OF assms(2)]
  show "r \<in> refs w" if "sent = Some r" using f h that by auto
  have "ext w w'"
  proof (cases sent)
    case (Some r)
    with f h have "w' = mutate r (\<lambda>j. j\<lparr>j_status := QUEUED\<rparr>) w" "r \<in> refs w" by auto
    then show ?thesis by (simp add: ext_mutate)
  qed (use f in simp)
  moreover have "sched_refs s \<subseteq> refs w'"
    using sched_refs_steps(3) [of n "sv_scheduler w" w] assms(1) h \<open>ext w w'\<close> assms(2) by (auto simp: ext_def)
  ultimately show "ext w (w'\<lparr>sv_scheduler := s\<rparr>)" by (intro ext_sched)
qed

lemma sound_schedule:
  assumes t: "tame (uc_run (hd_use_case h))"
  shows "sound_from w (ScheduleJob_http h rq w)" "sound_from w (GetDetailedVideoInfo_http h rq w)"
proof -
  show "sound_from w (GetDetailedVideoInfo_http h rq w)"
    unfolding GetDetailedVideoInfo_http_def Let_def case_prod_beta by (intro sound_rules ext_media t ext_refl)
  have scheduled: "sound_from u (case fst (fst (ScheduleJob r x (sv_scheduler v) v)) of
        None \<Rightarrow> answer_with rq m a ((snd (ScheduleJob r x (sv_scheduler v) v))\<lparr>sv_scheduler := snd (fst (ScheduleJob r x (sv_scheduler v) v))\<rparr>)
      | Some r' \<Rightarrow> (Send r' k, (snd (ScheduleJob r x (sv_scheduler v) v))\<lparr>sv_scheduler := snd (fst (ScheduleJob r x (sv_scheduler v) v))\<rparr>))"
    if e: "ext u v" and r: "r \<in> refs v" and k: "\<And>y. sound_from y (k y)" for u v r x m a k
  proof -
    let ?s = "ScheduleJob r x (sv_scheduler v) v"
    let ?v = "(snd ?s)\<lparr>sv_scheduler := snd (fst ?s)\<rparr>"
    have rv: "refs (snd ?s) = refs v" by simp
    have "sched_refs (snd (fst ?s)) \<subseteq> refs v" if "sane v"
      using sched_refs_steps(1) [of r x "sv_scheduler v" v] sched_refs_sane [OF that] r by auto
    then have "ext v ?v" by (intro ext_sched ext_store ext_refl) (simp add: rv)
    with e have e': "ext u ?v" by (rule ext_trans)
    have "r' = r" if "fst (fst ?s) = Some r'" for r' using that by (auto simp: ScheduleJob_def Let_def case_prod_beta split: if_splits)
    then show ?thesis using e' r k by (auto split: option.split intro!: sound_replies sound_Send)
  qed
  let ?w1 = "\<lambda>p. snd (ValidateFile (uc_run (hd_use_case h)) p w)"
  have e: "ext w (?w1 p)" "ext w (snd (CreateJob (hd_cfg h) q c (?w1 p)))" for p q c
    by (intro ext_store ext_media t ext_refl)+
  have m: "ext w (mutate r (\<lambda>j. j\<lparr>j_status := SCHEDULED\<rparr>) (snd (CreateJob (hd_cfg h) q c (?w1 p))))"
    if "r \<in> refs (snd (CreateJob (hd_cfg h) q c (?w1 p)))" for r q c p
    using that by (intro ext_mutate e) simp_all
  show "sound_from w (ScheduleJob_http h rq w)" unfolding ScheduleJob_http_def Let_def case_prod_beta
    by (intro sound_struct sound_created scheduled m sound_replies e ext_refl) simp_all
qed

lemma sound_requeue: "sound_from w (requeue ss w)"
proof (induction ss arbitrary: w)
  case (Cons s ss)
  show ?case
  proof (cases "GetJob (js_job_id s) w")
    case (Inr r)
    then have "sound_from w (Send r (requeue ss), snd (UpdateStatus (js_job_id s) QUEUED w))"
      using found_ref [OF _ Inr] by (intro sound_Send ext_store ext_refl Cons.IH) (auto intro: subsetD [OF refs_store(3)])
    with Inr show ?thesis by (simp add: case_prod_beta)
  qed (simp add: Cons.IH)
qed (simp add: sound_rules)

lemma sound_boot: "sound_from w (resumeOrphanedJobs cfg w)"
  unfolding resumeOrphanedJobs_def case_prod_beta
  by (intro sound_rules sound_from_trans [OF _ sound_requeue] ext_files ext_refl)

lemma sound_dispatch: "tame_server h \<Longrightarrow> sane w \<Longrightarrow> sound_from w (dispatch h e rq w)"
  by (cases e) (auto simp: tame_server_def intro: sound_jobs sound_resume sound_health sound_socket sound_batches sound_schedule)

lemma ext_limiter:
  fixes w :: "'a service_scheme"
  shows "ext u w \<Longrightarrow> ext u (w\<lparr>sv_limiter := l\<rparr>)"
  by (simp add: ext_def sane_iff refs_def live_ref_def store_wf_def)

lemma sound_serve:
  fixes w :: "'a service_scheme"
  assumes "tame_server h" "sane w"
  shows "sound_from w (serve h q w)"
proof -
  have d: "sound_from w (dispatch h e rq v)" if "ext w v" for e rq v
    using that assms(2) by (intro sound_from_trans [OF that] sound_dispatch assms(1)) (simp add: ext_def)
  show ?thesis unfolding serve_def Let_def case_prod_beta
    by (auto split: routed.split verdict.split intro!: sound_rules d ext_limiter ext_store)
qed

section \<open>The work on a job\<close>

definition grows :: "string \<Rightarrow> 'a store_scheme \<Rightarrow> 'a store_scheme \<Rightarrow> bool" where
  "grows i u w \<longleftrightarrow> (store_wf u \<longrightarrow> store_wf w) \<and> refs u \<subseteq> refs w"

lemma grows_step: "(store_wf w \<Longrightarrow> store_wf w') \<Longrightarrow> refs w \<subseteq> refs w' \<Longrightarrow> grows i u w \<Longrightarrow> grows i u w'"
  by (auto simp: grows_def)

lemma live_setters:
  "refs w \<subseteq> refs (snd (UpdateProgress i n step w))" "refs w \<subseteq> refs (snd (SetMetadata i inp outp w))"
  "refs w \<subseteq> refs (snd (SetHash i h w))" "refs w \<subseteq> refs (snd (IncrementRetry i w))" "refs w \<subseteq> refs (snd (SetError i e w))"
  by (auto simp: UpdateProgress_def SetMetadata_def SetHash_def IncrementRetry_def SetError_def
      repo_Update_def Let_def case_prod_beta split: sum.split option.split)

lemma grows_setters:
  assumes "grows i u w"
  shows "grows i u (snd (UpdateProgress i n step w))" "grows i u (snd (SetMetadata i inp outp w))"
    "grows i u (snd (SetHash i h w))" "grows i u (snd (IncrementRetry i w))"
    "grows i u (snd (UpdateStatus i st w))" "grows i u (snd (SetError i e w))"
  by (rule grows_step [OF _ _ assms]; simp add: store_wf_service live_setters)+

lemma grows_os: "os_frame w w' \<Longrightarrow> grows i u w \<Longrightarrow> grows i u w'"
  using os_frame_job_view [of w w'] by (intro grows_step [of w w']) (simp_all add: live_os)

lemma grows_fields:
  assumes "grows i u w"
  shows "grows i u (w\<lparr>w_sent := x\<rparr>)" "grows i u (w\<lparr>w_cache := m\<rparr>)" "grows i u (w\<lparr>w_metrics := mm\<rparr>)" "grows i u (w\<lparr>w_slept := d\<rparr>)"
  by (rule grows_step [OF _ _ assms]; simp add: store_wf_def refs_def live_ref_def)+

interpretation growth: job_frame grows
proof unfold_locales
  show "grows i u w \<Longrightarrow> grows i u (broadcastProgress uc i t n step w)"
    for i and u w :: "'a world_scheme" and uc :: "'a world_scheme use_case" and t n step
    by (simp add: broadcastProgress_def grows_fields)
  show "grows i u (snd (store_in_cache uc i w))" if "grows i u w"
    for i and u w :: "'a world_scheme" and uc :: "'a world_scheme use_case"
    using that grows_os [OF osf_services(8) [OF os_frame_refl] that]
    by (auto simp: store_in_cache_def Let_def case_prod_beta split: sum.split intro!: grows_fields)
qed (blast intro: grows_os grows_setters grows_fields)+

lemma ext_round:
  assumes "tame_server h"
  shows "ext w (snd (one_round (hd_use_case h) (process (hd_use_case h) j) (j_id j) t w))"
proof -
  let ?w = "snd (one_round (hd_use_case h) (process (hd_use_case h) j) (j_id j) t w)"
  have t: "tame (uc_run (hd_use_case h))" using assms by (simp add: tame_server_def)
  have "grows (j_id j) w (snd (IncrementRetry (j_id j) (sleep d v)))" if "grows (j_id j) w v" for d v
    unfolding sleep_def by (intro grows_setters grows_fields that)
  moreover have "grows (j_id j) w w" by (simp add: grows_def)
  ultimately have "grows (j_id j) w ?w" by (intro growth.keep_round growth.keep_process t)
  moreover have "same_rest (j_id j) w ?w"
    by (intro server_rest.keep_round rest_setters server_rest.keep_process t) (simp_all add: same_rest_def)
  then have "held ?w = held w" by (cases w; cases ?w) (simp add: same_rest_def held_def)
  ultimately show ?thesis by (intro ext_step [of w ?w]) (simp_all add: grows_def)
qed

section \<open>All reachable states\<close>

definition server_sane :: "'a server_scheme server_conf \<Rightarrow> bool" where
  "server_sane c \<longleftrightarrow> (let (ps, w) = c in sane w \<and> list_all (sound (refs w)) ps)"

lemma server_sane_ext:
  assumes "ext w w'" "server_sane (ps, w)" "sane w \<Longrightarrow> list_all (sound (refs w')) qs"
  shows "server_sane (ps @ qs, w')"
proof -
  have "sane w'" "refs w \<subseteq> refs w'" using assms(1,2) by (simp_all add: ext_def server_sane_def)
  moreover have "list_all (sound (refs w')) ps"
    using assms(2) \<open>refs w \<subseteq> refs w'\<close> by (auto simp: server_sane_def list_all_iff intro: sound_mono)
  ultimately show ?thesis using assms(2,3) by (simp add: server_sane_def)
qed

lemma server_sane_same:
  assumes "ext w w'" "server_sane (ps, w)"
  shows "server_sane (ps, w')"
  using server_sane_ext [OF assms, of "[]"] by simp

lemma drop_at_subset: "set (drop_at n xs) \<subseteq> set xs"
  by (auto simp: drop_at_def dest: in_set_takeD in_set_dropD)

lemma ext_started:
  assumes "ext u w" "sane w \<Longrightarrow> fst ` set xs \<subseteq> refs w"
  shows "ext u (w\<lparr>sv_started := xs\<rparr>)" "ext u (w\<lparr>sv_started := xs, sv_active := k\<rparr>)"
  using assms unfolding ext_def sane_iff by simp_all

lemma ext_run:
  assumes "tame_server h" "n < length (sv_started w)" "run_job h n w = Some w'"
  shows "ext w w'"
proof -
  obtain r b where rb: "sv_started w ! n = (r, b)" by fastforce
  let ?j = "deref w r" and ?t = "case b of None \<Rightarrow> first_round (hd_use_case h) | Some t \<Rightarrow> t"
  obtain res w1 where w1: "one_round (hd_use_case h) (process (hd_use_case h) ?j) (j_id ?j) ?t w = (res, w1)" by fastforce
  have e: "ext w w1" using ext_round [OF assms(1), of w ?j ?t] w1 by simp
  have c: "sv_started w1 = sv_started w" using core_round [OF assms(1), of ?j ?t w] w1 by (simp add: core_def)
  have s: "fst ` set (sv_started w1) \<subseteq> refs w1" if "sane w1" using that by (simp only: sane_iff)
  have d: "fst ` set (drop_at n (sv_started w1)) \<subseteq> refs w1" if "sane w1"
    using s [OF that] image_mono [OF drop_at_subset] by (rule subset_trans [rotated])
  have u: "fst ` set ((sv_started w1)[n := (r, x)]) \<subseteq> refs w1" if "sane w1" for x
  proof -
    have "map fst ((sv_started w1)[n := (r, x)]) = map fst (sv_started w1)" using rb c by (simp add: map_update list_update_same_conv assms(2))
    then show ?thesis using s [OF that] by (metis set_map)
  qed
  show ?thesis
  proof (cases res)
    case (Inl x)
    with assms(3) have "w' = w1\<lparr>sv_started := drop_at n (sv_started w1), sv_active := sv_active w1 - 1\<rparr>"
      by (simp add: run_job_def rb w1 Let_def split: if_splits)
    with ext_started(2) [OF e d] show ?thesis by simp
  next
    case (Inr t)
    with assms(3) have "w' = w1\<lparr>sv_started := (sv_started w1)[n := (r, Some t)]\<rparr>" by (simp add: run_job_def rb w1 Let_def)
    with ext_started(1) [OF e u] show ?thesis by simp
  qed
qed

lemma ext_take: "take_job w = Some w' \<Longrightarrow> ext w w'"
proof (cases "sv_queue w")
  case (Cons r q)
  moreover assume "take_job w = Some w'"
  ultimately have "w' = w\<lparr>sv_queue := q, sv_active := sv_active w + 1, sv_started := sv_started w @ [(r, None)]\<rparr>"
    by (simp add: take_job_def)
  with Cons show ?thesis unfolding ext_def sane_iff by simp
qed (simp add: take_job_def)

lemma server_sane_step:
  assumes "server_step h c c'" "tame_server h" "server_sane c"
  shows "server_sane c'"
  using assms(1,3)
proof cases
  case (arrive q w p w' ps)
  then have "sane w" using assms(3) by (simp add: server_sane_def)
  from sound_serve [OF assms(2) this, of q] arrive have "ext w w'" "sound (refs w') p" using \<open>sane w\<close> by (simp_all add: sound_from_def)
  with arrive(1,2) assms(3) show ?thesis by (auto intro: server_sane_ext)
next
  case (send i ps r k w p w')
  have w: "sane w" "sound (refs w) (Send r k)" using send assms(3) by (auto simp: server_sane_def list_all_length)
  let ?v = "w\<lparr>sv_queue := sv_queue w @ [r]\<rparr>"
  from w(2) have r: "r \<in> refs w" and k: "\<And>v. sane v \<Longrightarrow> refs w \<subseteq> refs v \<Longrightarrow> ext v (snd (k v)) \<and> sound (refs (snd (k v))) (fst (k v))"
    by (auto elim: sound_sendE)
  have v: "sane ?v" using w(1) r by (simp add: sane_iff)
  from k [OF v] send(6) have k': "ext ?v w'" "sound (refs w') p" by simp_all
  with v have w': "sane w'" "refs w \<subseteq> refs w'" by (simp_all add: ext_def)
  have "list_all (sound (refs w')) (ps[i := p])"
    using send(1,3) assms(3) k'(2) w'(2) by (auto simp: server_sane_def list_all_length nth_list_update intro: sound_mono)
  with w'(1) send(2) show ?thesis by (simp add: server_sane_def)
next
  case (take w w' ps)
  then have "ext w w'" by (intro ext_take)
  with take(1,2) assms(3) show ?thesis by (auto intro: server_sane_same)
next
  case (run n w w' ps)
  have "ext w w'" by (rule ext_run [OF assms(2) run(3,4)])
  with run(1,2) assms(3) show ?thesis by (auto intro: server_sane_same)
next
  case (timer t w s w' ps)
  have "sane w" using timer(1) assms(3) by (simp add: server_sane_def)
  from fire_timer_ext(1) [OF timer(3) this] timer(1,2) assms(3) show ?thesis by (auto intro: server_sane_same)
next
  case (timer_send t w r s w' ps)
  have "sane w" using timer_send(1) assms(3) by (simp add: server_sane_def)
  note f = fire_timer_ext [OF timer_send(3) this]
  have "r \<in> refs (w'\<lparr>sv_scheduler := s\<rparr>)" using f(2) f(1) \<open>sane w\<close> by (auto simp: ext_def)
  then have "sound (refs (w'\<lparr>sv_scheduler := s\<rparr>)) (Send r (Pair Return))" by (intro sound_send) (auto intro: sound_return)
  with f(1) timer_send(1,2) assms(3) show ?thesis by (auto intro: server_sane_ext)
next
  case (hang_up ps w c i)
  with assms(3) show ?thesis by (auto intro: server_sane_same [OF ext_conns [OF ext_refl]])
next
  case (cleanup ps w)
  with assms(3) show ?thesis by (auto intro: server_sane_same [OF ext_files(7) [OF ext_refl]])
next
  case (limiter_cleanup ps w now)
  with assms(3) show ?thesis by (auto intro: server_sane_same [OF ext_limiter [OF ext_refl]])
qed

lemma server_sane_boot:
  assumes "new_server w"
  shows "server_sane (boot h w)"
proof -
  have "sane w" using assms
    by (simp add: new_server_def sane_iff store_wf_def Start_def NewSchedulerService_def NewBatchService_def)
  with sound_boot [of w "hd_cfg h"] show ?thesis
    by (auto simp: boot_def case_prod_beta Let_def server_sane_def sound_from_def ext_def)
qed

text \<open>C4. No pointer of the server dangles: in every state it can reach, whatever requests, timers, attempts
and clean-up interleave, the repository is well formed (each identifier leads to the job with this
identifier), and every job in the queue, at work, scheduled, in a batch, or in the hands of a
handler that waits for room in the queue, is one that was created.\<close>

theorem no_dangling_pointers:
  assumes "reachable h (ps, w)" "tame_server h"
  shows "store_wf w \<and> (\<forall>r\<in>set (sv_queue w) \<union> fst ` set (sv_started w). live_ref w r)
    \<and> (\<forall>s\<in>set (ListScheduledJobs (sv_scheduler w)). live_ref w (sc_job s))
    \<and> (\<forall>b\<in>set (ListBatches (sv_batches w)). \<forall>r\<in>set (b_jobs b). live_ref w r)
    \<and> (\<forall>p\<in>set ps. case p of Send r k \<Rightarrow> live_ref w r | _ \<Rightarrow> True)"
proof -
  from assms(1) obtain v where v: "new_server v" "(server_step h)\<^sup>*\<^sup>* (boot h v) (ps, w)" by (auto simp: reachable_def)
  from v(2) server_sane_boot [OF v(1)] have s: "server_sane (ps, w)"
    by (induction rule: rtranclp_induct) (auto intro: server_sane_step assms(2))
  then have w: "store_wf w" "set (sv_queue w) \<subseteq> refs w" "fst ` set (sv_started w) \<subseteq> refs w"
      "sc_job ` set (vals (sch_jobs (sv_scheduler w))) \<subseteq> refs w" "(\<Union>b\<in>set (vals (sv_batches w)). set (b_jobs b)) \<subseteq> refs w"
    unfolding server_sane_def prod.case Let_def sane_iff by blast+
  have "case p of Send r k \<Rightarrow> live_ref w r | _ \<Rightarrow> True" if "p \<in> set ps" for p
    using s that by (auto simp: server_sane_def list_all_iff refs_def split: prog.split elim: sound_sendE)
  with w show ?thesis unfolding ListScheduledJobs_def ListBatches_def refs_def by blast
qed

theorem no_dangling_pointers_witness: "store_wf (snd (boot (demo_handler 1) demo_service))"
proof -
  have "reachable (demo_handler 1) (boot (demo_handler 1) demo_service)" by (auto simp: reachable_def intro: exI [of _ demo_service])
  then show ?thesis
    using no_dangling_pointers [of "demo_handler 1" "fst (boot (demo_handler 1) demo_service)" "snd (boot (demo_handler 1) demo_service)"]
    by simp
qed

end
