(* ===== verification/Deletion.thy ===== *)
theory Deletion
  imports Races Pointers Worker_Sync
begin

text \<open>
  A job at work and everything else in the server, interleaved: the goroutines of one attempt
  (\<^emph>\<open>Worker_Sync\<close>), stage by stage, between the steps of the server (\<^emph>\<open>Server\<close>), which work on the same
  state. The question is what a deletion (\<open>DeleteJob\<close> of \<open>job_handler.go\<close>) does to a job at work.
\<close>

section \<open>An attempt inside the server\<close>

type_synonym 'a live_conf = "'a service_scheme prog list \<times> 'a service_scheme sync"

inductive live_step :: "'a service_scheme handler \<Rightarrow> job \<Rightarrow> 'a live_conf \<Rightarrow> 'a live_conf \<Rightarrow> bool"
  for h j where
  own: "sync_step (hd_use_case h) j s s' \<Longrightarrow> live_step h j (ps, s) (ps, s')"
| other: "server_step h (ps, sy_world s) (qs, w) \<Longrightarrow> live_step h j (ps, s) (qs, s\<lparr>sy_world := w\<rparr>)"

text \<open>The steps after which the job is still in the repository.\<close>

definition undeleted_step :: "'a service_scheme handler \<Rightarrow> job \<Rightarrow> 'a live_conf \<Rightarrow> 'a live_conf \<Rightarrow> bool" where
  "undeleted_step h j c d \<longleftrightarrow> live_step h j c d \<and> job_view (sy_world (snd d)) (j_id j) \<noteq> None"

section \<open>What the own steps leave alone\<close>

definition own_frame :: "string \<Rightarrow> 'a server_scheme \<Rightarrow> 'a server_scheme \<Rightarrow> bool" where
  "own_frame i u w \<longleftrightarrow> keeps i u w \<and> grows i u w \<and> same_rest i u w"

lemma own_frame_refl [simp]: "own_frame i w w"
  by (simp add: own_frame_def grows_def same_rest_def)

interpretation own_steps: job_frame own_frame
  unfolding own_frame_def
  by unfold_locales (blast intro: one_job.keep growth.keep server_rest.keep one_job.files growth.files server_rest.files)+

lemma own_frame_ext:
  assumes "own_frame i w w'"
  shows "ext w w'"
proof -
  have "held w' = held w" using assms by (cases w; cases w') (simp add: own_frame_def same_rest_def held_def)
  with assms show ?thesis by (intro ext_step [of w w']) (simp_all add: own_frame_def grows_def)
qed

lemma own_frame_present: "own_frame i w w' \<Longrightarrow> present i w \<Longrightarrow> present i w'"
  using keeps_present by (auto simp: own_frame_def)

section \<open>Scripts that do not use a nil pointer\<close>

text \<open>A script of a job that, while the job is in the repository, touches nothing else and never ends with
the use of a nil pointer.\<close>

inductive tidy :: "string \<Rightarrow> 'a server_scheme script \<Rightarrow> bool" for i where
  tidy_ret: "r \<noteq> Inl nil_deref \<Longrightarrow> tidy i (Ret r)"
| tidy_act: "(\<And>w. own_frame i w (fst (f w))) \<Longrightarrow> (\<And>w. present i w \<Longrightarrow> tidy i (snd (f w))) \<Longrightarrow> tidy i (Act f)"
| tidy_go: "tidy i k \<Longrightarrow> tidy i (Go c k)"

inductive_simps tidy_simps [simp]: "tidy i (Ret r)" "tidy i (Act f)" "tidy i (Go c k)"

lemma tidy_stage:
  assumes "\<And>w. own_frame i w (snd (f w))" "\<And>w e. present i w \<Longrightarrow> fst (f w) = Inl e \<Longrightarrow> g e \<noteq> nil_deref"
    "\<And>w x. present i w \<Longrightarrow> fst (f w) = Inr x \<Longrightarrow> tidy i (k x)"
  shows "tidy i (stage g f k)"
  using assms by (auto simp: stage_def case_prod_beta split: sum.split)

lemma not_nil_deref: "\<not> panics e \<Longrightarrow> e \<noteq> nil_deref"
  by (auto simp: panics_def)

lemma wrapped_not_nil: "wrap ''encoding failed'' e \<noteq> nil_deref" "wrap ''failed to get/create state'' e \<noteq> nil_deref"
  "wrap ''failed to update status'' e \<noteq> nil_deref"
  by (simp_all add: not_nil_deref panics_other)

lemma cached_error: "present i w \<Longrightarrow> fst (store_in_cache uc i w) = Some e \<Longrightarrow> e = nil_map_write"
  using mem.get_Some [of w i]
  by (auto simp: present_def store_in_cache_def GetJob_def Let_def case_prod_beta split: sum.splits if_splits)

lemma parts_errors:
  assumes "tame (uc_run uc)" "present (j_id j) w"
  shows "fst (begin_encoding uc j w) = Inl e \<Longrightarrow> e \<noteq> nil_deref"
    "fst (encodeSeparateAV uc j s info w) = Inl e \<Longrightarrow> e \<noteq> nil_deref"
    "fst (finish_resume uc j info n acc s w) = Inr ((r, vs, Some e), s') \<Longrightarrow> e \<noteq> nil_deref"
    "fst (end_encoding uc (r, vs, partial) s w) = Inl e \<Longrightarrow> partial = Some e"
    "fst (describe_output uc j r vs info w) \<noteq> Inl e"
    "fst (conclude uc j s out w) = Inl e \<Longrightarrow> e = nil_map_write"
proof -
  show "e \<noteq> nil_deref" if "fst (begin_encoding uc j w) = Inl e"
    using that by (auto simp: begin_encoding_def checkJobDiskLimit_def nil_deref_def Let_def case_prod_beta split: sum.splits if_splits)
  show "e \<noteq> nil_deref" if "fst (encodeSeparateAV uc j s info w) = Inl e"
    using that by (auto simp: encodeSeparateAV_def Let_def case_prod_beta nil_deref_def wrap_def split: sum.splits)
  show "e \<noteq> nil_deref" if "fst (finish_resume uc j info n acc s w) = Inr ((r, vs, Some e), s')"
    using that by (auto simp: finish_resume_def Let_def case_prod_beta nil_deref_def split: sum.splits if_splits)
  show "partial = Some e" if "fst (end_encoding uc (r, vs, partial) s w) = Inl e"
    using that by (auto simp: end_encoding_def Let_def case_prod_beta split: option.splits)
  show "fst (describe_output uc j r vs info w) \<noteq> Inl e"
    using assms by (simp add: describe_output_def Let_def case_prod_beta present_ops setters_ok split: sum.split)
  show "e = nil_map_write" if "fst (conclude uc j s out w) = Inl e"
  proof -
    define u where "u = (if js_qualities_failed s \<noteq> [] then snd (SetError (j_id j)
       \<lparr>je_code = ''ERR_PARTIAL_ENCODING'', je_stage = ''encoding'',
        je_message = ''Some qualities failed to encode: '' @ fmt_strings (js_qualities_failed s),
        je_logs_path = ''outputs/'' @ j_id j @ ''/logs'', je_failed = js_qualities_failed s\<rparr> w) else w)"
    have "present (j_id j) u" using assms(2) by (simp add: u_def present_ops)
    then have "present (j_id j) (snd (finish_status uc (j_id j) b t (snd (clean_step_once uc (j_id j) s u))))" for b t
      by (simp add: present_ops)
    from cached_error [OF this] that show ?thesis unfolding conclude_def u_def [symmetric] Let_def case_prod_beta
      by (auto split: option.splits)
  qed
qed

text \<open>The goroutine of a job, stage by stage.\<close>

lemma tidy_finish:
  assumes "tame (uc_run uc)"
  shows "tidy (j_id j) (finish_script uc j info encoded)"
proof -
  have c: "e \<noteq> nil_deref" if "present (j_id j) w" "fst (conclude uc j s out w) = Inl e" for e w s out
    using parts_errors(6) [OF assms that] by (simp add: nil_map_write_def nil_deref_def)
  show ?thesis unfolding finish_script_def case_prod_beta Let_def
    by (intro tidy_stage own_steps.keep_output own_steps.keep_parts own_frame_refl assms tidy_ret)
       (use parts_errors(5) [OF assms] c in auto)
qed

lemma tidy_resume:
  assumes "tame (uc_run uc)" "\<And>x. tidy (j_id j) (k x)"
  shows "tidy (j_id j) (resume_script uc j info vs acc s k)"
proof (induction vs arbitrary: acc s)
  case (Cons v vs)
  then show ?case
    by (auto intro!: tidy_stage own_steps.keep_resume_loop assms wrapped_not_nil)
qed (simp add: assms)

lemma tidy_encode:
  assumes "tame (uc_run uc)"
  shows "tidy (j_id j) (encode_script uc j s info)"
proof -
  have e: "tidy (j_id j) (stage id (end_encoding uc encoded t) (finish_script uc j info))"
    if "fst (finish_resume uc j info n acc s' w) = Inr (encoded, t)" "present (j_id j) w" for encoded t n acc s' w
  proof -
    obtain res vs partial where x: "encoded = (res, vs, partial)" by (cases encoded)
    show ?thesis unfolding x
      using parts_errors(3) [OF assms that(2)] parts_errors(4) [OF assms, where r = res and vs = vs and partial = partial and s = t] that
      by (intro tidy_stage own_steps.keep_end own_frame_refl tidy_finish assms) (auto simp: x)
  qed
  have "tidy (j_id j) (stage (wrap ''encoding failed'') (finish_resume uc j info n acc t) (\<lambda>(encoded, s2).
      stage id (end_encoding uc encoded s2) (finish_script uc j info)))" for n acc t
    by (rule tidy_stage [OF own_steps.keep_parts(2) [OF own_frame_refl] wrapped_not_nil(1)]) (auto intro: e)
  then have r: "tidy (j_id j) (resume_script uc j info vs ([], [], []) s (\<lambda>(acc, s1). stage (wrap ''encoding failed'') (finish_resume uc j info n acc s1)
      (\<lambda>(encoded, s2). stage id (end_encoding uc encoded s2) (finish_script uc j info))))" for vs n
    by (intro tidy_resume assms) auto
  have a: "tidy (j_id j) (stage id (encodeSeparateAV uc j s info) (finish_script uc j info))"
    using parts_errors(2) [OF assms] by (intro tidy_stage own_steps.keep_steps own_frame_refl tidy_finish assms) auto
  show ?thesis unfolding encode_script_def Let_def
    by (rule tidy_stage [OF own_steps.keep_parts(1) [OF own_frame_refl]]) (use parts_errors(1) [OF assms] a r in auto)
qed

lemma tidy_dedup:
  assumes "tame (uc_run uc)"
  shows "tidy (j_id j) (dedup_script uc j s)"
proof -
  note calm = calm_steps [OF assms, unfolded calm_result_def, rule_format, THEN not_nil_deref]
  have v: "tidy (j_id j) (stage id (videoInfoFor uc j t) (\<lambda>(info, s2). encode_script uc j s2 info))" for t
    by (rule tidy_stage [OF own_steps.keep_encoding(2) [OF assms own_frame_refl]]) (use calm(3) tidy_encode [OF assms] in auto)
  show ?thesis unfolding dedup_script_def
    by (rule tidy_stage) (use calm(2) v own_steps.keep_steps(2) [OF assms own_frame_refl] in \<open>auto split: if_splits\<close>)
qed

lemma tidy_process:
  assumes "tame (uc_run uc)"
  shows "tidy (j_id j) (process_script uc j)"
proof -
  note calm = calm_steps(1) [OF assms, unfolded calm_result_def, rule_format, THEN not_nil_deref]
  have s: "tidy (j_id j) (steps_script uc j s)" for s
    unfolding steps_script_def
    by (rule tidy_stage) (use calm tidy_dedup [OF assms] own_steps.keep_steps(1) [OF assms own_frame_refl] in \<open>auto split: if_splits\<close>)
  have u: "tidy (j_id j) (stage (wrap ''failed to update status'') (UpdateStatus (j_id j) RUNNING) (\<lambda>_. steps_script uc j t))" for t
    by (rule tidy_stage [OF own_steps.keep(4) [OF own_frame_refl]]) (use s wrapped_not_nil in auto)
  have g: "tidy (j_id j) (stage (wrap ''failed to get/create state'') (getOrCreateState (uc_cfg uc) j) (\<lambda>s. Go Heartbeat (Go DiskCheck
     (stage (wrap ''failed to update status'') (UpdateStatus (j_id j) RUNNING) (\<lambda>_. steps_script uc j s)))))"
  proof (rule tidy_stage)
    show "own_frame (j_id j) w (snd (getOrCreateState (uc_cfg uc) j w))" for w by (intro own_steps.keep own_frame_refl)
  qed (use u wrapped_not_nil in \<open>auto intro: tidy_go\<close>)
  have m: "own_frame (j_id j) w ((snd (StartJobMetrics (j_id j) (j_input_path j) mm w))\<lparr>w_metrics := mm'\<rparr>)" for w :: "'a server_scheme" and mm mm'
    by (intro own_steps.metrics own_steps.keep own_frame_refl)
  show ?thesis unfolding process_script_def case_prod_beta Let_def
    by (rule tidy_act) (use m g in \<open>auto intro: tidy_go\<close>)
qed

lemma companion_frame: "own_frame (j_id j) w (snd (companion_work uc j c r w))"
proof -
  have f: "own_frame (j_id j) w (snd (UpdateHeartbeat (uc_cfg uc) (j_id j) w))"
  proof (rule own_steps.files)
    show "os_frame w (snd (UpdateHeartbeat (uc_cfg uc) (j_id j) w))"
      by (auto simp: UpdateHeartbeat_def UpdateState_def case_prod_beta Let_def split: sum.split intro!: osf)
  qed simp
  show ?thesis
    using own_steps.keep_small(4) [OF own_frame_refl, of "j_id j" w "uc_cfg uc"] own_steps.metrics [OF own_frame_refl, of "j_id j" w] f
    by (auto simp: companion_work_def metrics_tick_def heartbeat_tick_def disk_tick_def case_prod_beta split: companion.split sum.split)
qed

section \<open>All schedules without a deletion\<close>

definition live_ok :: "job \<Rightarrow> 'a live_conf \<Rightarrow> bool" where
  "live_ok j c \<longleftrightarrow> (let (ps, s) = c
     in server_sane (ps, sy_world s) \<and> present (j_id j) (sy_world s)
        \<and> (case sy_main s of Run k \<Rightarrow> tidy (j_id j) k | Stop r \<Rightarrow> r \<noteq> Inl nil_deref | Done r \<Rightarrow> r \<noteq> Inl nil_deref))"

lemma live_ok_world:
  assumes "live_ok j (ps, s)" "own_frame (j_id j) (sy_world s) w" "sy_world s' = w"
    "case sy_main s' of Run k \<Rightarrow> tidy (j_id j) k | Stop r \<Rightarrow> r \<noteq> Inl nil_deref | Done r \<Rightarrow> r \<noteq> Inl nil_deref"
  shows "live_ok j (ps, s')"
  using assms server_sane_same [OF own_frame_ext [OF assms(2)]] own_frame_present [OF assms(2)]
  by (simp add: live_ok_def)

lemma live_ok_own:
  assumes "sync_step (hd_use_case h) j s s'" "live_ok j (ps, s)"
  shows "live_ok j (ps, s')"
  using assms(1)
proof cases
  case (act f w k)
  with assms(2) have p: "present (j_id j) (sy_world s)" and t: "tidy (j_id j) (Act f)" by (auto simp: live_ok_def)
  from t have "own_frame (j_id j) (sy_world s) (fst (f (sy_world s)))" "tidy (j_id j) (snd (f (sy_world s)))"
    unfolding tidy_simps using p by blast+
  then have "own_frame (j_id j) (sy_world s) w" "tidy (j_id j) k" unfolding act(3) by simp_all
  with act(1) show ?thesis by (intro live_ok_world [OF assms(2), of w]) simp_all
next
  case (handled c r stay w)
  then have "own_frame (j_id j) (sy_world s) w" using companion_frame [of j "sy_world s" "hd_use_case h" c r] by simp
  with handled assms(2) show ?thesis by (intro live_ok_world [OF assms(2), of w]) (auto simp: live_ok_def)
qed (use assms(2) in \<open>auto simp: live_ok_def\<close>)

lemma live_ok_step:
  assumes "undeleted_step h j c d" "tame_server h" "live_ok j c"
  shows "live_ok j d"
proof -
  from assms(1) have "live_step h j c d" "job_view (sy_world (snd d)) (j_id j) \<noteq> None" by (simp_all add: undeleted_step_def)
  then show ?thesis
  proof (cases rule: live_step.cases)
    case (own s s' ps)
    with assms(3) live_ok_own [of h j s s' ps] show ?thesis by simp
  next
    case (other ps s qs w)
    have s: "server_sane (ps, sy_world s)" using assms(3) other(1) by (simp add: live_ok_def)
    have "server_sane (qs, w)" by (rule server_sane_step [OF other(3) assms(2) s])
    moreover from this have "present (j_id j) w"
      using other(2) \<open>job_view _ _ \<noteq> None\<close> by (simp add: present_def server_sane_def sane_def)
    ultimately show ?thesis using other(1,2) assms(3) by (simp add: live_ok_def)
  qed
qed

lemma live_ok_start:
  assumes "reachable h (ps, w)" "tame_server h" "job_view w (j_id j) \<noteq> None"
  shows "live_ok j (ps, start (hd_use_case h) j w)"
proof -
  have t: "tame (uc_run (hd_use_case h))" using assms(2) by (simp add: tame_server_def)
  from assms(1) obtain v where v: "new_server v" "(server_step h)\<^sup>*\<^sup>* (boot h v) (ps, w)" by (auto simp: reachable_def)
  from v(2) server_sane_boot [OF v(1)] have "server_sane (ps, w)"
    by (induction rule: rtranclp_induct) (auto intro: server_sane_step assms(2))
  then show ?thesis using assms(3) tidy_process [OF t, of j] by (simp add: live_ok_def start_def present_def server_sane_def sane_def)
qed

text \<open>C5. Only a deletion can make a job crash the server: in every state the server can reach, let the work on
a stored job begin; however its stages interleave with its companions, requests, timers, the clean-up
and the work on other jobs, as long as the job is not deleted its goroutine never ends with the use
of a nil pointer.\<close>

theorem crash_needs_deletion:
  assumes "reachable h (ps, w)" "tame_server h" "job_view w (j_id j) \<noteq> None"
    and "(undeleted_step h j)\<^sup>*\<^sup>* (ps, start (hd_use_case h) j w) (qs, s)"
  shows "sy_main s \<noteq> Done (Inl nil_deref) \<and> sy_main s \<noteq> Stop (Inl nil_deref)"
proof -
  from assms(4) live_ok_start [OF assms(1-3)] have "live_ok j (qs, s)"
    by (induction rule: rtranclp_induct) (auto intro: live_ok_step assms(2))
  then show ?thesis by (auto simp: live_ok_def split: worker.splits)
qed

section \<open>A deletion before the search for duplicates\<close>

lemma delete_request:
  fixes w :: "'a server_scheme"
  assumes "io_good w" "lookup (st_repo w) (rq_var rq) = Some r"
  shows "\<exists>rp w1. DeleteJob_http h rq w = (Reply rp, w1) \<and> rp_status rp = 200 \<and> lookup (st_repo w1) (rq_var rq) = None"
proof -
  let ?d = "DeleteJobFiles (hd_cfg h) (rq_var rq) w"
  have f: "fst ?d = Inr ()" using assms(1) by (rule DeleteJobFiles_good)
  have r: "lookup (st_repo (snd ?d)) (rq_var rq) = Some r" using os_frame_store [OF DeleteJobFiles_frame, of "hd_cfg h" "rq_var rq" w] assms(2) by simp
  have a: "\<exists>rp v'. answer_with rq m d v = (Reply rp, v') \<and> rp_status rp = 200 \<and> st_repo v' = st_repo v" for m d and v :: "'a server_scheme"
    by (simp add: answer_with_def replies_def SendSuccessWithMessage_def NewSuccessResponseWithMessage_def format_now_def
        SendJSON_def time_now_def Let_def case_prod_beta)
  show ?thesis using assms(2) f r
      a [of "''Job and all associated files deleted successfully''" "[(''jobId'', Some (JStr (rq_var rq))), (''deleted'', Some (JBool True))]"
          "(snd ?d)\<lparr>st_repo := del (rq_var rq) (st_repo (snd ?d))\<rparr>"]
    by (auto simp: DeleteJob_http_def GetJob_def repo_Get_def DeleteJob_def repo_Delete_def case_prod_beta)
qed

lemma serve_delete:
  fixes w :: "'a service_scheme"
  assumes "find_route SetupRoutes (wr_method q) (tl (split_on CHR ''/'' (rq_path (wr_http q)))) False = Handler E_DeleteJob i"
    "fst (Middleware (fst (time_now w)) (fst (time_now (snd (time_now w)))) (wr_http q) (sv_limiter w)) = Next"
    "io_good w" "lookup (st_repo w) i = Some r"
  shows "\<exists>rp w1. serve h q w = (Reply rp, w1) \<and> rp_status rp = 200 \<and> lookup (st_repo w1) i = None"
proof -
  from serve_admitted [OF assms(1,2), of h] obtain l where
    s: "serve h q w = DeleteJob_http h (request_of q i) (w\<lparr>tick := tick w + 2, sv_limiter := l\<rparr>)" by auto
  have "io_good (w\<lparr>tick := tick w + 2, sv_limiter := l\<rparr>)" using assms(3) by (simp add: io_good_def)
  from delete_request [OF this, of "request_of q i" r h] assms(4) show ?thesis by (simp add: s)
qed

lemma dedup_without_job:
  assumes "lookup (st_repo w) (j_id j) = None"
  shows "fst (stepDeduplication uc j t w) = Inl nil_deref"
  using assms by (simp add: stepDeduplication_def UpdateProgress_def GetJob_def repo_Get_def case_prod_beta)

text \<open>What ends the goroutine stays what it is.\<close>

definition ends_with :: "err + unit \<Rightarrow> 'w sync \<Rightarrow> bool" where
  "ends_with r s \<longleftrightarrow> sy_main s = Run (Ret r) \<or> sy_main s = Stop r \<or> sy_main s = Done r"

lemma ends_with_steps: "(live_step h j)\<^sup>*\<^sup>* c d \<Longrightarrow> ends_with r (snd c) \<Longrightarrow> ends_with r (snd d)"
proof (induction rule: rtranclp_induct)
  case (step d e)
  from step(2) step.IH [OF step.prems] show ?case
    by (cases rule: live_step.cases) (auto simp: ends_with_def elim!: sync_stepE)
qed

text \<open>C6. A deletion can crash the server: while the work on a job has its hash and has not yet looked for
duplicates, let a client delete the job. The client is told that the job is deleted, the worker's
next stage uses a nil pointer, and however the work then goes on, it can only end with this panic.\<close>

theorem deletion_crashes_worker:
  fixes q :: web_request and h :: "'a service_scheme handler"
  assumes "sy_main s = Run (dedup_script (hd_use_case h) j t)" "\<not> IsStepCompleted t StepDeduplication"
    and "io_good (sy_world s)" "lookup (st_repo (sy_world s)) (j_id j) = Some r"
    and "find_route SetupRoutes (wr_method q) (tl (split_on CHR ''/'' (rq_path (wr_http q)))) False = Handler E_DeleteJob (j_id j)"
    and "fst (Middleware (fst (time_now (sy_world s))) (fst (time_now (snd (time_now (sy_world s))))) (wr_http q) (sv_limiter (sy_world s))) = Next"
  shows "\<exists>rp s'. (live_step h j)\<^sup>*\<^sup>* (ps, s) (ps @ [Reply rp], s') \<and> rp_status rp = 200
    \<and> (\<forall>qs u x. (live_step h j)\<^sup>*\<^sup>* (ps @ [Reply rp], s') (qs, u) \<and> sy_main u = Done x \<longrightarrow> x = Inl nil_deref)"
proof -
  let ?uc = "hd_use_case h"
  from serve_delete [OF assms(5,6,3,4), of h] obtain rp w1 where
    w1: "serve h q (sy_world s) = (Reply rp, w1)" "rp_status rp = 200" "lookup (st_repo w1) (j_id j) = None" by blast
  let ?t = "s\<lparr>sy_world := w1\<rparr>"
  have 1: "live_step h j (ps, s) (ps @ [Reply rp], ?t)"
    using live_step.other [OF server_step.arrive [OF w1(1)], of j ps] by simp
  obtain w2 where w2: "stepDeduplication ?uc j t w1 = (Inl nil_deref, w2)"
    using dedup_without_job [OF w1(3), of ?uc t] by (metis prod.collapse)
  let ?u = "?t\<lparr>sy_world := w2, sy_main := Run (Ret (Inl (id nil_deref)))\<rparr>"
  have "sy_main ?t = Run (dedup_script ?uc j t)" using assms(1) by simp
  from stage_step(2) [OF this [unfolded dedup_script_def], of nil_deref w2 ?uc] have "sync_step ?uc j ?t ?u"
    using assms(2) w2 by simp
  then have 2: "live_step h j (ps @ [Reply rp], ?t) (ps @ [Reply rp], ?u)" by (rule live_step.own)
  have "x = Inl nil_deref" if "(live_step h j)\<^sup>*\<^sup>* (ps @ [Reply rp], ?u) (qs, v)" "sy_main v = Done x" for qs v x
    using ends_with_steps [OF that(1), of "Inl nil_deref"] that(2) by (auto simp: ends_with_def)
  with 1 2 w1(2) show ?thesis by (intro exI [of _ rp] exI [of _ ?u]) (auto intro: converse_rtranclp_into_rtranclp)
qed

section \<open>Concrete runs\<close>

text \<open>A client submits a batch to a new server; its first job is begun and runs to the end of its attempt.\<close>

definition batch_post :: web_request where
  "batch_post = \<lparr>wr_method = ''POST'', wr_http = \<lparr>rq_forwardedFor = [], rq_realIP = [], rq_remoteAddr = ''10.0.0.1'', rq_path = ''/batch''\<rparr>,
     wr_id = ''r1'', wr_uuid = [], wr_body = rq_body (text_request [] two_files), wr_upgrade = None\<rparr>"

lemma demo_boot: "boot media_handler demo_service = ([Return], served 1 (NewRateLimiter 100 20))"
proof -
  have "parse_path (outputs (hd_cfg media_handler)) = (False, [''outputs''])" "outputs (hd_cfg media_handler) = ''outputs''"
    by (simp_all add: media_handler_def demo_handler_def hd_cfg_def Load_default) code_simp
  then show ?thesis
    by (simp add: boot_def resumeOrphanedJobs_def FindOrphanedJobs_def os_read_dir_def demo_service_def demo_world_def advance_def
        is_dir_at_def case_prod_beta Let_def)
qed

lemma batch_served: "\<exists>p w i. serve media_handler batch_post (served 1 (NewRateLimiter 100 20)) = (p, w) \<and> job_view w i \<noteq> None"
proof -
  let ?w = "served 1 (NewRateLimiter 100 20)"
  have n: "fst (Middleware (fst (time_now ?w)) (fst (time_now (snd (time_now ?w)))) (wr_http batch_post) (sv_limiter ?w)) = Next"
    by (rule fresh_client_passes) (simp_all add: demo_service_def demo_world_def)
  have r: "find_route SetupRoutes ''POST'' (tl (split_on CHR ''/'' ''/batch'')) False = Handler E_CreateBatch []" by code_simp
  then have "find_route SetupRoutes (wr_method batch_post) (tl (split_on CHR ''/'' (rq_path (wr_http batch_post)))) False = Handler E_CreateBatch []"
    by (simp add: batch_post_def)
  from serve_admitted [OF this n, of media_handler] obtain l where
    "serve media_handler batch_post ?w = CreateBatchJob media_handler (request_of batch_post []) (served (Suc (Suc (Suc 0))) l)" by auto
  moreover have "rq_body (request_of batch_post []) = rq_body (text_request [] two_files)" by (simp add: batch_post_def)
  ultimately show ?thesis using batch_begins [of "request_of batch_post []" l "Suc (Suc (Suc 0))"] by auto
qed

lemma own_path:
  assumes "sync_steps (hd_use_case h) j s s'" "live_ok j (ps, s)"
  shows "(undeleted_step h j)\<^sup>*\<^sup>* (ps, s) (ps, s')"
proof -
  from assms(1) have "(undeleted_step h j)\<^sup>*\<^sup>* (ps, s) (ps, s') \<and> live_ok j (ps, s')"
  proof (induction rule: rtranclp_induct)
    case (step t u)
    then have "live_ok j (ps, u)" by (blast intro: live_ok_own)
    moreover from this have "undeleted_step h j (ps, t) (ps, u)"
      using step(2) by (simp add: undeleted_step_def live_step.own live_ok_def present_def)
    ultimately show ?case using step(3) by (blast intro: rtranclp.rtrancl_into_rtrancl)
  qed (simp add: assms(2))
  then show ?thesis by blast
qed

theorem crash_needs_deletion_witness:
  "\<exists>ps w j s r. (undeleted_step media_handler j)\<^sup>*\<^sup>* (ps, start (hd_use_case media_handler) j w) (ps, s)
     \<and> sy_main s = Done r \<and> r \<noteq> Inl nil_deref"
proof -
  let ?uc = "hd_use_case media_handler"
  obtain p w i where w: "serve media_handler batch_post (served 1 (NewRateLimiter 100 20)) = (p, w)" "job_view w i \<noteq> None"
    using batch_served by blast
  have "reachable media_handler ([Return] @ [p], w)" unfolding reachable_def
    using server_step.arrive [OF w(1), of "[Return]"] by (intro exI [of _ demo_service]) (auto simp: demo_boot)
  note r = this media_tame
  define j where "j = zero_job\<lparr>j_id := i\<rparr>"
  have j: "job_view w (j_id j) \<noteq> None" using w(2) by (simp add: j_def)
  obtain s where s: "sync_steps ?uc j (start ?uc j w) s" "sy_main s = Done (fst (process ?uc j w))"
    using quiet_run [of "start ?uc j w" "process_script ?uc j" "fst (process ?uc j w)" "snd (process ?uc j w)" ?uc j]
    by (auto simp: start_def quiet_def process_script_ok exec_process)
  have p: "(undeleted_step media_handler j)\<^sup>*\<^sup>* ([Return] @ [p], start ?uc j w) ([Return] @ [p], s)"
    by (rule own_path [OF s(1) live_ok_start [OF r j]])
  from crash_needs_deletion [OF r j p] s(2) have "fst (process ?uc j w) \<noteq> Inl nil_deref" by simp
  with s(2) p show ?thesis by blast
qed

text \<open>A job whose hash is known already is deleted when its work begins.\<close>

definition reaches :: "'a world_scheme use_case \<Rightarrow> job \<Rightarrow> 'a world_scheme \<Rightarrow> 'a world_scheme \<Rightarrow> 'a world_scheme script \<Rightarrow> bool" where
  "reaches uc j w v k \<longleftrightarrow> (\<exists>s. sync_steps uc j (start uc j w) s \<and> sy_main s = Run k \<and> sy_world s = v)"

lemma reaches_act:
  assumes "reaches uc j w v (Act f)" "f v = (v', k)"
  shows "reaches uc j w v' k"
proof -
  from assms(1) obtain s where s: "sync_steps uc j (start uc j w) s" "sy_main s = Run (Act f)" "sy_world s = v"
    by (auto simp: reaches_def)
  have "sync_step uc j s (s\<lparr>sy_world := v', sy_main := Run k\<rparr>)" using sync_step.act [OF s(2), of v' k uc j] assms(2) s(3) by simp
  with s(1) have "sync_steps uc j (start uc j w) (s\<lparr>sy_world := v', sy_main := Run k\<rparr>)" by (rule rtranclp.rtrancl_into_rtrancl)
  then show ?thesis unfolding reaches_def by (intro exI [of _ "s\<lparr>sy_world := v', sy_main := Run k\<rparr>"]) simp
qed

lemma reaches_stage: "reaches uc j w v (stage g f k) \<Longrightarrow> f v = (Inr x, v') \<Longrightarrow> reaches uc j w v' (k x)"
  unfolding stage_def by (erule reaches_act) simp

lemma reaches_go:
  assumes "reaches uc j w v (Go c k)"
  shows "reaches uc j w v k"
proof -
  from assms obtain s where s: "sync_steps uc j (start uc j w) s" "sy_main s = Run (Go c k)" "sy_world s = v"
    by (auto simp: reaches_def)
  let ?t = "s\<lparr>sy_main := Run k, sy_defers := c # sy_defers s, sy_comp := (sy_comp s)(c := Waiting)\<rparr>"
  from s(1) sync_step.go [OF s(2)] have "sync_steps uc j (start uc j w) ?t" by (rule rtranclp.rtrancl_into_rtrancl)
  with s(3) show ?thesis unfolding reaches_def by (intro exI [of _ ?t]) simp
qed

lemma before_dedup:
  assumes "StartJobMetrics (j_id j) (j_input_path j) (w_metrics w) w = (mm, w1)"
    "getOrCreateState (uc_cfg uc) j (w1\<lparr>w_metrics := mm\<rparr>) = (Inr t, w2)" "UpdateStatus (j_id j) RUNNING w2 = (Inr (), w3)"
    "IsStepCompleted t StepHashComputation"
  shows "reaches uc j w w3 (dedup_script uc j t)"
proof -
  have p: "reaches uc j w w (process_script uc j)"
    unfolding reaches_def by (intro exI [of _ "start uc j w"]) (simp add: start_def)
  let ?load = "stage (wrap ''failed to get/create state'') (getOrCreateState (uc_cfg uc) j) (\<lambda>s.
      Go Heartbeat (Go DiskCheck (stage (wrap ''failed to update status'') (UpdateStatus (j_id j) RUNNING) (\<lambda>_. steps_script uc j s))))"
  have "reaches uc j w (w1\<lparr>w_metrics := mm\<rparr>) (Go Metrics ?load)"
    by (rule reaches_act [OF p [unfolded process_script_def]]) (simp add: assms(1))
  from reaches_go [OF reaches_go [OF reaches_stage [OF reaches_go [OF this] assms(2)]]]
  have "reaches uc j w w2 (stage (wrap ''failed to update status'') (UpdateStatus (j_id j) RUNNING) (\<lambda>_. steps_script uc j t))" .
  from reaches_stage [OF this assms(3)] have s: "reaches uc j w w3 (steps_script uc j t)" .
  show ?thesis using reaches_stage [OF s [unfolded steps_script_def], of "((), t)" w3] assms(4) by simp
qed

definition hashed_state :: job_state where
  "hashed_state = sample_state\<lparr>js_job_id := ''job_1'', js_steps_completed := [StepHashComputation]\<rparr>"

definition hashed_service :: service where
  "hashed_service = demo_service\<lparr>
     fs := [((False, [''outputs'']), Dir 0), ((False, [''outputs'', ''job_1'']), Dir 0),
            (parse_path (getStatePath (Load (\<lambda>_. [])) ''job_1''), File (Doc (state_json hashed_state)) 0)],
     st_jobs := [(0, large_job)], st_repo := [(''job_1'', 0)], st_next := 1, sv_active := 1, sv_started := [(0, None)]\<rparr>"

definition delete_job_1 :: web_request where
  "delete_job_1 = \<lparr>wr_method = ''DELETE'', wr_http = \<lparr>rq_forwardedFor = [], rq_realIP = [], rq_remoteAddr = ''10.0.0.1'',
     rq_path = ''/jobs/job_1''\<rparr>, wr_id = ''r1'', wr_uuid = [], wr_body = \<lparr>jt_tree = Inl [], jt_mismatch = []\<rparr>, wr_upgrade = None\<rparr>"

abbreviation hashed :: "nat \<Rightarrow> metrics_map \<Rightarrow> service" where
  "hashed n mm \<equiv> hashed_service\<lparr>tick := n, w_metrics := mm\<rparr>"

lemma hashed_facts:
  "fst (LoadState (Load (\<lambda>_. [])) ''job_1'' (hashed n mm)) = Inr hashed_state"
  "find_route SetupRoutes (wr_method delete_job_1) (tl (split_on CHR ''/'' (rq_path (wr_http delete_job_1)))) False = Handler E_DeleteJob ''job_1''"
  "IsStepCompleted hashed_state StepHashComputation" "\<not> IsStepCompleted hashed_state StepDeduplication"
  by code_simp+

theorem deletion_crashes_worker_witness:
  "\<exists>s rp s'. sync_steps (hd_use_case (demo_handler 1)) large_job (start (hd_use_case (demo_handler 1)) large_job hashed_service) s
     \<and> (live_step (demo_handler 1) large_job)\<^sup>*\<^sup>* ([], s) ([Reply rp], s') \<and> rp_status rp = 200
     \<and> (\<forall>qs u x. (live_step (demo_handler 1) large_job)\<^sup>*\<^sup>* ([Reply rp], s') (qs, u) \<and> sy_main u = Done x \<longrightarrow> x = Inl nil_deref)"
proof -
  let ?uc = "hd_use_case (demo_handler 1)"
  obtain mm n where m: "StartJobMetrics (j_id large_job) (j_input_path large_job) (w_metrics hashed_service) hashed_service = (mm, hashed_service\<lparr>tick := n\<rparr>)"
    using ticks_only(2) by (metis prod.collapse)
  obtain n' where g: "LoadState (Load (\<lambda>_. [])) ''job_1'' (hashed n mm) = (Inr hashed_state, hashed n' mm)"
  proof -
    have "snd (LoadState (Load (\<lambda>_. [])) ''job_1'' (hashed n mm)) = hashed (tick (snd (LoadState (Load (\<lambda>_. [])) ''job_1'' (hashed n mm)))) mm"
      by (subst ticks_only(1)) simp
    with hashed_facts(1) [of mm n] that show thesis by (metis prod.collapse)
  qed
  have c: "getOrCreateState (uc_cfg ?uc) large_job (hashed_service\<lparr>tick := n\<rparr>\<lparr>w_metrics := mm\<rparr>) = (Inr hashed_state, hashed n' mm)"
    using g by (simp add: getOrCreateState_def large_simps)
  obtain w3 where u: "UpdateStatus ''job_1'' RUNNING (hashed n' mm) = (Inr (), w3)" "lookup (st_repo w3) ''job_1'' = Some 0" "io_good w3"
    "sv_limiter w3 = NewRateLimiter 100 20" "clock w3 = (\<lambda>n. int n * second)"
    by (simp add: UpdateStatus_def repo_Get_def repo_Update_def hashed_service_def demo_service_def demo_world_def large_job_def
        deref_def mutate_def io_good_def time_now_def Let_def case_prod_beta)
  have "reaches ?uc large_job hashed_service w3 (dedup_script ?uc large_job hashed_state)"
    by (rule before_dedup [OF m c _ hashed_facts(3)]) (simp add: large_simps u(1))
  then obtain s where s: "sync_steps ?uc large_job (start ?uc large_job hashed_service) s"
    "sy_main s = Run (dedup_script ?uc large_job hashed_state)" "sy_world s = w3" by (auto simp: reaches_def)
  have "find_route SetupRoutes (wr_method delete_job_1) (tl (split_on CHR ''/'' (rq_path (wr_http delete_job_1)))) False = Handler E_DeleteJob (j_id large_job)"
    using hashed_facts(2) by (simp add: large_simps)
  from deletion_crashes_worker [OF s(2) hashed_facts(4) _ _ this fresh_client_passes, of 0 "[]"] s u show ?thesis
    by (auto simp: large_simps)
qed

section \<open>A deletion before the work begins\<close>

lemma LoadState_nothing: "file_content (fs w) (parse_path (getStatePath cfg i)) = None \<Longrightarrow> \<exists>e. fst (LoadState cfg i w) = Inl e"
  using read_file_content [of "getStatePath cfg i" "snd (FileExists (getStatePath cfg i) w)"]
  by (auto simp: LoadState_def Let_def case_prod_beta split: sum.split)

lemma LoadState_cong:
  "fs v = fs w \<Longrightarrow> io v = io w \<Longrightarrow> tick v = tick w \<Longrightarrow> fst (LoadState cfg i v) = fst (LoadState cfg i w)"
  by (simp add: LoadState_def FileExists_def os_stat_def os_read_file_def advance_def case_prod_beta Let_def cong: io_outcome.case_cong)

lemma created_state:
  fixes w :: "'a os_scheme"
  assumes "io_good w" "outputs cfg \<noteq> []" "plain i" "state_place_free cfg i w" "fits64 c"
  shows "\<exists>s w'. CreateState cfg i p c w = (Inr s, w') \<and> os_frame w w' \<and> js_status s = ''processing'' \<and> state_ints_fit s
    \<and> file_content (fs w') (state_file cfg i) = Some (Doc (state_json s))"
proof -
  let ?w1 = "snd (time_now w)" and ?s = "initial_state i p c (clock w (tick w))"
  let ?v = "snd (SaveState cfg ?s ?w1)"
  have f1: "os_frame w ?w1" by (rule os_frame_time_now)
  have g: "io_good ?w1" "state_place_free cfg (js_job_id ?s) ?w1"
    using assms(4) os_frame_io_good [OF f1] assms(1) by (simp_all add: initial_state_def state_place_free_def)
  have i: "js_job_id ?s = i" by (simp add: initial_state_def)
  have ok: "fst (fst (SaveState cfg ?s ?w1)) = Inr ()" using SaveState_good [OF g(1) assms(2) _ g(2)] assms(3) by (simp add: i)
  have "SaveState cfg ?s ?w1 = ((fst (fst (SaveState cfg ?s ?w1)), snd (fst (SaveState cfg ?s ?w1))), ?v)" by simp
  from SaveState_files [OF assms(2) _ this] ok assms(3) have v: "os_frame ?w1 ?v"
    "file_content (fs ?v) (state_file cfg i) = Some (Doc (state_json (?s\<lparr>js_updated_at := clock ?w1 (tick ?w1)\<rparr>)))"
    by (simp_all add: i del: split_paired_All)
  have "snd (fst (SaveState cfg ?s ?w1)) = ?s\<lparr>js_updated_at := clock ?w1 (tick ?w1)\<rparr>"
    by (simp add: SaveState_def time_now_def case_prod_beta Let_def split: sum.split)
  then have "CreateState cfg i p c w = (Inr (?s\<lparr>js_updated_at := clock ?w1 (tick ?w1)\<rparr>), ?v)"
    using ok by (simp add: CreateState_def time_now_def case_prod_beta Let_def)
  with v os_frame_trans [OF f1 v(1)] assms(5) show ?thesis
    by (auto simp: initial_state_def state_ints_fit_def fits64_def)
qed

text \<open>A job that has a state file and is not in the repository.\<close>

definition left_behind :: "config \<Rightarrow> string \<Rightarrow> job_state \<Rightarrow> 'a store_scheme \<Rightarrow> bool" where
  "left_behind cfg i s w \<longleftrightarrow> io_good w \<and> lookup (st_repo w) i = None \<and> js_status s = ''processing'' \<and> state_ints_fit s
     \<and> file_content (fs w) (state_file cfg i) = Some (Doc (state_json s))"

lemma left_behind_loads:
  assumes "left_behind cfg i s w" "outputs cfg \<noteq> []" "plain i"
  shows "fst (LoadState cfg i w) = Inr s"
  using assms(1) LoadState_good [of w cfg i s] assms(2,3) by (simp add: left_behind_def)

lemma left_behind_same:
  "left_behind cfg i s w \<Longrightarrow> io v = io w \<Longrightarrow> fs v = fs w \<Longrightarrow> st_repo v = st_repo w \<Longrightarrow> left_behind cfg i s v"
  by (simp add: left_behind_def io_good_def)

text \<open>What the first attempt at a deleted job does, and what each further one does.\<close>

lemma process_deleted:
  fixes w :: "'a world_scheme"
  assumes "lookup (st_repo w) (j_id j) = None" "io_good w" "outputs (uc_cfg uc) \<noteq> []" "plain (j_id j)"
    "state_place_free (uc_cfg uc) (j_id j) w" "fits64 (j_chunk_duration j)"
    "file_content (fs w) (state_file (uc_cfg uc) (j_id j)) = None"
  shows "\<exists>w' s. process uc j w = (Inl (wrap ''failed to update status'' ErrJobNotFound), w')
    \<and> left_behind (uc_cfg uc) (j_id j) s w' \<and> w_slept w' = w_slept w"
proof -
  let ?i = "j_id j" and ?cfg = "uc_cfg uc"
  let ?w2 = "metrics_started j w"
  obtain n mm where w2: "?w2 = w\<lparr>tick := n, w_metrics := mm\<rparr>"
    using ticks_only(2) [of ?i "j_input_path j" "w_metrics w" w] that unfolding metrics_started_def case_prod_beta Let_def by metis
  have "file_content (fs ?w2) (parse_path (getStatePath ?cfg ?i)) = None"
    using assms(7) parse_state_path(1) [OF assms(3,4)] by (simp add: w2)
  from LoadState_nothing [OF this] obtain e where e: "fst (LoadState ?cfg ?i ?w2) = Inl e" by blast
  define w3 where "w3 = snd (LoadState ?cfg ?i ?w2)"
  have w3: "w3 = w\<lparr>tick := tick w3, w_metrics := mm\<rparr>" unfolding w3_def by (subst ticks_only(1)) (simp add: w2)
  have w3': "io w3 = io w" "fs w3 = fs w" "st_repo w3 = st_repo w" by (subst w3, simp)+
  have "io_good w3" "state_place_free ?cfg ?i w3"
    using assms(2,5) by (simp_all add: io_good_def state_place_free_def w3')
  from created_state [OF this(1) assms(3,4) this(2) assms(6), of "j_input_path j"] obtain s w4 where
    w4: "CreateState ?cfg ?i (j_input_path j) (j_chunk_duration j) w3 = (Inr s, w4)" "os_frame w3 w4" "js_status s = ''processing''"
      "state_ints_fit s" "file_content (fs w4) (state_file ?cfg ?i) = Some (Doc (state_json s))" by blast
  have r: "lookup (st_repo w4) ?i = None" using os_frame_store [OF w4(2)] assms(1) by (simp add: w3')
  have "io_good w4" using os_frame_io_good [OF w4(2)] \<open>io_good w3\<close> by blast
  with w4 r have l: "left_behind ?cfg ?i s w4" by (simp add: left_behind_def)
  have "w_slept w3 = w_slept w" by (subst w3, simp)
  with w4(2) have sl: "w_slept w4 = w_slept w" by (auto simp: os_frame_def)
  have g: "getOrCreateState ?cfg j ?w2 = (Inr s, w4)"
    using e w4(1) by (simp add: getOrCreateState_def case_prod_beta w3_def split: sum.split)
  have "UpdateStatus ?i RUNNING w4 = (Inl ErrJobNotFound, w4)" using r by (simp add: UpdateStatus_def repo_Get_def)
  then have "process uc j w = (Inl (wrap ''failed to update status'' ErrJobNotFound), w4)"
    using g by (simp add: process_def metrics_started_def case_prod_beta Let_def)
  with l sl show ?thesis by blast
qed

lemma process_left_behind:
  fixes w :: "'a world_scheme"
  assumes "left_behind (uc_cfg uc) (j_id j) s w" "outputs (uc_cfg uc) \<noteq> []" "plain (j_id j)"
  shows "\<exists>w'. process uc j w = (Inl (wrap ''failed to update status'' ErrJobNotFound), w')
    \<and> left_behind (uc_cfg uc) (j_id j) s w' \<and> w_slept w' = w_slept w"
proof -
  let ?w2 = "metrics_started j w"
  obtain n mm where w2: "?w2 = w\<lparr>tick := n, w_metrics := mm\<rparr>"
    using ticks_only(2) [of "j_id j" "j_input_path j" "w_metrics w" w] that unfolding metrics_started_def case_prod_beta Let_def by metis
  define w3 where "w3 = snd (LoadState (uc_cfg uc) (j_id j) ?w2)"
  have w3: "w3 = w\<lparr>tick := tick w3, w_metrics := mm\<rparr>" unfolding w3_def by (subst ticks_only(1)) (simp add: w2)
  have w3': "io w3 = io w" "fs w3 = fs w" "st_repo w3 = st_repo w" "w_slept w3 = w_slept w" by (subst w3, simp)+
  have "left_behind (uc_cfg uc) (j_id j) s ?w2" by (rule left_behind_same [OF assms(1)]) (simp_all add: w2)
  from left_behind_loads [OF this assms(2,3)]
  have g: "getOrCreateState (uc_cfg uc) j ?w2 = (Inr s, w3)"
    by (simp add: getOrCreateState_def case_prod_beta w3_def split: sum.split)
  have "UpdateStatus (j_id j) RUNNING w3 = (Inl ErrJobNotFound, w3)"
    using assms(1) by (simp add: UpdateStatus_def repo_Get_def w3' left_behind_def)
  then have "process uc j w = (Inl (wrap ''failed to update status'' ErrJobNotFound), w3)"
    using g by (simp add: process_def metrics_started_def case_prod_beta Let_def)
  with left_behind_same [OF assms(1) w3'(1-3)] w3'(4) show ?thesis by blast
qed

lemma gone_code: "extractErrorCode (wrap ''failed to update status'' ErrJobNotFound) = ''ERR_FFMPEG_FAILED''"
  by (rule extractErrorCode_other) (simp add: contains_iff suffix_to_prefix wrap_def ErrJobNotFound_def)

lemma gone_setters:
  assumes "lookup (st_repo w) i = None"
  shows "snd (IncrementRetry i w) = w" "handleError i sg c m w = w" "GetJob i w = Inl ErrJobNotFound"
  using assms by (simp_all add: IncrementRetry_def handleError_def SetError_def GetJob_def repo_Get_def)

lemma attempts_left_behind:
  assumes "left_behind (uc_cfg uc) (j_id j) s w" "outputs (uc_cfg uc) \<noteq> []" "plain (j_id j)"
    "e = wrap ''failed to update status'' ErrJobNotFound"
  shows "\<exists>w'. attempts uc (process uc j) (j_id j) n (Suc a) (Some e) ''ERR_FFMPEG_FAILED'' w = (Some e, w')
    \<and> left_behind (uc_cfg uc) (j_id j) s w' \<and> w_slept w' = w_slept w @ take n (drop a [2 * second, 5 * second, 10 * second])"
  using assms(1)
proof (induction n arbitrary: a w)
  case 0
  then have "lookup (st_repo w) (j_id j) = None" by (simp add: left_behind_def)
  with 0 show ?case by (auto simp: gone_setters Let_def)
next
  case (Suc n)
  let ?bs = "[2 * second, 5 * second, 10 * second]"
  have st: "GetRetryStrategy ''ERR_FFMPEG_FAILED'' = \<lparr>should_retry = True, max_attempts = 3, backoff = ?bs\<rparr>"
    by (simp add: GetRetryStrategy_def ffmpeg_codes_def)
  have r: "lookup (st_repo w) (j_id j) = None" using Suc.prems by (simp add: left_behind_def)
  show ?case
  proof (cases "a < 3")
    case True
    let ?v = "sleep (?bs ! a) w"
    have v: "left_behind (uc_cfg uc) (j_id j) s ?v" by (rule left_behind_same [OF Suc.prems]) (simp_all add: sleep_def)
    have i: "snd (IncrementRetry (j_id j) ?v) = ?v" by (rule gone_setters) (simp add: r sleep_def)
    from process_left_behind [OF v assms(2,3)] obtain u where
      u: "process uc j ?v = (Inl e, u)" "left_behind (uc_cfg uc) (j_id j) s u" "w_slept u = w_slept ?v" using assms(4) by blast
    from Suc.IH [OF u(2), of "Suc a"] obtain w' where
      w': "attempts uc (process uc j) (j_id j) n (Suc (Suc a)) (Some e) ''ERR_FFMPEG_FAILED'' u = (Some e, w')"
      "left_behind (uc_cfg uc) (j_id j) s w'" "w_slept w' = w_slept u @ take n (drop (Suc a) ?bs)" by blast
    have "drop a ?bs = ?bs ! a # drop (Suc a) ?bs" by (rule Cons_nth_drop_Suc [symmetric]) (use True in simp)
    then have d: "w_slept w @ take (Suc n) (drop a ?bs) = w_slept ?v @ take n (drop (Suc a) ?bs)" by (simp add: sleep_def del: drop_Suc_Cons)
    have "attempts uc (process uc j) (j_id j) (Suc n) (Suc a) (Some e) ''ERR_FFMPEG_FAILED'' w
        = attempts uc (process uc j) (j_id j) n (Suc (Suc a)) (Some e) ''ERR_FFMPEG_FAILED'' u"
      using True u(1) i gone_code by (simp add: st Let_def assms(4) panics_other del: nth_Cons_Suc)
    with w' u(3) d show ?thesis by (intro exI [of _ w']) simp
  next
    case False
    with Suc.prems r show ?thesis by (simp add: st Let_def gone_setters)
  qed
qed

text \<open>C22. A deleted job leaves files behind: when a job is deleted before its first attempt begins, the worker goes on
with the pointer it holds. The attempt creates a state file for the job, which says that it is being processed, and
fails as the job is not in the repository; the error is read as a failure of ffmpeg, so the attempt is
repeated, after pauses of two, five and ten seconds, as often as the configuration allows. After the last one the state
file is still there, with the same state, and the job is still unknown.\<close>

theorem deleted_job_leaves_files:
  assumes "lookup (st_repo w) (j_id j) = None" "0 \<le> uc_max_retries uc" "fits64 (j_chunk_duration j)"
    and "io_good w" "outputs (uc_cfg uc) \<noteq> []" "plain (j_id j)" "state_place_free (uc_cfg uc) (j_id j) w"
    and "file_content (fs w) (state_file (uc_cfg uc) (j_id j)) = None"
  shows "\<exists>w1 s w'. process uc j w = (Inl (wrap ''failed to update status'' ErrJobNotFound), w1)
    \<and> Execute uc j w = (Some (wrap ''failed to update status'' ErrJobNotFound), w')
    \<and> w_slept w' = w_slept w @ take (nat (uc_max_retries uc)) [2 * second, 5 * second, 10 * second]
    \<and> (\<forall>v\<in>{w1, w'}. lookup (st_repo v) (j_id j) = None \<and> fst (LoadState (uc_cfg uc) (j_id j) v) = Inr s)
    \<and> js_status s = ''processing''"
proof -
  let ?e = "wrap ''failed to update status'' ErrJobNotFound" and ?n = "nat (uc_max_retries uc)"
  from process_deleted [OF assms(1,4,5,6,7,3,8)] obtain w1 s where
    p: "process uc j w = (Inl ?e, w1)" "left_behind (uc_cfg uc) (j_id j) s w1" "w_slept w1 = w_slept w" by blast
  from attempts_left_behind [OF p(2) assms(5,6) refl, of ?n 0] obtain w' where
    w': "attempts uc (process uc j) (j_id j) ?n (Suc 0) (Some ?e) ''ERR_FFMPEG_FAILED'' w1 = (Some ?e, w')"
    "left_behind (uc_cfg uc) (j_id j) s w'" "w_slept w' = w_slept w1 @ take ?n [2 * second, 5 * second, 10 * second]" by auto
  have "nat (uc_max_retries uc + 1) = Suc ?n" using assms(2) by simp
  then have "Execute uc j w = (Some ?e, w')" using p(1) w'(1) gone_code by (simp add: Execute_def Let_def panics_other)
  then show ?thesis using p w' left_behind_loads [OF p(2) assms(5,6)] left_behind_loads [OF w'(2) assms(5,6)]
    by (intro exI [of _ w1] exI [of _ s] exI [of _ w']) (auto simp: left_behind_def)
qed

definition gone_service :: service where
  "gone_service = demo_service\<lparr>fs := [((False, []), Dir 0)], st_jobs := [(0, large_job)], st_repo := [], st_next := 1,
     sv_active := 1, sv_started := [(0, None)]\<rparr>"

theorem deleted_job_leaves_files_witness:
  "\<exists>e w' s. Execute (hd_use_case (demo_handler 1)) large_job gone_service = (Some e, w')
     \<and> w_slept w' = w_slept gone_service @ [2 * second, 5 * second, 10 * second] \<and> lookup (st_repo w') ''job_1'' = None
     \<and> fst (LoadState (Load (\<lambda>_. [])) ''job_1'' w') = Inr s \<and> js_status s = ''processing''"
proof -
  have c: "uc_cfg (hd_use_case (demo_handler 1)) = Load (\<lambda>_. [])" "uc_max_retries (hd_use_case (demo_handler 1)) = 3" "fs gone_service = fs plain_world"
    by (simp_all add: gone_service_def plain_world_def demo_handler_def)
  have "state_place_free (Load (\<lambda>_. [])) ''job_1'' gone_service"
    using plain_world_free unfolding state_place_free_def c(3) .
  moreover have "file_content (fs gone_service) (state_file (Load (\<lambda>_. [])) ''job_1'') = None"
    by (simp add: c(3) plain_world_def state_file_def Load_default comps_outputs file_content_def)
  moreover have "io_good gone_service" by (simp add: gone_service_def demo_service_def demo_world_def io_good_def)
  moreover have "lookup (st_repo gone_service) ''job_1'' = None" by (simp add: gone_service_def)
  moreover have "fits64 (j_chunk_duration large_job)" by (simp add: large_job_def zero_job_def fits64_def)
  moreover have "plain ''job_1''" using sample_state_simps by simp
  ultimately show ?thesis
    using deleted_job_leaves_files [of gone_service large_job "hd_use_case (demo_handler 1)"] outputs_Load(1)
    by (force simp: c large_simps numeral_3_eq_3)
qed

end
