(* ===== verification/Startup.thy ===== *)
theory Startup
  imports Submission
begin

text \<open>
  The start of the server, \<open>main\<close> of \<open>cmd/api/main.go\<close>, with the constructors it calls
  (\<open>NewTranscodeUseCase\<close>, \<open>NewJobHandler\<close> and those of the services). A service that keeps nothing but
  the configuration has no constructor here; what the others keep is in the state of the server.
\<close>

section \<open>The wiring\<close>

text \<open>What the server takes from outside the repository.\<close>

record 'w externals =
  ex_run :: "'w runner"
  ex_sha :: "content \<Rightarrow> string"
  ex_write :: "'w writer"
  ex_stamp :: "go_time \<Rightarrow> string"
  ex_parse :: "string \<Rightarrow> json_text"

text \<open>The use case gets a manager of WebSocket connections, so it is never without one.\<close>

definition NewTranscodeUseCase :: "config \<Rightarrow> 'w externals \<Rightarrow> int \<Rightarrow> 'w use_case" where
  "NewTranscodeUseCase cfg x maxRetries =
     \<lparr>uc_cfg = cfg, uc_run = ex_run x, uc_sha = ex_sha x, uc_ws = True, uc_max_retries = maxRetries\<rparr>"

definition NewJobHandler :: "'w use_case \<Rightarrow> 'w externals \<Rightarrow> int \<Rightarrow> go_time \<Rightarrow> 'w handler" where
  "NewJobHandler uc x maxWorkers startTime =
     \<lparr>hd_use_case = uc, hd_max_workers = maxWorkers, hd_start = startTime, hd_write = ex_write x, hd_stamp = ex_stamp x,
      hd_parse = ex_parse x\<rparr>"

definition NewInMemoryJobRepository :: "(string, jref) gomap" where
  "NewInMemoryJobRepository = []"

text \<open>The state of the process when its constructors have run.\<close>

definition first_state :: "dedup_map \<Rightarrow> metrics_map \<Rightarrow> os \<Rightarrow> service" where
  "first_state cache mm w =
     \<lparr>fs = fs w, clock = clock w, io = io w, statfs = statfs w, doclen = doclen w, tick = tick w,
      st_jobs = [], st_repo = NewInMemoryJobRepository, st_next = 0,
      w_cache = cache, w_metrics = mm, w_sent = [], w_slept = [],
      sv_queue = [], sv_scheduler = Start NewSchedulerService, sv_batches = NewBatchService, sv_conns = NewManager,
      sv_active = 0, sv_started = [], sv_limiter = NewRateLimiter 100 20\<rparr>"

text \<open>The variable \<open>startTime\<close> of the package is set before \<open>main\<close> runs.\<close>

definition wire :: "environment \<Rightarrow> service externals \<Rightarrow> os \<Rightarrow> service handler \<times> service" where
  "wire env x w =
     (let cfg = Load env;
          (startTime, w1) = time_now w;
          (cache, w2) = NewDeduplicationCache (cache_dir (cf_storage cfg)) w1;
          w3 = NewDLQService cfg w2;
          (mm, w4) = NewMetricsService cfg w3;
          uc = NewTranscodeUseCase cfg x (wc_max_retries (cf_worker cfg))
      in (NewJobHandler uc x (wc_max_workers (cf_worker cfg)) startTime, first_state cache mm w4))"

text \<open>The handler and the first state of the server, or nothing if the process panics.\<close>

definition main :: "environment \<Rightarrow> service externals \<Rightarrow> os \<Rightarrow> (service handler \<times> service server_conf) option" where
  "main env x w =
     (let (h, w1) = wire env x w
      in case StartCleanupWorker (Load env) of Inl panic \<Rightarrow> None | Inr interval \<Rightarrow> Some (h, boot h w1))"

section \<open>What it leaves\<close>

lemma wire_new: "new_server (snd (wire env x w))"
  by (simp add: wire_def first_state_def new_server_def NewInMemoryJobRepository_def NewMetricsService_def
      case_prod_beta Let_def)

lemma wire_handler:
  "hd_cfg (fst (wire env x w)) = Load env" "hd_max_workers (fst (wire env x w)) = wc_max_workers (cf_worker (Load env))"
  "uc_max_retries (hd_use_case (fst (wire env x w))) = wc_max_retries (cf_worker (Load env))"
  by (simp_all add: wire_def NewJobHandler_def NewTranscodeUseCase_def hd_cfg_def case_prod_beta Let_def)

lemma files_cache: "file_content (fs (snd (NewDeduplicationCache d w))) p = file_content (fs w) p"
  by (simp add: NewDeduplicationCache_def cache_load_def Let_def case_prod_beta split: sum.split)

lemma files_wire: "file_content (fs (snd (wire env x w))) p = file_content (fs w) p"
  by (simp add: wire_def first_state_def NewDLQService_def NewMetricsService_def files_cache Let_def case_prod_beta)

lemma files_boot:
  fixes w :: "'a service_scheme"
  assumes "new_server w"
  shows "file_content (fs (snd (boot h w))) p = file_content (fs w) p" "fst (boot h w) = [Return]"
    "core (snd (boot h w)) = core w" "st_repo (snd (boot h w)) = []"
proof -
  have f: "os_frame w (snd (FindOrphanedJobs (hd_cfg h) w))" by (rule osf_api(3) [OF os_frame_refl])
  have r: "st_repo (snd (FindOrphanedJobs (hd_cfg h) w)) = []"
    using os_frame_store [OF f] assms by (simp add: new_server_def)
  have c: "file_content (fs (snd (FindOrphanedJobs (hd_cfg h) w))) p = file_content (fs w) p"
    by (simp add: FindOrphanedJobs_def orphans_among_frame os_read_dir_def advance_def Let_def case_prod_beta split: sum.split)
  from r c core_os [OF f] show "file_content (fs (snd (boot h w))) p = file_content (fs w) p" "fst (boot h w) = [Return]"
    "core (snd (boot h w)) = core w" "st_repo (snd (boot h w)) = []"
    by (auto simp: boot_def resumeOrphanedJobs_def case_prod_beta Let_def requeue_nothing split: sum.split)
qed

text \<open>C20. The start of the server: the process starts only when the clean-up interval is positive. Then its
state is one from which the reachable states are counted, with the limits of the environment, and
nothing survives from an earlier run but files: no job is known or queued, whatever unfinished jobs
the output directory holds, and no file is lost or changed.\<close>

theorem startup_spec:
  assumes "main env x w = Some (h, (ps, v))"
  shows "wrap64 (dc_cleanup_interval (cf_disk (Load env)) * second) > 0
    \<and> reachable h (ps, v) \<and> hd_cfg h = Load env
    \<and> hd_max_workers h = wc_max_workers (cf_worker (Load env)) \<and> uc_max_retries (hd_use_case h) = wc_max_retries (cf_worker (Load env))
    \<and> ps = [Return] \<and> ListJobs v = [] \<and> sv_queue v = []
    \<and> (\<forall>p. file_content (fs v) p = file_content (fs w) p)"
proof -
  let ?w = "snd (wire env x w)"
  have i: "wrap64 (dc_cleanup_interval (cf_disk (Load env)) * second) > 0" and h: "h = fst (wire env x w)" and b: "boot h ?w = (ps, v)"
    using assms by (auto simp: main_def StartCleanupWorker_def case_prod_beta Let_def split: if_splits)
  note n = wire_new [of env x w]
  have "reachable h (ps, v)" using n unfolding reachable_def b [symmetric] by blast
  moreover have "sv_queue v = []" "ListJobs v = []"
    using files_boot(3,4) [OF n, of h] n unfolding b by (simp_all add: core_def new_server_def ListJobs_def repo_List_def)
  moreover have "\<forall>p. file_content (fs v) p = file_content (fs w) p" using files_boot(1) [OF n, of h] by (simp add: b files_wire)
  moreover have "ps = [Return]" using files_boot(2) [OF n, of h] by (simp add: b)
  ultimately show ?thesis using i wire_handler [of env x w] by (simp add: h)
qed

definition demo_externals :: "service externals" where
  "demo_externals = \<lparr>ex_run = demo_runner, ex_sha = (\<lambda>_. ''5e884898''), ex_write = (\<lambda>c m w. (Inr (), w)),
     ex_stamp = (\<lambda>_. ''20240101000000''), ex_parse = (\<lambda>_. \<lparr>jt_tree = Inl ''unexpected end of JSON input'', jt_mismatch = []\<rparr>)\<rparr>"

theorem startup_spec_witness:
  "\<exists>h v. main (\<lambda>_. []) demo_externals (cache_world (\<lambda>_. IO_ok)) = Some (h, ([Return], v)) \<and> ListJobs v = [] \<and> sv_queue v = []"
proof -
  let ?e = "\<lambda>_::string. ''''" and ?w = "cache_world (\<lambda>_. IO_ok)"
  have "is_ok (StartCleanupWorker (Load ?e))" by code_simp
  then obtain h ps v where m: "main ?e demo_externals ?w = Some (h, (ps, v))"
    by (cases "StartCleanupWorker (Load ?e)") (auto simp: main_def is_ok_def case_prod_beta Let_def, metis prod.collapse)
  from startup_spec [OF m] m show ?thesis by blast
qed

end
