(* ===== verification/Shutdown.thy ===== *)
theory Shutdown
  imports Submission "HOL-Library.Sublist"
begin

text \<open>
  The end of the server (\<open>main\<close> of \<open>cmd/api/main.go\<close>, \<open>StartWorker\<close> of \<open>job_handler.go\<close>). A signal ends
  the context: a worker that waits then has two cases of its \<open>select\<close> ready when the queue is not empty, and
  takes either, so it returns or takes another job first. Also the scheduler stops. Meanwhile \<open>Shutdown\<close> waits for
  the requests that run, for the time the configuration gives it; then \<open>main\<close> returns, and everything ends.
  Requests may arrive here until the end, while \<open>Shutdown\<close> closes the listeners as it begins.
\<close>

section \<open>The workers\<close>

text \<open>A worker waits at its \<open>select\<close>, as each job it takes gets a goroutine of its own, or has returned.\<close>

datatype poller = Polling | Returned

datatype phase = Serving | Stopping | Ended

inductive poller_step :: "phase \<Rightarrow> poller \<times> 'a server_scheme \<Rightarrow> poller \<times> 'a server_scheme \<Rightarrow> bool" where
  sees_signal: "poller_step Stopping (Polling, w) (Returned, w)"
| takes_job: "ph \<noteq> Ended \<Longrightarrow> take_job w = Some w' \<Longrightarrow> poller_step ph (Polling, w) (Polling, w')"

inductive_cases poller_stepE: "poller_step ph (x, w) (y, w')"

section \<open>The steps of main\<close>

text \<open>\<open>takes\<close> tells the step of a worker from all others: no other adds to the jobs that were started.\<close>

definition takes :: "'a server_scheme \<Rightarrow> 'a server_scheme \<Rightarrow> bool" where
  "takes w w' \<longleftrightarrow> length (sv_started w) < length (sv_started w')"

type_synonym 'w main_conf = "phase \<times> poller list \<times> 'w server_conf"

inductive main_step :: "'a service_scheme handler \<Rightarrow> 'a service_scheme main_conf \<Rightarrow> 'a service_scheme main_conf \<Rightarrow> bool"
  for h where
  others: "ph \<noteq> Ended \<Longrightarrow> server_step h (ps, w) (qs, w') \<Longrightarrow> \<not> takes w w' \<Longrightarrow> main_step h (ph, ws, ps, w) (ph, ws, qs, w')"
| worker: "i < length ws \<Longrightarrow> poller_step ph (ws ! i, w) (x, w') \<Longrightarrow> main_step h (ph, ws, ps, w) (ph, ws[i := x], ps, w')"
| signal: "main_step h (Serving, c) (Stopping, c)"
| scheduler_stops: "scheduler_Stop (sv_scheduler w) = (outcome, s) \<Longrightarrow> outcome \<noteq> Panics \<Longrightarrow>
    main_step h (Stopping, ws, ps, w) (Stopping, ws, ps, w\<lparr>sv_scheduler := s\<rparr>)"
| ends: "main_step h (Stopping, c) (Ended, c)"

inductive_cases ended_stepE: "main_step h (Ended, c) d"

definition main_boot :: "'a service_scheme handler \<Rightarrow> 'a service_scheme \<Rightarrow> 'a service_scheme main_conf" where
  "main_boot h v = (Serving, replicate (nat (hd_max_workers h)) Polling, boot h v)"

lemma nothing_after_the_end: "\<not> main_step h (Ended, c) d"
  by (auto elim!: ended_stepE poller_stepE)

section \<open>Steps that take no job\<close>

definition waits :: "'w prog \<Rightarrow> bool" where
  "waits p \<longleftrightarrow> (\<exists>r k. p = Send r k)"

definition stays :: "'a server_scheme server_conf \<Rightarrow> 'a server_scheme server_conf \<Rightarrow> bool" where
  "stays c c' \<longleftrightarrow> (let (ps, w) = c; (qs, w') = c'
     in prefix (sv_queue w) (sv_queue w') \<and> length ps \<le> length qs
        \<and> (length (sv_queue w) \<ge> queue_capacity \<longrightarrow> (\<forall>i<length ps. waits (ps ! i) \<longrightarrow> qs ! i = ps ! i)))"

lemma stays_core: "core w' = core w \<Longrightarrow> stays (ps, w) (ps @ qs, w')"
  by (simp add: stays_def core_def nth_append)

lemma stays_same: "core w' = core w \<Longrightarrow> stays (ps, w) (ps, w')"
  using stays_core [of w' w ps "[]"] by simp

lemma stays_trans:
  assumes "stays c d" "stays d e"
  shows "stays c e"
proof -
  obtain ps w qs v rs u where c: "c = (ps, w)" "d = (qs, v)" "e = (rs, u)" by (metis prod.collapse)
  have p: "prefix (sv_queue w) (sv_queue v)" "prefix (sv_queue v) (sv_queue u)" using assms by (simp_all add: stays_def c)
  then have l: "length (sv_queue w) \<le> length (sv_queue v)" by (simp add: prefix_length_le)
  show ?thesis using assms l prefix_order.trans [OF p] by (simp add: stays_def c)
qed

lemma no_take_stays:
  assumes "server_step h (ps, w) (qs, w')" "tame_server h" "server_ok (ps, w)" "\<not> takes w w'"
  shows "stays (ps, w) (qs, w')"
  using assms(1)
proof cases
  case (arrive q p)
  with calm_serve [OF assms(2), of w q] show ?thesis by (auto simp: calm_from_def intro: stays_core)
next
  case (send i r k p)
  have "calm (Send r k)" using send assms(3) by (auto simp: server_ok_def list_all_length)
  then have "core (snd (k v)) = core v" for v by (auto elim: calm_sendE)
  from this [of "w\<lparr>sv_queue := sv_queue w @ [r]\<rparr>"] send have "sv_queue w' = sv_queue w @ [r]" by (simp add: core_def)
  with send show ?thesis by (simp add: stays_def)
next
  case take
  with assms(4) show ?thesis by (auto simp: take_job_def takes_def split: list.splits)
next
  case (run n)
  obtain r b where r: "sv_started w ! n = (r, b)" by fastforce
  let ?j = "deref w r" and ?t = "case b of None \<Rightarrow> first_round (hd_use_case h) | Some t \<Rightarrow> t"
  have "sv_queue w' = sv_queue w" using run core_round [OF assms(2), of ?j ?t w]
    by (auto simp: run_job_def r case_prod_beta Let_def core_def split: sum.splits if_splits)
  with run show ?thesis by (simp add: stays_def)
next
  case (timer t s v)
  with core_store(7) [of t "sv_scheduler w" w] have "core w' = core w" by simp
  with timer show ?thesis by (simp add: stays_same)
next
  case (timer_send t r s v)
  with core_store(7) [of t "sv_scheduler w" w] have "core w' = core w" by simp
  with timer_send show ?thesis by (simp add: stays_core)
next
  case (hang_up c i)
  then show ?thesis by (simp add: stays_same)
next
  case cleanup
  moreover have "core (snd (AutoCleanup (hd_cfg h) w)) = core w" by (rule core_os [OF osf_api(6) [OF os_frame_refl]])
  ultimately show ?thesis by (simp add: stays_same)
next
  case (limiter_cleanup now)
  moreover have "core (w\<lparr>sv_limiter := cleanupVisitors now (sv_limiter w)\<rparr>) = core w" by (simp add: core_def)
  ultimately show ?thesis by (simp add: stays_same)
qed

text \<open>Only a worker takes a job; until a signal comes the steps of \<open>main\<close> are those of the server.\<close>

lemma takes_is_take:
  assumes "server_step h (ps, w) (qs, w')" "tame_server h" "server_ok (ps, w)" "takes w w'"
  shows "take_job w = Some w' \<and> qs = ps \<and> 0 < hd_max_workers h"
proof -
  have n: "\<not> takes w v" if "sv_started v = sv_started w" for v using that by (simp add: takes_def)
  have c: "sv_started v = sv_started w" if "core v = core w" for v using that by (simp add: core_def)
  from assms(1) show ?thesis
  proof cases
    case (arrive q p)
    with calm_serve [OF assms(2), of w q] c n assms(4) show ?thesis by (auto simp: calm_from_def)
  next
    case (send i r k p)
    have "calm (Send r k)" using send assms(3) by (auto simp: server_ok_def list_all_length)
    then have "core (snd (k v)) = core v" for v by (auto elim: calm_sendE)
    from this [of "w\<lparr>sv_queue := sv_queue w @ [r]\<rparr>"] send n assms(4) show ?thesis by (simp add: core_def)
  next
    case (run m)
    obtain r b where r: "sv_started w ! m = (r, b)" by fastforce
    let ?j = "deref w r" and ?t = "case b of None \<Rightarrow> first_round (hd_use_case h) | Some t \<Rightarrow> t"
    have "length (sv_started w') \<le> length (sv_started w)" using run core_round [OF assms(2), of ?j ?t w]
      by (auto simp: run_job_def r case_prod_beta Let_def core_def drop_at_def split: sum.splits if_splits)
    with assms(4) show ?thesis by (simp add: takes_def)
  next
    case (timer t s v)
    with core_store(7) [of t "sv_scheduler w" w] have "core w' = core w" by simp
    with c n assms(4) show ?thesis by blast
  next
    case (timer_send t r s v)
    with core_store(7) [of t "sv_scheduler w" w] have "core w' = core w" by simp
    with c n assms(4) show ?thesis by blast
  next
    case cleanup
    moreover have "core (snd (AutoCleanup (hd_cfg h) w)) = core w" by (rule core_os [OF osf_api(6) [OF os_frame_refl]])
    ultimately show ?thesis using c n assms(4) by blast
  qed (use n assms(4) in auto)
qed

lemma serving_steps:
  assumes "server_step h (ps, w) (qs, w')" "tame_server h" "server_ok (ps, w)"
  shows "main_step h (Serving, replicate (nat (hd_max_workers h)) Polling, ps, w)
    (Serving, replicate (nat (hd_max_workers h)) Polling, qs, w')"
proof (cases "takes w w'")
  case True
  let ?ws = "replicate (nat (hd_max_workers h)) Polling"
  note t = takes_is_take [OF assms True]
  then have "poller_step Serving (?ws ! 0, w) (Polling, w')" by (auto intro: poller_step.takes_job)
  from main_step.worker [OF _ this, of h ps] t show ?thesis by (cases "nat (hd_max_workers h)") auto
next
  case False
  with assms(1) show ?thesis by (intro main_step.others) simp_all
qed

lemma server_ok_take: "take_job w = Some w' \<Longrightarrow> server_ok (ps, w) \<Longrightarrow> server_ok (ps, w')"
  by (auto simp: take_job_def server_ok_def split: list.splits)

section \<open>Reachable phases\<close>

lemma main_ok_step:
  assumes "main_step h (ph, ws, c) (ph', ws', c')" "tame_server h" "server_ok c"
  shows "server_ok c'"
  using assms(1)
proof cases
  case (others ps w qs w')
  with server_ok_step [OF _ assms(2)] assms(3) show ?thesis by blast
next
  case (worker i w x w' ps)
  with assms(3) server_ok_take show ?thesis by (auto elim!: poller_stepE)
next
  case (scheduler_stops w outcome s ps)
  with assms(3) show ?thesis by (simp add: server_ok_def)
qed (use assms(3) in auto)

text \<open>The invariant of the server holds in every state that \<open>main\<close> reaches, in every phase.\<close>

lemma main_ok:
  assumes "(main_step h)\<^sup>*\<^sup>* (main_boot h v) (ph, ws, c)" "new_server v" "tame_server h"
  shows "server_ok c"
  using assms(1)
proof (induction "(ph, ws, c)" arbitrary: ph ws c rule: rtranclp_induct)
  case base
  with server_ok_boot [OF assms(2), of h] show ?case by (simp add: main_boot_def)
next
  case (step d)
  obtain ph1 ws1 c1 where d: "d = (ph1, ws1, c1)" by (metis prod.collapse)
  show ?case using main_ok_step [OF step(2) [unfolded d] assms(3) step(3) [OF d]] .
qed

lemma stopped_stays:
  assumes "(main_step h)\<^sup>*\<^sup>* (Stopping, ws, c) (ph, ws', d)" "\<forall>x\<in>set ws. x = Returned" "tame_server h" "server_ok c"
  shows "stays c d \<and> server_ok d \<and> ph \<noteq> Serving \<and> ws' = ws \<and> length (sv_started (snd d)) \<le> length (sv_started (snd c))"
  using assms(1)
proof (induction "(ph, ws', d)" arbitrary: ph ws' d rule: rtranclp_induct)
  case base
  then show ?case using assms(4) stays_same [OF refl] by (cases c) simp
next
  case (step e)
  obtain ph1 ws1 d1 where e: "e = (ph1, ws1, d1)" by (metis prod.collapse)
  note i = step(3) [OF e] and ok = main_ok_step [OF step(2) [unfolded e] assms(3)]
  from step(2) show ?case unfolding e
  proof cases
    case (others ps w qs w')
    with i have "stays c (ps, w)" "server_ok (ps, w)" by auto
    with no_take_stays [OF others(6) assms(3) _ others(7)] stays_trans [of c "(ps, w)"] others i ok show ?thesis
      by (auto simp: takes_def)
  next
    case (worker n w x w' ps)
    with i assms(2) have "ws ! n = Returned" by auto
    with worker i show ?thesis by (auto elim: poller_stepE)
  next
    case (scheduler_stops w outcome s ps)
    have "stays (ps, w) (ps, w\<lparr>sv_scheduler := s\<rparr>)" by (rule stays_same) simp
    with scheduler_stops i ok stays_trans [of c "(ps, w)"] show ?thesis by auto
  qed (use i in auto)
qed

text \<open>All workers see the signal.\<close>

lemma workers_return:
  "(main_step h)\<^sup>*\<^sup>* (Stopping, vs @ ws, ps, w) (Stopping, vs @ map (\<lambda>_. Returned) ws, ps, w)"
proof (induction ws arbitrary: vs)
  case (Cons x ws)
  have "(main_step h)\<^sup>*\<^sup>* (Stopping, vs @ x # ws, ps, w) (Stopping, (vs @ [Returned]) @ ws, ps, w)"
  proof (cases x)
    case Polling
    have "poller_step Stopping ((vs @ x # ws) ! length vs, w) (Returned, w)" using Polling by (simp add: poller_step.sees_signal)
    from main_step.worker [OF _ this, of h ps] show ?thesis by (auto intro: r_into_rtranclp)
  qed simp
  with Cons.IH [of "vs @ [Returned]"] show ?case by (auto intro: rtranclp_trans)
qed simp

text \<open>C16. What a shutdown does to the queue. After a signal a worker that has not seen it may still take a job. But from
every state after the signal the process can end with its queue, its started jobs and its waiting requests
just as they are, the clients of those never answered. And once every worker has returned this is what
happens on every run: the queue only grows, no job is started any more, and if the queue
is full then each request that waits for room in it waits in every later state. All this holds in every
state that has the invariant of the server, as each that is reached has (\<open>main_ok\<close>).\<close>

theorem shutdown_strands_jobs:
  assumes "server_ok (ps, w)" "tame_server h"
  shows "(\<forall>i<length ws. ws ! i = Polling \<and> sv_queue w \<noteq> [] \<longrightarrow>
      (\<exists>w'. main_step h (Stopping, ws, ps, w) (Stopping, ws, ps, w') \<and> sv_queue w' = tl (sv_queue w)
         \<and> length (sv_started w') = Suc (length (sv_started w))))
    \<and> (main_step h)\<^sup>*\<^sup>* (Stopping, ws, ps, w) (Ended, map (\<lambda>_. Returned) ws, ps, w)
    \<and> (\<forall>ph ws' qs w'. (\<forall>x\<in>set ws. x = Returned) \<and> (main_step h)\<^sup>*\<^sup>* (Stopping, ws, ps, w) (ph, ws', qs, w') \<longrightarrow>
        prefix (sv_queue w) (sv_queue w') \<and> length (sv_started w') \<le> length (sv_started w) \<and> ph \<noteq> Serving
        \<and> (length (sv_queue w) = 100 \<longrightarrow> (\<forall>i<length ps. case ps ! i of Send r k \<Rightarrow> qs ! i = Send r k | _ \<Rightarrow> True)))"
proof (intro conjI allI impI)
  fix i assume i: "i < length ws" "ws ! i = Polling \<and> sv_queue w \<noteq> []"
  then obtain r q where q: "sv_queue w = r # q" by (cases "sv_queue w") auto
  let ?w = "w\<lparr>sv_queue := q, sv_active := sv_active w + 1, sv_started := sv_started w @ [(r, None)]\<rparr>"
  have "poller_step Stopping (ws ! i, w) (Polling, ?w)" using i q by (auto simp: take_job_def intro: poller_step.takes_job)
  from main_step.worker [OF i(1) this, of h ps] list_update_id [of ws i] i(2)
  have "main_step h (Stopping, ws, ps, w) (Stopping, ws, ps, ?w)" by simp
  with q show "\<exists>w'. main_step h (Stopping, ws, ps, w) (Stopping, ws, ps, w') \<and> sv_queue w' = tl (sv_queue w)
      \<and> length (sv_started w') = Suc (length (sv_started w))"
    by (intro exI [of _ ?w]) simp
next
  show "(main_step h)\<^sup>*\<^sup>* (Stopping, ws, ps, w) (Ended, map (\<lambda>_. Returned) ws, ps, w)"
    using rtranclp.rtrancl_into_rtrancl [OF workers_return [of h "[]" ws ps w] main_step.ends] by simp
next
  fix ph ws' qs w'
  assume "(\<forall>x\<in>set ws. x = Returned) \<and> (main_step h)\<^sup>*\<^sup>* (Stopping, ws, ps, w) (ph, ws', qs, w')"
  then have s: "stays (ps, w) (qs, w')" "ph \<noteq> Serving" "length (sv_started w') \<le> length (sv_started w)"
    using stopped_stays [OF _ _ assms(2,1)] by fastforce+
  then show "prefix (sv_queue w) (sv_queue w')" "length (sv_started w') \<le> length (sv_started w)" "ph \<noteq> Serving"
    by (simp_all add: stays_def)
  show "case ps ! i of Send r k \<Rightarrow> qs ! i = Send r k | _ \<Rightarrow> True" if "length (sv_queue w) = 100" "i < length ps" for i
    using s(1) that by (auto simp: stays_def queue_capacity_def waits_def split: prog.split)
qed

text \<open>A full queue, a job that waits for room in it, and a worker.\<close>

theorem shutdown_strands_jobs_witness:
  "let w = demo_service\<lparr>sv_queue := replicate 100 0\<rparr>; ps = [Send 0 (Pair Return)] in
     (main_step (demo_handler 1))\<^sup>*\<^sup>* (Stopping, [Polling], ps, w) (Ended, [Returned], ps, w)
     \<and> (\<forall>ph ws' qs w'. (main_step (demo_handler 1))\<^sup>*\<^sup>* (Stopping, [Returned], ps, w) (ph, ws', qs, w') \<longrightarrow>
          prefix (replicate 100 0) (sv_queue w') \<and> qs ! 0 = Send 0 (Pair Return))"
proof -
  let ?w = "demo_service\<lparr>sv_queue := replicate 100 0\<rparr>" and ?ps = "[Send 0 (Pair Return)] :: service prog list"
  have c: "calm (Send 0 (Pair Return))" by (rule calm_send) (simp_all add: calm_return)
  have ok: "server_ok (?ps, ?w)" using c by (simp add: server_ok_def queue_capacity_def demo_service_def)
  show ?thesis
    using shutdown_strands_jobs [OF ok, of "demo_handler 1" "[Polling]"] shutdown_strands_jobs [OF ok, of "demo_handler 1" "[Returned]"]
    by (auto simp: Let_def)
qed

end
