(* ===== verification/Heartbeat.thy ===== *)
theory Heartbeat
  imports State_Service
begin

text \<open>
  The heartbeat of a job and the worker that encodes it share the state file of the job: the worker
  saves the state it holds (\<open>SaveState\<close>, from \<open>transcode_usecase.go\<close>), and the heartbeat's goroutine
  (\<open>startHeartbeat\<close>) calls \<open>UpdateHeartbeat\<close>, which is \<open>UpdateState\<close> of \<open>state_service.go\<close>: a
  \<open>LoadState\<close>, the update, a \<open>SaveState\<close>. Each of the two calls takes the lock of the service for
  itself, so a save of the worker may fall between them. A schedule of the two is a list of the three
  operations below; one heartbeat is \<open>Beat_load\<close> followed by \<open>Beat_save\<close>.
\<close>

section \<open>The two halves of a heartbeat\<close>

datatype file_op = Save job_state | Beat_load | Beat_save

text \<open>The state that the heartbeat's goroutine has loaded and not yet saved goes with the world.\<close>

fun file_step :: "config \<Rightarrow> string \<Rightarrow> file_op \<Rightarrow> job_state option \<times> 'a os_scheme \<Rightarrow> job_state option \<times> 'a os_scheme" where
  "file_step cfg jobID (Save s) (held, w) = (held, snd (SaveState cfg s w))"
| "file_step cfg jobID Beat_load (held, w) =
     (case LoadState cfg jobID w of
        (Inl e, w1) \<Rightarrow> (None, w1)
      | (Inr state, w1) \<Rightarrow>
          (let (now, w2) = time_now w1; (now', w3) = time_now w2 in (Some (UpdateHeartbeat_state now now' state), w3)))"
| "file_step cfg jobID Beat_save (None, w) = (None, w)"
| "file_step cfg jobID Beat_save (Some state, w) = (None, snd (SaveState cfg state w))"

definition file_steps :: "config \<Rightarrow> string \<Rightarrow> file_op list \<Rightarrow> 'a os_scheme \<Rightarrow> 'a os_scheme" where
  "file_steps cfg jobID ops w = snd (fold (file_step cfg jobID) ops (None, w))"

text \<open>The two halves with nothing between them are the heartbeat.\<close>

lemma whole_heartbeat: "file_steps cfg i [Beat_load, Beat_save] w = snd (UpdateHeartbeat cfg i w)"
  by (cases "LoadState cfg i w")
    (auto simp: file_steps_def UpdateHeartbeat_def UpdateState_def case_prod_beta Let_def split: sum.split)

section \<open>Saves and loads of a file that is in place\<close>

lemma no_dir_calls:
  "\<not> is_dir_at (fs w) q \<Longrightarrow> \<not> is_dir_at (fs (snd (os_rename a b w))) q"
  "\<not> is_dir_at (fs w) q \<Longrightarrow> \<not> is_dir_at (fs (snd (os_write_file a c w))) q"
  by (auto simp: os_rename_def os_write_file_def Let_def is_dir_at_def lookup_touch lookup_put lookup_del
      split: io_outcome.splits option.splits node.splits if_splits)

text \<open>The file of a job holds a state, in a place where every call of the system works.\<close>

definition holds :: "config \<Rightarrow> 'a os_scheme \<Rightarrow> job_state \<Rightarrow> bool" where
  "holds cfg w s \<longleftrightarrow> io_good w \<and> outputs cfg \<noteq> [] \<and> plain (js_job_id s) \<and> state_ints_fit s
     \<and> state_place_free cfg (js_job_id s) w \<and> file_content (fs w) (state_file cfg (js_job_id s)) = Some (Doc (state_json s))"

lemma load_holds:
  assumes "holds cfg w s" "js_job_id s = i"
  shows "\<exists>w1. LoadState cfg i w = (Inr s, w1) \<and> holds cfg w1 s"
proof -
  have "fst (LoadState cfg i w) = Inr s" using assms LoadState_good [of w cfg i s] by (simp add: holds_def)
  moreover have "os_frame w (snd (LoadState cfg i w))" "fs (snd (LoadState cfg i w)) = fs w"
    by (auto simp: LoadState_def case_prod_beta Let_def intro: os_frame_trans os_frame_utils os_frame_calls)
  ultimately show ?thesis using assms
    by (cases "LoadState cfg i w") (auto simp: holds_def state_place_free_def os_frame_io_good)
qed

lemma tick_holds: "holds cfg w s \<Longrightarrow> holds cfg (snd (time_now w)) s"
  using os_frame_io_good [OF os_frame_time_now [of w]] by (auto simp: holds_def state_place_free_def)

lemma save_holds:
  assumes "holds cfg w s" "js_job_id s' = js_job_id s" "state_ints_fit s'"
  shows "\<exists>u. holds cfg (snd (SaveState cfg s' w)) (s'\<lparr>js_updated_at := u\<rparr>)"
proof -
  let ?i = "js_job_id s'" and ?w = "snd (SaveState cfg s' w)" and ?u = "s'\<lparr>js_updated_at := clock w (tick w)\<rparr>"
  have h: "io_good w" "outputs cfg \<noteq> []" "plain ?i" "state_place_free cfg ?i w" using assms by (simp_all add: holds_def)
  have ok: "fst (fst (SaveState cfg s' w)) = Inr ()" using h by (rule SaveState_good)
  have "SaveState cfg s' w = ((fst (fst (SaveState cfg s' w)), snd (fst (SaveState cfg s' w))), ?w)" by simp
  note S = SaveState_files [OF h(2,3) this]
  from S have f: "os_frame w ?w" "\<And>q. q \<noteq> temp_file cfg ?i \<Longrightarrow> file_content (fs ?w) q =
       (if q = state_file cfg ?i then Some (Doc (state_json ?u)) else file_content (fs w) q)"
    by (simp_all add: ok del: split_paired_All)
  define w1 where "w1 = snd (time_now w)"
  define w2 where "w2 = snd (EnsureDir (state_dir cfg ?i) w1)"
  note P = parse_state_path [OF h(2,3)]
  have "\<not> is_dir_at (fs w2) (state_file cfg ?i)" "\<not> is_dir_at (fs w2) (temp_file cfg ?i)"
    using EnsureDir_not_dir [of w1 "state_dir cfg ?i" "rooted (outputs cfg)" "comps (outputs cfg) @ [?i]"]
      job_files_not_prefix h(4) P(3) h(1) os_frame_io_good [OF os_frame_time_now [of w]]
    by (simp_all add: w2_def w1_def job_dir_def state_place_free_def)
  then have "\<not> is_dir_at (fs ?w) (state_file cfg ?i)" "\<not> is_dir_at (fs ?w) (temp_file cfg ?i)"
    using SaveState_eq [OF w1_def w2_def refl refl] by (simp_all add: no_dir_calls split: sum.splits)
  moreover have "\<not> is_file_at (fs ?w) (rooted (outputs cfg), ws)" if "ws \<in> set (prefixes (comps (outputs cfg) @ [?i]))" for ws
  proof -
    have "(rooted (outputs cfg), ws) \<noteq> temp_file cfg ?i" "(rooted (outputs cfg), ws) \<noteq> state_file cfg ?i"
      using that job_files_not_prefix [of cfg ?i] by (metis imageI)+
    moreover have "file_content (fs w) (rooted (outputs cfg), ws) = None"
      using that h(4) by (auto simp: state_place_free_def list_all_iff is_file_at_content simp del: set_prefixes_eq in_set_prefixes)
    ultimately show ?thesis using f(2) [of "(rooted (outputs cfg), ws)"] by (simp add: is_file_at_content)
  qed
  ultimately have "state_place_free cfg ?i ?w" by (simp add: state_place_free_def list_all_iff)
  with f(1) f(2) [of "state_file cfg ?i"] h assms(3) have "holds cfg ?w ?u"
    by (simp add: holds_def os_frame_io_good state_ints_fit_def)
  then show ?thesis by blast
qed

section \<open>What a heartbeat does to a save of the worker\<close>

lemma beat_load_holds:
  assumes "holds cfg w s" "js_job_id s = i"
  shows "\<exists>t u w1. file_step cfg i Beat_load (None, w) = (Some (s\<lparr>js_last_heartbeat := t, js_updated_at := u\<rparr>), w1) \<and> holds cfg w1 s"
proof -
  from load_holds [OF assms] obtain w1 where l: "LoadState cfg i w = (Inr s, w1)" "holds cfg w1 s" by blast
  then show ?thesis using tick_holds [OF tick_holds [OF l(2)]]
    by (simp add: case_prod_beta Let_def UpdateHeartbeat_state_def) blast
qed

lemma holds_loaded: "holds cfg w s \<Longrightarrow> fst (LoadState cfg (js_job_id s) w) = Inr s"
  using load_holds [of cfg w s] by force

lemma save_beaten:
  assumes "holds cfg w s" "holds cfg v r" "js_job_id s = js_job_id r"
  shows "\<exists>u. holds cfg (snd (SaveState cfg (s\<lparr>js_last_heartbeat := t, js_updated_at := t'\<rparr>) v)) (s\<lparr>js_last_heartbeat := t, js_updated_at := u\<rparr>)"
  using save_holds [OF assms(2), of "s\<lparr>js_last_heartbeat := t, js_updated_at := t'\<rparr>"] assms(1,3)
  by (simp add: holds_def state_ints_fit_def)

text \<open>C19. A heartbeat can undo a save of the worker. Let the state file hold \<open>s\<close> and the worker save \<open>s'\<close>.
When the save comes before the heartbeat, the file ends with \<open>s'\<close> and the new times; when it comes
after it, with \<open>s'\<close> and the heartbeat that the worker holds, so that the new heartbeat is gone; and when it
falls between the two halves, the file ends with the old state \<open>s\<close>: all that the worker
saved, a completed step or quality for one, is lost.\<close>

theorem heartbeat_undoes_save:
  assumes "holds cfg w s" "js_job_id s' = js_job_id s" "state_ints_fit s'"
  shows "(\<exists>t u. fst (LoadState cfg (js_job_id s) (file_steps cfg (js_job_id s) [Save s', Beat_load, Beat_save] w))
      = Inr (s'\<lparr>js_last_heartbeat := t, js_updated_at := u\<rparr>))
    \<and> (\<exists>u. fst (LoadState cfg (js_job_id s) (file_steps cfg (js_job_id s) [Beat_load, Beat_save, Save s'] w))
      = Inr (s'\<lparr>js_updated_at := u\<rparr>))
    \<and> (\<exists>t u. fst (LoadState cfg (js_job_id s) (file_steps cfg (js_job_id s) [Beat_load, Save s', Beat_save] w))
      = Inr (s\<lparr>js_last_heartbeat := t, js_updated_at := u\<rparr>))"
proof (intro conjI)
  let ?i = "js_job_id s"
  let ?beat = "\<lambda>x t u. x\<lparr>js_last_heartbeat := t, js_updated_at := u\<rparr>"
  from beat_load_holds [OF assms(1) refl] obtain t u w1 where
    b: "file_step cfg ?i Beat_load (None, w) = (Some (?beat s t u), w1)" "holds cfg w1 s" by blast
  from save_holds [OF b(2) assms(2,3)] obtain v where m: "holds cfg (snd (SaveState cfg s' w1)) (s'\<lparr>js_updated_at := v\<rparr>)" ..
  from save_beaten [OF b(2) m, where t = t and t' = u] assms(2) obtain x where
    "holds cfg (snd (SaveState cfg (?beat s t u) (snd (SaveState cfg s' w1)))) (?beat s t x)" by auto
  from holds_loaded [OF this] show
    "\<exists>t u. fst (LoadState cfg ?i (file_steps cfg ?i [Beat_load, Save s', Beat_save] w)) = Inr (?beat s t u)"
    by (auto simp: file_steps_def b(1) simp del: file_step.simps(2))
  from save_beaten [OF b(2) b(2), where t = t and t' = u] obtain x where
    h: "holds cfg (snd (SaveState cfg (?beat s t u) w1)) (?beat s t x)" by auto
  from save_holds [OF this, of s'] assms(2,3) obtain y where
    "holds cfg (snd (SaveState cfg s' (snd (SaveState cfg (?beat s t u) w1)))) (s'\<lparr>js_updated_at := y\<rparr>)" by auto
  from holds_loaded [OF this] assms(2) show
    "\<exists>u. fst (LoadState cfg ?i (file_steps cfg ?i [Beat_load, Beat_save, Save s'] w)) = Inr (s'\<lparr>js_updated_at := u\<rparr>)"
    by (auto simp: file_steps_def b(1) simp del: file_step.simps(2))
  from save_holds [OF assms] obtain v' where s: "holds cfg (snd (SaveState cfg s' w)) (s'\<lparr>js_updated_at := v'\<rparr>)" ..
  from beat_load_holds [OF this] assms(2) obtain t' u' w2 where
    c: "file_step cfg ?i Beat_load (None, snd (SaveState cfg s' w)) = (Some (?beat s' t' u'), w2)"
      "holds cfg w2 (s'\<lparr>js_updated_at := v'\<rparr>)" by auto
  from save_beaten [OF c(2) c(2), where t = t' and t' = u'] obtain z where
    "holds cfg (snd (SaveState cfg (?beat s' t' u') w2)) (?beat s' t' z)" by auto
  from holds_loaded [OF this] assms(2) show
    "\<exists>t u. fst (LoadState cfg ?i (file_steps cfg ?i [Save s', Beat_load, Beat_save] w)) = Inr (?beat s' t u)"
    by (auto simp: file_steps_def c(1) simp del: file_step.simps(2))
qed

text \<open>A quality that the worker marks as encoded, and a heartbeat that began before.\<close>

abbreviation encoded_state :: job_state where
  "encoded_state \<equiv> sample_state\<lparr>js_qualities_complete := [''720p'']\<rparr>"

lemma holds_sample: "holds (Load (\<lambda>_. [])) saved_world sample_state"
  using saved_world_file outputs_Load(1)
  by (auto simp: holds_def state_place_free_def saved_world_def torn_world_def plain_world_def io_good_def Load_default
      comps_outputs is_file_at_def is_dir_at_def state_file_def temp_file_def)

theorem heartbeat_undoes_save_witness:
  "\<exists>s. fst (LoadState (Load (\<lambda>_. [])) ''job_1''
        (file_steps (Load (\<lambda>_. [])) ''job_1'' [Beat_load, Save encoded_state, Beat_save] saved_world)) = Inr s
     \<and> js_qualities_complete s = []"
  using heartbeat_undoes_save [OF holds_sample, of encoded_state]
  by (auto simp: state_ints_fit_def sample_state_def initial_state_def fits64_def)

end
