(* ===== verification/Duplicates.thy ===== *)
theory Duplicates
  imports Transcode_Props
begin

text \<open>
  What the deduplication cache does to a job whose input was encoded before (\<open>stepHashComputation\<close>
  and \<open>stepDeduplication\<close> of \<open>transcode_usecase.go\<close> with \<open>cache/deduplication.go\<close>), and which jobs enter the cache
  (\<open>stepFinalization\<close>).
\<close>

section \<open>What the setters leave alone\<close>

definition files_and_cache :: "'a world_scheme \<Rightarrow> (path, node) gomap \<times> (nat \<Rightarrow> io_outcome) \<times> dedup_map" where
  "files_and_cache w = (fs w, io w, w_cache w)"

lemma files_and_cache_setters [simp]:
  "files_and_cache (snd (UpdateProgress i n step w)) = files_and_cache w" "files_and_cache (snd (SetHash i h w)) = files_and_cache w"
  "files_and_cache (snd (UpdateStatus i st w)) = files_and_cache w" "files_and_cache (broadcastProgress uc i t n step w) = files_and_cache w"
  by (auto simp: files_and_cache_def UpdateProgress_def SetHash_def UpdateStatus_def broadcastProgress_def repo_Update_def mutate_def
      time_now_def Let_def case_prod_beta split: sum.split option.split)

lemma files_and_cache_time [simp]: "files_and_cache (snd (time_now w)) = files_and_cache w"
  by (simp add: files_and_cache_def time_now_def)

text \<open>Of the description of a job: its hash, and its input and output.\<close>

definition hash_at :: "string \<Rightarrow> 'a store_scheme \<Rightarrow> string option" where
  "hash_at i w = map_option j_input_hash (job_view w i)"

definition described :: "string \<Rightarrow> 'a store_scheme \<Rightarrow> (video_metadata option \<times> output_info option) option" where
  "described i w = map_option (\<lambda>j. (j_input j, j_output j)) (job_view w i)"

lemma described_os: "os_frame w w' \<Longrightarrow> hash_at i w' = hash_at i w \<and> described i w' = described i w"
  using os_frame_job_view [of w w'] by (simp add: hash_at_def described_def)

lemma described_tick [simp]: "hash_at i (w\<lparr>tick := n\<rparr>) = hash_at i w" "described i (w\<lparr>tick := n\<rparr>) = described i w"
  by (simp_all add: hash_at_def described_def)

lemma described_message [simp]:
  "hash_at i (broadcastProgress uc k t n step w) = hash_at i w" "described i (broadcastProgress uc k t n step w) = described i w"
  by (simp_all add: broadcastProgress_def hash_at_def described_def job_view_def deref_def [abs_def])

lemma described_setters:
  assumes "present i w"
  shows "hash_at i (snd (UpdateProgress i n step w)) = hash_at i w" "described i (snd (UpdateProgress i n step w)) = described i w"
    "hash_at i (snd (UpdateStatus i st w)) = hash_at i w" "described i (snd (UpdateStatus i st w)) = described i w"
    "hash_at i (snd (SetHash i h w)) = Some h" "described i (snd (SetHash i h w)) = described i w" "fst (SetHash i h w) = Inr ()"
proof -
  obtain j where j: "store_wf w" "job_view w i = Some j" using assms by (auto simp: present_def)
  show "hash_at i (snd (UpdateStatus i st w)) = hash_at i w" "described i (snd (UpdateStatus i st w)) = described i w"
    using UpdateStatus_Some [OF j, of st] j(2) by (simp_all add: hash_at_def described_def status_change_def finish_job_def)
  show "hash_at i (snd (UpdateProgress i n step w)) = hash_at i w" "described i (snd (UpdateProgress i n step w)) = described i w"
    using mem.modify_Some [OF j, of "\<lambda>j. j\<lparr>j_progress := Some \<lparr>pr_percentage = n, pr_step = step\<rparr>\<rparr>"] j(2)
    by (simp_all add: hash_at_def described_def setters_modify)
  show "hash_at i (snd (SetHash i h w)) = Some h" "described i (snd (SetHash i h w)) = described i w" "fst (SetHash i h w) = Inr ()"
    using mem.modify_Some [OF j, of "\<lambda>j. j\<lparr>j_input_hash := h\<rparr>"] j(2) by (simp_all add: hash_at_def described_def setters_modify)
qed

lemma GetJob_hash: "present i w \<Longrightarrow> hash_at i w = Some h \<Longrightarrow> \<exists>r. GetJob i w = Inr r \<and> j_input_hash (deref w r) = h"
  using mem.get_Some [of w i] by (auto simp: present_def hash_at_def GetJob_def)

lemma ComputeHash_good: "io_good w \<Longrightarrow> file_content (fs w) (parse_path p) = Some c \<Longrightarrow> \<exists>n. ComputeHash sha p w = (Inr (sha c), w\<lparr>tick := n\<rparr>)"
  by (auto simp: ComputeHash_def ComputeFileHash_def os_stat_def os_read_file_def advance_def file_content_lookup Let_def
      io_good_def split: io_outcome.splits)

section \<open>A duplicate\<close>

lemma SaveState_world:
  assumes "outputs cfg \<noteq> []" "plain (js_job_id s)"
  shows "os_frame w (snd (SaveState cfg s w))" "snd (fst (SaveState cfg s w)) = s\<lparr>js_updated_at := clock w (tick w)\<rparr>"
    "q \<noteq> temp_file cfg (js_job_id s) \<Longrightarrow> q \<noteq> state_file cfg (js_job_id s) \<Longrightarrow> file_content (fs (snd (SaveState cfg s w))) q = file_content (fs w) q"
proof -
  have "SaveState cfg s w = ((fst (fst (SaveState cfg s w)), snd (fst (SaveState cfg s w))), snd (SaveState cfg s w))" by simp
  note S = SaveState_files [OF assms this]
  then show "os_frame w (snd (SaveState cfg s w))" "snd (fst (SaveState cfg s w)) = s\<lparr>js_updated_at := clock w (tick w)\<rparr>" by simp_all
  show "q \<noteq> temp_file cfg (js_job_id s) \<Longrightarrow> q \<noteq> state_file cfg (js_job_id s) \<Longrightarrow> file_content (fs (snd (SaveState cfg s w))) q = file_content (fs w) q"
    using S by (simp del: split_paired_All)
qed

text \<open>What two worlds share when only the state file of a job was written and its status changed.\<close>

definition only_state :: "config \<Rightarrow> string \<Rightarrow> 'a world_scheme \<Rightarrow> 'a world_scheme \<Rightarrow> bool" where
  "only_state cfg i w w' \<longleftrightarrow> described i w' = described i w \<and> w_cache w' = w_cache w
     \<and> (\<forall>q. q \<noteq> state_file cfg i \<longrightarrow> q \<noteq> temp_file cfg i \<longrightarrow> file_content (fs w') q = file_content (fs w) q)"

lemma only_state_trans: "only_state cfg i u v \<Longrightarrow> only_state cfg i v w \<Longrightarrow> only_state cfg i u w"
  by (simp add: only_state_def)

lemma only_state_kept: "files_and_cache w' = files_and_cache w \<Longrightarrow> described i w' = described i w \<Longrightarrow> only_state cfg i w w'"
  by (simp add: only_state_def files_and_cache_def)

lemma only_state_saved:
  assumes "outputs cfg \<noteq> []" "plain (js_job_id s)"
  shows "only_state cfg (js_job_id s) w (snd (SaveState cfg s w))"
  using SaveState_world [OF assms, where w = w] described_os [OF SaveState_world(1) [OF assms, where w = w]] by (auto simp: only_state_def os_frame_def)

lemma hash_step:
  fixes w :: "'a world_scheme"
  assumes "present (j_id j) w" "js_job_id s = j_id j" "io_good w" "outputs (uc_cfg uc) \<noteq> []" "plain (j_id j)"
    "state_place_free (uc_cfg uc) (j_id j) w" "file_content (fs w) (parse_path (j_input_path j)) = Some c"
  shows "\<exists>s' w'. stepHashComputation uc j s w = (Inr ((), s'), w') \<and> present (j_id j) w' \<and> js_job_id s' = j_id j
    \<and> (\<forall>st. IsStepCompleted s' st \<longleftrightarrow> st = StepHashComputation \<or> IsStepCompleted s st)
    \<and> hash_at (j_id j) w' = Some (uc_sha uc c) \<and> only_state (uc_cfg uc) (j_id j) w w'"
proof -
  let ?i = "j_id j" and ?cfg = "uc_cfg uc"
  let ?w2 = "broadcastProgress uc ?i ''RUNNING'' 5 ''Computing file hash'' (snd (UpdateProgress ?i 5 ''Computing file hash'' w))"
  have f: "files_and_cache ?w2 = files_and_cache w" by simp
  then have g: "io_good ?w2" "file_content (fs ?w2) (parse_path (j_input_path j)) = Some c"
    using assms(3,7) by (simp_all add: files_and_cache_def io_good_def)
  from ComputeHash_good [OF this, of "uc_sha uc"] obtain n where
    c: "ComputeHash (uc_sha uc) (j_input_path j) ?w2 = (Inr (uc_sha uc c), ?w2\<lparr>tick := n\<rparr>)" by blast
  let ?w3 = "?w2\<lparr>tick := n\<rparr>"
  let ?w4 = "snd (SetHash ?i (uc_sha uc c) ?w3)"
  have p: "present ?i ?w2" using assms(1) by (simp add: present_ops)
  then have p3: "present ?i ?w3" by (simp add: present_def)
  have d3: "described ?i ?w3 = described ?i w" using described_setters(2) [OF assms(1)] by simp
  have p4: "present ?i ?w4" using p3 by (simp add: present_ops)
  have f4: "files_and_cache ?w4 = files_and_cache w" using f by (simp add: files_and_cache_def [of ?w3], simp add: files_and_cache_def)
  let ?w5 = "snd (time_now ?w4)"
  let ?s1 = "(MarkStepCompleted StepHashComputation (clock ?w4 (tick ?w4)) s)\<lparr>js_current_step := StepDeduplication\<rparr>"
  have f5: "files_and_cache ?w5 = files_and_cache w" using f4 by simp
  have i1: "js_job_id ?s1 = ?i" using assms(2) by (simp add: MarkStepCompleted_def)
  have pl: "io_good ?w5" "state_place_free ?cfg (js_job_id ?s1) ?w5"
    using assms(3,6) f5 i1 by (simp_all add: files_and_cache_def io_good_def state_place_free_def)
  have ok: "fst (fst (SaveState ?cfg ?s1 ?w5)) = Inr ()" using SaveState_good [OF pl(1) assms(4) _ pl(2)] assms(5) i1 by simp
  have P: "plain (js_job_id ?s1)" using assms(5) i1 by simp
  let ?w6 = "snd (SaveState ?cfg ?s1 ?w5)"
  note S = SaveState_world [OF assms(4) P, where w = ?w5]
  have eq: "stepHashComputation uc j s w = (Inr ((), snd (fst (SaveState ?cfg ?s1 ?w5))), ?w6)"
    using ok described_setters(7) [OF p3] by (simp add: stepHashComputation_def c mark_def Let_def case_prod_beta split: sum.split)
  have h: "hash_at ?i ?w6 = Some (uc_sha uc c)" "described ?i ?w5 = described ?i w"
    using described_os [OF S(1), of ?i] described_setters(5,6) [OF p3] d3 described_os [OF os_frame_time_now [of ?w4], of ?i] by simp_all
  have o: "only_state ?cfg ?i w ?w6"
    using only_state_trans [OF only_state_kept [OF f5 h(2)]] only_state_saved [OF assms(4) P, of ?w5] i1 by simp
  have "present ?i ?w6" using p4 os_frame_job_view [OF S(1)] by (simp add: present_def)
  with eq S(2) h o i1 show ?thesis by (auto simp: IsStepCompleted_def MarkStepCompleted_def Let_def)
qed

lemma duplicate_step:
  fixes w :: "'a world_scheme"
  assumes "present (j_id j) w" "js_job_id s = j_id j" "outputs (uc_cfg uc) \<noteq> []" "plain (j_id j)"
    "hash_at (j_id j) w = Some h" "h \<noteq> []" "snd (CheckDuplicate h (w_cache w))"
  shows "\<exists>s' w'. stepDeduplication uc j s w = (Inr (True, s'), w') \<and> status_at (j_id j) w' = Some COMPLETED
    \<and> only_state (uc_cfg uc) (j_id j) w w'"
proof -
  let ?i = "j_id j" and ?cfg = "uc_cfg uc"
  let ?w1 = "snd (UpdateProgress ?i 10 ''Checking for duplicates'' w)"
  have p1: "present ?i ?w1" using assms(1) by (simp add: present_ops)
  have c1: "files_and_cache ?w1 = files_and_cache w" by simp
  from GetJob_hash [OF p1] described_setters(1) [OF assms(1)] assms(5) obtain r where
    r: "GetJob ?i ?w1 = Inr r" "j_input_hash (deref ?w1 r) = h" by auto
  let ?w2 = "snd (UpdateProgress ?i 100 ''Completed (duplicate)'' ?w1)"
  let ?w3 = "snd (UpdateStatus ?i COMPLETED ?w2)"
  let ?w4 = "snd (time_now ?w3)"
  let ?s1 = "MarkStepCompleted StepDeduplication (clock ?w3 (tick ?w3)) (s\<lparr>js_status := ''completed''\<rparr>)"
  have p2: "present ?i ?w2" using p1 by (simp add: present_ops)
  have i1: "js_job_id ?s1 = ?i" using assms(2) by (simp add: MarkStepCompleted_def)
  have P: "plain (js_job_id ?s1)" using assms(4) i1 by simp
  have c4: "files_and_cache ?w4 = files_and_cache w" by simp
  have d4: "described ?i ?w4 = described ?i w"
    using described_setters(2) [OF assms(1)] described_setters(2) [OF p1] described_setters(4) [OF p2] described_os [OF os_frame_time_now [of ?w3]] by simp
  have "only_state ?cfg ?i w (snd (SaveState ?cfg ?s1 ?w4))"
    using only_state_trans [OF only_state_kept [OF c4 d4]] only_state_saved [OF assms(3) P, of ?w4] i1 by simp
  moreover have "status_at ?i (snd (SaveState ?cfg ?s1 ?w4)) = Some COMPLETED"
    using status_os [OF SaveState_world(1) [OF assms(3) P, where w = ?w4]] status_os [OF os_frame_time_now [of ?w3]] p2 by simp
  moreover have "w_cache ?w1 = w_cache w" using c1 by (simp add: files_and_cache_def)
  ultimately show ?thesis
    using r assms(6,7) by (simp add: stepDeduplication_def mark_def save_def Let_def case_prod_beta)
qed

lemma steps_run:
  "stepHashComputation (uc\<lparr>uc_run := run\<rparr>) = stepHashComputation uc" "stepDeduplication (uc\<lparr>uc_run := run\<rparr>) = stepDeduplication uc"
proof -
  have "save (uc\<lparr>uc_run := run\<rparr>) = save uc" "broadcastProgress (uc\<lparr>uc_run := run\<rparr>) = broadcastProgress uc"
    by (simp_all add: fun_eq_iff save_def broadcastProgress_def)
  then show "stepHashComputation (uc\<lparr>uc_run := run\<rparr>) = stepHashComputation uc" "stepDeduplication (uc\<lparr>uc_run := run\<rparr>) = stepDeduplication uc"
    by (simp_all add: fun_eq_iff stepHashComputation_def stepDeduplication_def Let_def case_prod_beta cong: sum.case_cong if_cong)
qed

text \<open>C8. A file with a known hash is not encoded: let the work on a job begin whose input has the hash of an
entry of the cache. Then the job is COMPLETED without any run of ffmpeg or ffprobe, whatever job the entry
names, one that exists no more included; nothing of that job is copied: the job
gets no description of its input and no output, the cache stays as it is, and no file is
written but its state.\<close>

theorem duplicate_completes:
  fixes w :: "'a world_scheme"
  assumes "present (j_id j) w" "js_job_id s = j_id j" "io_good w" "outputs (uc_cfg uc) \<noteq> []" "plain (j_id j)"
    "state_place_free (uc_cfg uc) (j_id j) w" "file_content (fs w) (parse_path (j_input_path j)) = Some c"
    and "\<not> IsStepCompleted s StepHashComputation" "\<not> IsStepCompleted s StepDeduplication"
    and "uc_sha uc c \<noteq> []" "CheckDuplicate (uc_sha uc c) (w_cache w) = (k, True)"
  shows "\<exists>w'. (\<forall>run. executeSteps (uc\<lparr>uc_run := run\<rparr>) j s w = (Inr (), w')) \<and> status_at (j_id j) w' = Some COMPLETED
    \<and> described (j_id j) w' = described (j_id j) w \<and> w_cache w' = w_cache w
    \<and> (\<forall>q. q \<noteq> state_file (uc_cfg uc) (j_id j) \<longrightarrow> q \<noteq> temp_file (uc_cfg uc) (j_id j)
          \<longrightarrow> file_content (fs w') q = file_content (fs w) q)"
proof -
  from hash_step [OF assms(1-7)] obtain s1 w1 where 1: "stepHashComputation uc j s w = (Inr ((), s1), w1)" "present (j_id j) w1"
    "js_job_id s1 = j_id j" "\<not> IsStepCompleted s1 StepDeduplication" "hash_at (j_id j) w1 = Some (uc_sha uc c)"
    "only_state (uc_cfg uc) (j_id j) w w1" using assms(9) by (auto simp: StepHashComputation_def StepDeduplication_def)
  have "snd (CheckDuplicate (uc_sha uc c) (w_cache w1))" using 1(6) assms(11) by (simp add: only_state_def)
  from duplicate_step [OF 1(2,3) assms(4,5) 1(5) assms(10) this] obtain s2 w2 where 2: "stepDeduplication uc j s1 w1 = (Inr (True, s2), w2)"
    "status_at (j_id j) w2 = Some COMPLETED" "only_state (uc_cfg uc) (j_id j) w1 w2" by blast
  have "executeSteps (uc\<lparr>uc_run := run\<rparr>) j s w = (Inr (), w2)" for run
    using assms(8) 1(1,4) 2(1) by (simp add: executeSteps_def steps_run)
  then show ?thesis using 2(2) only_state_trans [OF 1(6) 2(3)] by (auto simp: only_state_def)
qed

text \<open>A service that has encoded the file of its job before, for a job that is gone.\<close>

definition known_world :: world where
  "known_world = demo_world\<lparr>fs := ((False, []), Dir 0) # fs demo_world, w_cache := Some [(''5e884898'', ''job_0'')]\<rparr>"

lemma known_facts: "present ''job_1'' known_world" "io_good known_world"
    "state_place_free (Load (\<lambda>_. [])) ''job_1'' known_world" "described ''job_1'' known_world = Some (None, None)"
    "file_content (fs known_world) (parse_path ''in.mp4'') = Some (Opaque ''video'' 1000)" "j_input_path demo_job = ''in.mp4''"
    "CheckDuplicate ''5e884898'' (w_cache known_world) = (''job_0'', True)" "uc_sha (demo_use_case 3) c = ''5e884898''"
    "uc_cfg (demo_use_case 3) = Load (\<lambda>_. [])" "\<not> IsStepCompleted sample_state st"
proof -
  have "parse_path ''in.mp4'' = (False, [''in.mp4''])" by code_simp
  then show "file_content (fs known_world) (parse_path ''in.mp4'') = Some (Opaque ''video'' 1000)"
    by (simp add: known_world_def demo_world_def file_content_def)
  show "present ''job_1'' known_world" "described ''job_1'' known_world = Some (None, None)"
    using demo_facts(3) by (simp_all add: known_world_def demo_world_def present_def described_def job_view_def deref_def store_wf_def demo_job_def zero_job_def)
  show "state_place_free (Load (\<lambda>_. [])) ''job_1'' known_world"
    by (simp add: state_place_free_def Load_default comps_outputs known_world_def demo_world_def is_file_at_def is_dir_at_def state_file_def temp_file_def)
qed (simp_all add: known_world_def demo_world_def demo_job_def io_good_def CheckDuplicate_def hashes_def demo_use_case_def
    IsStepCompleted_def sample_state_def initial_state_def)

theorem duplicate_completes_witness:
  "\<exists>w'. executeSteps (demo_use_case 3) demo_job sample_state known_world = (Inr (), w')
     \<and> status_at ''job_1'' w' = Some COMPLETED \<and> described ''job_1'' w' = Some (None, None) \<and> job_view w' ''job_0'' = None"
proof -
  obtain w' where w: "\<And>run. executeSteps (demo_use_case 3\<lparr>uc_run := run\<rparr>) demo_job sample_state known_world = (Inr (), w')"
    "status_at ''job_1'' w' = Some COMPLETED" "described ''job_1'' w' = Some (None, None)"
    using duplicate_completes [of demo_job known_world sample_state "demo_use_case 3" "Opaque ''video'' 1000" "''job_0''"] outputs_Load(1)
    by (auto simp: known_facts)
  have "executeSteps (demo_use_case 3) demo_job sample_state known_world = (Inr (), w')" using w(1) [of "uc_run (demo_use_case 3)"] by simp
  moreover have "job_view w' ''job_0'' = None"
  proof -
    have "store_wf known_world" using known_facts(1) by (simp add: present_def)
    then have "job_view w' ''job_0'' = job_view known_world ''job_0''"
      using one_job.keep_executeSteps [OF demo_facts(1) keeps_refl [of "j_id demo_job" known_world], of 3 sample_state] calculation
      by (simp add: keeps_def)
    then show ?thesis by (simp add: known_world_def demo_world_def job_view_def)
  qed
  ultimately show ?thesis using w by blast
qed

section \<open>What enters the cache\<close>

lemmas hash_files = osf [OF os_frame_refl, THEN described_os, THEN conjunct1]

lemma cache_files:
  "w_cache (snd (mark f s w)) = w_cache w" "w_cache (snd (save uc s w)) = w_cache w"
  "w_cache (snd (EndJobMetrics cfg i st q c mm w)) = w_cache w"
  using outer_os [OF osf_services(5) [OF os_frame_refl], of f s w] outer_os [OF osf_services(6) [OF os_frame_refl], of uc s w]
    outer_os [OF osf_services(10) [OF os_frame_refl], of cfg i st q c mm w] by (simp_all add: outer_def)

lemma hash_other:
  assumes "present i w"
  shows "hash_at i (snd (SetMetadata i inp outp w)) = hash_at i w" "hash_at i (snd (SetError i e w)) = hash_at i w"
proof -
  obtain j where j: "store_wf w" "job_view w i = Some j" using assms by (auto simp: present_def)
  show "hash_at i (snd (SetMetadata i inp outp w)) = hash_at i w"
    using mem.modify_Some [OF j, of "\<lambda>j. j\<lparr>j_input := inp, j_output := outp\<rparr>"] j(2) by (simp add: hash_at_def setters_modify)
  show "hash_at i (snd (SetError i e w)) = hash_at i w"
    using SetError_Some [OF j, of e] j(2) by (simp add: hash_at_def finish_job_def)
qed

lemma hash_small:
  assumes "present i w"
  shows "hash_at i (snd (finish_status uc i part s w)) = hash_at i w" "hash_at i (snd (clean_step_once uc i s w)) = hash_at i w"
  using assms by (simp_all add: finish_status_def clean_step_once_def Let_def case_prod_beta present_ops described_setters hash_files)

lemma hash_described:
  assumes "tame (uc_run uc)" "present (j_id j) w"
  shows "hash_at (j_id j) (snd (describe_output uc j res vs info w)) = hash_at (j_id j) w"
proof -
  let ?w1 = "snd (UpdateProgress (j_id j) 85 ''Generating previews and thumbnails'' w)"
  have "present (j_id j) ?w1" using assms(2) by (simp add: present_ops)
  moreover from this have "present (j_id j) (snd (generatePreviews uc k p info ?w1))" for k p using assms(1) by simp
  moreover have "hash_at (j_id j) (snd (generatePreviews uc k p info v)) = hash_at (j_id j) v" for k p v
    using osf_previews assms(1) described_os by blast
  ultimately show ?thesis using assms(2)
    by (simp add: describe_output_def Let_def case_prod_beta present_ops described_setters hash_other split: sum.split)
qed

lemma stored_in_cache:
  assumes "present i w" "hash_at i w = Some h" "h \<noteq> []" "w_cache w \<noteq> None"
  shows "CheckDuplicate h (w_cache (snd (store_in_cache uc i w))) = (i, True)"
  using GetJob_hash [OF assms(1,2)] assms(3,4)
  by (auto simp: store_in_cache_def Store_def CheckDuplicate_def hashes_def Let_def case_prod_beta)

text \<open>C9. A partial success is taken for a complete one later: a job that ends as PARTIAL_SUCCESS, with qualities that
could not be encoded, is entered in the cache under its hash like any other, so the same file
submitted again is completed as its duplicate (\<open>duplicate_completes\<close>), without another attempt at the
qualities that are missing.\<close>

theorem partial_success_is_cached:
  fixes w :: "'a world_scheme"
  assumes "tame (uc_run uc)" "present (j_id j) w" "w_cache w \<noteq> None" "hash_at (j_id j) w = Some h" "h \<noteq> []"
    and "js_qualities_failed s \<noteq> []"
  shows "fst (stepFinalization uc j s res vs info w) = Inr ()
    \<and> status_at (j_id j) (snd (stepFinalization uc j s res vs info w)) = Some PARTIAL_SUCCESS
    \<and> CheckDuplicate h (w_cache (snd (stepFinalization uc j s res vs info w))) = (j_id j, True)"
proof -
  have r: "ready (j_id j) w" using assms(2,3) by (simp add: ready_def)
  have ok: "fst (stepFinalization uc j s res vs info w) = Inr ()" by (rule finalization_ok [OF assms(1) r])
  let ?d = "snd (describe_output uc j res vs info w)"
  have d: "ready (j_id j) ?d"
    by (rule readyI [OF one_job.keep_output [OF assms(1) keeps_refl] cache_map.keep_output [OF assms(1) keeps_cache_refl] r])
  have hd: "hash_at (j_id j) ?d = Some h" using hash_described [OF assms(1,2)] assms(4) by simp
  obtain out where out: "fst (describe_output uc j res vs info w) = Inr out"
    using ok by (cases "fst (describe_output uc j res vs info w)") (auto simp: stepFinalization_def case_prod_beta)
  define e where "e = \<lparr>je_code = ''ERR_PARTIAL_ENCODING'', je_stage = ''encoding'',
    je_message = ''Some qualities failed to encode: '' @ fmt_strings (js_qualities_failed s),
    je_logs_path = ''outputs/'' @ j_id j @ ''/logs'', je_failed = js_qualities_failed s\<rparr>"
  let ?v1 = "snd (SetError (j_id j) e ?d)"
  let ?v2 = "snd (clean_step_once uc (j_id j) s ?v1)"
  let ?v3 = "snd (finish_status uc (j_id j) True (fst (clean_step_once uc (j_id j) s ?v1)) ?v2)"
  let ?v4 = "snd (store_in_cache uc (j_id j) ?v3)"
  have r3: "ready (j_id j) ?v3" using d by (simp add: ready_small)
  have p: "present (j_id j) ?d" "present (j_id j) ?v1" "present (j_id j) ?v2"
    using d ready_small [OF d] ready_small(6) [OF ready_small(3) [OF d]] by (simp_all add: ready_present)
  have "hash_at (j_id j) ?v3 = Some h" using hd p by (simp add: hash_small hash_other)
  then have c: "CheckDuplicate h (w_cache ?v4) = (j_id j, True)"
    using stored_in_cache [of "j_id j" ?v3 h uc] r3 assms(5) by (simp add: ready_def)
  have "w_cache (snd (stepFinalization uc j s res vs info w)) = w_cache ?v4"
    using store_in_cache_ok [OF r3, of uc] assms(6) out
    by (simp add: stepFinalization_def conclude_def Let_def case_prod_beta e_def cache_files)
  then have "CheckDuplicate h (w_cache (snd (stepFinalization uc j s res vs info w))) = (j_id j, True)" using c by simp
  then show ?thesis using ok finalization_status [OF assms(1,2) ok] assms(6) by simp
qed

definition half_done :: job_state where
  "half_done = sample_state\<lparr>js_qualities_failed := [''1080p'']\<rparr>"

definition hashed_world :: world where
  "hashed_world = demo_world\<lparr>st_jobs := [(0, demo_job\<lparr>j_input_hash := ''5e884898''\<rparr>)], st_repo := [(''job_1'', 0)]\<rparr>"

theorem partial_success_is_cached_witness:
  "\<forall>res vs info. CheckDuplicate ''5e884898'' (w_cache (snd (stepFinalization (demo_use_case 3) demo_job half_done res vs info hashed_world)))
     = (''job_1'', True)
   \<and> status_at ''job_1'' (snd (stepFinalization (demo_use_case 3) demo_job half_done res vs info hashed_world)) = Some PARTIAL_SUCCESS"
proof -
  have "present ''job_1'' hashed_world" "hash_at ''job_1'' hashed_world = Some ''5e884898''" "w_cache hashed_world \<noteq> None"
    by (simp_all add: hashed_world_def demo_world_def demo_job_def present_def hash_at_def job_view_def deref_def store_wf_def)
  then show ?thesis using partial_success_is_cached [of "demo_use_case 3" demo_job hashed_world "''5e884898''" half_done]
    by (simp add: half_done_def)
qed

end
