(* ===== verification/Webhook.thy ===== *)
theory Webhook
  imports Api_Types
begin

text \<open>
  \<open>internal/application/services/webhook_service.go\<close>: the notification of a client about a job.
  Sending a request, reading its URL and the HMAC of a body belong to the standard library and are
  one argument, the network. The body is the JSON tree.
\<close>

section \<open>Payload\<close>

record webhook_payload =
  wp_job :: string
  wp_status :: string
  wp_input :: string
  wp_output_url :: string
  wp_completed :: "go_time option"
  wp_error :: "job_error option"
  wp_metadata :: any_map
  wp_timestamp :: go_time

definition payload_json :: "webhook_payload \<Rightarrow> json option" where
  "payload_json p = map_option JObj (members (
     [(''jobId'', Some (JStr (wp_job p))), (''status'', Some (JStr (wp_status p))), (''inputPath'', Some (JStr (wp_input p)))]
     @ opt_member (wp_output_url p \<noteq> []) ''outputUrl'' (Some (JStr (wp_output_url p)))
     @ (case wp_completed p of None \<Rightarrow> [] | Some t \<Rightarrow> [(''completedAt'', Some (JTime t))])
     @ ptr_member error_members ''error'' (wp_error p)
     @ opt_member (wp_metadata p \<noteq> []) ''metadata'' (any_map_json (wp_metadata p))
     @ [(''timestamp'', Some (JTime (wp_timestamp p)))]))"

section \<open>Requests\<close>

type_synonym headers = "(string, string) gomap"

record webhook_request =
  wq_url :: string
  wq_headers :: headers
  wq_body :: json

record 'w network =
  nw_bad_url :: "string \<Rightarrow> err option"
  nw_hmac :: "json \<Rightarrow> string \<Rightarrow> string"
  nw_do :: "webhook_request \<Rightarrow> 'w \<Rightarrow> (err + int) \<times> 'w"

text \<open>\<open>Header.Set\<close> writes the key in its canonical form, unless it is no valid name.\<close>

definition token_char :: "char \<Rightarrow> bool" where
  "token_char c \<longleftrightarrow> is_digit c \<or> (CHR ''a'' \<le> c \<and> c \<le> CHR ''z'') \<or> (CHR ''A'' \<le> c \<and> c \<le> CHR ''Z'')
     \<or> c \<in> set (''!#$%&*+-.^_`|~'' @ [CHR 0x27])"

definition upper_char :: "char \<Rightarrow> char" where
  "upper_char c = (if CHR ''a'' \<le> c \<and> c \<le> CHR ''z'' then char_of (of_char c - 32 :: nat) else c)"

definition capital :: "string \<Rightarrow> string" where
  "capital w = (case to_lower w of [] \<Rightarrow> [] | c # cs \<Rightarrow> upper_char c # cs)"

definition canonical_key :: "string \<Rightarrow> string" where
  "canonical_key k = (if list_all token_char k then join_with ''-'' (map capital (split_on CHR ''-'' k)) else k)"

definition header_set :: "string \<Rightarrow> string \<Rightarrow> headers \<Rightarrow> headers" where
  "header_set k v = put (canonical_key k) v"

definition generateSignature :: "'w network \<Rightarrow> json \<Rightarrow> string \<Rightarrow> string" where
  "generateSignature net data secret = ''sha256='' @ nw_hmac net data secret"

definition webhook_headers :: "'w network \<Rightarrow> webhook_config \<Rightarrow> json \<Rightarrow> headers" where
  "webhook_headers net c data =
     (let h = header_set ''User-Agent'' ''VideoEncoderService/1.0'' (header_set ''Content-Type'' ''application/json'' []);
          h1 = fold (\<lambda>(key, value). header_set key value) (wh_headers c) h
      in if wh_secret c \<noteq> [] then header_set ''X-Webhook-Signature'' (generateSignature net data (wh_secret c)) h1 else h1)"

definition sendWebhookRequest :: "'w network \<Rightarrow> webhook_config \<Rightarrow> webhook_payload \<Rightarrow> 'w \<Rightarrow> (err + unit) \<times> 'w" where
  "sendWebhookRequest net c p w =
     (case payload_json p of
        None \<Rightarrow> (Inl (Err ''failed to marshal webhook payload: json: unsupported value''), w)
      | Some jsonData \<Rightarrow>
          (case nw_bad_url net (wh_url c) of
             Some e \<Rightarrow> (Inl (wrap ''failed to create webhook request'' e), w)
           | None \<Rightarrow>
               (case nw_do net \<lparr>wq_url = wh_url c, wq_headers = webhook_headers net c jsonData, wq_body = jsonData\<rparr> w of
                  (Inl e, w1) \<Rightarrow> (Inl (wrap ''failed to send webhook request'' e), w1)
                | (Inr status, w1) \<Rightarrow>
                    (if status < 200 \<or> status \<ge> 300
                     then Inl (Err (''webhook returned non-success status: '' @ show_int status)) else Inr (), w1))))"

section \<open>Sending with retries\<close>

text \<open>The loop, from an attempt on; the first argument counts the attempts that are left.\<close>

fun webhook_attempts :: "'a world_scheme network \<Rightarrow> webhook_config \<Rightarrow> webhook_payload \<Rightarrow> nat \<Rightarrow> int \<Rightarrow> err option \<Rightarrow> 'a world_scheme \<Rightarrow> err option option \<times> 'a world_scheme" where
  "webhook_attempts net c p 0 attempt lastErr w = (Some lastErr, w)"
| "webhook_attempts net c p (Suc n) attempt lastErr w =
     (let w1 = (if attempt > 0 then sleep (wrap64 (wrap64 (attempt * attempt) * second)) w else w)
      in case sendWebhookRequest net c p w1 of
           (Inr _, w2) \<Rightarrow> (None, w2)
         | (Inl e, w2) \<Rightarrow> webhook_attempts net c p n (attempt + 1) (Some e) w2)"

text \<open>\<open>%w\<close> of a nil error prints \<open>%!w(<nil>)\<close>.\<close>

definition SendWebhook :: "'a world_scheme network \<Rightarrow> webhook_config \<Rightarrow> webhook_payload \<Rightarrow> 'a world_scheme \<Rightarrow> (err + unit) \<times> 'a world_scheme" where
  "SendWebhook net c p w =
     (let (now, w1) = time_now w;
          maxRetries = (if wh_retries c = 0 then 3 else wh_retries c)
      in case webhook_attempts net c (p\<lparr>wp_timestamp := now\<rparr>) (nat (maxRetries + 1)) 0 None w1 of
           (None, w2) \<Rightarrow> (Inr (), w2)
         | (Some lastErr, w2) \<Rightarrow>
             (Inl (Err (''webhook failed after '' @ show_int (wrap64 (maxRetries + 1)) @ '' attempts: ''
                @ (case lastErr of None \<Rightarrow> ''%!w(<nil>)'' | Some e \<Rightarrow> error_text e))), w2))"

definition SendJobCompletedWebhook :: "'a world_scheme network \<Rightarrow> job \<Rightarrow> webhook_config \<Rightarrow> string \<Rightarrow> 'a world_scheme \<Rightarrow> (err + unit) \<times> 'a world_scheme" where
  "SendJobCompletedWebhook net j c outputURL =
     SendWebhook net c \<lparr>wp_job = j_id j, wp_status = status_text (j_status j), wp_input = j_input_path j, wp_output_url = outputURL,
       wp_completed = completed_at (j_meta j), wp_error = j_error j,
       wp_metadata = [(''processingTimeSec'', f_json (processing_time (j_meta j))), (''retries'', Some (JInt (j_retries j))),
                      (''chunkDuration'', Some (JInt (j_chunk_duration j)))],
       wp_timestamp = 0\<rparr>"

definition SendJobFailedWebhook :: "'a world_scheme network \<Rightarrow> job \<Rightarrow> webhook_config \<Rightarrow> 'a world_scheme \<Rightarrow> (err + unit) \<times> 'a world_scheme" where
  "SendJobFailedWebhook net j c =
     SendWebhook net c \<lparr>wp_job = j_id j, wp_status = status_text (j_status j), wp_input = j_input_path j, wp_output_url = [],
       wp_completed = None, wp_error = j_error j,
       wp_metadata = [(''retries'', Some (JInt (j_retries j))), (''maxRetries'', Some (JInt (j_max_retries j)))],
       wp_timestamp = 0\<rparr>"

section \<open>Attempts and pauses\<close>

definition pause :: "nat \<Rightarrow> duration" where
  "pause k = int k * int k * second"

lemma pause_wrap:
  assumes "k \<le> 90000"
  shows "wrap64 (wrap64 (int k * int k) * second) = pause k"
proof -
  define x where "x = int k * int k"
  have "x \<le> 90000 * 90000" unfolding x_def using assms by (intro mult_mono) simp_all
  moreover have "0 \<le> x" by (simp add: x_def)
  ultimately have "fits64 x" "fits64 (x * second)" by (simp_all add: fits64_def)
  then show ?thesis by (simp add: pause_def x_def)
qed

text \<open>An attempt is accepted when the request leaves, with the payload as its body, and the answer's status says success.\<close>

definition accepted :: "'w network \<Rightarrow> webhook_config \<Rightarrow> webhook_payload \<Rightarrow> 'w \<Rightarrow> bool" where
  "accepted net c p w \<longleftrightarrow>
     (\<exists>body status. payload_json p = Some body \<and> nw_bad_url net (wh_url c) = None
        \<and> fst (nw_do net \<lparr>wq_url = wh_url c, wq_headers = webhook_headers net c body, wq_body = body\<rparr> w) = Inr status
        \<and> 200 \<le> status \<and> status < 300)"

lemma send_accepted: "fst (sendWebhookRequest net c p w) = Inr () \<longleftrightarrow> accepted net c p w"
  by (auto simp: sendWebhookRequest_def accepted_def case_prod_beta split: option.split sum.split)

lemma send_result: "(\<exists>e. fst (sendWebhookRequest net c p w) = Inl e) \<longleftrightarrow> \<not> accepted net c p w"
  unfolding send_accepted [symmetric] by (cases "fst (sendWebhookRequest net c p w)") simp_all

text \<open>The worlds in which attempts begin: each after a failed one and its pause.\<close>

lemma webhook_attempts_trace:
  assumes "a + n \<le> 90000"
  shows "\<exists>vs. vs \<noteq> [] \<and> length vs \<le> Suc n \<and> vs ! 0 = (if a = 0 then w else sleep (pause a) w)
    \<and> (\<forall>k. Suc k < length vs \<longrightarrow> \<not> accepted net c p (vs ! k)
         \<and> vs ! Suc k = sleep (pause (a + Suc k)) (snd (sendWebhookRequest net c p (vs ! k))))
    \<and> (if accepted net c p (last vs)
       then webhook_attempts net c p (Suc n) (int a) le w = (None, snd (sendWebhookRequest net c p (last vs)))
       else length vs = Suc n \<and> (\<exists>e. webhook_attempts net c p (Suc n) (int a) le w = (Some (Some e), snd (sendWebhookRequest net c p (last vs)))))"
  using assms
proof (induction n arbitrary: a le w)
  case 0
  let ?w1 = "if a = 0 then w else sleep (pause a) w"
  obtain r w2 where s: "sendWebhookRequest net c p ?w1 = (r, w2)" by fastforce
  have "webhook_attempts net c p (Suc 0) (int a) le w = (case r of Inr _ \<Rightarrow> (None, w2) | Inl e \<Rightarrow> (Some (Some e), w2))"
    using s pause_wrap [of a] 0 by (auto simp: Let_def split: sum.split if_splits)
  then show ?case using s send_accepted [of net c p ?w1] by (intro exI [of _ "[?w1]"]) (cases r; auto)
next
  case (Suc n)
  let ?w1 = "if a = 0 then w else sleep (pause a) w"
  obtain r w2 where s: "sendWebhookRequest net c p ?w1 = (r, w2)" by fastforce
  have x: "webhook_attempts net c p (Suc (Suc n)) (int a) le w
      = (case r of Inr _ \<Rightarrow> (None, w2) | Inl e \<Rightarrow> webhook_attempts net c p (Suc n) (int (Suc a)) (Some e) w2)"
    using s pause_wrap [of a] Suc.prems by (auto simp: Let_def add.commute split: sum.split if_splits simp del: webhook_attempts.simps(2))
      (auto simp: Let_def add.commute)
  show ?case
  proof (cases r)
    case (Inr u)
    then show ?thesis using s x send_accepted [of net c p ?w1] by (intro exI [of _ "[?w1]"]) auto
  next
    case (Inl e)
    from Suc.IH [of "Suc a" w2 "Some e"] Suc.prems obtain vs where vs: "vs \<noteq> []" "length vs \<le> Suc n" "vs ! 0 = sleep (pause (Suc a)) w2"
      "\<And>k. Suc k < length vs \<Longrightarrow> \<not> accepted net c p (vs ! k)
         \<and> vs ! Suc k = sleep (pause (Suc a + Suc k)) (snd (sendWebhookRequest net c p (vs ! k)))"
      "if accepted net c p (last vs)
       then webhook_attempts net c p (Suc n) (int (Suc a)) (Some e) w2 = (None, snd (sendWebhookRequest net c p (last vs)))
       else length vs = Suc n \<and> (\<exists>x. webhook_attempts net c p (Suc n) (int (Suc a)) (Some e) w2 = (Some (Some x), snd (sendWebhookRequest net c p (last vs))))"
      by auto
    have "\<not> accepted net c p ?w1" using s Inl send_accepted [of net c p ?w1] by simp
    then have "\<not> accepted net c p ((?w1 # vs) ! k)
        \<and> (?w1 # vs) ! Suc k = sleep (pause (a + Suc k)) (snd (sendWebhookRequest net c p ((?w1 # vs) ! k)))"
      if "Suc k < length (?w1 # vs)" for k
      using that vs(3) vs(4) [of "k - 1"] s by (cases k) auto
    with vs(1,2,5) x Inl show ?thesis by (intro exI [of _ "?w1 # vs"]) (simp del: webhook_attempts.simps of_nat_Suc)
  qed
qed

text \<open>C24. A notification is sent at most once more than the retries asked for (three times more where none are
asked for). The attempts begin in the worlds \<open>vs\<close>: the first at once, each further one only after one that was not
accepted and a pause of 1, 4, 9, ... seconds. It is reported as sent exactly when the last attempt was
accepted, that is when a request with the payload as its body got an answer with a status of 2xx, and as failed
only when all attempts are used up and none was.\<close>

theorem webhook_schedule:
  fixes w :: "'a world_scheme"
  assumes "0 \<le> wh_retries c" "wh_retries c \<le> 90000" "p' = p\<lparr>wp_timestamp := fst (time_now w)\<rparr>"
  shows "\<exists>vs. vs \<noteq> [] \<and> int (length vs) \<le> (if wh_retries c = 0 then 3 else wh_retries c) + 1 \<and> vs ! 0 = snd (time_now w)
    \<and> (\<forall>k. Suc k < length vs \<longrightarrow> \<not> accepted net c p' (vs ! k)
         \<and> vs ! Suc k = sleep (int (Suc k) * int (Suc k) * second) (snd (sendWebhookRequest net c p' (vs ! k))))
    \<and> snd (SendWebhook net c p w) = snd (sendWebhookRequest net c p' (last vs))
    \<and> (case fst (SendWebhook net c p w) of
         Inr _ \<Rightarrow> accepted net c p' (last vs)
       | Inl _ \<Rightarrow> \<not> accepted net c p' (last vs) \<and> int (length vs) = (if wh_retries c = 0 then 3 else wh_retries c) + 1)"
proof -
  define r where "r = (if wh_retries c = 0 then 3 else wh_retries c)"
  have r: "0 + nat r \<le> 90000" "0 \<le> r" "nat (r + 1) = Suc (nat r)" using assms(1,2) by (auto simp: r_def)
  let ?t = "snd (time_now w)" and ?send = "sendWebhookRequest net c p'"
  have "\<exists>vs. vs \<noteq> [] \<and> length vs \<le> Suc (nat r) \<and> vs ! 0 = ?t
    \<and> (\<forall>k. Suc k < length vs \<longrightarrow> \<not> accepted net c p' (vs ! k) \<and> vs ! Suc k = sleep (pause (Suc k)) (snd (?send (vs ! k))))
    \<and> (if accepted net c p' (last vs) then webhook_attempts net c p' (Suc (nat r)) 0 None ?t = (None, snd (?send (last vs)))
       else length vs = Suc (nat r) \<and> (\<exists>e. webhook_attempts net c p' (Suc (nat r)) 0 None ?t = (Some (Some e), snd (?send (last vs)))))"
    using webhook_attempts_trace [OF r(1), of ?t net c p' None] unfolding int_ops(1) add_0 simp_thms if_True .
  then obtain vs where vs: "vs \<noteq> []" "length vs \<le> Suc (nat r)" "vs ! 0 = ?t"
    "\<forall>k. Suc k < length vs \<longrightarrow> \<not> accepted net c p' (vs ! k) \<and> vs ! Suc k = sleep (pause (Suc k)) (snd (?send (vs ! k)))"
    "if accepted net c p' (last vs) then webhook_attempts net c p' (Suc (nat r)) 0 None ?t = (None, snd (?send (last vs)))
     else length vs = Suc (nat r) \<and> (\<exists>e. webhook_attempts net c p' (Suc (nat r)) 0 None ?t = (Some (Some e), snd (?send (last vs))))"
    by (elim exE conjE)
  have x: "SendWebhook net c p w = (case webhook_attempts net c p' (Suc (nat r)) 0 None (snd (time_now w)) of
       (None, w2) \<Rightarrow> (Inr (), w2)
     | (Some le, w2) \<Rightarrow> (Inl (Err (''webhook failed after '' @ show_int (wrap64 (r + 1)) @ '' attempts: ''
          @ (case le of None \<Rightarrow> ''%!w(<nil>)'' | Some e \<Rightarrow> error_text e))), w2))"
    by (simp only: SendWebhook_def Let_def case_prod_beta r_def [symmetric] r(3) assms(3))
  have "snd (SendWebhook net c p w) = snd (sendWebhookRequest net c p' (last vs))
      \<and> (case fst (SendWebhook net c p w) of
           Inr _ \<Rightarrow> accepted net c p' (last vs) | Inl _ \<Rightarrow> \<not> accepted net c p' (last vs) \<and> int (length vs) = r + 1)"
  proof (cases "accepted net c p' (last vs)")
    case True
    with vs(5) have "webhook_attempts net c p' (Suc (nat r)) 0 None (snd (time_now w)) = (None, snd (sendWebhookRequest net c p' (last vs)))"
      by (simp only: if_True)
    with True show ?thesis by (simp only: x) simp
  next
    case False
    with vs(5) obtain e where "length vs = Suc (nat r)"
      "webhook_attempts net c p' (Suc (nat r)) 0 None (snd (time_now w)) = (Some (Some e), snd (sendWebhookRequest net c p' (last vs)))"
      by (simp only: if_False) blast
    with False r(2) show ?thesis by (simp only: x) simp
  qed
  moreover have "int (length vs) \<le> r + 1" using vs(2) r(2) by auto
  moreover have "\<forall>k. Suc k < length vs \<longrightarrow> \<not> accepted net c p' (vs ! k)
      \<and> vs ! Suc k = sleep (int (Suc k) * int (Suc k) * second) (snd (?send (vs ! k)))" using vs(4) by (simp only: pause_def)
  ultimately show ?thesis unfolding r_def [symmetric] using vs(1,3) by (intro exI [of _ vs] conjI) simp_all
qed

text \<open>A network that answers every request with 500.\<close>

definition failing_net :: "world network" where
  "failing_net = \<lparr>nw_bad_url = (\<lambda>_. None), nw_hmac = (\<lambda>_ _. []), nw_do = (\<lambda>_ w. (Inr 500, w))\<rparr>"

definition plain_webhook :: "int \<Rightarrow> webhook_config" where
  "plain_webhook n = \<lparr>wh_url = ''http://client/hook'', wh_headers = [], wh_secret = [], wh_retries = n\<rparr>"

theorem webhook_schedule_witness:
  "\<forall>w :: world. \<exists>vs. length vs = 3 \<and> vs ! 0 = snd (time_now w)
    \<and> snd (SendJobFailedWebhook failing_net zero_job (plain_webhook 2) w) = last vs
    \<and> vs ! 1 = sleep second (vs ! 0) \<and> vs ! 2 = sleep (4 * second) (vs ! 1)"
proof
  fix w :: world
  have n: "\<not> accepted failing_net (plain_webhook 2) p v" for p and v :: world by (simp add: accepted_def failing_net_def)
  have s: "snd (sendWebhookRequest failing_net (plain_webhook 2) p v) = v" for p and v :: world
    by (simp add: sendWebhookRequest_def failing_net_def split: option.split)
  let ?c = "plain_webhook 2"
  have "0 \<le> wh_retries ?c" "wh_retries ?c \<le> 90000" and r: "wh_retries ?c = 2" by (simp_all add: plain_webhook_def)
  note t = webhook_schedule [where w = w and net = failing_net, OF this(1,2) refl]
  obtain p where p: "SendJobFailedWebhook failing_net zero_job ?c w = SendWebhook failing_net ?c p w"
    by (simp add: SendJobFailedWebhook_def)
  from t [where p = p] obtain vs where vs: "vs \<noteq> []" "vs ! 0 = snd (time_now w)"
    "\<forall>k. Suc k < length vs \<longrightarrow> vs ! Suc k = sleep (int (Suc k) * int (Suc k) * second) (vs ! k)"
    "snd (SendWebhook failing_net ?c p w) = last vs"
    "case fst (SendWebhook failing_net ?c p w) of Inr _ \<Rightarrow> False | Inl _ \<Rightarrow> int (length vs) = 3"
    unfolding r s by (auto simp: n cong: sum.case_cong)
  then have "length vs = 3" by (auto split: sum.splits)
  with vs(3) have "vs ! 1 = sleep second (vs ! 0)" "vs ! 2 = sleep (4 * second) (vs ! 1)"
    by (force dest: spec [of _ 0], force dest: spec [of _ 1] simp: numeral_2_eq_2)
  with vs p \<open>length vs = 3\<close> show "\<exists>vs. length vs = 3 \<and> vs ! 0 = snd (time_now w)
    \<and> snd (SendJobFailedWebhook failing_net zero_job ?c w) = last vs
    \<and> vs ! 1 = sleep second (vs ! 0) \<and> vs ! 2 = sleep (4 * second) (vs ! 1)" by (intro exI [of _ vs]) simp
qed

text \<open>With a negative number of retries, which a request may ask for, nothing is sent at all: the call
fails at once, whatever the network, for no reason.\<close>

theorem negative_retries_send_nothing:
  assumes "wh_retries c < 0"
  shows "snd (SendWebhook net c p w) = snd (time_now w) \<and> (\<exists>t. fst (SendWebhook net c p w) = Inl (Err (t @ ''%!w(<nil>)'')))"
  using assms by (auto simp: SendWebhook_def Let_def case_prod_beta)

theorem negative_retries_send_nothing_witness:
  "\<forall>w :: world. snd (SendJobFailedWebhook failing_net zero_job (plain_webhook (- 1)) w) = snd (time_now w)"
  using negative_retries_send_nothing [of "plain_webhook (- 1)" failing_net] by (simp add: SendJobFailedWebhook_def plain_webhook_def)

section \<open>Signatures\<close>

definition signed :: "'w network \<Rightarrow> string \<Rightarrow> webhook_request \<Rightarrow> bool" where
  "signed net secret q \<longleftrightarrow> lookup (wq_headers q) ''X-Webhook-Signature'' = Some (generateSignature net (wq_body q) secret)"

lemma headers_signed:
  "wh_secret c \<noteq> [] \<Longrightarrow> lookup (webhook_headers net c d) ''X-Webhook-Signature'' = Some (generateSignature net d (wh_secret c))"
proof -
  have "canonical_key ''X-Webhook-Signature'' = ''X-Webhook-Signature''" by code_simp
  then show "wh_secret c \<noteq> [] \<Longrightarrow> ?thesis" by (simp add: webhook_headers_def header_set_def Let_def)
qed

lemma webhook_headers_do [simp]: "webhook_headers (net\<lparr>nw_do := g\<rparr>) c d = webhook_headers net c d"
  by (simp add: webhook_headers_def generateSignature_def Let_def)

lemma send_signed:
  assumes "wh_secret c \<noteq> []"
  shows "sendWebhookRequest (net\<lparr>nw_do := \<lambda>q w. if signed net (wh_secret c) q then nw_do net q w else f q w\<rparr>) c p w = sendWebhookRequest net c p w"
proof -
  have "signed net (wh_secret c) \<lparr>wq_url = u, wq_headers = webhook_headers net c d, wq_body = d\<rparr>" for u d
    by (simp add: signed_def headers_signed [OF assms])
  then show ?thesis by (simp add: sendWebhookRequest_def cong: option.case_cong)
qed

text \<open>C28. When the client has given a secret, every request that leaves carries the signature of its own body
under this secret, whatever headers the client asks for besides: a network that would treat any
request without it differently, in whatever way, is not told from the one at hand.\<close>

theorem signed_requests:
  assumes "wh_secret c \<noteq> []"
  shows "SendWebhook (net\<lparr>nw_do := \<lambda>q w. if signed net (wh_secret c) q then nw_do net q w else f q w\<rparr>) c p w = SendWebhook net c p w"
proof -
  have "webhook_attempts (net\<lparr>nw_do := \<lambda>q w. if signed net (wh_secret c) q then nw_do net q w else f q w\<rparr>) c p n a le w
      = webhook_attempts net c p n a le w" for n a le p w
    by (induction n arbitrary: a le w) (simp_all only: webhook_attempts.simps send_signed [OF assms])
  then show ?thesis by (simp only: SendWebhook_def)
qed

definition forging_webhook :: webhook_config where
  "forging_webhook = \<lparr>wh_url = ''http://client/hook'', wh_headers = [(''x-webhook-signature'', ''sha256=0'')], wh_secret = ''s'', wh_retries = 1\<rparr>"

theorem signed_requests_witness:
  "\<forall>p w. SendWebhook (failing_net\<lparr>nw_do := \<lambda>q w. if signed failing_net ''s'' q then nw_do failing_net q w else (Inr 200, w)\<rparr>) forging_webhook p w
    = SendWebhook failing_net forging_webhook p w"
proof -
  have "wh_secret forging_webhook = ''s''" by (simp add: forging_webhook_def)
  with signed_requests [of forging_webhook failing_net "\<lambda>_ w. (Inr 200, w)"] show ?thesis by simp
qed

end
