(* ===== verification/Loudness.thy ===== *)
theory Loudness
  imports Api_Types
begin

text \<open>
  \<open>internal/infrastructure/ffmpeg/audio_normalizer.go\<close>: the loudness of the audio of a file, measured
  and changed by ffmpeg. The order in which the two output streams of the program arrive and reading
  the JSON text are arguments.
\<close>

record loudness_metrics =
  lm_input_i :: string
  lm_input_tp :: string
  lm_input_lra :: string
  lm_input_thresh :: string
  lm_output_i :: string
  lm_output_tp :: string
  lm_output_lra :: string
  lm_output_thresh :: string
  lm_offset :: string

definition set_loudness :: "string \<Rightarrow> json \<Rightarrow> loudness_metrics \<Rightarrow> loudness_metrics option" where
  "set_loudness k j v =
    (if k = ''input_i'' then map_option (\<lambda>x. v\<lparr>lm_input_i := x\<rparr>) (dec_string j (lm_input_i v))
     else if k = ''input_tp'' then map_option (\<lambda>x. v\<lparr>lm_input_tp := x\<rparr>) (dec_string j (lm_input_tp v))
     else if k = ''input_lra'' then map_option (\<lambda>x. v\<lparr>lm_input_lra := x\<rparr>) (dec_string j (lm_input_lra v))
     else if k = ''input_thresh'' then map_option (\<lambda>x. v\<lparr>lm_input_thresh := x\<rparr>) (dec_string j (lm_input_thresh v))
     else if k = ''output_i'' then map_option (\<lambda>x. v\<lparr>lm_output_i := x\<rparr>) (dec_string j (lm_output_i v))
     else if k = ''output_tp'' then map_option (\<lambda>x. v\<lparr>lm_output_tp := x\<rparr>) (dec_string j (lm_output_tp v))
     else if k = ''output_lra'' then map_option (\<lambda>x. v\<lparr>lm_output_lra := x\<rparr>) (dec_string j (lm_output_lra v))
     else if k = ''output_thresh'' then map_option (\<lambda>x. v\<lparr>lm_output_thresh := x\<rparr>) (dec_string j (lm_output_thresh v))
     else if k = ''offset'' then map_option (\<lambda>x. v\<lparr>lm_offset := x\<rparr>) (dec_string j (lm_offset v))
     else Some v)"

definition zero_loudness :: loudness_metrics where
  "zero_loudness = \<lparr>lm_input_i = [], lm_input_tp = [], lm_input_lra = [], lm_input_thresh = [], lm_output_i = [],
     lm_output_tp = [], lm_output_lra = [], lm_output_thresh = [], lm_offset = []\<rparr>"

definition MeasureLoudness ::
    "'w runner \<Rightarrow> (string \<Rightarrow> string \<Rightarrow> string) \<Rightarrow> (string \<Rightarrow> json_text) \<Rightarrow> string \<Rightarrow> 'w \<Rightarrow> (err + loudness_metrics) \<times> 'w" where
  "MeasureLoudness run merge parse inputPath w =
     (let (r, w1) = run ''ffmpeg''
            [''-i'', inputPath, ''-af'', ''loudnorm=I=-16:TP=-1.5:LRA=11:print_format=json'', ''-f'', ''null'', ''-''] w
      in (case cr_error r of
            Some e \<Rightarrow> Inl (wrap ''failed to measure loudness'' e)
          | None \<Rightarrow>
              (let json = dropWhile (\<lambda>c. c \<noteq> CHR ''{'') (merge (cr_stdout r) (cr_stderr r))
               in if json = [] then Inl (Err ''no JSON found in loudness output'')
                  else case decode_body set_loudness zero_loudness (parse json) of
                         Inl msg \<Rightarrow> Inl (wrap ''failed to parse loudness metrics'' (Err msg))
                       | Inr m \<Rightarrow> Inr m), w1))"

definition loudness_filter :: "loudness_metrics \<Rightarrow> string" where
  "loudness_filter m = ''loudnorm=I=-16:TP=-1.5:LRA=11:measured_I='' @ lm_input_i m @ '':measured_TP='' @ lm_input_tp m
     @ '':measured_LRA='' @ lm_input_lra m @ '':measured_thresh='' @ lm_input_thresh m @ '':offset='' @ lm_offset m
     @ '':linear=true:print_format=summary''"

definition NormalizeAudio :: "'w runner \<Rightarrow> string \<Rightarrow> string \<Rightarrow> loudness_metrics \<Rightarrow> 'w \<Rightarrow> (err + unit) \<times> 'w" where
  "NormalizeAudio run inputPath outputPath m w =
     (let (r, w1) = cmd_run run ''ffmpeg''
            [''-i'', inputPath, ''-af'', loudness_filter m, ''-c:v'', ''copy'', ''-c:a'', ''aac'', ''-b:a'', ''192k'', ''-y'', outputPath] w
      in (case r of Inl e \<Rightarrow> Inl (wrap ''failed to normalize audio'' e) | Inr _ \<Rightarrow> Inr (), w1))"

definition NormalizeAudioInPlace ::
    "'w runner \<Rightarrow> (string \<Rightarrow> string \<Rightarrow> string) \<Rightarrow> (string \<Rightarrow> json_text) \<Rightarrow> string \<Rightarrow> string \<Rightarrow> 'w \<Rightarrow> (err + string) \<times> 'w" where
  "NormalizeAudioInPlace run merge parse inputPath tempDir w =
     (case MeasureLoudness run merge parse inputPath w of
        (Inl e, w1) \<Rightarrow> (Inl e, w1)
      | (Inr m, w1) \<Rightarrow>
          (let normalizedPath = join_path [tempDir, ''normalized_'' @ path_base inputPath]
           in case NormalizeAudio run inputPath normalizedPath m w1 of
                (Inl e, w2) \<Rightarrow> (Inl e, w2)
              | (Inr _, w2) \<Rightarrow> (Inr normalizedPath, w2)))"

end
