(* ===== verification/Spec2Isabelle.thy ===== *)
theory Spec2Isabelle
  imports Priority_Queue Rate_Limiter Validator Worker_Sync
    Delivery Deletion Startup Shutdown Heartbeat Duplicates Webhook Loudness
begin

text \<open>
  A model of the video encoder service, a Go server that turns video files into HLS streams. All
  paths are under \<open>src/\<close>.

  \<^bold>\<open>The program.\<close> A client submits a file over HTTP (\<open>internal/api\<close>). The handler looks at the
  disk, validates the file with ffprobe and ffmpeg, stores a job in memory and sends a pointer to it
  to a channel with room for 100 jobs. Workers take jobs from the channel and run the use case
  (\<open>internal/application/usecases\<close>): hash, search for duplicates, analysis, encoding of each
  quality of a ladder, previews, and the final status, with retries by the class of the error. Each
  job has a state file that is rewritten after each step, so that an interrupted job goes on where
  it stopped, a heartbeat, metrics, and a limit on its size; jobs that fail for good go to a dead
  letter queue. Beside this run the clean-up of the disk, the timers of scheduled jobs, the rate
  limiter and the WebSocket connections that follow a job.

  \<^bold>\<open>Layers and theories.\<close>

  \<^item> \<^emph>\<open>Prelude\<close>, \<^emph>\<open>Float64\<close>, \<^emph>\<open>Go_Text\<close>, \<^emph>\<open>Json\<close>, \<^emph>\<open>Json_Codec\<close>, \<^emph>\<open>Os\<close>: the parts of Go and its
    standard library the program uses. Results are sums with the error on the left, Go maps are
    association lists with distinct keys, \<open>int\<close> is an integer that each operation wraps to 64 bits
    (\<open>wrap64\<close>), \<open>float64\<close> is binary64 with its rounding, JSON is a tree with the encoder and the
    decoder written out per record, files are a tree of paths over which every call of the
    operating system may fail. \<^emph>\<open>Os\<close> also has \<open>pkg/utils/file.go\<close> and \<open>pkg/utils/write.go\<close>.
  \<^item> \<^emph>\<open>Config\<close>, \<^emph>\<open>Job_Types\<close>, \<^emph>\<open>Job_Json\<close>, \<^emph>\<open>Job_State\<close>: \<open>pkg/config\<close>, \<open>pkg/constants\<close>, \<open>pkg/types\<close>; a Go
    struct is a record with its fields in their order, an enumeration of strings a datatype.
  \<^item> \<^emph>\<open>Priority_Queue\<close> (\<open>pkg/types/priority_queue.go\<close>), \<^emph>\<open>Rate_Limiter\<close>
    (\<open>internal/api/middleware/rate_limiter.go\<close>), \<^emph>\<open>Ws_Manager\<close>
    (\<open>internal/infrastructure/websocket/manager.go\<close>): components with a state of their own.
  \<^item> \<^emph>\<open>Job_Store\<close> (\<open>internal/infrastructure/filesystem/repository.go\<close>, \<open>job_service.go\<close> and the port
    \<open>internal/core/ports/repository.go\<close>): jobs are mutable objects, so a pointer is a reference into
    a heap of jobs and the repository maps identifiers to references; aliasing is kept.
  \<^item> \<^emph>\<open>State_Service\<close>, \<^emph>\<open>Disk_Service\<close>, \<^emph>\<open>Metrics_Service\<close>, \<^emph>\<open>DLQ_Service\<close>, \<^emph>\<open>Batch_Service\<close>,
    \<^emph>\<open>Scheduler\<close>, \<^emph>\<open>Webhook\<close>: the files of \<open>internal/application/services\<close>; \<^emph>\<open>Delivery\<close> has
    \<open>cdn_service.go\<close> and \<open>internal/infrastructure/storage\<close>; \<^emph>\<open>Dedup_Cache\<close> has
    \<open>internal/infrastructure/cache\<close>.
  \<^item> \<^emph>\<open>Media\<close>, \<^emph>\<open>Analysis\<close>, \<^emph>\<open>Encoder\<close>, \<^emph>\<open>Separate_AV\<close>, \<^emph>\<open>Previews\<close>, \<^emph>\<open>Loudness\<close>: the files of
    \<open>internal/infrastructure/ffmpeg\<close> with \<open>separate_av_encoder.go\<close> and \<open>pkg/utils/watchdog.go\<close>;
    \<^emph>\<open>Validator\<close> has \<open>internal/infrastructure/filesystem/validator.go\<close>. They write out every
    command line and what is made of its outcome.
  \<^item> \<^emph>\<open>Transcode\<close> (\<open>transcode_usecase.go\<close>): a job from the queue to its end, as one sequence over the
    record \<open>world\<close> of everything the services keep. \<^emph>\<open>Transcode_Frame\<close>, \<^emph>\<open>Transcode_Props\<close>,
    \<^emph>\<open>Transcode_Resume\<close> and \<^emph>\<open>Duplicates\<close> have its lemmas, \<^emph>\<open>Worker_Sync\<close> the goroutines of one job and their stop
    channels as a step relation, \<^emph>\<open>Attempts\<close> the attempts at a job one by one.
  \<^item> \<^emph>\<open>Api_Types\<close>, \<^emph>\<open>Handlers\<close> (\<open>pkg/types/response.go\<close>, \<open>pkg/utils/response.go\<close>,
    \<open>internal/api/handlers/job_handler.go\<close>), \<^emph>\<open>Server\<close> (\<open>internal/api/routes/routes.go\<close>,
    \<open>internal/api/middleware\<close>, \<open>cmd/api/main.go\<close>): a handler is a program that ends in a reply or
    waits to send a job to the queue; the server is a step relation over the programs that run and
    the state. \<^emph>\<open>Startup\<close> is \<open>main\<close> of \<open>cmd/api/main.go\<close> up to this state, with the constructors and the
    wiring, \<^emph>\<open>Shutdown\<close> its end after a signal. \<^emph>\<open>Server_Props\<close>, \<^emph>\<open>Submission\<close>, \<^emph>\<open>Pointers\<close> and
    \<^emph>\<open>Races\<close> have the properties of the server.
  \<^item> \<^emph>\<open>Deletion\<close> interleaves the goroutines of a job at work, stage by stage, with the steps of the server,
    \<^emph>\<open>Heartbeat\<close> the two halves of a heartbeat with the saves of the worker.

  The state grows with the layers by extension of records: \<open>os\<close> (files, clock), \<open>store\<close> (heap and
  repository), \<open>world\<close> (cache, metrics, messages, pauses), \<open>server\<close> (queue, scheduler, batches,
  connections), \<open>service\<close> (limiter). An operation of a lower layer is polymorphic in the rest of the record, so
  that what it leaves alone is an equation.
\<close>

text \<open>
  \<^bold>\<open>What the lemmas show.\<close>

  \<^item> Components against abstract specifications: the heap of the priority queue against a multiset
    (locale \<open>max_queue\<close>), the repository against a map (locale \<open>job_repository\<close>), the nested maps of
    the connections against a relation, the encoders and decoders against each other (locale
    \<open>json_codec\<close>, interpreted for states, metrics, jobs and entries of the dead letter queue),
    \<open>process\<close> as written in sequence against its goroutines, \<open>Execute\<close> against its attempts.
  \<^item> Invariants: heap order and index fields, buckets of the limiter, the store of jobs, and, over all
    reachable states of the server, the room in the queue, the count of active jobs, the repository and
    every pointer the server holds. Whatever the
    decoders of JSON accept has the integer types of the program.
  \<^item> Functional behaviour of each operation on every branch: which status a job ends with after any
    errors and retries, what a resumed encoding returns, which file a validation refuses and with
    which code, in which order the clean-up deletes, what a submission stores.
  \<^item> Frames: the work on a job changes no other job (locale \<open>job_frame\<close>, interpreted for the store, for
    messages and cache entries, for references, for the heap, for the
    rest of the server, and for all of these at once in \<^emph>\<open>Deletion\<close>). The rules of these proofs are in the collections \<open>osf\<close>, \<open>calm_rules\<close>,
    \<open>sound_rules\<close>, \<open>frame\<close> and \<open>res_simps\<close>.
  \<^item> Traces: the attempts at a job, those of a webhook and the rounds of the clean-up are lists of the worlds in which they
    begin, each obtained from the one before by exactly the steps of the code.
  \<^item> Failure: for all outcomes of all calls, a state file holds the old or the new state; a batch that
    is refused halfway, as a run of the server, a limit that blocks its worker, a restart that resumes nothing, a job with two
    workers at once, the jobs a shutdown leaves behind, a heartbeat that undoes a save. A job that is in the
    repository never panics on a nil pointer, however its stages interleave with the server; a deletion between two
    stages makes it panic, and one before its start leaves a state file that nothing removes. A job whose file has a known hash is completed
    without output, and a partial success makes its hash known.

  \<^bold>\<open>Bounds and termination.\<close> Every definition is total. Loops over slices are structural recursions.
  The heap operations of the priority queue end by measures on the index. The attempts of a job are
  structural in the number of attempts left, computed from \<open>MaxRetries\<close> as in the code; a job is
  attempted at most four times, as no back-off of \<open>pkg/types/retry.go\<close> has more than three pauses. The
  attempts of a webhook are structural in the same way; its schedule is shown for up to 90,000
  retries, as past 96,000 its pauses no longer fit in 64 bits. A loop whose counter would pass
  \<open>math.MaxInt64\<close> ends there in the model; no run reaches it. Endless loops (tickers, the workers, the
  server) are step relations or single rounds.
\<close>

text \<open>
  \<^bold>\<open>Parameters.\<close> What is not in the repository is an argument: the programs ffmpeg and ffprobe (\<open>runner\<close>,
  with the named hypothesis \<open>tame\<close> where a lemma relies on them writing files only), SHA-256 and
  HMAC-SHA256, the parser of JSON texts, the outcome of each call of the operating system and each
  reading of the clock, the readings of the disk and of the Go runtime, identifiers from \<open>uuid\<close>,
  the formatting of times, the HTTP client, the upgrade of a connection and the writes to it. Matching
  of routes and variables follows the documentation of gorilla/mux; \<open>container/heap\<close>, \<open>sort\<close>,
  \<open>strconv\<close>, \<open>fmt\<close>, \<open>strings\<close> and \<open>path/filepath\<close> are written out for the uses the code makes of them.

  \<^bold>\<open>Granularity.\<close> A method that holds a lock for its whole body is one step. A handler runs in one step up
  to the send to the queue and in one step after it, and so does, in \<^emph>\<open>Server\<close>, an attempt at a job with the pause
  before it; what happens between two attempts is covered (\<^emph>\<open>Races\<close>). The interleaving inside one
  attempt is \<^emph>\<open>Worker_Sync\<close>, where each stage of \<open>process\<close> and each quality is one step, and in \<^emph>\<open>Deletion\<close>
  these steps interleave with those of the server; there one attempt is fine-grained at a time. What two stages
  do between their own calls of the services is not split further, but for the heartbeat, which takes its lock
  twice. A request takes the two locks of the limiter in one step, \<^emph>\<open>Rate_Limiter\<close> has the clean-up between them
  (\<open>allow_interrupted\<close>). A function that \<open>Watch\<close> has given up has all its effects before the caller goes on; in Go the
  later ones come beside it. After a signal each worker is at its \<open>select\<close> or has returned (\<^emph>\<open>Shutdown\<close>), and requests
  may arrive until the end. A panic is a value: \<open>nil_deref\<close> is the use of a nil pointer, \<open>nil_map_write\<close> the assignment to a
  nil map; either ends the work on the job in the model, and the process in Go. Where Go leaves an order open (a map, a \<open>select\<close>, two timers), the
  model takes any order of a list, or any step.

  \<^bold>\<open>Not modelled.\<close>

  \<^item> The calls of \<open>log\<close>: they only write to the log. The messages of \<open>logging.go\<close> are \<open>Logging\<close>, outside the state.
  \<^item> Constructors that only copy the configuration; the delivery of signals and the listening of
    \<open>cmd/api/main.go\<close>. The search for orphans, which \<open>main\<close> starts as a goroutine, has ended when the first request arrives.
  \<^item> The constants of \<open>internal/core/domain/errors.go\<close> that nothing uses, and the ports of
    \<open>internal/core/ports\<close> with a single implementation, which the callers use directly.
  \<^item> \<open>copyFile\<close> of \<open>storage.go\<close>, which nothing calls.
  \<^item> Symbolic links, permissions, the working directory, time zones, and memory limits.
  \<^item> The bytes of a JSON text: a document is its tree, and its length a parameter. An integral number written as \<open>1.0\<close>
    is an integer in the tree, which Go refuses for an integer field, and invalid UTF-8 in a string, which the encoder replaces,
    does not occur.
  \<^item> The order of \<open>sort.Slice\<close> among equal elements of more than twelve: the model has insertion sort, which
    it is up to there, and the lemmas use only what holds for every sort (locale \<open>slice_order\<close>).
  \<^item> The partial sum of \<open>GetDirSize\<close> when its walk fails, which goes to the log only.
\<close>

end
